(* ===== verification/Merkle.thy ===== *)
theory Merkle
  imports Prelude "HOL-Library.List_Lexorder"
begin

unbundle bit_operations_syntax

text \<open>
  The RFC 6962 Merkle tree of \<open>ulpf-integrity/src/merkle.rs\<close>. SHA-256 is third-party code: it is
  the argument \<open>sha\<close> of every definition that hashes, and the theorems state what they need of it
  (32-byte digests, no collision among the finitely many inputs that are really hashed).
  \<open>MerkleTree\<close> is a record holding the leaf hashes, the root and the boxed nodes; a failing
  \<open>assert!\<close> is \<open>None\<close>. The abstract specification is the recursive Merkle tree hash \<open>mth\<close>
  of the RFC, which the tree construction refines.
\<close>

subsection \<open>Hashes\<close>

datatype hash = Hash (as_bytes: "u8 list")

definition hash_ok :: "hash \<Rightarrow> bool" where
  "hash_ok h \<longleftrightarrow> length (as_bytes h) = 32"

instantiation hash :: linorder
begin

definition less_eq_hash :: "hash \<Rightarrow> hash \<Rightarrow> bool" where
  "less_eq_hash a b \<longleftrightarrow> as_bytes a \<le> as_bytes b"

definition less_hash :: "hash \<Rightarrow> hash \<Rightarrow> bool" where
  "less_hash a b \<longleftrightarrow> as_bytes a < as_bytes b"

instance
  by standard (auto simp: less_eq_hash_def less_hash_def hash.expand)

end

type_synonym digest = "u8 list \<Rightarrow> u8 list"

definition digest_ok :: "digest \<Rightarrow> bool" where
  "digest_ok sha \<longleftrightarrow> (\<forall>x. length (sha x) = 32)"

lemma digest_okD [simp]: "digest_ok sha \<Longrightarrow> length (sha x) = 32"
  by (simp add: digest_ok_def)

definition LEAF_PREFIX :: u8 where "LEAF_PREFIX = 0"
definition NODE_PREFIX :: u8 where "NODE_PREFIX = 1"

definition leaf_input :: "u8 list \<Rightarrow> u8 list" where
  "leaf_input d = LEAF_PREFIX # d"

definition node_input :: "hash \<Rightarrow> hash \<Rightarrow> u8 list" where
  "node_input l r = NODE_PREFIX # as_bytes l @ as_bytes r"

definition hash_leaf :: "digest \<Rightarrow> u8 list \<Rightarrow> hash" where
  "hash_leaf sha data = Hash (sha (leaf_input data))"

definition hash_children :: "digest \<Rightarrow> hash \<Rightarrow> hash \<Rightarrow> hash" where
  "hash_children sha l r = Hash (sha (node_input l r))"

definition empty_tree_hash :: "digest \<Rightarrow> hash" where
  "empty_tree_hash sha = Hash (sha [])"

named_theorems hash_defs "unfolding the three hash constructions"
declare hash_leaf_def [hash_defs] hash_children_def [hash_defs] empty_tree_hash_def [hash_defs]

lemma hash_ok_digest [simp]:
  "digest_ok sha \<Longrightarrow> hash_ok (hash_leaf sha d)"
  "digest_ok sha \<Longrightarrow> hash_ok (hash_children sha l r)"
  "digest_ok sha \<Longrightarrow> hash_ok (empty_tree_hash sha)"
  by (simp_all add: hash_ok_def hash_defs)

lemma input_separation [simp]:
  "leaf_input d \<noteq> node_input l r" "node_input l r \<noteq> leaf_input d"
  "leaf_input d \<noteq> []" "node_input l r \<noteq> []" "[] \<noteq> leaf_input d" "[] \<noteq> node_input l r"
  "leaf_input d = leaf_input e \<longleftrightarrow> d = e"
  by (auto simp: leaf_input_def node_input_def LEAF_PREFIX_def NODE_PREFIX_def)

lemma node_input_inject:
  assumes "hash_ok l" "hash_ok l'" "node_input l r = node_input l' r'"
  shows "l = l' \<and> r = r'"
  using assms by (auto simp: node_input_def hash_ok_def intro: hash.expand)

subsection \<open>The split point\<close>

fun floor_log2 :: "nat \<Rightarrow> nat" where
  "floor_log2 n = (if n < 2 then 0 else Suc (floor_log2 (n div 2)))"

declare floor_log2.simps [simp del]

lemma floor_log2_bounds: "0 < n \<Longrightarrow> 2 ^ floor_log2 n \<le> n \<and> n < 2 * 2 ^ floor_log2 n"
proof (induction n rule: floor_log2.induct)
  case (1 n)
  then show ?case
    by (cases "n < 2") (auto simp: floor_log2.simps [of n])
qed

lemma floor_log2_unique:
  assumes "2 ^ e \<le> n" "n < 2 * 2 ^ e" shows "floor_log2 n = e"
proof -
  have "0 < n" using assms(1) by (rule order.strict_trans2 [rotated]) simp
  then have b: "2 ^ floor_log2 n \<le> n" "n < 2 * 2 ^ floor_log2 n"
    using floor_log2_bounds by auto
  have "(2::nat) ^ e < 2 ^ Suc (floor_log2 n)" "(2::nat) ^ floor_log2 n < 2 ^ Suc e"
    using assms b by simp_all
  then have "e < Suc (floor_log2 n)" "floor_log2 n < Suc e"
    by (simp_all only: power_strict_increasing_iff one_less_numeral_iff semiring_norm)
  then show ?thesis by simp
qed

primrec leading_zeros_from :: "u64 \<Rightarrow> nat \<Rightarrow> nat" where
  "leading_zeros_from w 0 = 0"
| "leading_zeros_from w (Suc i) = (if bit w i then 0 else Suc (leading_zeros_from w i))"

definition leading_zeros :: "u64 \<Rightarrow> nat" where
  "leading_zeros w = leading_zeros_from w 64"

definition largest_power_of_two_less_than_u64 :: "u64 \<Rightarrow> u64 option" where
  "largest_power_of_two_less_than_u64 n =
     (if 1 < n then Some (push_bit (64 - 1 - leading_zeros (n - 1)) 1) else None)"

definition largest_power_of_two_less_than :: "nat \<Rightarrow> nat option" where
  "largest_power_of_two_less_than n = (if 1 < n then Some (2 ^ floor_log2 (n - 1)) else None)"

abbreviation lp2 :: "nat \<Rightarrow> nat option" where
  "lp2 \<equiv> largest_power_of_two_less_than"

lemma lp2_eq_Some_iff: "lp2 n = Some k \<longleftrightarrow> 1 < n \<and> k = 2 ^ floor_log2 (n - 1)"
  by (auto simp: largest_power_of_two_less_than_def)

lemma lp2_eq_None_iff [simp]: "lp2 n = None \<longleftrightarrow> n \<le> 1"
  by (auto simp: largest_power_of_two_less_than_def)

lemma lp2_small [simp]: "lp2 0 = None" "lp2 (Suc 0) = None"
  by simp_all

lemma lp2_bounds: "lp2 n = Some k \<Longrightarrow> 0 < k \<and> k < n \<and> n \<le> 2 * k"
  using floor_log2_bounds [of "n - 1"] by (auto simp: lp2_eq_Some_iff)

lemma lp2_power: "lp2 n = Some k \<Longrightarrow> \<exists>e. k = 2 ^ e"
  by (auto simp: lp2_eq_Some_iff)

lemma lp2_I: "2 ^ e < n \<Longrightarrow> n \<le> 2 * 2 ^ e \<Longrightarrow> lp2 n = Some (2 ^ e)"
  using floor_log2_unique [of e "n - 1"] by (auto simp: lp2_eq_Some_iff)

lemma lp2_total: "1 < n \<Longrightarrow> \<exists>k. lp2 n = Some k \<and> 0 < k \<and> k < n \<and> n \<le> 2 * k"
  using lp2_bounds by (cases "lp2 n") auto

lemma lp2_mono_split:
  "lp2 n = Some k \<Longrightarrow> k < m \<Longrightarrow> m \<le> n \<Longrightarrow> lp2 m = Some k"
  using lp2_bounds [of n k] lp2_power [of n k] lp2_I [of _ m] by auto

lemma leading_zeros_from_eq:
  assumes "bit w e" "\<And>i. e < i \<Longrightarrow> i < m \<Longrightarrow> \<not> bit w i" "e < m"
  shows "leading_zeros_from w m = m - 1 - e"
  using assms
proof (induction m)
  case (Suc m)
  show ?case
  proof (cases "e = m")
    case False
    with Suc have "leading_zeros_from w m = m - 1 - e" by simp
    with False Suc.prems show ?thesis by auto
  qed (use Suc in simp)
qed simp

lemma leading_zeros_eq:
  assumes "2 ^ e \<le> unat w" "unat w < 2 * 2 ^ e"
  shows "leading_zeros w = 63 - e \<and> e < 64"
proof -
  have "unat w < 2 ^ LENGTH(64)" by (rule unsigned_less)
  then have "(2::nat) ^ e < 2 ^ 64" using assms(1) by simp
  then have e: "e < 64" by (rule power_less_imp_less_exp [rotated]) simp
  have "unat w div 2 ^ e = 1" using assms by (simp add: div_nat_eqI)
  then have "bit (unat w) e" by (simp add: bit_iff_odd)
  moreover have "\<not> bit (unat w) i" if "e < i" for i
  proof -
    have "(2::nat) * 2 ^ e \<le> 2 ^ i" using that power_increasing [of "Suc e" i "2::nat"] by simp
    then show ?thesis using assms by (simp add: bit_iff_odd)
  qed
  ultimately have "leading_zeros_from w 64 = 64 - 1 - e"
    using e by (intro leading_zeros_from_eq) (auto simp: bit_unsigned_iff)
  then show ?thesis using e by (simp add: leading_zeros_def)
qed

lemma lp2_u64_refines:
  assumes "1 < n" "n < 2 ^ 64"
  shows "largest_power_of_two_less_than_u64 (of_nat n)
       = map_option of_nat (largest_power_of_two_less_than n)"
proof -
  let ?w = "of_nat n :: u64" and ?e = "floor_log2 (n - 1)"
  have n: "unat ?w = n" using assms by (simp add: unat_of_nat take_bit_nat_eq_self)
  have w1: "?w - 1 = of_nat (n - 1)" using assms by simp
  have "unat (?w - 1) = n - 1"
    unfolding w1 unat_of_nat using assms by (simp del: of_nat_diff)
  then have "leading_zeros (?w - 1) = 63 - ?e \<and> ?e < 64"
    using leading_zeros_eq [of ?e "?w - 1"] floor_log2_bounds [of "n - 1"] assms by simp
  moreover have "1 < ?w" using n assms by (simp add: word_less_nat_alt)
  ultimately show ?thesis using assms
    by (simp add: largest_power_of_two_less_than_u64_def largest_power_of_two_less_than_def
        push_bit_eq_mult)
qed

subsection \<open>The tree\<close>

datatype merkle_error =
    IndexOutOfBounds nat nat
  | EmptyTree
  | InvalidConsistencySize nat nat

datatype side = LeftSide | RightSide

datatype tree_node = Leaf hash nat | Internal hash nat tree_node tree_node

fun tn_hash :: "tree_node \<Rightarrow> hash" where
  "tn_hash (Leaf h i) = h"
| "tn_hash (Internal h n l r) = h"

type_synonym audit_path = "(hash \<times> side) list"

fun collect_audit_path :: "tree_node \<Rightarrow> nat \<Rightarrow> audit_path \<Rightarrow> audit_path option" where
  "collect_audit_path (Leaf h i) target path = Some path"
| "collect_audit_path (Internal h n l r) target path =
     (case largest_power_of_two_less_than n of
        None \<Rightarrow> None
      | Some k \<Rightarrow>
          if target < k
          then map_option (\<lambda>p. p @ [(tn_hash r, RightSide)]) (collect_audit_path l target path)
          else map_option (\<lambda>p. p @ [(tn_hash l, LeftSide)]) (collect_audit_path r (target - k) path))"

record inclusion_proof =
  ip_leaf_index :: nat
  ip_tree_size :: nat
  ip_audit_path :: audit_path

record merkle_tree =
  mt_leaf_hashes :: "hash list"
  mt_root :: hash
  mt_root_node :: "tree_node option"

definition empty_tree :: "digest \<Rightarrow> merkle_tree" where
  "empty_tree sha = \<lparr>mt_leaf_hashes = [], mt_root = empty_tree_hash sha, mt_root_node = None\<rparr>"

function build_subtree :: "digest \<Rightarrow> hash list \<Rightarrow> nat \<Rightarrow> tree_node option" where
  "build_subtree sha leaves offset =
     (if length leaves = 1 then Some (Leaf (leaves ! 0) offset)
      else case largest_power_of_two_less_than (length leaves) of
        None \<Rightarrow> None
      | Some k \<Rightarrow> do {
          left \<leftarrow> build_subtree sha (take k leaves) offset;
          right \<leftarrow> build_subtree sha (drop k leaves) (offset + k);
          Some (Internal (hash_children sha (tn_hash left) (tn_hash right)) (length leaves) left right)
        })"
  by pat_completeness auto
termination
  by (relation "measure (\<lambda>(sha, leaves, offset). length leaves)") (auto dest: lp2_bounds)

declare build_subtree.simps [simp del]

definition from_leaf_hashes :: "digest \<Rightarrow> hash list \<Rightarrow> merkle_tree option" where
  "from_leaf_hashes sha leaf_hashes =
     (if length leaf_hashes = 0 then Some (empty_tree sha)
      else do {
        root_node \<leftarrow> build_subtree sha leaf_hashes 0;
        Some \<lparr>mt_leaf_hashes = leaf_hashes, mt_root = tn_hash root_node,
              mt_root_node = Some root_node\<rparr>
      })"

definition from_raw_logs :: "digest \<Rightarrow> u8 list list \<Rightarrow> merkle_tree option" where
  "from_raw_logs sha logs = from_leaf_hashes sha (map (hash_leaf sha) logs)"

definition mt_len :: "merkle_tree \<Rightarrow> nat" where
  "mt_len t = length (mt_leaf_hashes t)"

definition mt_is_empty :: "merkle_tree \<Rightarrow> bool" where
  "mt_is_empty t = (mt_leaf_hashes t = [])"

definition mt_leaf_hash :: "merkle_tree \<Rightarrow> nat \<Rightarrow> hash option" where
  "mt_leaf_hash t i = nth_opt (mt_leaf_hashes t) i"

definition get_inclusion_proof ::
  "merkle_tree \<Rightarrow> nat \<Rightarrow> (inclusion_proof, merkle_error) result option" where
  "get_inclusion_proof t index =
     (let size = length (mt_leaf_hashes t) in
      if size = 0 then Some (Err EmptyTree)
      else if size \<le> index then Some (Err (IndexOutOfBounds index size))
      else do {
        path \<leftarrow> (case mt_root_node t of
                  None \<Rightarrow> Some []
                | Some node \<Rightarrow> collect_audit_path node index []);
        Some (Ok \<lparr>ip_leaf_index = index, ip_tree_size = size, ip_audit_path = path\<rparr>)
      })"

function subproof :: "digest \<Rightarrow> nat \<Rightarrow> hash list \<Rightarrow> bool \<Rightarrow> hash list option" where
  "subproof sha m leaves b =
     (if m = length leaves then
        (if b then Some [] else map_option (\<lambda>t. [mt_root t]) (from_leaf_hashes sha leaves))
      else case largest_power_of_two_less_than (length leaves) of
        None \<Rightarrow> None
      | Some k \<Rightarrow>
          if m \<le> k then do {
            p \<leftarrow> subproof sha m (take k leaves) b;
            right_mth \<leftarrow> from_leaf_hashes sha (drop k leaves);
            Some (p @ [mt_root right_mth])
          } else do {
            p \<leftarrow> subproof sha (m - k) (drop k leaves) False;
            left_mth \<leftarrow> from_leaf_hashes sha (take k leaves);
            Some (p @ [mt_root left_mth])
          })"
  by pat_completeness auto
termination
  by (relation "measure (\<lambda>(sha, m, leaves, b). length leaves)") (auto dest: lp2_bounds)

declare subproof.simps [simp del]

definition consistency_proof ::
  "digest \<Rightarrow> merkle_tree \<Rightarrow> nat \<Rightarrow> (hash list, merkle_error) result option" where
  "consistency_proof sha t prev_size =
     (let size = length (mt_leaf_hashes t) in
      if prev_size = 0 \<or> size < prev_size then Some (Err (InvalidConsistencySize prev_size size))
      else if prev_size = size then Some (Ok [])
      else map_option Ok (subproof sha prev_size (mt_leaf_hashes t) True))"

subsection \<open>Verification\<close>

definition step_hash :: "digest \<Rightarrow> hash \<Rightarrow> hash \<times> side \<Rightarrow> hash" where
  "step_hash sha current s =
     (case s of (sibling, RightSide) \<Rightarrow> hash_children sha current sibling
              | (sibling, LeftSide) \<Rightarrow> hash_children sha sibling current)"

definition fold_path :: "digest \<Rightarrow> hash \<Rightarrow> audit_path \<Rightarrow> hash" where
  "fold_path sha leaf path = foldl (step_hash sha) leaf path"

definition verify_inclusion_proof_by_hash ::
  "digest \<Rightarrow> hash \<Rightarrow> nat \<Rightarrow> nat \<Rightarrow> audit_path \<Rightarrow> hash \<Rightarrow> bool" where
  "verify_inclusion_proof_by_hash sha leaf_hash leaf_index tree_size audit_path expected_root =
     (if tree_size = 0 \<or> tree_size \<le> leaf_index then False
      else if tree_size = 1 then audit_path = [] \<and> leaf_index = 0 \<and> leaf_hash = expected_root
      else fold_path sha leaf_hash audit_path = expected_root)"

definition verify_inclusion_proof ::
  "digest \<Rightarrow> u8 list \<Rightarrow> nat \<Rightarrow> nat \<Rightarrow> audit_path \<Rightarrow> hash \<Rightarrow> bool" where
  "verify_inclusion_proof sha raw_log leaf_index tree_size audit_path expected_root =
     verify_inclusion_proof_by_hash sha (hash_leaf sha raw_log) leaf_index tree_size audit_path
       expected_root"

definition ip_verify :: "digest \<Rightarrow> inclusion_proof \<Rightarrow> u8 list \<Rightarrow> hash \<Rightarrow> bool" where
  "ip_verify sha p raw_log expected_root =
     verify_inclusion_proof sha raw_log (ip_leaf_index p) (ip_tree_size p) (ip_audit_path p)
       expected_root"

definition ip_verify_hash :: "digest \<Rightarrow> inclusion_proof \<Rightarrow> hash \<Rightarrow> hash \<Rightarrow> bool" where
  "ip_verify_hash sha p leaf_hash expected_root =
     verify_inclusion_proof_by_hash sha leaf_hash (ip_leaf_index p) (ip_tree_size p)
       (ip_audit_path p) expected_root"

definition pop :: "'a list \<Rightarrow> ('a \<times> 'a list) option" where
  "pop xs = (if xs = [] then None else Some (last xs, butlast xs))"

lemma pop_simps [simp]: "pop [] = None" "pop (xs @ [x]) = Some (x, xs)"
  by (simp_all add: pop_def)

lemma pop_eq_Some_iff: "pop xs = Some (x, ys) \<longleftrightarrow> xs = ys @ [x]"
  by (auto simp: pop_def)

text \<open>
  The two stack-driven verifiers. The outer option is the panic of the split point's assertion,
  the inner one the \<open>?\<close> on an exhausted proof; the proof stack is passed along.
\<close>

function verify_subproof_full ::
  "digest \<Rightarrow> nat \<Rightarrow> nat \<Rightarrow> hash list \<Rightarrow> ((hash \<times> hash) \<times> hash list) option option" where
  "verify_subproof_full sha m n proof =
     (if m = n then
        Some (case pop proof of None \<Rightarrow> None | Some (h, rest) \<Rightarrow> Some ((h, h), rest))
      else case largest_power_of_two_less_than n of
        None \<Rightarrow> None
      | Some k \<Rightarrow>
          (case pop proof of
             None \<Rightarrow> Some None
           | Some (sibling, rest) \<Rightarrow>
               if m \<le> k then
                 map_option (map_option (\<lambda>((sub_m, sub_k), rest').
                     ((sub_m, hash_children sha sub_k sibling), rest')))
                   (verify_subproof_full sha m k rest)
               else
                 map_option (map_option (\<lambda>((sub_m, sub_n), rest').
                     ((hash_children sha sibling sub_m, hash_children sha sibling sub_n), rest')))
                   (verify_subproof_full sha (m - k) (n - k) rest)))"
  by pat_completeness auto
termination
  by (relation "measure (\<lambda>(sha, m, n, proof). n)") (auto dest: lp2_bounds)

declare verify_subproof_full.simps [simp del]

definition check_prev_root ::
  "digest \<Rightarrow> hash \<Rightarrow> hash \<Rightarrow> ((hash \<times> hash) \<times> hash list) option \<Rightarrow> (hash \<times> hash list) option" where
  "check_prev_root sha left_mth prev_root r = (case r of
     None \<Rightarrow> None
   | Some ((sub_m, sub_n), rest) \<Rightarrow>
       if hash_children sha left_mth sub_m \<noteq> prev_root then None
       else Some (hash_children sha left_mth sub_n, rest))"

lemma check_prev_root_simps [simp]:
  "check_prev_root sha s pr None = None"
  "hash_children sha s a = pr \<Longrightarrow>
     check_prev_root sha s pr (Some ((a, b), rest)) = Some (hash_children sha s b, rest)"
  by (simp_all add: check_prev_root_def)

lemma check_prev_root_eq_Some_iff:
  "check_prev_root sha s pr r = Some (l, rest) \<longleftrightarrow>
     (\<exists>a b. r = Some ((a, b), rest) \<and> hash_children sha s a = pr \<and> l = hash_children sha s b)"
  by (auto simp: check_prev_root_def split: option.splits if_splits)

function verify_consistency_internal ::
  "digest \<Rightarrow> nat \<Rightarrow> nat \<Rightarrow> hash list \<Rightarrow> hash \<Rightarrow> (hash \<times> hash list) option option" where
  "verify_consistency_internal sha m n proof prev_root =
     (if m = n then Some (Some (prev_root, proof))
      else case largest_power_of_two_less_than n of
        None \<Rightarrow> None
      | Some k \<Rightarrow>
          (case pop proof of
             None \<Rightarrow> Some None
           | Some (sibling, rest) \<Rightarrow>
               if m \<le> k then
                 map_option (map_option (\<lambda>(left_root, rest').
                     (hash_children sha left_root sibling, rest')))
                   (verify_consistency_internal sha m k rest prev_root)
               else
                 map_option (check_prev_root sha sibling prev_root)
                   (verify_subproof_full sha (m - k) (n - k) rest)))"
  by pat_completeness auto
termination
  by (relation "measure (\<lambda>(sha, m, n, proof, prev_root). n)") (auto dest: lp2_bounds)

declare verify_consistency_internal.simps [simp del]

definition verify_consistency_proof ::
  "digest \<Rightarrow> nat \<Rightarrow> nat \<Rightarrow> hash \<Rightarrow> hash \<Rightarrow> hash list \<Rightarrow> bool option" where
  "verify_consistency_proof sha prev_size curr_size prev_root curr_root proof =
     (if prev_size = 0 \<or> curr_size < prev_size then Some False
      else if prev_size = curr_size then Some (proof = [] \<and> prev_root = curr_root)
      else map_option (\<lambda>r. case r of
               Some (reconstructed_root, stack) \<Rightarrow> stack = [] \<and> reconstructed_root = curr_root
             | None \<Rightarrow> False)
           (verify_consistency_internal sha prev_size curr_size proof prev_root))"

end
