(* ===== verification/Rust_Str.thy ===== *)
theory Rust_Str
  imports Prelude
begin

text \<open>
  The operations of Rust's \<open>str\<close>, \<open>char\<close> and integer parsing that the framework uses.
  A string is the list of its UTF-8 bytes, so lengths, indices and slices are the byte lengths, indices and slices
  of the code; slicing off a character boundary panics (\<open>None\<close>). White space is the Unicode property,
  by the UTF-8 encodings of its 25 characters. The lemmas give the specification of
  each search and split, and the round trips of printing and parsing.
\<close>

subsection \<open>Bytes and characters\<close>

abbreviation code :: "char \<Rightarrow> nat" where
  "code c \<equiv> of_char c"

definition is_ascii_digit :: "char \<Rightarrow> bool" where
  "is_ascii_digit c \<longleftrightarrow> 48 \<le> code c \<and> code c \<le> 57"

definition is_ascii_upper :: "char \<Rightarrow> bool" where
  "is_ascii_upper c \<longleftrightarrow> 65 \<le> code c \<and> code c \<le> 90"

definition is_ascii_lower :: "char \<Rightarrow> bool" where
  "is_ascii_lower c \<longleftrightarrow> 97 \<le> code c \<and> code c \<le> 122"

definition is_ascii_alnum :: "char \<Rightarrow> bool" where
  "is_ascii_alnum c \<longleftrightarrow> is_ascii_digit c \<or> is_ascii_upper c \<or> is_ascii_lower c"

definition is_ascii_hexdigit :: "char \<Rightarrow> bool" where
  "is_ascii_hexdigit c \<longleftrightarrow> is_ascii_digit c \<or> (65 \<le> code c \<and> code c \<le> 70) \<or> (97 \<le> code c \<and> code c \<le> 102)"

definition ascii_lower :: "char \<Rightarrow> char" where
  "ascii_lower c = (if is_ascii_upper c then char_of (code c + 32) else c)"

definition ascii_upper :: "char \<Rightarrow> char" where
  "ascii_upper c = (if is_ascii_lower c then char_of (code c - 32) else c)"

definition to_ascii_lowercase :: "string \<Rightarrow> string" where
  "to_ascii_lowercase s = map ascii_lower s"

definition eq_ignore_ascii_case :: "string \<Rightarrow> string \<Rightarrow> bool" where
  "eq_ignore_ascii_case s t \<longleftrightarrow> to_ascii_lowercase s = to_ascii_lowercase t"

definition cont_byte :: "char \<Rightarrow> bool" where
  "cont_byte c \<longleftrightarrow> 128 \<le> code c \<and> code c < 192"

definition newline :: char where "newline = CHR 0x0A"
definition carriage_return :: char where "carriage_return = CHR 0x0D"
definition backslash :: char where "backslash = CHR 0x5C"

subsection \<open>Slices\<close>

definition is_char_boundary :: "string \<Rightarrow> nat \<Rightarrow> bool" where
  "is_char_boundary s i \<longleftrightarrow> i = 0 \<or> i = length s \<or> (i < length s \<and> \<not> cont_byte (s ! i))"

definition slice_to :: "string \<Rightarrow> nat \<Rightarrow> string option" where
  "slice_to s i = (if is_char_boundary s i then Some (take i s) else None)"

definition slice_from :: "string \<Rightarrow> nat \<Rightarrow> string option" where
  "slice_from s i = (if is_char_boundary s i then Some (drop i s) else None)"

definition slice :: "string \<Rightarrow> nat \<Rightarrow> nat \<Rightarrow> string option" where
  "slice s i j =
     (if i \<le> j \<and> is_char_boundary s i \<and> is_char_boundary s j then Some (drop i (take j s)) else None)"

lemma is_char_boundary_ends [simp]: "is_char_boundary s 0" "is_char_boundary s (length s)"
  by (simp_all add: is_char_boundary_def)

lemma is_char_boundary_ascii:
  "\<forall>c \<in> set s. code c < 128 \<Longrightarrow> i \<le> length s \<Longrightarrow> is_char_boundary s i"
  by (cases "i = length s") (auto simp: is_char_boundary_def cont_byte_def not_le dest!: bspec [OF _ nth_mem])

lemma slice_to_eq_Some_iff: "slice_to s i = Some t \<longleftrightarrow> is_char_boundary s i \<and> t = take i s"
  by (auto simp: slice_to_def)

subsection \<open>Prefixes and searches\<close>

fun starts_with :: "string \<Rightarrow> string \<Rightarrow> bool" where
  "starts_with s [] = True"
| "starts_with [] (p # ps) = False"
| "starts_with (c # cs) (p # ps) = (c = p \<and> starts_with cs ps)"

lemma starts_with_take: "starts_with s p \<longleftrightarrow> take (length p) s = p"
  by (induction s p rule: starts_with.induct) auto

lemma starts_with_iff: "starts_with s p \<longleftrightarrow> (\<exists>t. s = p @ t)"
  by (metis append_take_drop_id append_eq_conv_conj starts_with_take)

lemma starts_with_append [simp]: "starts_with (p @ s) p"
  by (auto simp: starts_with_iff)

lemma starts_with_length: "starts_with s p \<Longrightarrow> length p \<le> length s"
  by (auto simp: starts_with_iff)

definition ends_with :: "string \<Rightarrow> string \<Rightarrow> bool" where
  "ends_with s p = starts_with (rev s) (rev p)"

lemma ends_with_iff: "ends_with s p \<longleftrightarrow> (\<exists>t. s = t @ p)"
  by (auto simp: ends_with_def starts_with_iff rev_eq_append_conv) (metis rev_rev_ident)

definition strip_prefix :: "string \<Rightarrow> string \<Rightarrow> string option" where
  "strip_prefix s p = (if starts_with s p then Some (drop (length p) s) else None)"

lemma strip_prefix_append [simp]: "strip_prefix (p @ s) p = Some s"
  by (simp add: strip_prefix_def)

lemma strip_prefix_eq_Some_iff: "strip_prefix s p = Some t \<longleftrightarrow> s = p @ t"
  by (auto simp: strip_prefix_def starts_with_iff)

definition strip_suffix :: "string \<Rightarrow> string \<Rightarrow> string option" where
  "strip_suffix s p = (if ends_with s p then Some (take (length s - length p) s) else None)"

fun find_str :: "string \<Rightarrow> string \<Rightarrow> nat option" where
  "find_str [] p = (if p = [] then Some 0 else None)"
| "find_str (c # cs) p =
     (if starts_with (c # cs) p then Some 0 else map_option Suc (find_str cs p))"

lemma find_str_SomeD:
  "find_str s p = Some i \<Longrightarrow> i \<le> length s \<and> starts_with (drop i s) p \<and>
     (\<forall>j < i. \<not> starts_with (drop j s) p)"
proof (induction s p arbitrary: i rule: find_str.induct)
  case (2 c cs p)
  show ?case
  proof (cases "starts_with (c # cs) p")
    case False
    with 2 obtain k where "i = Suc k" "find_str cs p = Some k" by auto
    with 2 False show ?thesis by (auto simp: less_Suc_eq_0_disj)
  qed (use 2 in auto)
qed (auto split: if_splits)

lemma find_str_bound: "find_str s p = Some i \<Longrightarrow> i + length p \<le> length s"
  using find_str_SomeD [of s p i] starts_with_length [of "drop i s" p] by auto

lemma all_le_length_Cons:
  "(\<forall>i \<le> length (c # cs). P i) \<longleftrightarrow> P 0 \<and> (\<forall>i \<le> length cs. P (Suc i))"
  by (metis Suc_le_mono length_Cons not0_implies_Suc zero_le)

lemma find_str_None_iff: "find_str s p = None \<longleftrightarrow> (\<forall>i \<le> length s. \<not> starts_with (drop i s) p)"
proof (induction s p rule: find_str.induct)
  case (2 c cs p)
  have "(\<forall>i \<le> length (c # cs). \<not> starts_with (drop i (c # cs)) p) \<longleftrightarrow>
    \<not> starts_with (c # cs) p \<and> (\<forall>i \<le> length cs. \<not> starts_with (drop i cs) p)"
    by (simp only: all_le_length_Cons drop_0 drop_Suc_Cons)
  with 2 show ?case by simp
qed (auto simp: starts_with_take)

definition contains :: "string \<Rightarrow> string \<Rightarrow> bool" where
  "contains s p = (find_str s p \<noteq> None)"

lemma contains_iff: "contains s p \<longleftrightarrow> (\<exists>a b. s = a @ p @ b)"
proof
  assume "contains s p"
  then obtain i where "starts_with (drop i s) p" using find_str_SomeD by (auto simp: contains_def)
  then show "\<exists>a b. s = a @ p @ b" by (metis append_take_drop_id starts_with_iff)
next
  assume "\<exists>a b. s = a @ p @ b"
  then obtain a b where "s = a @ p @ b" by blast
  then have "starts_with (drop (length a) s) p" "length a \<le> length s" by auto
  then show "contains s p" unfolding contains_def by (auto simp: find_str_None_iff)
qed

fun find_idx :: "(char \<Rightarrow> bool) \<Rightarrow> string \<Rightarrow> nat option" where
  "find_idx P [] = None"
| "find_idx P (c # cs) = (if P c then Some 0 else map_option Suc (find_idx P cs))"

lemma find_idx_SomeD:
  "find_idx P s = Some i \<Longrightarrow> i < length s \<and> P (s ! i) \<and> (\<forall>c \<in> set (take i s). \<not> P c)"
  by (induction s arbitrary: i) (auto split: if_splits)

lemma find_idx_None_iff: "find_idx P s = None \<longleftrightarrow> (\<forall>c \<in> set s. \<not> P c)"
  by (induction s) auto

lemma find_idx_append:
  "\<forall>c \<in> set a. \<not> P c \<Longrightarrow> P x \<Longrightarrow> find_idx P (a @ x # b) = Some (length a)"
  by (induction a) auto

definition rfind_idx :: "(char \<Rightarrow> bool) \<Rightarrow> string \<Rightarrow> nat option" where
  "rfind_idx P s = map_option (\<lambda>i. length s - 1 - i) (find_idx P (rev s))"

lemma rfind_idx_append:
  "\<forall>c \<in> set b. \<not> P c \<Longrightarrow> P x \<Longrightarrow> rfind_idx P (a @ x # b) = Some (length a)"
  using find_idx_append [of "rev b" P x "rev a"] by (simp add: rfind_idx_def)

subsection \<open>Splitting and joining\<close>

fun split_char :: "(char \<Rightarrow> bool) \<Rightarrow> string \<Rightarrow> string list" where
  "split_char P [] = [[]]"
| "split_char P (c # cs) =
     (if P c then [] # split_char P cs
      else case split_char P cs of
             [] \<Rightarrow> [[c]]
           | w # ws \<Rightarrow> (c # w) # ws)"

lemma split_char_nonempty [simp]: "split_char P s \<noteq> []"
  by (cases s) (auto split: list.splits)

lemma split_char_length_pos: "0 < length (split_char P s)"
  by simp

lemma length_split_char: "length (split_char P s) = Suc (length (filter P s))"
  by (induction s) (auto split: list.splits)

lemma split_char_no_sep: "\<forall>w \<in> set (split_char P s). \<forall>c \<in> set w. \<not> P c"
  by (induction s) (auto split: list.splits)

lemma split_char_single: "\<forall>c \<in> set w. \<not> P c \<Longrightarrow> split_char P w = [w]"
  by (induction w) auto

lemma split_char_append_sep:
  "\<forall>c \<in> set w. \<not> P c \<Longrightarrow> P x \<Longrightarrow> split_char P (w @ x # s) = w # split_char P s"
  by (induction w) auto

fun join :: "string \<Rightarrow> string list \<Rightarrow> string" where
  "join sep [] = []"
| "join sep [w] = w"
| "join sep (w # v # ws) = w @ sep @ join sep (v # ws)"

lemma join_Cons: "ws \<noteq> [] \<Longrightarrow> join sep (w # ws) = w @ sep @ join sep ws"
  by (cases ws) auto

lemma join_split_char: "join [x] (split_char (\<lambda>c. c = x) s) = s"
proof (induction s)
  case (Cons c s)
  then show ?case
    by (cases "split_char (\<lambda>c. c = x) s"; cases "tl (split_char (\<lambda>c. c = x) s)") (auto simp: join_Cons)
qed simp

lemma split_char_join:
  "ws \<noteq> [] \<Longrightarrow> \<forall>w \<in> set ws. x \<notin> set w \<Longrightarrow> split_char (\<lambda>c. c = x) (join [x] ws) = ws"
proof (induction ws rule: induct_list012)
  case (3 w v ws)
  have "split_char (\<lambda>c. c = x) (w @ x # join [x] (v # ws)) = w # split_char (\<lambda>c. c = x) (join [x] (v # ws))"
    using 3 by (intro split_char_append_sep) auto
  then show ?case using 3 by simp
qed (auto intro: split_char_single)

fun ends_cr :: "string \<Rightarrow> bool" where
  "ends_cr [] = False"
| "ends_cr s = (last s = carriage_return)"

definition chomp_cr :: "string \<Rightarrow> string" where
  "chomp_cr s = (if ends_cr s then butlast s else s)"

definition str_lines :: "string \<Rightarrow> string list" where
  "str_lines s = (let ps = split_char (\<lambda>c. c = newline) s in
     map chomp_cr (butlast ps) @ (if last ps = [] then [] else [last ps]))"

subsection \<open>White space\<close>

definition ws_encodings :: "string list" where
  "ws_encodings = [[CHR 0x20], [CHR 0x09], [CHR 0x0A], [CHR 0x0B], [CHR 0x0C], [CHR 0x0D],
     [CHR 0xC2, CHR 0x85], [CHR 0xC2, CHR 0xA0], [CHR 0xE1, CHR 0x9A, CHR 0x80],
     [CHR 0xE2, CHR 0x80, CHR 0x80], [CHR 0xE2, CHR 0x80, CHR 0x81], [CHR 0xE2, CHR 0x80, CHR 0x82],
     [CHR 0xE2, CHR 0x80, CHR 0x83], [CHR 0xE2, CHR 0x80, CHR 0x84], [CHR 0xE2, CHR 0x80, CHR 0x85],
     [CHR 0xE2, CHR 0x80, CHR 0x86], [CHR 0xE2, CHR 0x80, CHR 0x87], [CHR 0xE2, CHR 0x80, CHR 0x88],
     [CHR 0xE2, CHR 0x80, CHR 0x89], [CHR 0xE2, CHR 0x80, CHR 0x8A], [CHR 0xE2, CHR 0x80, CHR 0xA8],
     [CHR 0xE2, CHR 0x80, CHR 0xA9], [CHR 0xE2, CHR 0x80, CHR 0xAF], [CHR 0xE2, CHR 0x81, CHR 0x9F],
     [CHR 0xE3, CHR 0x80, CHR 0x80]]"

fun prefix_len :: "string list \<Rightarrow> string \<Rightarrow> nat" where
  "prefix_len [] s = 0"
| "prefix_len (e # es) s = (if e \<noteq> [] \<and> starts_with s e then length e else prefix_len es s)"

lemma prefix_len_le: "prefix_len es s \<le> length s"
  by (induction es) (auto dest: starts_with_length)

definition ws_len :: "string \<Rightarrow> nat" where
  "ws_len s = prefix_len ws_encodings s"

definition ws_len_rev :: "string \<Rightarrow> nat" where
  "ws_len_rev r = prefix_len (map rev ws_encodings) r"

lemma prefix_len_Nil [simp]: "prefix_len es [] = 0"
proof (induction es)
  case (Cons e es)
  then show ?case by (cases e) auto
qed simp

lemma ws_len_Nil [simp]: "ws_len [] = 0" "ws_len_rev [] = 0"
  by (simp_all add: ws_len_def ws_len_rev_def)

lemma ws_len_le: "ws_len s \<le> length s" "ws_len_rev s \<le> length s"
  by (simp_all add: ws_len_def ws_len_rev_def prefix_len_le)

function trim_by :: "(string \<Rightarrow> nat) \<Rightarrow> string \<Rightarrow> string" where
  "trim_by f [] = []"
| "trim_by f (c # cs) = (if f (c # cs) = 0 then c # cs else trim_by f (drop (f (c # cs)) (c # cs)))"
  by pat_completeness auto
termination by (relation "measure (\<lambda>(f, s). length s)") auto

definition trim_start :: "string \<Rightarrow> string" where
  "trim_start s = trim_by ws_len s"

definition trim_end :: "string \<Rightarrow> string" where
  "trim_end s = rev (trim_by ws_len_rev (rev s))"

definition trim :: "string \<Rightarrow> string" where
  "trim s = trim_end (trim_start s)"

lemma trim_by_suffix: "\<exists>p. s = p @ trim_by f s"
proof (induction f s rule: trim_by.induct)
  case (2 f c cs)
  show ?case
  proof (cases "f (c # cs) = 0")
    case False
    with 2 obtain p where "drop (f (c # cs)) (c # cs) = p @ trim_by f (drop (f (c # cs)) (c # cs))" by blast
    then have "c # cs = take (f (c # cs)) (c # cs) @ p @ trim_by f (drop (f (c # cs)) (c # cs))"
      by (metis append_take_drop_id)
    with False show ?thesis by (metis append_assoc trim_by.simps(2))
  qed simp
qed simp

lemma trim_by_stop: "trim_by f s = [] \<or> f (trim_by f s) = 0"
  by (induction f s rule: trim_by.induct) auto

lemma trim_by_id: "s = [] \<or> f s = 0 \<Longrightarrow> trim_by f s = s"
  by (cases s) auto

lemma trim_by_idem [simp]: "trim_by f (trim_by f s) = trim_by f s"
  using trim_by_stop trim_by_id by blast

lemma trim_infix: "\<exists>a b. s = a @ trim s @ b"
proof -
  obtain a where a: "s = a @ trim_start s" using trim_by_suffix unfolding trim_start_def by blast
  obtain b where "rev (trim_start s) = b @ trim_by ws_len_rev (rev (trim_start s))"
    using trim_by_suffix by blast
  then have "trim_start s = trim s @ rev b"
    unfolding trim_def trim_end_def by (metis rev_append rev_rev_ident)
  with a show ?thesis by metis
qed

lemma length_trim [length_simps]: "length (trim s) \<le> length s"
proof -
  obtain a b where "s = a @ trim s @ b" using trim_infix by blast
  then have "length s = length (a @ trim s @ b)" by simp
  then show ?thesis by simp
qed

function split_ws_from :: "string \<Rightarrow> string \<Rightarrow> string list" where
  "split_ws_from cur [] = (if cur = [] then [] else [rev cur])"
| "split_ws_from cur (c # cs) =
     (if ws_len (c # cs) = 0 then split_ws_from (c # cur) cs
      else (if cur = [] then [] else [rev cur]) @ split_ws_from [] (drop (ws_len (c # cs)) (c # cs)))"
  by pat_completeness auto
termination by (relation "measure (\<lambda>(cur, s). length s)") auto

definition split_whitespace :: "string \<Rightarrow> string list" where
  "split_whitespace s = split_ws_from [] s"

lemma split_whitespace_nonempty: "w \<in> set (split_whitespace s) \<Longrightarrow> w \<noteq> []"
proof -
  have "w \<in> set (split_ws_from cur s) \<Longrightarrow> w \<noteq> []" for cur
    by (induction cur s rule: split_ws_from.induct) (auto split: if_splits)
  then show "w \<in> set (split_whitespace s) \<Longrightarrow> w \<noteq> []" by (simp add: split_whitespace_def)
qed

definition trim_matches :: "(char \<Rightarrow> bool) \<Rightarrow> string \<Rightarrow> string" where
  "trim_matches P s = rev (dropWhile P (rev (dropWhile P s)))"

function replace_str :: "string \<Rightarrow> string \<Rightarrow> string \<Rightarrow> string" where
  "replace_str p r [] = []"
| "replace_str p r (c # cs) =
     (if p \<noteq> [] \<and> starts_with (c # cs) p then r @ replace_str p r (drop (length p) (c # cs))
      else c # replace_str p r cs)"
  by pat_completeness auto
termination by (relation "measure (\<lambda>(p, r, s). length s)") auto

subsection \<open>Integers\<close>

definition digit_val :: "char \<Rightarrow> nat" where
  "digit_val c = code c - 48"

definition digits_val :: "string \<Rightarrow> nat" where
  "digits_val s = foldl (\<lambda>n c. 10 * n + digit_val c) 0 s"

definition parse_digits :: "string \<Rightarrow> nat option" where
  "parse_digits s = (if s \<noteq> [] \<and> list_all is_ascii_digit s then Some (digits_val s) else None)"

definition parse_uint :: "nat \<Rightarrow> string \<Rightarrow> nat option" where
  "parse_uint w s =
     (case parse_digits (case s of c # cs \<Rightarrow> (if c = CHR ''+'' then cs else s) | [] \<Rightarrow> []) of
        None \<Rightarrow> None
      | Some n \<Rightarrow> (if n < 2 ^ w then Some n else None))"

definition parse_u16 :: "string \<Rightarrow> u16 option" where
  "parse_u16 s = map_option of_nat (parse_uint 16 s)"

definition parse_u64 :: "string \<Rightarrow> u64 option" where
  "parse_u64 s = map_option of_nat (parse_uint 64 s)"

definition parse_i64 :: "string \<Rightarrow> int option" where
  "parse_i64 s =
     (case s of
        [] \<Rightarrow> None
      | c # cs \<Rightarrow>
          if c = CHR ''-'' then
            (case parse_digits cs of None \<Rightarrow> None
             | Some n \<Rightarrow> (if n \<le> 2 ^ 63 then Some (- int n) else None))
          else
            (case parse_digits (if c = CHR ''+'' then cs else s) of None \<Rightarrow> None
             | Some n \<Rightarrow> (if n < 2 ^ 63 then Some (int n) else None)))"

fun show_nat :: "nat \<Rightarrow> string" where
  "show_nat n = (if n < 10 then [char_of (48 + n)] else show_nat (n div 10) @ [char_of (48 + n mod 10)])"

declare show_nat.simps [simp del]

definition show_int :: "int \<Rightarrow> string" where
  "show_int i = (if i < 0 then CHR ''-'' # show_nat (nat (- i)) else show_nat (nat i))"

definition pad_zeros :: "nat \<Rightarrow> string \<Rightarrow> string" where
  "pad_zeros w s = replicate (w - length s) (CHR ''0'') @ s"

lemma digits_val_snoc [simp]: "digits_val (s @ [c]) = 10 * digits_val s + digit_val c"
  by (simp add: digits_val_def)

lemma digits_val_Nil [simp]: "digits_val [] = 0"
  by (simp add: digits_val_def)

lemma digit_char [simp]:
  "n < 10 \<Longrightarrow> is_ascii_digit (char_of (48 + n))" "n < 10 \<Longrightarrow> digit_val (char_of (48 + n)) = n"
  by (simp_all add: is_ascii_digit_def digit_val_def)

lemma show_nat_induct [case_names digit step]:
  assumes "\<And>n. n < 10 \<Longrightarrow> P n" "\<And>n. 10 \<le> n \<Longrightarrow> P (n div 10) \<Longrightarrow> P n"
  shows "P (n :: nat)"
proof (induction n rule: less_induct)
  case (less n)
  show ?case
  proof (cases "n < 10")
    case False
    then have "n div 10 < n" "10 \<le> n" by simp_all
    then show ?thesis using less assms(2) by blast
  qed (rule assms(1))
qed

lemma show_nat_digits: "show_nat n \<noteq> [] \<and> list_all is_ascii_digit (show_nat n) \<and> digits_val (show_nat n) = n"
proof (induction n rule: show_nat_induct)
  case (step n)
  then show ?case by (simp add: show_nat.simps [of n])
next
  case (digit n)
  then show ?case using digits_val_snoc [of "[]"] by (simp add: show_nat.simps [of n])
qed

lemma show_nat_props [simp]:
  "show_nat n \<noteq> []" "list_all is_ascii_digit (show_nat n)" "digits_val (show_nat n) = n"
  using show_nat_digits by auto

lemma show_nat_no_sign: "\<not> is_ascii_digit c \<Longrightarrow> c \<notin> set (show_nat n)"
  using show_nat_digits [of n] by (auto simp: list_all_iff)

lemma parse_digits_show [simp]: "parse_digits (show_nat n) = Some n"
  by (simp add: parse_digits_def)

lemma not_digit_plus: "\<not> is_ascii_digit CHR ''+''" "\<not> is_ascii_digit CHR ''-''" "\<not> is_ascii_digit CHR '':''"
  by (simp_all add: is_ascii_digit_def)

lemma parse_uint_show: "n < 2 ^ w \<Longrightarrow> parse_uint w (show_nat n) = Some n"
proof -
  assume n: "n < 2 ^ w"
  have "hd (show_nat n) \<noteq> CHR ''+''"
    using show_nat_no_sign [OF not_digit_plus(1), of n] by (metis hd_in_set show_nat_props(1))
  then obtain c cs where "show_nat n = c # cs" "c \<noteq> CHR ''+''" by (cases "show_nat n") auto
  then show ?thesis using n parse_digits_show [of n] by (simp add: parse_uint_def)
qed

lemma parse_uint_bound: "parse_uint w s = Some n \<Longrightarrow> n < 2 ^ w"
  by (auto simp: parse_uint_def split: option.splits if_splits)

lemma parse_uint_pad: "n < 2 ^ w \<Longrightarrow> parse_uint w (pad_zeros k (show_nat n)) = Some n"
proof (cases "k \<le> length (show_nat n)")
  case False
  assume n: "n < 2 ^ w"
  obtain d where d: "k - length (show_nat n) = Suc d" using False by (cases "k - length (show_nat n)") auto
  have z: "digits_val (replicate j (CHR ''0'') @ s) = digits_val s" for j s
    by (induction j arbitrary: s) (simp_all add: digits_val_def digit_val_def)
  have "parse_digits (pad_zeros k (show_nat n)) = Some n"
    using show_nat_props(2) [of n] by (auto simp: parse_digits_def pad_zeros_def z list_all_iff is_ascii_digit_def)
  then show ?thesis using n by (simp add: parse_uint_def pad_zeros_def d)
qed (simp add: pad_zeros_def parse_uint_show)

lemma parse_u16_show [simp]: "parse_u16 (show_nat (unat p)) = Some p"
proof -
  have "unat p < 2 ^ LENGTH(16)" by (rule unsigned_less)
  then show ?thesis by (simp add: parse_u16_def parse_uint_show)
qed

lemma parse_u64_show [simp]: "parse_u64 (show_nat (unat p)) = Some p"
proof -
  have "unat p < 2 ^ LENGTH(64)" by (rule unsigned_less)
  then show ?thesis by (simp add: parse_u64_def parse_uint_show)
qed

lemma parse_i64_show:
  "- (2 ^ 63) \<le> i \<Longrightarrow> i < 2 ^ 63 \<Longrightarrow> parse_i64 (show_int i) = Some i"
proof (cases "i < 0")
  case False
  assume i: "i < 2 ^ 63"
  let ?s = "show_nat (nat i)"
  have "CHR ''-'' \<notin> set ?s" "CHR ''+'' \<notin> set ?s"
    using not_digit_plus by (auto dest: show_nat_no_sign [of _ "nat i"])
  then obtain c cs where "?s = c # cs" "c \<noteq> CHR ''-''" "c \<noteq> CHR ''+''"
    by (cases ?s) (auto simp: show_nat_props(1) [of "nat i"])
  then show ?thesis using False i parse_digits_show [of "nat i"] by (simp add: parse_i64_def show_int_def)
qed (auto simp: parse_i64_def show_int_def)

subsection \<open>Bytes, characters and paths\<close>

definition bytes_of :: "string \<Rightarrow> u8 list" where
  "bytes_of s = map of_char s"

lemma of_char_u8_inject: "(of_char c :: u8) = of_char d \<longleftrightarrow> c = d"
proof
  have u: "unat (of_char x :: u8) = code x" for x
  proof -
    have "unat (of_nat (code x) :: u8) = code x"
      unfolding unat_of_nat using nat_of_char_less_256 [of x] by (simp add: take_bit_nat_eq_self)
    then show ?thesis by (simp only: of_nat_of_char)
  qed
  assume "(of_char c :: u8) = of_char d"
  then have "code c = code d" using u by metis
  then show "c = d" by simp
qed simp

lemma bytes_of_inject [simp]: "bytes_of s = bytes_of t \<longleftrightarrow> s = t"
  unfolding bytes_of_def by (rule inj_map_eq_map) (auto simp: inj_def of_char_u8_inject)

definition char_count :: "string \<Rightarrow> nat" where
  "char_count s = length (filter (\<lambda>c. \<not> cont_byte c) s)"

fun take_chars :: "nat \<Rightarrow> string \<Rightarrow> string" where
  "take_chars n [] = []"
| "take_chars n (c # cs) =
     (if cont_byte c then c # take_chars n cs
      else case n of 0 \<Rightarrow> [] | Suc k \<Rightarrow> c # take_chars k cs)"

lemma take_chars_count: "char_count (take_chars n s) \<le> n"
  by (induction n s rule: take_chars.induct) (auto simp: char_count_def split: nat.split)

definition path_join :: "string \<Rightarrow> string \<Rightarrow> string" where
  "path_join dir f = (if dir = [] \<or> last dir = CHR ''/'' then dir @ f else dir @ ''/'' @ f)"

definition file_name :: "string \<Rightarrow> string" where
  "file_name p = (case rfind_idx (\<lambda>c. c = CHR ''/'') p of None \<Rightarrow> p | Some i \<Rightarrow> drop (Suc i) p)"

definition file_stem :: "string \<Rightarrow> string" where
  "file_stem p = (let f = file_name p in
     case rfind_idx (\<lambda>c. c = CHR ''.'') f of None \<Rightarrow> f | Some i \<Rightarrow> (if i = 0 then f else take i f))"

subsection \<open>UTF-8\<close>

fun utf8_tail :: "(nat \<times> nat) list \<Rightarrow> string \<Rightarrow> string option" where
  "utf8_tail [] s = Some s"
| "utf8_tail ((lo, hi) # rs) [] = None"
| "utf8_tail ((lo, hi) # rs) (c # cs) = (if lo \<le> code c \<and> code c \<le> hi then utf8_tail rs cs else None)"

definition utf8_ranges :: "nat \<Rightarrow> (nat \<times> nat) list option" where
  "utf8_ranges b =
     (if b < 128 then Some []
      else if b < 194 then None
      else if b < 224 then Some [(128, 191)]
      else if b = 224 then Some [(160, 191), (128, 191)]
      else if b = 237 then Some [(128, 159), (128, 191)]
      else if b < 240 then Some [(128, 191), (128, 191)]
      else if b = 240 then Some [(144, 191), (128, 191), (128, 191)]
      else if b < 244 then Some [(128, 191), (128, 191), (128, 191)]
      else if b = 244 then Some [(128, 143), (128, 191), (128, 191)]
      else None)"

lemma utf8_tail_length: "utf8_tail rs s = Some t \<Longrightarrow> length t \<le> length s"
  by (induction rs s rule: utf8_tail.induct) (auto split: if_splits)

function utf8_valid :: "string \<Rightarrow> bool" where
  "utf8_valid [] = True"
| "utf8_valid (c # cs) =
     (case utf8_ranges (code c) of
        None \<Rightarrow> False
      | Some rs \<Rightarrow> (case utf8_tail rs cs of None \<Rightarrow> False | Some t \<Rightarrow> utf8_valid t))"
  by pat_completeness auto
termination by (relation "measure length") (auto dest: utf8_tail_length)

lemma utf8_valid_ascii: "\<forall>c \<in> set s. code c < 128 \<Longrightarrow> utf8_valid s"
  by (induction s) (auto simp: utf8_ranges_def)

subsection \<open>Lines and files\<close>

lemma split_char_append:
  "P x \<Longrightarrow> split_char P (a @ x # b) = split_char P a @ split_char P b"
  by (induction a) (auto split: list.splits)

lemma str_lines_Nil [simp]: "str_lines [] = []"
  by (simp add: str_lines_def)

lemma str_lines_append_newline:
  "str_lines (a @ newline # b) = map chomp_cr (split_char (\<lambda>c. c = newline) a) @ str_lines b"
  by (simp add: str_lines_def Let_def split_char_append butlast_append)

lemma str_lines_snoc_line:
  assumes "old = [] \<or> last old = newline" "newline \<notin> set s" "\<not> ends_cr s"
  shows "str_lines (old @ s @ [newline]) = str_lines old @ [s]"
proof -
  have s: "str_lines (s @ [newline]) = [s]"
  proof -
    have "\<forall>c \<in> set s. c \<noteq> newline" using assms(2) by blast
    then have "split_char (\<lambda>c. c = newline) s = [s]" by (rule split_char_single)
    then show ?thesis using assms(3) str_lines_append_newline [of s "[]"] by (simp add: chomp_cr_def)
  qed
  show ?thesis
  proof (cases "old = []")
    case False
    then obtain a where "old = a @ [newline]" using assms(1) by (metis append_butlast_last_id)
    then show ?thesis using s str_lines_append_newline [of a "s @ [newline]"]
        str_lines_append_newline [of a "[]"] by simp
  qed (simp add: s)
qed

lemma prefix_len_zero: "\<forall>e \<in> set es. e = [] \<or> hd e \<noteq> c \<Longrightarrow> prefix_len es (c # cs) = 0"
proof (induction es)
  case (Cons e es)
  then show ?case by (cases e) auto
qed simp

lemma trim_id:
  assumes "s = [] \<or> (c = hd s \<and> d = last s)"
    and "\<forall>e \<in> set ws_encodings. hd e \<noteq> c \<and> last e \<noteq> d"
  shows "trim s = s"
proof (cases s)
  case (Cons x xs)
  have "\<forall>e \<in> set (map rev ws_encodings). e = [] \<or> hd e \<noteq> d"
    using assms(2) by (auto simp: hd_rev)
  moreover obtain ys where "rev s = d # ys"
    using assms(1) Cons by (metis append_butlast_last_id list.distinct(1) rev_eq_Cons_iff rev_swap rev.simps(2) rev_rev_ident)
  ultimately have "ws_len s = 0" "ws_len_rev (rev s) = 0"
    using assms Cons by (simp_all add: ws_len_def ws_len_rev_def prefix_len_zero)
  then show ?thesis by (simp add: trim_def trim_start_def trim_end_def trim_by_id)
qed (simp add: trim_def trim_start_def trim_end_def)

lemma trim_braces: "s \<noteq> [] \<Longrightarrow> hd s = CHR ''{'' \<Longrightarrow> last s = CHR ''}'' \<Longrightarrow> trim s = s"
  by (rule trim_id [of s "CHR ''{''" "CHR ''}''"]) (auto simp: ws_encodings_def)

lemma path_join_inject [simp]: "path_join d f = path_join d g \<longleftrightarrow> f = g"
  by (simp add: path_join_def)

lemma show_nat_inject: "show_nat m = show_nat n \<Longrightarrow> m = n"
  by (metis show_nat_props(3))

lemma digits_val_pad: "digits_val (pad_zeros k s) = digits_val s"
proof -
  have "digits_val (replicate j (CHR ''0'') @ s) = digits_val s" for j
    by (induction j) (simp_all add: digits_val_def digit_val_def)
  then show ?thesis by (simp add: pad_zeros_def)
qed

lemma pad_zeros_inject: "pad_zeros k (show_nat m) = pad_zeros k (show_nat n) \<Longrightarrow> m = n"
  by (metis digits_val_pad show_nat_props(3))

subsection \<open>Character-wise searches and splits\<close>

text \<open>
  Predicates on characters act on the encoding of the first character of the rest of the string; a search by such
  a predicate returns the byte position of the character, a split drops the bytes of the separator.
\<close>

fun find_suffix :: "(string \<Rightarrow> bool) \<Rightarrow> string \<Rightarrow> nat option" where
  "find_suffix Q [] = None"
| "find_suffix Q (c # cs) = (if Q (c # cs) then Some 0 else map_option Suc (find_suffix Q cs))"

fun rfind_suffix :: "(string \<Rightarrow> bool) \<Rightarrow> string \<Rightarrow> nat option" where
  "rfind_suffix Q [] = None"
| "rfind_suffix Q (c # cs) =
     (case rfind_suffix Q cs of
        Some i \<Rightarrow> Some (Suc i)
      | None \<Rightarrow> (if Q (c # cs) then Some 0 else None))"

lemma find_suffix_SomeD: "find_suffix Q s = Some i \<Longrightarrow> i < length s \<and> Q (drop i s)"
  by (induction s arbitrary: i) (auto split: if_splits)

lemma rfind_suffix_SomeD: "rfind_suffix Q s = Some i \<Longrightarrow> i < length s \<and> Q (drop i s)"
  by (induction s arbitrary: i) (auto split: if_splits option.splits)

lemma find_suffix_None_iff: "find_suffix Q s = None \<longleftrightarrow> (\<forall>i < length s. \<not> Q (drop i s))"
proof (induction s)
  case (Cons c cs)
  then show ?case by (simp del: drop_Suc_Cons add: All_less_Suc2) simp
qed simp

definition starts_ws :: "string \<Rightarrow> bool" where
  "starts_ws s \<longleftrightarrow> ws_len s \<noteq> 0"

function split_len_from :: "(string \<Rightarrow> nat) \<Rightarrow> string \<Rightarrow> string \<Rightarrow> string list" where
  "split_len_from f cur [] = [rev cur]"
| "split_len_from f cur (c # cs) =
     (if f (c # cs) = 0 then split_len_from f (c # cur) cs
      else rev cur # split_len_from f [] (drop (f (c # cs)) (c # cs)))"
  by pat_completeness auto
termination by (relation "measure (\<lambda>(f, cur, s). length s)") auto

definition split_len :: "(string \<Rightarrow> nat) \<Rightarrow> string \<Rightarrow> string list" where
  "split_len f s = split_len_from f [] s"

definition utf8_width :: "char \<Rightarrow> nat" where
  "utf8_width c = (if code c < 192 then 1 else if code c < 224 then 2 else if code c < 240 then 3 else 4)"

lemma utf8_width_pos [simp]: "0 < utf8_width c"
  by (simp add: utf8_width_def)

fun first_char :: "string \<Rightarrow> string" where
  "first_char [] = []"
| "first_char (c # cs) = take (utf8_width c) (c # cs)"

function trim_start_matches :: "(string \<Rightarrow> bool) \<Rightarrow> string \<Rightarrow> string" where
  "trim_start_matches P [] = []"
| "trim_start_matches P (c # cs) =
     (if P (first_char (c # cs)) then trim_start_matches P (drop (utf8_width c) (c # cs)) else c # cs)"
  by pat_completeness auto
termination by (relation "measure (\<lambda>(P, s). length s)") auto

definition to_ascii_uppercase :: "string \<Rightarrow> string" where
  "to_ascii_uppercase s = map ascii_upper s"

definition parse_u8 :: "string \<Rightarrow> u8 option" where
  "parse_u8 s = map_option of_nat (parse_uint 8 s)"

lemma prefix_len_ascii:
  "\<forall>e \<in> set es. \<forall>c \<in> set e. code c < 128 \<longrightarrow> length e = 1 \<Longrightarrow> \<forall>c \<in> set s. code c < 128 \<Longrightarrow>
     prefix_len es s \<le> 1"
proof (induction es)
  case (Cons e es)
  then show ?case by (cases e) (auto simp: starts_with_iff)
qed simp

lemma ws_len_ascii: "\<forall>c \<in> set s. code c < 128 \<Longrightarrow> ws_len s \<le> 1"
  unfolding ws_len_def by (rule prefix_len_ascii) (auto simp: ws_encodings_def)

subsection \<open>Printable text\<close>

text \<open>A solid character is neither the first nor the last byte of any white space.\<close>

definition solid :: "char \<Rightarrow> bool" where
  "solid c \<longleftrightarrow> list_all (\<lambda>e. hd e \<noteq> c \<and> last e \<noteq> c) ws_encodings"

lemma trim_solid: "s \<noteq> [] \<Longrightarrow> solid (hd s) \<Longrightarrow> solid (last s) \<Longrightarrow> trim s = s"
  by (rule trim_id [of s "hd s" "last s"]) (auto simp: solid_def list_all_iff)

lemma solid_digit: "is_ascii_digit c \<Longrightarrow> solid c"
  by (auto simp: solid_def ws_encodings_def is_ascii_digit_def)

definition printable :: "char \<Rightarrow> bool" where
  "printable c \<longleftrightarrow> 32 \<le> code c \<and> code c < 127"

lemma solid_printable: "printable c \<Longrightarrow> c \<noteq> CHR '' '' \<Longrightarrow> solid c"
  by (auto simp: solid_def ws_encodings_def printable_def)

lemma ws_len_space: "ws_len (CHR '' '' # cs) = 1"
  by (simp add: ws_len_def ws_encodings_def)

lemma ws_len_solid: "solid c \<Longrightarrow> ws_len (c # cs) = 0"
  unfolding ws_len_def by (rule prefix_len_zero) (auto simp: solid_def list_all_iff)

lemma ws_len_printable: "printable c \<Longrightarrow> ws_len (c # cs) = (if c = CHR '' '' then 1 else 0)"
  by (simp add: ws_len_space ws_len_solid solid_printable)

lemma split_whitespace_printable:
  assumes "list_all printable s"
  shows "split_whitespace s = filter (\<lambda>w. w \<noteq> []) (split_char (\<lambda>c. c = CHR '' '') s)"
proof -
  have "split_ws_from cur s = filter (\<lambda>w. w \<noteq> [])
      (case split_char (\<lambda>c. c = CHR '' '') s of [] \<Rightarrow> [] | w # ws \<Rightarrow> (rev cur @ w) # ws)" for cur
    using assms
  proof (induction s arbitrary: cur)
    case (Cons c s)
    obtain w ws where w: "split_char (\<lambda>c. c = CHR '' '') s = w # ws"
      by (cases "split_char (\<lambda>c. c = CHR '' '') s") auto
    show ?case using Cons w by (simp add: ws_len_printable)
  qed simp
  from this [of "[]"] show ?thesis
    by (cases "split_char (\<lambda>c. c = CHR '' '') s") (auto simp: split_whitespace_def)
qed

end
