(* ===== verification/Storage.thy ===== *)
theory Storage
  imports Merkle Rust_Str
begin

text \<open>
  The columnar storage of \<open>ulpf-integrity/src/storage.rs\<close>. Records go to and from an Arrow record
  batch, one column per field of the official schema, and batches to and from Parquet files in a file
  system that is a map from paths to contents. Arrow's batch constructor and the Parquet codec are third-party: they
  are fields of the record \<open>store_libs\<close>, with \<open>store_libs_ok\<close> for the documented behaviour the code
  relies on. Input and output may fail: the outcome of a write is an argument.
\<close>

record stored_log_record =
  sr_event_id :: string
  sr_block_id :: u64
  sr_leaf_index :: u32
  sr_timestamp :: int
  sr_vendor :: string
  sr_raw_log :: string
  sr_raw_hash :: string
  sr_ocsf_json :: string

datatype parquet_compression = Snappy | Zstd | Uncompressed

datatype data_type = Utf8 | UInt64 | UInt32 | Int64

record field =
  fd_name :: string
  fd_type :: data_type
  fd_nullable :: bool

datatype column =
    StringArray "string list"
  | UInt64Array "u64 list"
  | UInt32Array "u32 list"
  | Int64Array "int list"

record record_batch =
  rb_schema :: "field list"
  rb_columns :: "column list"
  rb_num_rows :: nat

datatype storage_error =
    BatchConstruction
  | WrongColumnType nat
  | WriteNotOpened
  | WriteFailed
  | OpenFailed
  | ReaderFailed

record store_libs =
  sl_try_new :: "field list \<Rightarrow> column list \<Rightarrow> record_batch option"
  sl_pq_encode :: "parquet_compression \<Rightarrow> record_batch \<Rightarrow> string option"
  sl_pq_decode :: "string \<Rightarrow> record_batch list option"

type_synonym fs = "string \<Rightarrow> string option"

definition log_schema :: "field list" where
  "log_schema =
    [\<lparr>fd_name = ''event_id'', fd_type = Utf8, fd_nullable = False\<rparr>,
     \<lparr>fd_name = ''block_id'', fd_type = UInt64, fd_nullable = False\<rparr>,
     \<lparr>fd_name = ''leaf_index'', fd_type = UInt32, fd_nullable = False\<rparr>,
     \<lparr>fd_name = ''timestamp'', fd_type = Int64, fd_nullable = False\<rparr>,
     \<lparr>fd_name = ''vendor'', fd_type = Utf8, fd_nullable = False\<rparr>,
     \<lparr>fd_name = ''raw_log'', fd_type = Utf8, fd_nullable = False\<rparr>,
     \<lparr>fd_name = ''raw_hash'', fd_type = Utf8, fd_nullable = False\<rparr>,
     \<lparr>fd_name = ''ocsf_json'', fd_type = Utf8, fd_nullable = False\<rparr>]"

definition record_columns :: "stored_log_record list \<Rightarrow> column list" where
  "record_columns records =
    [StringArray (map sr_event_id records),
     UInt64Array (map sr_block_id records),
     UInt32Array (map sr_leaf_index records),
     Int64Array (map sr_timestamp records),
     StringArray (map sr_vendor records),
     StringArray (map sr_raw_log records),
     StringArray (map sr_raw_hash records),
     StringArray (map sr_ocsf_json records)]"

definition records_to_batch ::
  "store_libs \<Rightarrow> stored_log_record list \<Rightarrow> (record_batch, storage_error) result" where
  "records_to_batch L records =
     ok_or BatchConstruction (sl_try_new L log_schema (record_columns records))"

definition get_str :: "record_batch \<Rightarrow> nat \<Rightarrow> (string list, storage_error) comp" where
  "get_str batch col = (case nth_opt (rb_columns batch) col of
     None \<Rightarrow> None
   | Some (StringArray xs) \<Rightarrow> Some (Ok xs)
   | Some _ \<Rightarrow> Some (Err (WrongColumnType col)))"

definition get_u64 :: "record_batch \<Rightarrow> nat \<Rightarrow> (u64 list, storage_error) comp" where
  "get_u64 batch col = (case nth_opt (rb_columns batch) col of
     None \<Rightarrow> None
   | Some (UInt64Array xs) \<Rightarrow> Some (Ok xs)
   | Some _ \<Rightarrow> Some (Err (WrongColumnType col)))"

definition get_u32 :: "record_batch \<Rightarrow> nat \<Rightarrow> (u32 list, storage_error) comp" where
  "get_u32 batch col = (case nth_opt (rb_columns batch) col of
     None \<Rightarrow> None
   | Some (UInt32Array xs) \<Rightarrow> Some (Ok xs)
   | Some _ \<Rightarrow> Some (Err (WrongColumnType col)))"

definition get_i64 :: "record_batch \<Rightarrow> nat \<Rightarrow> (int list, storage_error) comp" where
  "get_i64 batch col = (case nth_opt (rb_columns batch) col of
     None \<Rightarrow> None
   | Some (Int64Array xs) \<Rightarrow> Some (Ok xs)
   | Some _ \<Rightarrow> Some (Err (WrongColumnType col)))"

definition batch_to_records :: "record_batch \<Rightarrow> (stored_log_record list, storage_error) comp" where
  "batch_to_records batch =
     try_bind (get_str batch 0) (\<lambda>event_ids.
     try_bind (get_u64 batch 1) (\<lambda>block_ids.
     try_bind (get_u32 batch 2) (\<lambda>leaf_indices.
     try_bind (get_i64 batch 3) (\<lambda>timestamps.
     try_bind (get_str batch 4) (\<lambda>vendors.
     try_bind (get_str batch 5) (\<lambda>raw_logs.
     try_bind (get_str batch 6) (\<lambda>raw_hashes.
     try_bind (get_str batch 7) (\<lambda>ocsf_jsons.
       map_option Ok (map_opt (\<lambda>i. do {
         event_id \<leftarrow> nth_opt event_ids i;
         block_id \<leftarrow> nth_opt block_ids i;
         leaf_index \<leftarrow> nth_opt leaf_indices i;
         timestamp \<leftarrow> nth_opt timestamps i;
         vendor \<leftarrow> nth_opt vendors i;
         raw_log \<leftarrow> nth_opt raw_logs i;
         raw_hash \<leftarrow> nth_opt raw_hashes i;
         ocsf_json \<leftarrow> nth_opt ocsf_jsons i;
         Some \<lparr>sr_event_id = event_id, sr_block_id = block_id, sr_leaf_index = leaf_index,
               sr_timestamp = timestamp, sr_vendor = vendor, sr_raw_log = raw_log,
               sr_raw_hash = raw_hash, sr_ocsf_json = ocsf_json\<rparr>
       }) [0..<rb_num_rows batch])))))))))"

text \<open>
  Opening truncates or creates the file; a write may then stop after some of its bytes.
\<close>

datatype write_outcome = Written | NotOpened | Partial nat

definition write_parquet_file ::
  "store_libs \<Rightarrow> write_outcome \<Rightarrow> string \<Rightarrow> record_batch \<Rightarrow> parquet_compression \<Rightarrow> fs \<Rightarrow>
     (unit, storage_error) result \<times> fs" where
  "write_parquet_file L io path batch compression fs =
     (case io of
        NotOpened \<Rightarrow> (Err WriteNotOpened, fs)
      | _ \<Rightarrow>
         (case sl_pq_encode L compression batch of
            None \<Rightarrow> (Err WriteFailed, fs(path \<mapsto> []))
          | Some bytes \<Rightarrow>
             (case io of
                Partial n \<Rightarrow> (Err WriteFailed, fs(path \<mapsto> take n bytes))
              | _ \<Rightarrow> (Ok (), fs(path \<mapsto> bytes)))))"

definition write_records_to_parquet ::
  "store_libs \<Rightarrow> write_outcome \<Rightarrow> string \<Rightarrow> stored_log_record list \<Rightarrow> parquet_compression \<Rightarrow> fs \<Rightarrow>
     (unit, storage_error) result \<times> fs" where
  "write_records_to_parquet L io path records compression fs =
     (case records_to_batch L records of
        Inl e \<Rightarrow> (Err e, fs)
      | Inr batch \<Rightarrow> write_parquet_file L io path batch compression fs)"

fun read_batches :: "record_batch list \<Rightarrow> (stored_log_record list, storage_error) comp" where
  "read_batches [] = Some (Ok [])"
| "read_batches (b # bs) =
     try_bind (batch_to_records b) (\<lambda>records.
     try_bind (read_batches bs) (\<lambda>rest. Some (Ok (records @ rest))))"

definition read_parquet_file :: "store_libs \<Rightarrow> string \<Rightarrow> fs \<Rightarrow> (stored_log_record list, storage_error) comp" where
  "read_parquet_file L path fs =
     (case fs path of
        None \<Rightarrow> Some (Err OpenFailed)
      | Some bytes \<Rightarrow>
          (case sl_pq_decode L bytes of
             None \<Rightarrow> Some (Err ReaderFailed)
           | Some batches \<Rightarrow> read_batches batches))"

subsection \<open>What the code relies on\<close>

fun column_type :: "column \<Rightarrow> data_type" where
  "column_type (StringArray xs) = Utf8"
| "column_type (UInt64Array xs) = UInt64"
| "column_type (UInt32Array xs) = UInt32"
| "column_type (Int64Array xs) = Int64"

fun column_length :: "column \<Rightarrow> nat" where
  "column_length (StringArray xs) = length xs"
| "column_length (UInt64Array xs) = length xs"
| "column_length (UInt32Array xs) = length xs"
| "column_length (Int64Array xs) = length xs"

fun column_append :: "column \<Rightarrow> column \<Rightarrow> column" where
  "column_append (StringArray xs) (StringArray ys) = StringArray (xs @ ys)"
| "column_append (UInt64Array xs) (UInt64Array ys) = UInt64Array (xs @ ys)"
| "column_append (UInt32Array xs) (UInt32Array ys) = UInt32Array (xs @ ys)"
| "column_append (Int64Array xs) (Int64Array ys) = Int64Array (xs @ ys)"
| "column_append c d = c"

fun empty_column :: "data_type \<Rightarrow> column" where
  "empty_column Utf8 = StringArray []"
| "empty_column UInt64 = UInt64Array []"
| "empty_column UInt32 = UInt32Array []"
| "empty_column Int64 = Int64Array []"

definition well_matched :: "field list \<Rightarrow> column list \<Rightarrow> nat \<Rightarrow> bool" where
  "well_matched schema cols n \<longleftrightarrow>
     map column_type cols = map fd_type schema \<and> (\<forall>c \<in> set cols. column_length c = n)"

definition batch_ok :: "field list \<Rightarrow> record_batch \<Rightarrow> bool" where
  "batch_ok schema b \<longleftrightarrow> rb_schema b = schema \<and> well_matched schema (rb_columns b) (rb_num_rows b)"

definition concat_columns :: "field list \<Rightarrow> record_batch list \<Rightarrow> column list" where
  "concat_columns schema bs =
     foldr (\<lambda>b cols. map2 column_append (rb_columns b) cols) bs (map (empty_column \<circ> fd_type) schema)"

text \<open>
  Arrow: \<open>RecordBatch::try_new\<close> accepts columns of the schema's types and one length. Parquet: reading
  back a file that was written yields batches of the same schema whose rows are, in order, those written.
\<close>

definition store_libs_ok :: "store_libs \<Rightarrow> bool" where
  "store_libs_ok L \<longleftrightarrow>
     (\<forall>schema cols n. schema \<noteq> [] \<longrightarrow> well_matched schema cols n \<longrightarrow>
        sl_try_new L schema cols = Some \<lparr>rb_schema = schema, rb_columns = cols, rb_num_rows = n\<rparr>) \<and>
     (\<forall>c b bytes. sl_pq_encode L c b = Some bytes \<longrightarrow> batch_ok (rb_schema b) b \<longrightarrow>
        (\<exists>bs. sl_pq_decode L bytes = Some bs \<and> (\<forall>b' \<in> set bs. batch_ok (rb_schema b) b') \<and>
              concat_columns (rb_schema b) bs = rb_columns b))"

lemma pq_decode_encode:
  "store_libs_ok L \<Longrightarrow> sl_pq_encode L c b = Some bytes \<Longrightarrow> batch_ok (rb_schema b) b \<Longrightarrow>
     \<exists>bs. sl_pq_decode L bytes = Some bs \<and> (\<forall>b' \<in> set bs. batch_ok (rb_schema b) b') \<and>
          concat_columns (rb_schema b) bs = rb_columns b"
  unfolding store_libs_ok_def by blast

lemma well_matched_records: "well_matched log_schema (record_columns rs) (length rs)"
  by (simp add: well_matched_def log_schema_def record_columns_def)

lemma column_type_iff:
  "column_type c = Utf8 \<longleftrightarrow> (\<exists>xs. c = StringArray xs)"
  "column_type c = UInt64 \<longleftrightarrow> (\<exists>ys. c = UInt64Array ys)"
  "column_type c = UInt32 \<longleftrightarrow> (\<exists>zs. c = UInt32Array zs)"
  "column_type c = Int64 \<longleftrightarrow> (\<exists>us. c = Int64Array us)"
  by (cases c; simp)+

lemma map_nth_eq: "length xs = n \<Longrightarrow> map (\<lambda>i. xs ! i) [0..<n] = xs"
  by (metis map_nth)

lemma well_matched_log_schema:
  assumes "well_matched log_schema cols n"
  shows "\<exists>rs. length rs = n \<and> cols = record_columns rs"
proof -
  obtain e b l t v w h j where cols: "cols = [StringArray e, UInt64Array b, UInt32Array l, Int64Array t,
      StringArray v, StringArray w, StringArray h, StringArray j]"
    using assms by (auto simp: well_matched_def log_schema_def map_eq_Cons_conv column_type_iff)
  let ?r = "\<lambda>i. \<lparr>sr_event_id = e ! i, sr_block_id = b ! i, sr_leaf_index = l ! i, sr_timestamp = t ! i,
      sr_vendor = v ! i, sr_raw_log = w ! i, sr_raw_hash = h ! i, sr_ocsf_json = j ! i\<rparr>"
  have "cols = record_columns (map ?r [0..<n])"
    using assms by (simp add: cols record_columns_def well_matched_def o_def map_nth_eq)
  then show ?thesis by (intro exI [of _ "map ?r [0..<n]"]) simp
qed

lemma record_columns_append:
  "map2 column_append (record_columns rs) (record_columns ss) = record_columns (rs @ ss)"
  by (simp add: record_columns_def)

lemma record_columns_inject: "record_columns rs = record_columns ss \<Longrightarrow> rs = ss"
proof -
  assume eq: "record_columns rs = record_columns ss"
  then have "length rs = length ss" by (metis length_map column.inject(1) list.inject record_columns_def)
  then show "rs = ss" using eq
    by (induction rs ss rule: list_induct2) (auto simp: record_columns_def)
qed

lemma records_to_batch_ok:
  "store_libs_ok L \<Longrightarrow> records_to_batch L rs =
     Ok \<lparr>rb_schema = log_schema, rb_columns = record_columns rs, rb_num_rows = length rs\<rparr>"
proof -
  assume "store_libs_ok L"
  then have "sl_try_new L log_schema (record_columns rs) =
      Some \<lparr>rb_schema = log_schema, rb_columns = record_columns rs, rb_num_rows = length rs\<rparr>"
    using well_matched_records by (auto simp: store_libs_ok_def log_schema_def)
  then show ?thesis by (simp add: records_to_batch_def)
qed

lemma batch_to_records_columns:
  assumes "rb_columns b = record_columns rs" "rb_num_rows b = length rs"
  shows "batch_to_records b = Some (Ok rs)"
proof -
  have "map_opt (\<lambda>i. do {
         event_id \<leftarrow> nth_opt (map sr_event_id rs) i;
         block_id \<leftarrow> nth_opt (map sr_block_id rs) i;
         leaf_index \<leftarrow> nth_opt (map sr_leaf_index rs) i;
         timestamp \<leftarrow> nth_opt (map sr_timestamp rs) i;
         vendor \<leftarrow> nth_opt (map sr_vendor rs) i;
         raw_log \<leftarrow> nth_opt (map sr_raw_log rs) i;
         raw_hash \<leftarrow> nth_opt (map sr_raw_hash rs) i;
         ocsf_json \<leftarrow> nth_opt (map sr_ocsf_json rs) i;
         Some \<lparr>sr_event_id = event_id, sr_block_id = block_id, sr_leaf_index = leaf_index,
               sr_timestamp = timestamp, sr_vendor = vendor, sr_raw_log = raw_log,
               sr_raw_hash = raw_hash, sr_ocsf_json = ocsf_json\<rparr>
       }) (map id [0..<length rs]) = Some (map (\<lambda>i. rs ! i) [0..<length rs])"
    by (rule map_opt_map) simp
  then show ?thesis
    by (simp add: batch_to_records_def assms get_str_def get_u64_def get_u32_def get_i64_def
        record_columns_def map_nth_eq)
qed

lemma read_batches_concat:
  "\<forall>b \<in> set bs. batch_ok log_schema b \<Longrightarrow>
     \<exists>rs. read_batches bs = Some (Ok rs) \<and> concat_columns log_schema bs = record_columns rs"
proof (induction bs)
  case Nil
  then show ?case by (simp add: concat_columns_def log_schema_def record_columns_def)
next
  case (Cons b bs)
  then obtain rs where rs: "read_batches bs = Some (Ok rs)"
    "concat_columns log_schema bs = record_columns rs" by auto
  obtain qs where qs: "length qs = rb_num_rows b" "rb_columns b = record_columns qs"
    using Cons.prems well_matched_log_schema [of "rb_columns b" "rb_num_rows b"] by (auto simp: batch_ok_def)
  then have "batch_to_records b = Some (Ok qs)" by (intro batch_to_records_columns) simp_all
  then show ?case using rs qs record_columns_append by (simp add: concat_columns_def)
qed

subsection \<open>The store contract\<close>

locale block_store =
  fixes trusted :: bool
    and store :: "'io \<Rightarrow> string \<Rightarrow> 'r list \<Rightarrow> fs \<Rightarrow> (unit, 'e) result \<times> fs"
    and load :: "string \<Rightarrow> fs \<Rightarrow> ('r list, 'e) comp"
  assumes load_store: "trusted \<Longrightarrow> store io p rs fs = (Ok u, fs') \<Longrightarrow> load p fs' = Some (Ok rs)"
    and store_frame: "store io p rs fs = (r, fs') \<Longrightarrow> p \<noteq> q \<Longrightarrow> fs' q = fs q"
    and load_local: "fs p = fs' p' \<Longrightarrow> load p fs = load p' fs'"
begin

lemma load_other: "store io p rs fs = (r, fs') \<Longrightarrow> p \<noteq> q \<Longrightarrow> load q fs' = load q fs"
  by (rule load_local) (rule store_frame)

fun store_all :: "('io \<times> string \<times> 'r list) list \<Rightarrow> fs \<Rightarrow> ((unit, 'e) result) list \<times> fs" where
  "store_all [] fs = ([], fs)"
| "store_all ((io, p, rs) # bs) fs =
     (let (r, fs1) = store io p rs fs; (out, fs2) = store_all bs fs1 in (r # out, fs2))"

lemma store_all_frame:
  "store_all bs fs = (out, fs') \<Longrightarrow> \<forall>b \<in> set bs. fst (snd b) \<noteq> q \<Longrightarrow> fs' q = fs q"
  by (induction bs fs arbitrary: out rule: store_all.induct)
    (auto simp: Let_def split: prod.splits dest: store_frame)

lemma load_store_all:
  assumes trusted
  shows "store_all bs fs = (out, fs') \<Longrightarrow> distinct (map (fst \<circ> snd) bs) \<Longrightarrow>
    (io, p, rs) \<in> set (map fst (filter (is_ok \<circ> snd) (zip bs out))) \<Longrightarrow> load p fs' = Some (Ok rs)"
proof (induction bs fs arbitrary: out rule: store_all.induct)
  case (2 io' p' rs' bs fs)
  obtain r fs1 out2 where s: "store io' p' rs' fs = (r, fs1)" "store_all bs fs1 = (out2, fs')" "out = r # out2"
    using 2(2) by (auto simp: Let_def split: prod.splits)
  show ?case
  proof (cases "(io, p, rs) = (io', p', rs') \<and> is_ok r")
    case True
    then obtain u where "r = Ok u" by (cases r) auto
    with s True have "load p fs1 = Some (Ok rs)" using load_store [OF assms] by auto
    moreover have "fs' p = fs1 p" using s 2(3) True by (intro store_all_frame [of bs fs1 out2]) force+
    ultimately show ?thesis using load_local by metis
  next
    case False
    then have "(io, p, rs) \<in> set (map fst (filter (is_ok \<circ> snd) (zip bs out2)))"
      using 2(4) s by (auto split: if_splits)
    then show ?thesis using 2 s by simp
  qed
qed simp

end

lemma write_read_parquet:
  assumes "store_libs_ok L" "write_records_to_parquet L io p rs c fs = (Ok u, fs')"
  shows "read_parquet_file L p fs' = Some (Ok rs)"
proof -
  let ?b = "\<lparr>rb_schema = log_schema, rb_columns = record_columns rs, rb_num_rows = length rs\<rparr>"
  have "write_parquet_file L io p ?b c fs = (Ok u, fs')"
    using assms(2) by (simp add: write_records_to_parquet_def records_to_batch_ok [OF assms(1)])
  then obtain bytes where bytes: "sl_pq_encode L c ?b = Some bytes" "fs' p = Some bytes"
    by (auto simp: write_parquet_file_def split: write_outcome.splits option.splits)
  obtain bs where bs: "sl_pq_decode L bytes = Some bs" "\<forall>b' \<in> set bs. batch_ok log_schema b'"
      "concat_columns log_schema bs = record_columns rs"
    using pq_decode_encode [OF assms(1) bytes(1)] by (auto simp: batch_ok_def well_matched_records)
  then obtain qs where "read_batches bs = Some (Ok qs)" "record_columns qs = record_columns rs"
    using read_batches_concat by metis
  then show ?thesis using bytes bs record_columns_inject by (auto simp: read_parquet_file_def)
qed

interpretation parquet: block_store "store_libs_ok L"
  "\<lambda>(io, c) p rs fs. write_records_to_parquet L io p rs c fs" "read_parquet_file L" for L
proof unfold_locales
  fix ioc p rs fs u fs'
  assume "store_libs_ok L" "(case ioc of (io, c) \<Rightarrow> \<lambda>p rs fs. write_records_to_parquet L io p rs c fs) p rs fs = (Ok u, fs')"
  then show "read_parquet_file L p fs' = Some (Ok rs)" using write_read_parquet by (cases ioc) auto
next
  fix ioc p rs fs r fs' and q :: string
  assume "(case ioc of (io, c) \<Rightarrow> \<lambda>p rs fs. write_records_to_parquet L io p rs c fs) p rs fs = (r, fs')" "p \<noteq> q"
  then show "fs' q = fs q"
    by (cases ioc) (auto simp: write_records_to_parquet_def write_parquet_file_def
        split: sum.splits write_outcome.splits option.splits)
next
  show "fs p = fs' p' \<Longrightarrow> read_parquet_file L p fs = read_parquet_file L p' fs'" for fs p fs' p'
    by (simp add: read_parquet_file_def)
qed

end
