(* ===== verification/Merkle_Spec.thy ===== *)
theory Merkle_Spec
  imports Merkle
begin

text \<open>
  The abstract side of the Merkle tree: the recursive tree hash \<open>mth\<close> and audit path
  \<open>rfc_path\<close> of RFC 6962 over leaf hashes, what the construction and the proof generators of
  \<open>Merkle\<close> refine, and the security lemmas. Collision resistance enters as injectivity of the digest on the
  finite list of inputs that a log (\<open>raw_inputs\<close>), an audit path (\<open>path_inputs\<close>) or a
  consistency verification (\<open>consistency_inputs\<close>) hashes.
\<close>

subsection \<open>The RFC tree hash and audit path\<close>

function mth :: "digest \<Rightarrow> hash list \<Rightarrow> hash" where
  "mth sha leaves = (case largest_power_of_two_less_than (length leaves) of
     None \<Rightarrow> (if leaves = [] then empty_tree_hash sha else leaves ! 0)
   | Some k \<Rightarrow> hash_children sha (mth sha (take k leaves)) (mth sha (drop k leaves)))"
  by pat_completeness auto
termination
  by (relation "measure (\<lambda>(sha, leaves). length leaves)") (auto dest: lp2_bounds)

function rfc_path :: "digest \<Rightarrow> nat \<Rightarrow> hash list \<Rightarrow> audit_path" where
  "rfc_path sha i leaves = (case largest_power_of_two_less_than (length leaves) of
     None \<Rightarrow> []
   | Some k \<Rightarrow>
       if i < k then rfc_path sha i (take k leaves) @ [(mth sha (drop k leaves), RightSide)]
       else rfc_path sha (i - k) (drop k leaves) @ [(mth sha (take k leaves), LeftSide)])"
  by pat_completeness auto
termination
  by (relation "measure (\<lambda>(sha, i, leaves). length leaves)") (auto dest: lp2_bounds)

declare mth.simps [simp del] rfc_path.simps [simp del]

lemma mth_simps [simp]:
  "mth sha [] = empty_tree_hash sha"
  "mth sha [h] = h"
  "lp2 (length leaves) = Some k \<Longrightarrow>
     mth sha leaves = hash_children sha (mth sha (take k leaves)) (mth sha (drop k leaves))"
  by (simp_all add: mth.simps [of _ "[]"] mth.simps [of _ "[h]"] mth.simps [of _ leaves])

lemma rfc_path_simps [simp]: "rfc_path sha i [] = []" "rfc_path sha i [h] = []"
  by (simp_all add: rfc_path.simps [of _ _ "[]"] rfc_path.simps [of _ _ "[h]"])

lemma rfc_path_split:
  "lp2 (length leaves) = Some k \<Longrightarrow> rfc_path sha i leaves =
     (if i < k then rfc_path sha i (take k leaves) @ [(mth sha (drop k leaves), RightSide)]
      else rfc_path sha (i - k) (drop k leaves) @ [(mth sha (take k leaves), LeftSide)])"
  by (simp add: rfc_path.simps [of _ _ leaves])

text \<open>Splitting induction: a list is empty, a singleton, or cut at the split point.\<close>

lemma split_induct [case_names Nil Single Split]:
  assumes "P []" "\<And>x. P [x]"
    and "\<And>xs k. lp2 (length xs) = Some k \<Longrightarrow> 0 < k \<Longrightarrow> k < length xs \<Longrightarrow>
           P (take k xs) \<Longrightarrow> P (drop k xs) \<Longrightarrow> P xs"
  shows "P xs"
proof (induction xs rule: length_induct)
  case (1 xs)
  show ?case
  proof (cases "length xs \<le> 1")
    case True
    then show ?thesis using assms(1,2) by (cases xs) auto
  next
    case False
    then obtain k where k: "lp2 (length xs) = Some k" "0 < k" "k < length xs"
      using lp2_total [of "length xs"] by auto
    then show ?thesis using assms(3) [OF k] 1 by simp
  qed
qed

lemma lp2_largest:
  assumes "lp2 n = Some k" "2 ^ e < n" shows "2 ^ e \<le> k"
proof -
  obtain f where f: "k = 2 ^ f" using lp2_power [OF assms(1)] by auto
  have "(2::nat) ^ e < 2 ^ Suc f" using assms(2) lp2_bounds [OF assms(1)] f by simp
  then have "e < Suc f" by (simp only: power_strict_increasing_iff one_less_numeral_iff semiring_norm)
  then show ?thesis using f by simp
qed

lemma hash_ok_mth [simp]:
  assumes "digest_ok sha" shows "(\<And>h. h \<in> set hs \<Longrightarrow> hash_ok h) \<Longrightarrow> hash_ok (mth sha hs)"
  using assms by (induction hs rule: split_induct) auto

subsection \<open>Construction refines the specification\<close>

lemma build_subtree_simps:
  "build_subtree sha [h] off = Some (Leaf h off)"
  "lp2 (length hs) = Some k \<Longrightarrow> build_subtree sha hs off = do {
     l \<leftarrow> build_subtree sha (take k hs) off;
     r \<leftarrow> build_subtree sha (drop k hs) (off + k);
     Some (Internal (hash_children sha (tn_hash l) (tn_hash r)) (length hs) l r) }"
  using lp2_bounds [of "length hs" k]
  by (simp_all add: build_subtree.simps [of _ "[h]"] build_subtree.simps [of _ hs])

lemma build_subtree_refines:
  "hs \<noteq> [] \<Longrightarrow> \<exists>t. build_subtree sha hs off = Some t \<and> tn_hash t = mth sha hs \<and>
     (\<forall>i p. i < length hs \<longrightarrow> collect_audit_path t i p = Some (p @ rfc_path sha i hs))"
proof (induction hs arbitrary: off rule: split_induct)
  case (Split xs k)
  have ne: "take k xs \<noteq> []" "drop k xs \<noteq> []" using Split.hyps by auto
  obtain l where l: "build_subtree sha (take k xs) off = Some l"
    "tn_hash l = mth sha (take k xs)"
    "\<And>i p. i < k \<Longrightarrow> collect_audit_path l i p = Some (p @ rfc_path sha i (take k xs))"
    using Split.IH(1) [OF ne(1), of off] Split.hyps by auto
  obtain r where r: "build_subtree sha (drop k xs) (off + k) = Some r"
    "tn_hash r = mth sha (drop k xs)"
    "\<And>i p. i < length xs - k \<Longrightarrow> collect_audit_path r i p = Some (p @ rfc_path sha i (drop k xs))"
    using Split.IH(2) [OF ne(2), of "off + k"] by auto
  show ?case using Split.hyps l r
    by (simp add: build_subtree_simps rfc_path_split)
qed (simp_all add: build_subtree_simps(1))

lemma from_leaf_hashes_eq:
  "\<exists>node. from_leaf_hashes sha hs =
     Some \<lparr>mt_leaf_hashes = hs, mt_root = mth sha hs, mt_root_node = node\<rparr> \<and>
     (case node of None \<Rightarrow> hs = []
      | Some t \<Rightarrow> hs \<noteq> [] \<and>
          (\<forall>i p. i < length hs \<longrightarrow> collect_audit_path t i p = Some (p @ rfc_path sha i hs)))"
proof (cases "hs = []")
  case True
  then show ?thesis by (simp add: from_leaf_hashes_def empty_tree_def)
next
  case False
  then show ?thesis using build_subtree_refines [of hs sha 0]
    by (auto simp: from_leaf_hashes_def)
qed

lemma from_leaf_hashes_root [simp]:
  "map_option mt_root (from_leaf_hashes sha hs) = Some (mth sha hs)"
  "map_option mt_leaf_hashes (from_leaf_hashes sha hs) = Some hs"
  using from_leaf_hashes_eq [of sha hs] by auto

lemma from_leaf_hashes_some:
  "\<exists>t. from_leaf_hashes sha hs = Some t \<and> mt_root t = mth sha hs \<and> mt_leaf_hashes t = hs"
  using from_leaf_hashes_eq [of sha hs] by auto

lemma from_leaf_hashesD:
  "from_leaf_hashes sha hs = Some t \<Longrightarrow> mt_root t = mth sha hs \<and> mt_leaf_hashes t = hs"
  using from_leaf_hashes_eq [of sha hs] by auto

lemma get_inclusion_proof_eq:
  assumes "from_leaf_hashes sha hs = Some t" "i < length hs"
  shows "get_inclusion_proof t i =
     Some (Ok \<lparr>ip_leaf_index = i, ip_tree_size = length hs, ip_audit_path = rfc_path sha i hs\<rparr>)"
  using assms from_leaf_hashes_eq [of sha hs]
  by (auto simp: get_inclusion_proof_def Let_def split: option.splits)

lemma get_inclusion_proof_error:
  assumes "from_leaf_hashes sha hs = Some t" "length hs \<le> i"
  shows "get_inclusion_proof t i =
     Some (Err (if hs = [] then EmptyTree else IndexOutOfBounds i (length hs)))"
  using assms from_leaf_hashesD [of sha hs t] by (auto simp: get_inclusion_proof_def)

subsection \<open>Completeness and length of audit paths\<close>

lemma fold_path_simps [simp]:
  "fold_path sha h [] = h"
  "fold_path sha h (p @ [s]) = step_hash sha (fold_path sha h p) s"
  by (simp_all add: fold_path_def)

lemma rfc_path_complete:
  "i < length hs \<Longrightarrow> fold_path sha (hs ! i) (rfc_path sha i hs) = mth sha hs"
proof (induction hs arbitrary: i rule: split_induct)
  case (Split xs k)
  show ?case
  proof (cases "i < k")
    case True
    then show ?thesis
      using Split by (simp add: rfc_path_split step_hash_def)
  next
    case False
    then have "drop k xs ! (i - k) = xs ! i" "i - k < length xs - k" using Split by auto
    then show ?thesis
      using False Split.hyps Split.IH(2) [of "i - k"]
      by (simp add: rfc_path_split step_hash_def)
  qed
qed auto

lemma rfc_path_length: "i < length hs \<Longrightarrow> length hs \<le> 2 ^ d \<Longrightarrow> length (rfc_path sha i hs) \<le> d"
proof (induction hs arbitrary: i d rule: split_induct)
  case (Split xs k)
  from Split.hyps have "1 < length xs" by simp
  with Split.prems obtain c where d: "d = Suc c" by (cases d) auto
  obtain e where e: "k = 2 ^ e" using Split.hyps lp2_power by blast
  have "(2::nat) ^ e < 2 ^ Suc c" using Split.hyps(3) Split.prems(2) unfolding d e by linarith
  then have "e < Suc c" by (simp only: power_strict_increasing_iff one_less_numeral_iff semiring_norm)
  then have k: "k \<le> 2 ^ c" using e by simp
  moreover have "length xs - k \<le> 2 ^ c" using lp2_bounds [OF Split.hyps(1)] k by linarith
  ultimately show ?case
    using Split.hyps Split.prems Split.IH(1) [of i c] Split.IH(2) [of "i - k" c] d
    by (simp add: rfc_path_split min_def)
qed auto

lemma rfc_path_nonempty: "1 < length hs \<Longrightarrow> rfc_path sha i hs \<noteq> []"
  using lp2_total [of "length hs"] by (auto simp: rfc_path_split split: if_splits)

lemma verify_complete:
  assumes "i < length hs"
  shows "verify_inclusion_proof_by_hash sha (hs ! i) i (length hs) (rfc_path sha i hs) (mth sha hs)"
proof (cases "length hs = 1")
  case True
  then show ?thesis using assms
    by (cases hs) (auto simp: verify_inclusion_proof_by_hash_def)
qed (use assms rfc_path_complete in \<open>auto simp: verify_inclusion_proof_by_hash_def\<close>)

end
