(* ===== verification/Merkle_Security.thy ===== *)
theory Merkle_Security
  imports Merkle_Spec
begin

text \<open>
  What the roots and proofs of the Merkle tree authenticate. Every statement is relative to a finite list of
  digest inputs on which the digest has no collision: \<open>raw_inputs\<close> collects what hashing a log computes,
  \<open>path_inputs\<close> what folding an audit path computes, \<open>consistency_inputs\<close> what verifying a
  consistency proof computes.
\<close>

definition collision_free :: "digest \<Rightarrow> u8 list list \<Rightarrow> bool" where
  "collision_free sha ins \<longleftrightarrow> (\<forall>x \<in> set ins. \<forall>y \<in> set ins. sha x = sha y \<longrightarrow> x = y)"

lemma collision_freeD:
  "collision_free sha ins \<Longrightarrow> x \<in> set ins \<Longrightarrow> y \<in> set ins \<Longrightarrow> sha x = sha y \<Longrightarrow> x = y"
  by (auto simp: collision_free_def)

lemma collision_free_mono:
  "collision_free sha ins \<Longrightarrow> set jns \<subseteq> set ins \<Longrightarrow> collision_free sha jns"
  by (auto simp: collision_free_def)

definition mth_raw :: "digest \<Rightarrow> u8 list list \<Rightarrow> hash" where
  "mth_raw sha logs = mth sha (map (hash_leaf sha) logs)"

definition top_input :: "digest \<Rightarrow> u8 list list \<Rightarrow> u8 list" where
  "top_input sha logs = (case largest_power_of_two_less_than (length logs) of
     None \<Rightarrow> (if logs = [] then [] else leaf_input (logs ! 0))
   | Some k \<Rightarrow> node_input (mth_raw sha (take k logs)) (mth_raw sha (drop k logs)))"

function raw_inputs :: "digest \<Rightarrow> u8 list list \<Rightarrow> u8 list list" where
  "raw_inputs sha logs = top_input sha logs #
     (case largest_power_of_two_less_than (length logs) of
        None \<Rightarrow> []
      | Some k \<Rightarrow> raw_inputs sha (take k logs) @ raw_inputs sha (drop k logs))"
  by pat_completeness auto
termination
  by (relation "measure (\<lambda>(sha, logs). length logs)") (auto dest: lp2_bounds)

declare raw_inputs.simps [simp del]

lemma raw_inputs_split:
  "lp2 (length logs) = Some k \<Longrightarrow>
     set (raw_inputs sha logs) =
       {top_input sha logs} \<union> set (raw_inputs sha (take k logs)) \<union> set (raw_inputs sha (drop k logs))"
  by (simp add: raw_inputs.simps [of _ logs])

lemma top_in_raw_inputs [simp]: "top_input sha logs \<in> set (raw_inputs sha logs)"
  by (simp add: raw_inputs.simps [of _ logs])

lemma top_input_simps [simp]:
  "top_input sha [] = []" "top_input sha [x] = leaf_input x"
  "lp2 (length logs) = Some k \<Longrightarrow> top_input sha logs =
     node_input (mth_raw sha (take k logs)) (mth_raw sha (drop k logs))"
  by (simp_all add: top_input_def)

lemma raw_inputs_simps [simp]:
  "raw_inputs sha [] = [[]]" "raw_inputs sha [x] = [leaf_input x]"
  by (simp_all add: raw_inputs.simps [of _ "[]"] raw_inputs.simps [of _ "[x]"])

text \<open>The shape of a log is determined by its top input.\<close>

lemma top_input_cases:
  obtains (Nil) "logs = []" "top_input sha logs = []"
    | (Single) x where "logs = [x]" "top_input sha logs = leaf_input x"
    | (Split) k where "lp2 (length logs) = Some k" "0 < k" "k < length logs"
        "top_input sha logs = node_input (mth_raw sha (take k logs)) (mth_raw sha (drop k logs))"
proof (cases "length logs \<le> 1")
  case True
  then show thesis using that(1,2) by (cases logs) auto
next
  case False
  then show thesis using that(3) lp2_total [of "length logs"] by auto
qed

lemma mth_raw_top: "mth_raw sha logs = Hash (sha (top_input sha logs))"
  by (cases rule: top_input_cases [of logs sha])
    (simp_all add: mth_raw_def hash_defs take_map drop_map)

lemma mth_raw_split:
  "lp2 (length logs) = Some k \<Longrightarrow>
     mth_raw sha logs = hash_children sha (mth_raw sha (take k logs)) (mth_raw sha (drop k logs))"
  by (simp add: mth_raw_def take_map drop_map)

lemma hash_ok_mth_raw [simp]: "digest_ok sha \<Longrightarrow> hash_ok (mth_raw sha logs)"
  by (simp add: mth_raw_top hash_ok_def)

lemma mth_raw_binding:
  assumes "digest_ok sha"
  shows "collision_free sha (raw_inputs sha xs @ raw_inputs sha ys) \<Longrightarrow>
           mth_raw sha xs = mth_raw sha ys \<Longrightarrow> xs = ys"
proof (induction xs arbitrary: ys rule: split_induct)
  case (Split xs k)
  have "top_input sha xs = top_input sha ys"
    using Split.prems by (auto simp: mth_raw_top elim!: collision_freeD)
  then obtain j where j: "lp2 (length ys) = Some j"
    and eq: "mth_raw sha (take k xs) = mth_raw sha (take j ys)"
            "mth_raw sha (drop k xs) = mth_raw sha (drop j ys)"
    using Split.hyps(1) assms by (cases rule: top_input_cases [of ys sha]) (auto dest: node_input_inject [rotated 2])
  have "take k xs = take j ys"
    using Split.prems(1) Split.hyps(1) j
    by (intro Split.IH(1) [OF _ eq(1)]) (auto simp: raw_inputs_split elim!: collision_free_mono)
  moreover have "drop k xs = drop j ys"
    using Split.prems(1) Split.hyps(1) j
    by (intro Split.IH(2) [OF _ eq(2)]) (auto simp: raw_inputs_split elim!: collision_free_mono)
  ultimately show ?case by (metis append_take_drop_id)
next
  case Nil
  then have "top_input sha [] = top_input sha ys"
    by (auto simp: mth_raw_top elim!: collision_freeD)
  then show ?case by (cases rule: top_input_cases [of ys sha]) auto
next
  case (Single x)
  then have "top_input sha [x] = top_input sha ys"
    by (auto simp: mth_raw_top elim!: collision_freeD)
  then show ?case by (cases rule: top_input_cases [of ys sha]) auto
qed

subsection \<open>Soundness of inclusion proofs\<close>

fun step_input :: "hash \<Rightarrow> hash \<times> side \<Rightarrow> u8 list" where
  "step_input current (sibling, RightSide) = node_input current sibling"
| "step_input current (sibling, LeftSide) = node_input sibling current"

fun path_inputs :: "digest \<Rightarrow> hash \<Rightarrow> audit_path \<Rightarrow> u8 list list" where
  "path_inputs sha h [] = []"
| "path_inputs sha h (s # p) = step_input h s # path_inputs sha (step_hash sha h s) p"

lemma step_hash_input: "step_hash sha h s = Hash (sha (step_input h s))"
  by (cases s; cases "snd s") (auto simp: step_hash_def hash_defs)

lemma path_inputs_append:
  "path_inputs sha h (p @ [s]) = path_inputs sha h p @ [step_input (fold_path sha h p) s]"
  by (induction p arbitrary: h) (auto simp: fold_path_def)

lemma hash_ok_fold_path:
  "digest_ok sha \<Longrightarrow> hash_ok h \<Longrightarrow> hash_ok (fold_path sha h p)"
  by (induction p rule: rev_induct) (auto simp: step_hash_input hash_ok_def)

lemma fold_path_sound:
  assumes "digest_ok sha"
  shows "\<forall>s \<in> set p. hash_ok (fst s) \<Longrightarrow>
         collision_free sha (leaf_input raw # path_inputs sha (hash_leaf sha raw) p @ raw_inputs sha logs) \<Longrightarrow>
         fold_path sha (hash_leaf sha raw) p = mth_raw sha logs \<Longrightarrow> raw \<in> set logs"
proof (induction p arbitrary: logs rule: rev_induct)
  case Nil
  then have "leaf_input raw = top_input sha logs"
    by (auto simp: mth_raw_top hash_defs elim!: collision_freeD)
  then show ?case by (cases rule: top_input_cases [of logs sha]) auto
next
  case (snoc s p)
  let ?c = "fold_path sha (hash_leaf sha raw) p"
  have "step_input ?c s = top_input sha logs"
    using snoc.prems by (auto simp: mth_raw_top step_hash_input path_inputs_append elim!: collision_freeD)
  moreover have "hash_ok ?c" using assms by (intro hash_ok_fold_path) auto
  moreover obtain sib sd where s: "s = (sib, sd)" by force
  ultimately obtain k half where k: "lp2 (length logs) = Some k"
    and half: "half = take k logs \<or> half = drop k logs" "?c = mth_raw sha half"
    using snoc.prems(1) assms
    by (cases sd; cases rule: top_input_cases [of logs sha])
      (auto dest!: node_input_inject [rotated 2])
  have "raw \<in> set half"
    using half snoc.prems(1,2) k
    by (intro snoc.IH) (auto simp: raw_inputs_split path_inputs_append elim!: collision_free_mono)
  then show ?case using half(1) by (auto dest: in_set_takeD in_set_dropD)
qed

end
