(* ===== verification/Merkle_Consistency.thy ===== *)
theory Merkle_Consistency
  imports Merkle_Security
begin

text \<open>
  Consistency proofs: every proof the tree generates verifies (completeness, with the proof stack of
  the verifier generalised to an arbitrary remainder), verification never fails the assertion of the split
  point, and a verified proof between the roots of two logs shows that the older log is a prefix of the newer
  one, unless the digest collides on the inputs that were hashed.
\<close>

subsection \<open>Unfolding one level\<close>

lemma verify_subproof_full_simps:
  "verify_subproof_full sha n n (rest @ [h]) = Some (Some ((h, h), rest))"
  "verify_subproof_full sha n n [] = Some None"
  "m \<noteq> n \<Longrightarrow> lp2 n = Some k \<Longrightarrow> verify_subproof_full sha m n [] = Some None"
  "m \<noteq> n \<Longrightarrow> lp2 n = Some k \<Longrightarrow> m \<le> k \<Longrightarrow> verify_subproof_full sha m n (rest @ [s]) =
     map_option (map_option (\<lambda>((a, b), r). ((a, hash_children sha b s), r)))
       (verify_subproof_full sha m k rest)"
  "lp2 n = Some k \<Longrightarrow> k < m \<Longrightarrow> m < n \<Longrightarrow> verify_subproof_full sha m n (rest @ [s]) =
     map_option (map_option (\<lambda>((a, b), r). ((hash_children sha s a, hash_children sha s b), r)))
       (verify_subproof_full sha (m - k) (n - k) rest)"
  by (simp_all add: verify_subproof_full.simps [of _ n n] verify_subproof_full.simps [of _ m n])

lemma verify_consistency_internal_simps:
  "verify_consistency_internal sha n n proof pr = Some (Some (pr, proof))"
  "m \<noteq> n \<Longrightarrow> lp2 n = Some k \<Longrightarrow> verify_consistency_internal sha m n [] pr = Some None"
  "m \<noteq> n \<Longrightarrow> lp2 n = Some k \<Longrightarrow> m \<le> k \<Longrightarrow> verify_consistency_internal sha m n (rest @ [s]) pr =
     map_option (map_option (\<lambda>(l, r). (hash_children sha l s, r)))
       (verify_consistency_internal sha m k rest pr)"
  "lp2 n = Some k \<Longrightarrow> k < m \<Longrightarrow> m < n \<Longrightarrow> verify_consistency_internal sha m n (rest @ [s]) pr =
     map_option (check_prev_root sha s pr)
       (verify_subproof_full sha (m - k) (n - k) rest)"
  by (simp_all add: verify_consistency_internal.simps [of _ n n]
      verify_consistency_internal.simps [of _ m n])

lemma subproof_simps:
  "subproof sha (length hs) hs True = Some []"
  "subproof sha (length hs) hs False = Some [mth sha hs]"
  "m \<noteq> length hs \<Longrightarrow> lp2 (length hs) = Some k \<Longrightarrow> m \<le> k \<Longrightarrow> subproof sha m hs b =
     map_option (\<lambda>p. p @ [mth sha (drop k hs)]) (subproof sha m (take k hs) b)"
  "lp2 (length hs) = Some k \<Longrightarrow> k < m \<Longrightarrow> m < length hs \<Longrightarrow> subproof sha m hs b =
     map_option (\<lambda>p. p @ [mth sha (take k hs)]) (subproof sha (m - k) (drop k hs) False)"
proof -
  show "subproof sha (length hs) hs True = Some []"
    by (simp add: subproof.simps [of _ "length hs"])
  show "subproof sha (length hs) hs False = Some [mth sha hs]"
    using from_leaf_hashes_some [of sha hs] by (auto simp: subproof.simps [of _ "length hs"])
  show "m \<noteq> length hs \<Longrightarrow> lp2 (length hs) = Some k \<Longrightarrow> m \<le> k \<Longrightarrow> subproof sha m hs b =
     map_option (\<lambda>p. p @ [mth sha (drop k hs)]) (subproof sha m (take k hs) b)"
    using from_leaf_hashes_some [of sha "drop k hs"]
    by (cases "subproof sha m (take k hs) b") (auto simp: subproof.simps [of _ m hs])
  show "lp2 (length hs) = Some k \<Longrightarrow> k < m \<Longrightarrow> m < length hs \<Longrightarrow> subproof sha m hs b =
     map_option (\<lambda>p. p @ [mth sha (take k hs)]) (subproof sha (m - k) (drop k hs) False)"
    using from_leaf_hashes_some [of sha "take k hs"]
    by (cases "subproof sha (m - k) (drop k hs) False") (auto simp: subproof.simps [of _ m hs])
qed

lemma mth_take_split:
  assumes "lp2 (length hs) = Some k" "k < m" "m \<le> length hs"
  shows "mth sha (take m hs) =
    hash_children sha (mth sha (take k hs)) (mth sha (take (m - k) (drop k hs)))"
proof -
  have "lp2 (length (take m hs)) = Some k"
    using lp2_mono_split [OF assms] assms by (simp add: min_def)
  then show ?thesis using assms by (simp add: min_def drop_take)
qed

subsection \<open>Completeness\<close>

lemma subproof_full_complete:
  "0 < m \<Longrightarrow> m \<le> length hs \<Longrightarrow> \<exists>p. subproof sha m hs False = Some p \<and>
     (\<forall>rest. verify_subproof_full sha m (length hs) (rest @ p) =
        Some (Some ((mth sha (take m hs), mth sha hs), rest)))"
proof (induction hs arbitrary: m rule: split_induct)
  case (Split xs k)
  consider "m = length xs" | "m < length xs" "m \<le> k" | "m < length xs" "k < m"
    using Split.prems by linarith
  then show ?case
  proof cases
    case 1
    then show ?thesis by (simp add: subproof_simps verify_subproof_full_simps)
  next
    case 2
    then obtain p where p: "subproof sha m (take k xs) False = Some p"
      "\<And>rest. verify_subproof_full sha m k (rest @ p) =
         Some (Some ((mth sha (take m xs), mth sha (take k xs)), rest))"
      using Split.IH(1) [of m] Split.prems Split.hyps by (auto simp: min_def)
    then show ?thesis
      using 2 Split.hyps
      by (simp add: subproof_simps verify_subproof_full_simps(4) flip: append_assoc)
  next
    case 3
    then have "0 < m - k" "m - k \<le> length (drop k xs)" by auto
    then obtain p where p: "subproof sha (m - k) (drop k xs) False = Some p"
      "\<And>rest. verify_subproof_full sha (m - k) (length xs - k) (rest @ p) =
         Some (Some ((mth sha (take (m - k) (drop k xs)), mth sha (drop k xs)), rest))"
      using Split.IH(2) [of "m - k"] by auto
    then show ?thesis
      using 3 Split.hyps
      by (simp add: subproof_simps verify_subproof_full_simps(5) mth_take_split flip: append_assoc)
  qed
qed (auto simp: subproof_simps [where hs = "[_]", simplified]
    verify_subproof_full_simps(1) [of _ "Suc 0"] le_Suc_eq)

lemma subproof_complete:
  "0 < m \<Longrightarrow> m \<le> length hs \<Longrightarrow> \<exists>p. subproof sha m hs True = Some p \<and>
     (\<forall>rest. verify_consistency_internal sha m (length hs) (rest @ p) (mth sha (take m hs)) =
        Some (Some (mth sha hs, rest)))"
proof (induction hs arbitrary: m rule: split_induct)
  case (Split xs k)
  consider "m = length xs" | "m < length xs" "m \<le> k" | "m < length xs" "k < m"
    using Split.prems by linarith
  then show ?case
  proof cases
    case 1
    then show ?thesis by (simp add: subproof_simps verify_consistency_internal_simps)
  next
    case 2
    then obtain p where p: "subproof sha m (take k xs) True = Some p"
      "\<And>rest. verify_consistency_internal sha m k (rest @ p) (mth sha (take m xs)) =
         Some (Some (mth sha (take k xs), rest))"
      using Split.IH(1) [of m] Split.prems Split.hyps by (auto simp: min_def)
    then show ?thesis
      using 2 Split.hyps
      by (simp add: subproof_simps verify_consistency_internal_simps(3) flip: append_assoc)
  next
    case 3
    then have "0 < m - k" "m - k \<le> length (drop k xs)" by auto
    then obtain p where p: "subproof sha (m - k) (drop k xs) False = Some p"
      "\<And>rest. verify_subproof_full sha (m - k) (length xs - k) (rest @ p) =
         Some (Some ((mth sha (take (m - k) (drop k xs)), mth sha (drop k xs)), rest))"
      using subproof_full_complete [of "m - k" "drop k xs" sha] by auto
    then show ?thesis
      using 3 Split.hyps
      by (simp add: subproof_simps verify_consistency_internal_simps(4) mth_take_split
          flip: append_assoc)
  qed
qed (auto simp: subproof_simps [where hs = "[_]", simplified]
    verify_consistency_internal_simps(1) [of _ "Suc 0"] le_Suc_eq)

subsection \<open>Verification never panics\<close>

lemma verify_subproof_full_total [panic_free]:
  "0 < m \<Longrightarrow> m \<le> n \<Longrightarrow> verify_subproof_full sha m n proof \<noteq> None"
proof (induction n arbitrary: m "proof" rule: less_induct)
  case (less n)
  show ?case
  proof (cases "m = n")
    case False
    with less.prems have "1 < n" by linarith
    then obtain k where k: "lp2 n = Some k" "0 < k" "k < n" using lp2_total by blast
    then show ?thesis
      using False less.prems less.IH [of k m] less.IH [of "n - k" "m - k"]
      by (cases "proof" rule: rev_cases; cases "m \<le> k") (auto simp: verify_subproof_full_simps)
  qed (cases "proof" rule: rev_cases; simp add: verify_subproof_full_simps)
qed

lemma verify_consistency_internal_total [panic_free]:
  "0 < m \<Longrightarrow> m \<le> n \<Longrightarrow> verify_consistency_internal sha m n proof pr \<noteq> None"
proof (induction n arbitrary: m "proof" rule: less_induct)
  case (less n)
  show ?case
  proof (cases "m = n")
    case False
    with less.prems have "1 < n" by linarith
    then obtain k where k: "lp2 n = Some k" "0 < k" "k < n" using lp2_total by blast
    then show ?thesis
      using False less.prems less.IH [of k m] verify_subproof_full_total [of "m - k" "n - k" sha]
      by (cases "proof" rule: rev_cases; cases "m \<le> k")
        (auto simp: verify_consistency_internal_simps)
  qed (simp add: verify_consistency_internal_simps)
qed

subsection \<open>Soundness\<close>

function subproof_inputs :: "digest \<Rightarrow> nat \<Rightarrow> nat \<Rightarrow> hash list \<Rightarrow> u8 list list" where
  "subproof_inputs sha m n proof =
     (if m = n then [] else case largest_power_of_two_less_than n of
        None \<Rightarrow> []
      | Some k \<Rightarrow> (case pop proof of
          None \<Rightarrow> []
        | Some (s, rest) \<Rightarrow>
            if m \<le> k then
              (case verify_subproof_full sha m k rest of
                 Some (Some ((a, b), _)) \<Rightarrow> node_input b s # subproof_inputs sha m k rest
               | _ \<Rightarrow> [])
            else
              (case verify_subproof_full sha (m - k) (n - k) rest of
                 Some (Some ((a, b), _)) \<Rightarrow>
                   node_input s a # node_input s b # subproof_inputs sha (m - k) (n - k) rest
               | _ \<Rightarrow> [])))"
  by pat_completeness auto
termination
  by (relation "measure (\<lambda>(sha, m, n, proof). n)") (auto dest: lp2_bounds)

declare subproof_inputs.simps [simp del]

function consistency_inputs :: "digest \<Rightarrow> nat \<Rightarrow> nat \<Rightarrow> hash list \<Rightarrow> hash \<Rightarrow> u8 list list" where
  "consistency_inputs sha m n proof pr =
     (if m = n then [] else case largest_power_of_two_less_than n of
        None \<Rightarrow> []
      | Some k \<Rightarrow> (case pop proof of
          None \<Rightarrow> []
        | Some (s, rest) \<Rightarrow>
            if m \<le> k then
              (case verify_consistency_internal sha m k rest pr of
                 Some (Some (l, _)) \<Rightarrow> node_input l s # consistency_inputs sha m k rest pr
               | _ \<Rightarrow> [])
            else
              (case verify_subproof_full sha (m - k) (n - k) rest of
                 Some (Some ((a, b), _)) \<Rightarrow>
                   node_input s a # node_input s b # subproof_inputs sha (m - k) (n - k) rest
               | _ \<Rightarrow> [])))"
  by pat_completeness auto
termination
  by (relation "measure (\<lambda>(sha, m, n, proof, pr). n)") (auto dest: lp2_bounds)

declare consistency_inputs.simps [simp del]

lemma verify_subproof_full_ok:
  assumes "digest_ok sha"
  shows "verify_subproof_full sha m n proof = Some (Some ((a, b), rest)) \<Longrightarrow>
    0 < m \<Longrightarrow> m \<le> n \<Longrightarrow> \<forall>h \<in> set proof. hash_ok h \<Longrightarrow> hash_ok a \<and> hash_ok b"
proof (induction n arbitrary: m "proof" a b rest rule: less_induct)
  case (less n)
  then have ne: "proof \<noteq> []"
    by (auto simp: verify_subproof_full.simps [of _ m n] split: option.splits if_splits)
  then obtain pf s where pf: "proof = pf @ [s]" by (cases "proof" rule: rev_cases) auto
  show ?case
  proof (cases "m = n")
    case True
    with less.prems pf show ?thesis by (auto simp: verify_subproof_full_simps)
  next
    case False
    with less.prems have "1 < n" by linarith
    then obtain k where k: "lp2 n = Some k" "0 < k" "k < n" using lp2_total by blast
    then show ?thesis
      using less.prems False pf assms less.IH [of k m pf] less.IH [of "n - k" "m - k" pf]
      by (cases "m \<le> k") (auto simp: verify_subproof_full_simps)
  qed
qed

lemma mth_raw_splitD:
  assumes "digest_ok sha" "hash_ok a" "hash_ok b" "lp2 (length logs) = Some k"
    and "hash_children sha a b = mth_raw sha logs"
    and "collision_free sha ins" "node_input a b \<in> set ins" "top_input sha logs \<in> set ins"
  shows "a = mth_raw sha (take k logs) \<and> b = mth_raw sha (drop k logs)"
proof -
  have "node_input a b = top_input sha logs"
    using assms by (auto simp: mth_raw_top hash_defs elim!: collision_freeD)
  then show ?thesis using assms by (auto dest: node_input_inject [rotated 2])
qed

lemma verify_consistency_internal_ok:
  assumes "digest_ok sha"
  shows "verify_consistency_internal sha m n proof pr = Some (Some (l, rest)) \<Longrightarrow> hash_ok pr \<Longrightarrow> hash_ok l"
  using assms
  by (auto simp: verify_consistency_internal.simps [of _ m n] check_prev_root_eq_Some_iff
      split: option.splits if_splits)

text \<open>The two ways one verification step extends a prefix, used by both verifiers.\<close>

lemma prefix_step_left:
  assumes ok: "digest_ok sha" "hash_ok b" "hash_ok s"
    and n: "lp2 (length new) = Some k" "m \<le> k"
    and root: "hash_children sha b s = mth_raw sha new"
    and cf: "collision_free sha (node_input b s # ins @ raw_inputs sha old @ raw_inputs sha new)"
    and IH: "b = mth_raw sha (take k new) \<Longrightarrow>
      collision_free sha (ins @ raw_inputs sha old @ raw_inputs sha (take k new)) \<Longrightarrow>
      old = take m (take k new)"
  shows "old = take m new"
proof -
  have "b = mth_raw sha (take k new) \<and> s = mth_raw sha (drop k new)"
    by (rule mth_raw_splitD [OF ok n(1) root cf]) simp_all
  then have "old = take m (take k new)"
    using cf raw_inputs_split [OF n(1), of sha] by (intro IH) (auto elim!: collision_free_mono)
  then show ?thesis using n(2) by (simp add: min_def)
qed

lemma prefix_step_right:
  assumes ok: "digest_ok sha" "hash_ok a" "hash_ok b" "hash_ok s"
    and n: "lp2 (length new) = Some k" "k < length old" "length old < length new"
    and root: "hash_children sha s a = mth_raw sha old" "hash_children sha s b = mth_raw sha new"
    and cf: "collision_free sha (node_input s a # node_input s b # ins @
               raw_inputs sha old @ raw_inputs sha new)"
    and IH: "a = mth_raw sha (drop k old) \<Longrightarrow> b = mth_raw sha (drop k new) \<Longrightarrow>
      collision_free sha (ins @ raw_inputs sha (drop k old) @ raw_inputs sha (drop k new)) \<Longrightarrow>
      drop k old = take (length old - k) (drop k new)"
  shows "old = take (length old) new"
proof -
  have lpo: "lp2 (length old) = Some k"
    using n(1,2) less_imp_le [OF n(3)] by (rule lp2_mono_split)
  have new: "s = mth_raw sha (take k new) \<and> b = mth_raw sha (drop k new)"
    by (rule mth_raw_splitD [OF ok(1,4,3) n(1) root(2) cf]) simp_all
  have old: "s = mth_raw sha (take k old) \<and> a = mth_raw sha (drop k old)"
    by (rule mth_raw_splitD [OF ok(1,4,2) lpo root(1) cf]) simp_all
  note sub = raw_inputs_split [OF lpo, of sha] raw_inputs_split [OF n(1), of sha]
  have "take k old = take k new"
  proof (rule mth_raw_binding [OF ok(1)])
    show "collision_free sha (raw_inputs sha (take k old) @ raw_inputs sha (take k new))"
      by (rule collision_free_mono [OF cf]) (use sub in auto)
  qed (use new old in simp)
  moreover have "drop k old = take (length old - k) (drop k new)"
  proof (rule IH)
    show "collision_free sha (ins @ raw_inputs sha (drop k old) @ raw_inputs sha (drop k new))"
      by (rule collision_free_mono [OF cf]) (use sub in auto)
  qed (use new old in simp_all)
  ultimately have "old = take k new @ take (length old - k) (drop k new)"
    by (metis append_take_drop_id)
  also have "\<dots> = take (length old) new" using n(2) take_add [of k "length old - k" new] by simp
  finally show ?thesis .
qed

text \<open>Where a verification step stands: at the end, left or right of the split point.\<close>

lemma consistency_cases:
  assumes "0 < m" "m \<le> n"
  obtains (Same) "m = n"
    | (Left) k where "lp2 n = Some k" "m < n" "m \<le> k" "0 < k" "k < n"
    | (Right) k where "lp2 n = Some k" "m < n" "k < m" "0 < k" "k < n"
proof (cases "m = n")
  case False
  then obtain k where "lp2 n = Some k" "0 < k" "k < n" using lp2_total [of n] assms by auto
  then show thesis using that(2,3) assms False by (cases "m \<le> k") auto
qed (use that in simp)

lemma subproof_full_sound:
  assumes ok: "digest_ok sha"
  shows "verify_subproof_full sha (length old) n proof =
      Some (Some ((mth_raw sha old, mth_raw sha new), rest)) \<Longrightarrow>
    0 < length old \<Longrightarrow> length old \<le> n \<Longrightarrow> \<forall>h \<in> set proof. hash_ok h \<Longrightarrow> length new = n \<Longrightarrow>
    collision_free sha (subproof_inputs sha (length old) n proof @ raw_inputs sha old @ raw_inputs sha new) \<Longrightarrow>
    old = take (length old) new"
proof (induction n arbitrary: "proof" old new rest rule: less_induct)
  case (less n)
  then have "proof \<noteq> []"
    by (auto simp: verify_subproof_full.simps [of _ "length old" n] split: option.splits if_splits)
  then obtain pf s where pf: "proof = pf @ [s]" by (cases "proof" rule: rev_cases) auto
  show ?case
  proof (cases rule: consistency_cases [OF less.prems(2,3)])
    case 1
    then have "mth_raw sha old = mth_raw sha new"
      using less.prems pf by (auto simp: verify_subproof_full_simps)
    then have "old = new"
      using less.prems(6) by (intro mth_raw_binding [OF ok]) (auto elim!: collision_free_mono)
    then show ?thesis by simp
  next
    case (2 k)
    obtain b r where b: "verify_subproof_full sha (length old) k pf = Some (Some ((mth_raw sha old, b), r))"
      "hash_children sha b s = mth_raw sha new"
      using less.prems(1) 2 pf by (auto simp: verify_subproof_full_simps(4))
    show ?thesis
    proof (rule prefix_step_left [OF ok _ _ _ 2(3) b(2)])
      show "collision_free sha (node_input b s # subproof_inputs sha (length old) k pf
              @ raw_inputs sha old @ raw_inputs sha new)"
        using less.prems(6) 2 pf b by (simp add: subproof_inputs.simps [of _ "length old" n])
      show "old = take (length old) (take k new)" if "b = mth_raw sha (take k new)"
        "collision_free sha (subproof_inputs sha (length old) k pf @ raw_inputs sha old @ raw_inputs sha (take k new))"
        using that b less.prems 2 pf by (intro less.IH [of k old pf]) auto
    qed (use less.prems 2 pf verify_subproof_full_ok [OF ok b(1)] in auto)
  next
    case (3 k)
    obtain a b r where b: "verify_subproof_full sha (length old - k) (n - k) pf = Some (Some ((a, b), r))"
      "hash_children sha s a = mth_raw sha old" "hash_children sha s b = mth_raw sha new"
      using less.prems(1) 3 pf by (auto simp: verify_subproof_full_simps(5))
    show ?thesis
    proof (rule prefix_step_right [OF ok _ _ _ _ 3(3) _ b(2,3)])
      show "collision_free sha (node_input s a # node_input s b #
          subproof_inputs sha (length old - k) (n - k) pf @ raw_inputs sha old @ raw_inputs sha new)"
        using less.prems(6) 3 pf b by (simp add: subproof_inputs.simps [of _ "length old" n])
      show "drop k old = take (length old - k) (drop k new)"
        if "a = mth_raw sha (drop k old)" "b = mth_raw sha (drop k new)"
          "collision_free sha (subproof_inputs sha (length old - k) (n - k) pf @
             raw_inputs sha (drop k old) @ raw_inputs sha (drop k new))"
        using that b less.prems 3 pf less.IH [of "n - k" "drop k old" pf "drop k new" r] by auto
    qed (use less.prems 3 pf verify_subproof_full_ok [OF ok b(1)] in auto)
  qed
qed

lemma consistency_internal_sound:
  assumes ok: "digest_ok sha"
  shows "verify_consistency_internal sha (length old) n proof (mth_raw sha old) =
      Some (Some (mth_raw sha new, rest)) \<Longrightarrow>
    0 < length old \<Longrightarrow> length old \<le> n \<Longrightarrow> \<forall>h \<in> set proof. hash_ok h \<Longrightarrow> length new = n \<Longrightarrow>
    collision_free sha (consistency_inputs sha (length old) n proof (mth_raw sha old)
       @ raw_inputs sha old @ raw_inputs sha new) \<Longrightarrow>
    old = take (length old) new"
proof (induction n arbitrary: "proof" old new rest rule: less_induct)
  case (less n)
  show ?case
  proof (cases rule: consistency_cases [OF less.prems(2,3)])
    case 1
    then have "mth_raw sha old = mth_raw sha new"
      using less.prems by (auto simp: verify_consistency_internal_simps)
    then have "old = new"
      using less.prems(6) by (intro mth_raw_binding [OF ok]) (auto elim!: collision_free_mono)
    then show ?thesis by simp
  next
    case (2 k)
    then obtain pf s where pf: "proof = pf @ [s]"
      using less.prems(1) by (cases "proof" rule: rev_cases) (auto simp: verify_consistency_internal_simps)
    obtain l r where b: "verify_consistency_internal sha (length old) k pf (mth_raw sha old) = Some (Some (l, r))"
      "hash_children sha l s = mth_raw sha new"
      using less.prems(1) 2 pf by (auto simp: verify_consistency_internal_simps(3))
    show ?thesis
    proof (rule prefix_step_left [OF ok _ _ _ 2(3) b(2)])
      show "collision_free sha (node_input l s # consistency_inputs sha (length old) k pf (mth_raw sha old)
              @ raw_inputs sha old @ raw_inputs sha new)"
        using less.prems(6) 2 pf b by (simp add: consistency_inputs.simps [of _ "length old" n])
      show "old = take (length old) (take k new)" if "l = mth_raw sha (take k new)"
        "collision_free sha (consistency_inputs sha (length old) k pf (mth_raw sha old)
           @ raw_inputs sha old @ raw_inputs sha (take k new))"
        using that b less.prems 2 pf by (intro less.IH [of k old pf]) auto
    qed (use less.prems 2 pf verify_consistency_internal_ok [OF ok b(1)] ok in auto)
  next
    case (3 k)
    then obtain pf s where pf: "proof = pf @ [s]"
      using less.prems(1) by (cases "proof" rule: rev_cases) (auto simp: verify_consistency_internal_simps)
    obtain a b r where b: "verify_subproof_full sha (length old - k) (n - k) pf = Some (Some ((a, b), r))"
      "hash_children sha s a = mth_raw sha old" "hash_children sha s b = mth_raw sha new"
      using less.prems(1) 3 pf
      by (auto simp: verify_consistency_internal_simps(4) check_prev_root_eq_Some_iff)
    show ?thesis
    proof (rule prefix_step_right [OF ok _ _ _ _ 3(3) _ b(2,3)])
      show "collision_free sha (node_input s a # node_input s b #
          subproof_inputs sha (length old - k) (n - k) pf @ raw_inputs sha old @ raw_inputs sha new)"
        using less.prems(6) 3 pf b by (simp add: consistency_inputs.simps [of _ "length old" n])
      show "drop k old = take (length old - k) (drop k new)"
        if "a = mth_raw sha (drop k old)" "b = mth_raw sha (drop k new)"
          "collision_free sha (subproof_inputs sha (length old - k) (n - k) pf @
             raw_inputs sha (drop k old) @ raw_inputs sha (drop k new))"
        using that b less.prems 3 pf
          subproof_full_sound [OF ok, of "drop k old" "n - k" pf "drop k new" r] by auto
    qed (use less.prems 3 pf verify_subproof_full_ok [OF ok b(1)] in auto)
  qed
qed

end
