(* ===== verification/Merkle_Properties.thy ===== *)
theory Merkle_Properties
  imports Merkle_Consistency
begin

text \<open>
  The contract the rest of the integrity layer relies on, as the locale \<open>log_commitment\<close> with its
  interpretation on the Merkle tree, and the properties of \<open>merkle.rs\<close>. The digest
  \<open>test_digest\<close> is a small checksum used only to evaluate the statements at concrete inputs.
\<close>

subsection \<open>Commitments to logs\<close>

locale log_commitment =
  fixes commit :: "'a list \<Rightarrow> 'h"
    and safe :: "'a list \<Rightarrow> 'a list \<Rightarrow> bool"
    and member :: "'a \<Rightarrow> 'p \<Rightarrow> 'h \<Rightarrow> bool"
    and proof_of :: "'a list \<Rightarrow> nat \<Rightarrow> 'p"
  assumes binding: "safe xs ys \<Longrightarrow> commit xs = commit ys \<Longrightarrow> xs = ys"
    and member_complete: "i < length xs \<Longrightarrow> member (xs ! i) (proof_of xs i) (commit xs)"
begin

lemma detects: "safe xs ys \<Longrightarrow> xs \<noteq> ys \<Longrightarrow> commit xs \<noteq> commit ys"
  using binding by blast

lemma blocks_binding:
  "list_all2 safe xss yss \<Longrightarrow> map commit xss = map commit yss \<Longrightarrow> xss = yss"
  by (induction rule: list_all2_induct) (auto dest: binding)

lemma all_members: "x \<in> set xs \<Longrightarrow> \<exists>p. member x p (commit xs)"
  using member_complete by (metis in_set_conv_nth)

end

definition merkle_safe :: "digest \<Rightarrow> u8 list list \<Rightarrow> u8 list list \<Rightarrow> bool" where
  "merkle_safe sha xs ys \<longleftrightarrow>
     digest_ok sha \<and> collision_free sha (raw_inputs sha xs @ raw_inputs sha ys)"

interpretation rfc6962: log_commitment
  "mth_raw sha" "merkle_safe sha"
  "\<lambda>raw p root. ip_verify sha p raw root"
  "\<lambda>logs i. \<lparr>ip_leaf_index = i, ip_tree_size = length logs,
             ip_audit_path = rfc_path sha i (map (hash_leaf sha) logs)\<rparr>"
  for sha
proof unfold_locales
  show "merkle_safe sha xs ys \<Longrightarrow> mth_raw sha xs = mth_raw sha ys \<Longrightarrow> xs = ys" for xs ys
    using mth_raw_binding by (auto simp: merkle_safe_def)
next
  show "i < length xs \<Longrightarrow> ip_verify sha \<lparr>ip_leaf_index = i, ip_tree_size = length xs,
      ip_audit_path = rfc_path sha i (map (hash_leaf sha) xs)\<rparr> (xs ! i) (mth_raw sha xs)" for i xs
    using verify_complete [of i "map (hash_leaf sha) xs" sha]
    by (simp add: ip_verify_def verify_inclusion_proof_def mth_raw_def)
qed

lemma from_raw_logs_some:
  "\<exists>t. from_raw_logs sha logs = Some t \<and> mt_root t = mth_raw sha logs \<and>
       mt_leaf_hashes t = map (hash_leaf sha) logs"
  using from_leaf_hashes_some by (auto simp: from_raw_logs_def mth_raw_def)

lemma from_raw_logsD:
  "from_raw_logs sha logs = Some t \<Longrightarrow>
     mt_root t = mth_raw sha logs \<and> mt_leaf_hashes t = map (hash_leaf sha) logs"
  using from_raw_logs_some [of sha logs] by auto

subsection \<open>A checksum to evaluate with\<close>

definition test_digest :: digest where
  "test_digest xs = foldl (\<lambda>a b. a * 31 + b + 1) 7 xs # replicate 31 0"

lemma digest_ok_test [simp]: "digest_ok test_digest"
  by (simp add: digest_ok_def test_digest_def)

lemma collision_free_code:
  "distinct (map sha (remdups ins)) \<Longrightarrow> collision_free sha ins"
  by (auto simp: collision_free_def distinct_map inj_on_def)

subsection \<open>Properties\<close>

text \<open>
  C1. Building a tree from raw logs never panics, and the root it stores is the RFC 6962 tree hash of the
  leaf hashes \<open>SHA256(0x00 || log)\<close>, in order; the leaf hashes are kept as given.
\<close>
theorem tree_refines_rfc6962:
  "map_option mt_root (from_raw_logs sha logs) = Some (mth sha (map (hash_leaf sha) logs)) \<and>
   map_option mt_leaf_hashes (from_raw_logs sha logs) = Some (map (hash_leaf sha) logs)"
  by (simp add: from_raw_logs_def)

text \<open>
  C3. For every position of a log the tree produces an inclusion proof that verifies against the root, and
  the audit path has fewer than \<open>1 + log\<^sub>2 n\<close> steps.
\<close>
theorem inclusion_proof_complete:
  assumes "i < length logs"
  shows "\<exists>t p. from_raw_logs sha logs = Some t \<and> get_inclusion_proof t i = Some (Ok p) \<and>
           ip_verify sha p (logs ! i) (mt_root t) \<and> ip_leaf_index p = i \<and>
           2 ^ length (ip_audit_path p) < 2 * length logs"
proof -
  let ?hs = "map (hash_leaf sha) logs"
  obtain t where t: "from_raw_logs sha logs = Some t" "mt_root t = mth_raw sha logs"
    using from_raw_logs_some by blast
  have len: "2 ^ length (rfc_path sha i ?hs) < 2 * length logs"
  proof (cases "length logs \<le> 1")
    case False
    let ?e = "floor_log2 (length logs - 1)"
    have e: "2 ^ ?e \<le> length logs - 1" "length logs - 1 < 2 * 2 ^ ?e"
      using False floor_log2_bounds [of "length logs - 1"] by auto
    then have "length (rfc_path sha i ?hs) \<le> Suc ?e"
      using assms False by (intro rfc_path_length) auto
    then have "2 ^ length (rfc_path sha i ?hs) \<le> (2::nat) ^ Suc ?e"
      by (rule power_increasing) simp
    then show ?thesis using e False by simp
  qed (use assms in \<open>cases logs; simp\<close>)
  show ?thesis
    using t assms len get_inclusion_proof_eq [of sha ?hs t i] rfc6962.member_complete [of i logs sha]
    by (auto simp: from_raw_logs_def)
qed

theorem inclusion_proof_complete_witness:
  "\<exists>t p. from_raw_logs test_digest [[1], [2], [3]] = Some t \<and>
     get_inclusion_proof t 2 = Some (Ok p) \<and> ip_verify test_digest p [3] (mt_root t) \<and>
     ip_leaf_index p = 2 \<and> (2::nat) ^ length (ip_audit_path p) < 2 * 3"
  using inclusion_proof_complete [of 2 "[[1], [2], [3]]" test_digest] by simp

text \<open>
  C16. The root binds the log: two logs with the same root are equal, whatever their lengths, unless the
  digest collides on the inputs that hashing them computes.
\<close>
theorem root_binds_logs:
  assumes "from_raw_logs sha xs = Some s" "from_raw_logs sha ys = Some t" "mt_root s = mt_root t"
    and "merkle_safe sha xs ys"
  shows "xs = ys"
  using assms rfc6962.binding from_raw_logsD by metis

theorem root_binds_logs_witness:
  "the (from_raw_logs test_digest [[1], [2]]) = the (from_raw_logs test_digest ([[1]] @ [[2]])) \<and>
   [[1], [2]] = [[1]] @ [[2 :: u8]]"
proof -
  obtain t where t: "from_raw_logs test_digest [[1], [2]] = Some t"
    using from_raw_logs_some by blast
  have "merkle_safe test_digest [[1], [2]] [[1], [2]]"
    unfolding merkle_safe_def by (rule conjI [OF digest_ok_test collision_free_code]) code_simp
  then have "[[1], [2]] = [[1], [2 :: u8]]" by (rule root_binds_logs [OF t t refl])
  then show ?thesis by simp
qed

text \<open>
  C2. A raw log whose inclusion proof verifies against the root of a log is an entry of that log, for any
  claimed index and size: a proof cannot be forged for a line that was never committed.
\<close>
theorem inclusion_proof_sound:
  assumes "digest_ok sha" "verify_inclusion_proof sha raw i n path (mth_raw sha logs)"
    and "\<forall>s \<in> set path. hash_ok (fst s)"
    and "collision_free sha
           (leaf_input raw # path_inputs sha (hash_leaf sha raw) path @ raw_inputs sha logs)"
  shows "raw \<in> set logs"
proof -
  have "fold_path sha (hash_leaf sha raw) path = mth_raw sha logs"
    using assms(2)
    by (auto simp: verify_inclusion_proof_def verify_inclusion_proof_by_hash_def split: if_splits)
  then show ?thesis using fold_path_sound [OF assms(1,3,4)] by simp
qed

theorem inclusion_proof_sound_witness:
  "[3] \<in> set [[1], [2], [3 :: u8]]"
proof (rule inclusion_proof_sound [of test_digest _ 2 3 "[(mth_raw test_digest [[1], [2]], LeftSide)]"])
  show "digest_ok test_digest" by simp
  show "verify_inclusion_proof test_digest [3] 2 3 [(mth_raw test_digest [[1], [2]], LeftSide)]
          (mth_raw test_digest [[1], [2], [3]])" by code_simp
  show "\<forall>s \<in> set [(mth_raw test_digest [[1], [2]], LeftSide)]. hash_ok (fst s)" by simp
  show "collision_free test_digest (leaf_input [3] #
      path_inputs test_digest (hash_leaf test_digest [3]) [(mth_raw test_digest [[1], [2]], LeftSide)] @
      raw_inputs test_digest [[1], [2], [3]])"
    by (rule collision_free_code) code_simp
qed

text \<open>
  The verifier does not authenticate the position. A proof that verifies for one index and tree size
  (of two or more leaves) verifies for every other index below every other such size, because only the
  sides stored in the path steer the fold.
\<close>
theorem inclusion_position_unauthenticated:
  assumes "verify_inclusion_proof_by_hash sha leaf i n path root" "2 \<le> n"
    and "j < m" "2 \<le> m"
  shows "verify_inclusion_proof_by_hash sha leaf j m path root"
  using assms by (auto simp: verify_inclusion_proof_by_hash_def split: if_splits)

theorem inclusion_position_unauthenticated_witness:
  "verify_inclusion_proof_by_hash test_digest (hash_leaf test_digest [1]) 1 2
     [(hash_leaf test_digest [2], RightSide)] (mth_raw test_digest [[1], [2]])"
proof (rule inclusion_position_unauthenticated [where i = 0 and n = 2])
  show "verify_inclusion_proof_by_hash test_digest (hash_leaf test_digest [1]) 0 2
     [(hash_leaf test_digest [2], RightSide)] (mth_raw test_digest [[1], [2]])" by code_simp
qed simp_all

text \<open>
  C5. A consistency proof is produced for exactly the previous sizes from 1 to the current size, without
  panicking, and verifies between the root of the first \<open>m\<close> logs and the current root; any other
  size is the error \<open>InvalidConsistencySize\<close>.
\<close>
theorem consistency_proof_complete:
  assumes "from_raw_logs sha logs = Some t"
  shows "\<exists>r. consistency_proof sha t m = Some r \<and>
    (case r of
       Inr p \<Rightarrow> 0 < m \<and> m \<le> length logs \<and>
         verify_consistency_proof sha m (length logs) (mth_raw sha (take m logs)) (mt_root t) p = Some True
     | Inl e \<Rightarrow> (m = 0 \<or> length logs < m) \<and> e = InvalidConsistencySize m (length logs))"
proof -
  note t = from_raw_logsD [OF assms]
  consider "m = 0 \<or> length logs < m" | "0 < m" "m = length logs" | "0 < m" "m < length logs" by linarith
  then show ?thesis
  proof cases
    case 3
    then obtain p where "subproof sha m (map (hash_leaf sha) logs) True = Some p"
      "\<And>rest. verify_consistency_internal sha m (length logs) (rest @ p) (mth_raw sha (take m logs)) =
         Some (Some (mth_raw sha logs, rest))"
      using subproof_complete [of m "map (hash_leaf sha) logs" sha] by (auto simp: mth_raw_def take_map)
    from this(1) this(2) [of "[]"] show ?thesis
      using 3 t by (simp add: consistency_proof_def verify_consistency_proof_def)
  qed (use t in \<open>auto simp: consistency_proof_def verify_consistency_proof_def\<close>)
qed

theorem consistency_proof_complete_witness:
  "\<exists>t r. from_raw_logs test_digest [[1], [2], [3]] = Some t \<and> consistency_proof test_digest t 2 = Some r \<and>
    (case r of
       Inr p \<Rightarrow> 0 < (2::nat) \<and> 2 \<le> length [[1], [2], [3 :: u8]] \<and>
         verify_consistency_proof test_digest 2 (length [[1], [2], [3 :: u8]])
           (mth_raw test_digest (take 2 [[1], [2], [3]])) (mt_root t) p = Some True
     | Inl e \<Rightarrow> (2 = (0::nat) \<or> length [[1], [2], [3 :: u8]] < 2) \<and>
         e = InvalidConsistencySize 2 (length [[1], [2], [3 :: u8]]))"
proof -
  obtain t where t: "from_raw_logs test_digest [[1], [2], [3]] = Some t"
    using from_raw_logs_some by blast
  show ?thesis using t consistency_proof_complete [OF t, of 2] by blast
qed

text \<open>
  C4. A consistency proof that verifies between the roots of two logs shows that the older log is a prefix
  of the newer one: history was only appended to.
\<close>
theorem consistency_proof_sound:
  assumes "digest_ok sha"
    and "verify_consistency_proof sha (length old) (length new) (mth_raw sha old) (mth_raw sha new) p
         = Some True"
    and "\<forall>h \<in> set p. hash_ok h"
    and "collision_free sha (consistency_inputs sha (length old) (length new) p (mth_raw sha old)
           @ raw_inputs sha old @ raw_inputs sha new)"
  shows "old = take (length old) new"
proof (cases "length old = length new")
  case True
  then have "mth_raw sha old = mth_raw sha new"
    using assms(2) by (auto simp: verify_consistency_proof_def split: if_splits)
  moreover have "collision_free sha (raw_inputs sha old @ raw_inputs sha new)"
    by (rule collision_free_mono [OF assms(4)]) auto
  ultimately have "old = new" by (intro mth_raw_binding [OF assms(1)])
  then show ?thesis by simp
next
  case False
  then have "0 < length old" "length old \<le> length new"
    and "verify_consistency_internal sha (length old) (length new) p (mth_raw sha old) =
         Some (Some (mth_raw sha new, []))"
    using assms(2) by (auto simp: verify_consistency_proof_def split: if_splits option.splits)
  then show ?thesis
    using assms by (intro consistency_internal_sound [OF assms(1) _ _ _ assms(3)]) auto
qed

theorem consistency_proof_sound_witness:
  "[[1], [2]] = take (length [[1], [2 :: u8]]) [[1], [2], [3 :: u8]]"
proof (rule consistency_proof_sound [of test_digest _ _ "[hash_leaf test_digest [3]]"])
  show "digest_ok test_digest" by simp
  show "verify_consistency_proof test_digest (length [[1], [2 :: u8]]) (length [[1], [2], [3 :: u8]])
     (mth_raw test_digest [[1], [2]]) (mth_raw test_digest [[1], [2], [3]]) [hash_leaf test_digest [3]]
     = Some True" by code_simp
  show "\<forall>h \<in> set [hash_leaf test_digest [3]]. hash_ok h" by simp
  show "collision_free test_digest (consistency_inputs test_digest (length [[1], [2 :: u8]])
      (length [[1], [2], [3 :: u8]]) [hash_leaf test_digest [3]] (mth_raw test_digest [[1], [2]]) @
      raw_inputs test_digest [[1], [2]] @ raw_inputs test_digest [[1], [2], [3]])"
    by (rule collision_free_code) code_simp
qed

text \<open>
  The verifier of consistency proofs is total: on any sizes, roots and proof it returns a verdict, so
  the assertion in \<open>largest_power_of_two_less_than\<close> cannot fail and no pop leaves the stack.
\<close>
theorem verify_consistency_total:
  "verify_consistency_proof sha m n prev_root curr_root p \<noteq> None"
proof (cases "m = 0 \<or> n < m \<or> m = n")
  case False
  then show ?thesis
    using verify_consistency_internal_total [of m n sha p prev_root]
    by (auto simp: verify_consistency_proof_def)
qed (auto simp: verify_consistency_proof_def)

text \<open>
  The bit-twiddling split point \<open>1 << (63 - (n - 1).leading_zeros())\<close> on 64-bit
  words is the largest power of two below \<open>n\<close>, for every length a \<open>usize\<close> can hold.
\<close>
theorem split_point_u64:
  assumes "1 < n" "n < 2 ^ 64"
  shows "\<exists>w e. largest_power_of_two_less_than_u64 (of_nat n) = Some w \<and> unat w = 2 ^ e \<and>
           2 ^ e < n \<and> n \<le> 2 * 2 ^ e \<and> largest_power_of_two_less_than n = Some (unat w)"
proof -
  obtain k where k: "lp2 n = Some k" "k < n" "n \<le> 2 * k" using lp2_total [OF assms(1)] by blast
  moreover obtain e where "k = 2 ^ e" using lp2_power [OF k(1)] by blast
  moreover have "unat (of_nat k :: u64) = k"
    unfolding unat_of_nat using k assms by simp
  ultimately show ?thesis using lp2_u64_refines [OF assms] by auto
qed

theorem split_point_u64_witness:
  "\<exists>w e. largest_power_of_two_less_than_u64 (of_nat 11) = Some w \<and> unat w = 2 ^ e \<and>
     2 ^ e < (11::nat) \<and> 11 \<le> 2 * (2::nat) ^ e \<and> largest_power_of_two_less_than 11 = Some (unat w)"
  by (rule split_point_u64) simp_all

end
