(* ===== verification/Log_Sink.thy ===== *)
theory Log_Sink
  imports Prelude
begin

text \<open>
  The contract of a component that takes log lines one at a time, keeps some of them pending and stores
  the others: the locale \<open>log_sink\<close>. What a step promises is that the stored and pending lines together are
  those before it and the new one, in order; what follows, once, is that a whole run neither loses, duplicates nor
  reorders a line. The natural number of the invariant is the number of steps it still covers. The batch accumulator and
  both socket receivers are instances.
\<close>

fun run_sink :: "('e \<Rightarrow> 'a \<Rightarrow> 's \<Rightarrow> 's option) \<Rightarrow> ('e \<times> 'a) list \<Rightarrow> 's \<Rightarrow> 's option" where
  "run_sink push [] s = Some s"
| "run_sink push ((e, a) # evs) s = (case push e a s of None \<Rightarrow> None | Some s' \<Rightarrow> run_sink push evs s')"

lemma run_sink_append:
  "run_sink push (xs @ ys) s = (case run_sink push xs s of None \<Rightarrow> None | Some s' \<Rightarrow> run_sink push ys s')"
  by (induction push xs s rule: run_sink.induct) (auto split: option.splits)

locale log_sink =
  fixes inv :: "nat \<Rightarrow> 's \<Rightarrow> bool"
    and push :: "'e \<Rightarrow> 'a \<Rightarrow> 's \<Rightarrow> 's option"
    and stored :: "'s \<Rightarrow> 'b list"
    and pending :: "'s \<Rightarrow> 'b list"
    and line :: "'a \<Rightarrow> 'b list"
  assumes push_inv: "inv (Suc n) s \<Longrightarrow> push e a s = Some s' \<Longrightarrow> inv n s'"
    and push_conserves: "inv (Suc n) s \<Longrightarrow> push e a s = Some s' \<Longrightarrow>
           stored s' @ pending s' = stored s @ pending s @ line a"
begin

lemma run_conserves:
  "inv (length evs + n) s \<Longrightarrow> run_sink push evs s = Some s' \<Longrightarrow>
     inv n s' \<and> stored s' @ pending s' = stored s @ pending s @ concat (map (line \<circ> snd) evs)"
proof (induction evs arbitrary: s)
  case (Cons ev evs)
  obtain e a where ev: "ev = (e, a)" by force
  with Cons.prems obtain s1 where s1: "push e a s = Some s1" "run_sink push evs s1 = Some s'"
    by (auto split: option.splits)
  have "inv (length evs + n) s1" "stored s1 @ pending s1 = stored s @ pending s @ line a"
    using Cons.prems s1 push_inv push_conserves by fastforce+
  then show ?case using Cons.IH [OF _ s1(2)] ev by simp
qed simp

end

end
