(* ===== verification/Batcher.thy ===== *)
theory Batcher
  imports Storage Merkle_Properties Log_Sink
begin

text \<open>
  The dual-trigger batch accumulator of \<open>ulpf-integrity/src/batcher.rs\<close>: its state record, the
  on-disk ledger (one JSON line per block), and \<open>new\<close>, \<open>push\<close>, \<open>check_timeout\<close> and \<open>flush\<close> with
  every effect on the file system. Clock readings, fresh UUIDs and the outcome of each write are fields of
  an environment record per call; the ledger's JSON codec and the hex encoder are third-party and
  fields of \<open>integrity_libs\<close>. Instants are natural numbers of nanoseconds.
\<close>

record ledger_entry =
  le_block_id :: u64
  le_timestamp :: int
  le_leaf_count :: nat
  le_merkle_root :: string
  le_parquet_file :: string

record integrity_libs =
  il_store :: store_libs
  il_sha256 :: digest
  il_hex_encode :: "u8 list \<Rightarrow> string"
  il_ledger_ser :: "ledger_entry \<Rightarrow> string option"
  il_ledger_de :: "string \<Rightarrow> ledger_entry option"

record batcher_config =
  bc_max_batch_size :: nat
  bc_max_batch_duration_ms :: u64
  bc_storage_dir :: string
  bc_ledger_path :: string
  bc_compression :: parquet_compression

definition DEFAULT_MAX_BATCH_SIZE :: nat where "DEFAULT_MAX_BATCH_SIZE = 1000"
definition DEFAULT_MAX_BATCH_DURATION_MS :: u64 where "DEFAULT_MAX_BATCH_DURATION_MS = 2000"

definition default_batcher_config :: batcher_config where
  "default_batcher_config =
     \<lparr>bc_max_batch_size = DEFAULT_MAX_BATCH_SIZE,
      bc_max_batch_duration_ms = DEFAULT_MAX_BATCH_DURATION_MS,
      bc_storage_dir = ''data/parquet'', bc_ledger_path = ''data/ledger.jsonl'',
      bc_compression = Snappy\<rparr>"

record incoming_log =
  il_vendor :: string
  il_raw_log :: string
  il_timestamp :: "int option"
  il_event_id :: "string option"
  il_ocsf_json :: "string option"

definition new_incoming_log :: "string \<Rightarrow> string \<Rightarrow> incoming_log" where
  "new_incoming_log vendor raw_log =
     \<lparr>il_vendor = vendor, il_raw_log = raw_log, il_timestamp = None, il_event_id = None,
      il_ocsf_json = None\<rparr>"

definition with_timestamp :: "incoming_log \<Rightarrow> int \<Rightarrow> incoming_log" where
  "with_timestamp l ts = l\<lparr>il_timestamp := Some ts\<rparr>"

definition with_event_id :: "incoming_log \<Rightarrow> string \<Rightarrow> incoming_log" where
  "with_event_id l i = l\<lparr>il_event_id := Some i\<rparr>"

definition with_ocsf :: "incoming_log \<Rightarrow> string \<Rightarrow> incoming_log" where
  "with_ocsf l j = l\<lparr>il_ocsf_json := Some j\<rparr>"

record block_flush_result =
  bf_block_id :: u64
  bf_merkle_root :: hash
  bf_leaf_count :: nat
  bf_parquet_path :: string
  bf_tree :: merkle_tree

record batcher =
  ba_config :: batcher_config
  ba_buffer :: "incoming_log list"
  ba_first_item_time :: "nat option"
  ba_current_block_id :: u64
  ba_ledger :: "ledger_entry list"

datatype batch_error =
    LedgerOpen
  | LedgerLine
  | LedgerParse
  | ParquetWrite storage_error
  | LedgerAppend

record flush_env =
  fe_now_ms :: int
  fe_uuid :: "nat \<Rightarrow> string"
  fe_parquet_io :: write_outcome
  fe_ledger_io :: write_outcome

record push_env =
  pe_enter :: nat
  pe_check :: nat
  pe_flush :: flush_env

subsection \<open>The ledger file\<close>

fun load_lines :: "integrity_libs \<Rightarrow> string list \<Rightarrow> (ledger_entry list, batch_error) result" where
  "load_lines L [] = Ok []"
| "load_lines L (l # ls) =
     (if \<not> utf8_valid l then Err LedgerLine
      else if trim l = [] then load_lines L ls
      else case il_ledger_de L (trim l) of
             None \<Rightarrow> Err LedgerParse
           | Some e \<Rightarrow> res_bind (load_lines L ls) (\<lambda>es. Ok (e # es)))"

definition load_ledger_entries ::
  "integrity_libs \<Rightarrow> string \<Rightarrow> fs \<Rightarrow> (ledger_entry list, batch_error) result" where
  "load_ledger_entries L path fs =
     (case fs path of None \<Rightarrow> Err LedgerOpen | Some bytes \<Rightarrow> load_lines L (str_lines bytes))"

definition append_ledger_entry ::
  "integrity_libs \<Rightarrow> write_outcome \<Rightarrow> string \<Rightarrow> ledger_entry \<Rightarrow> fs \<Rightarrow> (unit, batch_error) result \<times> fs" where
  "append_ledger_entry L io path entry fs =
     (let old = (case fs path of None \<Rightarrow> [] | Some b \<Rightarrow> b) in
      case io of
        NotOpened \<Rightarrow> (Err LedgerAppend, fs)
      | _ \<Rightarrow>
         (case il_ledger_ser L entry of
            None \<Rightarrow> (Err LedgerAppend, fs(path \<mapsto> old))
          | Some s \<Rightarrow>
             (case io of
                Partial n \<Rightarrow> (Err LedgerAppend, fs(path \<mapsto> old @ take n (s @ [newline])))
              | _ \<Rightarrow> (Ok (), fs(path \<mapsto> old @ s @ [newline])))))"

definition batcher_new :: "integrity_libs \<Rightarrow> batcher_config \<Rightarrow> fs \<Rightarrow> (batcher, batch_error) result" where
  "batcher_new L config fs =
     res_bind (if fs (bc_ledger_path config) \<noteq> None
               then load_ledger_entries L (bc_ledger_path config) fs else Ok [])
       (\<lambda>ledger. Ok \<lparr>ba_config = config, ba_buffer = [], ba_first_item_time = None,
          ba_current_block_id = (case last_opt ledger of None \<Rightarrow> 0 | Some e \<Rightarrow> le_block_id e + 1),
          ba_ledger = ledger\<rparr>)"

subsection \<open>Triggers\<close>

definition pending_count :: "batcher \<Rightarrow> nat" where
  "pending_count st = length (ba_buffer st)"

definition pending_duration :: "nat \<Rightarrow> batcher \<Rightarrow> nat option" where
  "pending_duration now st = map_option (\<lambda>t. now - t) (ba_first_item_time st)"

definition max_duration_ns :: "batcher \<Rightarrow> nat" where
  "max_duration_ns st = unat (bc_max_batch_duration_ms (ba_config st)) * 1000000"

definition should_flush :: "nat \<Rightarrow> batcher \<Rightarrow> bool" where
  "should_flush now st =
     (if ba_buffer st = [] then False
      else
        (let count_met = bc_max_batch_size (ba_config st) \<le> length (ba_buffer st);
             duration_met = (case pending_duration now st of None \<Rightarrow> False | Some d \<Rightarrow> max_duration_ns st \<le> d)
         in count_met \<or> duration_met))"

subsection \<open>Flushing\<close>

definition block_file_name :: "u64 \<Rightarrow> string" where
  "block_file_name block_id = ''block_'' @ pad_zeros 5 (show_nat (unat block_id)) @ ''.parquet''"

definition make_record ::
  "integrity_libs \<Rightarrow> flush_env \<Rightarrow> u64 \<Rightarrow> nat \<times> incoming_log \<Rightarrow> stored_log_record" where
  "make_record L env block_id = (\<lambda>(i, item).
     \<lparr>sr_event_id = unwrap_or (fe_uuid env i) (il_event_id item),
      sr_block_id = block_id,
      sr_leaf_index = of_nat i,
      sr_timestamp = unwrap_or (fe_now_ms env) (il_timestamp item),
      sr_vendor = il_vendor item,
      sr_raw_log = il_raw_log item,
      sr_raw_hash = il_hex_encode L (il_sha256 L (bytes_of (il_raw_log item))),
      sr_ocsf_json = unwrap_or ''{}'' (il_ocsf_json item)\<rparr>)"

definition make_records ::
  "integrity_libs \<Rightarrow> flush_env \<Rightarrow> u64 \<Rightarrow> incoming_log list \<Rightarrow> stored_log_record list" where
  "make_records L env block_id logs = map (make_record L env block_id) (List.enumerate 0 logs)"

definition to_hex :: "integrity_libs \<Rightarrow> hash \<Rightarrow> string" where
  "to_hex L h = il_hex_encode L (as_bytes h)"

text \<open>Steps 3 and 4 of \<open>flush\<close>: the Parquet block, then the ledger entry on disk and in memory.\<close>

definition write_block ::
  "integrity_libs \<Rightarrow> flush_env \<Rightarrow> u64 \<Rightarrow> nat \<Rightarrow> stored_log_record list \<Rightarrow> merkle_tree \<Rightarrow> batcher \<Rightarrow> fs \<Rightarrow>
     (block_flush_result option, batch_error) result \<times> batcher \<times> fs" where
  "write_block L env block_id count records tree st fs =
     (let parquet_filename = block_file_name block_id;
          parquet_path = path_join (bc_storage_dir (ba_config st)) parquet_filename
      in case write_records_to_parquet (il_store L) (fe_parquet_io env) parquet_path records
                (bc_compression (ba_config st)) fs of
           (Inl e, fs1) \<Rightarrow> (Err (ParquetWrite e), st, fs1)
         | (Inr _, fs1) \<Rightarrow>
             let entry = \<lparr>le_block_id = block_id, le_timestamp = fe_now_ms env,
                   le_leaf_count = count, le_merkle_root = to_hex L (mt_root tree),
                   le_parquet_file = parquet_filename\<rparr>
             in (case append_ledger_entry L (fe_ledger_io env) (bc_ledger_path (ba_config st)) entry fs1 of
                   (Inl e, fs2) \<Rightarrow> (Err e, st, fs2)
                 | (Inr _, fs2) \<Rightarrow>
                     (Ok (Some \<lparr>bf_block_id = block_id, bf_merkle_root = mt_root tree,
                        bf_leaf_count = count, bf_parquet_path = parquet_path, bf_tree = tree\<rparr>),
                      st\<lparr>ba_ledger := ba_ledger st @ [entry]\<rparr>, fs2)))"

definition flush ::
  "integrity_libs \<Rightarrow> flush_env \<Rightarrow> batcher \<times> fs \<Rightarrow>
     ((block_flush_result option, batch_error) result \<times> batcher \<times> fs) option" where
  "flush L env = (\<lambda>(st, fs).
     if ba_buffer st = [] then Some (Ok None, st, fs)
     else
       let logs = ba_buffer st;
           block_id = ba_current_block_id st;
           st1 = st\<lparr>ba_buffer := [], ba_first_item_time := None, ba_current_block_id := block_id + 1\<rparr>;
           records = make_records L env block_id logs
       in do {
         tree \<leftarrow> from_raw_logs (il_sha256 L) (map (bytes_of \<circ> sr_raw_log) records);
         Some (write_block L env block_id (length logs) records tree st1 fs)
       })"

definition push ::
  "integrity_libs \<Rightarrow> push_env \<Rightarrow> incoming_log \<Rightarrow> batcher \<times> fs \<Rightarrow>
     ((block_flush_result option, batch_error) result \<times> batcher \<times> fs) option" where
  "push L env log = (\<lambda>(st, fs).
     let st1 = (if ba_buffer st = [] then st\<lparr>ba_first_item_time := Some (pe_enter env)\<rparr> else st);
         st2 = st1\<lparr>ba_buffer := ba_buffer st1 @ [log]\<rparr>
     in if should_flush (pe_check env) st2 then flush L (pe_flush env) (st2, fs)
        else Some (Ok None, st2, fs))"

definition check_timeout ::
  "integrity_libs \<Rightarrow> nat \<Rightarrow> flush_env \<Rightarrow> batcher \<times> fs \<Rightarrow>
     ((block_flush_result option, batch_error) result \<times> batcher \<times> fs) option" where
  "check_timeout L now env = (\<lambda>(st, fs).
     if ba_buffer st = [] then Some (Ok None, st, fs)
     else case pending_duration now st of
         Some elapsed \<Rightarrow>
           if max_duration_ns st \<le> elapsed then flush L env (st, fs) else Some (Ok None, st, fs)
       | None \<Rightarrow> Some (Ok None, st, fs))"

end
