(* ===== verification/Batcher_Correct.thy ===== *)
theory Batcher_Correct
  imports Batcher
begin

text \<open>
  Correctness of the batch accumulator. \<open>batcher_inv\<close> is the invariant of the state alone;
  \<open>durable\<close> relates it to the file system: every ledger entry names a block file that reads back to a
  block matching the entry (\<open>block_matches\<close>), the ledger file reads back to the in-memory ledger, and the
  next block ids are fresh. A successful flush keeps both and moves the buffer, unchanged, into a stored block, so the
  accumulator interprets \<open>log_sink\<close>; a failed flush drops its buffer.
\<close>

definition json_object :: "string \<Rightarrow> bool" where
  "json_object s \<longleftrightarrow> s \<noteq> [] \<and> hd s = CHR ''{'' \<and> last s = CHR ''}'' \<and> newline \<notin> set s \<and> utf8_valid s"

text \<open>
  The documented behaviour relied on: serde writes a ledger entry as one JSON object on one line and
  reads it back, hex encoding is injective, SHA-256 yields 32 bytes.
\<close>

definition integrity_libs_ok :: "integrity_libs \<Rightarrow> bool" where
  "integrity_libs_ok L \<longleftrightarrow> store_libs_ok (il_store L) \<and> digest_ok (il_sha256 L) \<and>
     inj (il_hex_encode L) \<and>
     (\<forall>e s. il_ledger_ser L e = Some s \<longrightarrow> json_object s \<and> il_ledger_de L s = Some e)"

lemma integrity_libs_okD:
  assumes "integrity_libs_ok L"
  shows "store_libs_ok (il_store L)" "digest_ok (il_sha256 L)" "inj (il_hex_encode L)"
    "il_ledger_ser L e = Some s \<Longrightarrow> json_object s \<and> il_ledger_de L s = Some e"
  using assms by (auto simp: integrity_libs_ok_def)

subsection \<open>State invariant\<close>

definition batcher_inv :: "batcher \<Rightarrow> bool" where
  "batcher_inv st \<longleftrightarrow> (ba_buffer st = [] \<longleftrightarrow> ba_first_item_time st = None) \<and>
     (ba_buffer st \<noteq> [] \<longrightarrow> length (ba_buffer st) < bc_max_batch_size (ba_config st))"

definition flush_records :: "integrity_libs \<Rightarrow> flush_env \<Rightarrow> batcher \<Rightarrow> stored_log_record list" where
  "flush_records L env st = make_records L env (ba_current_block_id st) (ba_buffer st)"

definition drained :: "batcher \<Rightarrow> batcher" where
  "drained st = st\<lparr>ba_buffer := [], ba_first_item_time := None,
     ba_current_block_id := ba_current_block_id st + 1\<rparr>"

lemma drained_simps [simp]:
  "ba_buffer (drained st) = []" "ba_first_item_time (drained st) = None"
  "ba_current_block_id (drained st) = ba_current_block_id st + 1"
  "ba_config (drained st) = ba_config st" "ba_ledger (drained st) = ba_ledger st"
  by (simp_all add: drained_def)

lemma flush_empty: "ba_buffer st = [] \<Longrightarrow> flush L env (st, fs) = Some (Ok None, st, fs)"
  by (simp add: flush_def)

lemma flush_eq:
  assumes "ba_buffer st \<noteq> []"
  shows "\<exists>t. mt_root t = mth_raw (il_sha256 L) (map (bytes_of \<circ> sr_raw_log) (flush_records L env st)) \<and>
    flush L env (st, fs) = Some (write_block L env (ba_current_block_id st) (length (ba_buffer st))
      (flush_records L env st) t (drained st) fs)"
proof -
  obtain t where "from_raw_logs (il_sha256 L) (map (bytes_of \<circ> sr_raw_log) (flush_records L env st)) = Some t"
    "mt_root t = mth_raw (il_sha256 L) (map (bytes_of \<circ> sr_raw_log) (flush_records L env st))"
    using from_raw_logs_some by blast
  then show ?thesis using assms by (auto simp: flush_def Let_def drained_def flush_records_def)
qed

lemma flush_total [panic_free]: "flush L env s \<noteq> None"
proof -
  obtain st fs where "s = (st, fs)" by force
  then show ?thesis using flush_eq [of st L env fs] flush_empty [of st L env fs]
    by (metis option.distinct(1))
qed

lemma push_total [panic_free]: "push L env log s \<noteq> None"
  using flush_total by (cases s) (auto simp: push_def Let_def)

lemma check_timeout_total [panic_free]: "check_timeout L now env s \<noteq> None"
  using flush_total by (cases s) (auto simp: check_timeout_def split: option.splits)

text \<open>What a flush does to the state, whatever the outcome of its writes.\<close>

lemma write_block_state:
  "write_block L env b n rs t st fs = (r, st', fs') \<Longrightarrow>
     ba_buffer st' = ba_buffer st \<and> ba_first_item_time st' = ba_first_item_time st \<and>
     ba_current_block_id st' = ba_current_block_id st \<and> ba_config st' = ba_config st"
  by (auto simp: write_block_def Let_def split: prod.splits sum.splits)

lemma flush_state:
  "flush L env (st, fs) = Some (r, st', fs') \<Longrightarrow>
     ba_buffer st' = [] \<and> ba_config st' = ba_config st \<and>
     (ba_buffer st \<noteq> [] \<longrightarrow> ba_first_item_time st' = None \<and>
        ba_current_block_id st' = ba_current_block_id st + 1)"
  using flush_eq [of st L env fs] flush_empty [of st L env fs]
  by (cases "ba_buffer st = []") (auto dest: write_block_state [OF sym])

lemma flush_inv:
  assumes "ba_buffer st \<noteq> []" "flush L env (st, fs) = Some (r, st', fs')"
  shows "batcher_inv st'"
  using flush_state [OF assms(2)] assms(1) by (simp add: batcher_inv_def)

lemma push_preserves_inv:
  assumes "batcher_inv st" "push L env log (st, fs) = Some (r, st', fs')"
  shows "batcher_inv st' \<and> ba_config st' = ba_config st"
proof -
  let ?st1 = "if ba_buffer st = [] then st\<lparr>ba_first_item_time := Some (pe_enter env)\<rparr> else st"
  let ?st2 = "?st1\<lparr>ba_buffer := ba_buffer ?st1 @ [log]\<rparr>"
  show ?thesis
  proof (cases "should_flush (pe_check env) ?st2")
    case True
    then have "flush L (pe_flush env) (?st2, fs) = Some (r, st', fs')"
      using assms by (simp add: push_def Let_def)
    from flush_inv [OF _ this] flush_state [OF this] show ?thesis by auto
  next
    case False
    then have "st' = ?st2" using assms by (simp add: push_def Let_def)
    then show ?thesis using assms(1) False
      by (auto simp: batcher_inv_def should_flush_def Let_def)
  qed
qed

subsection \<open>Blocks and the ledger\<close>

definition block_path :: "batcher_config \<Rightarrow> string \<Rightarrow> string" where
  "block_path c f = path_join (bc_storage_dir c) f"

definition raws :: "stored_log_record list \<Rightarrow> u8 list list" where
  "raws rs = map (bytes_of \<circ> sr_raw_log) rs"

definition block_matches :: "integrity_libs \<Rightarrow> ledger_entry \<Rightarrow> stored_log_record list \<Rightarrow> bool" where
  "block_matches L e rs \<longleftrightarrow> le_leaf_count e = length rs \<and>
     le_merkle_root e = to_hex L (mth_raw (il_sha256 L) (raws rs)) \<and>
     (\<forall>i < length rs. sr_leaf_index (rs ! i) = of_nat i \<and> sr_block_id (rs ! i) = le_block_id e \<and>
        sr_raw_hash (rs ! i) = il_hex_encode L (il_sha256 L (bytes_of (sr_raw_log (rs ! i)))))"

lemma make_records_props:
  "length (make_records L env b logs) = length logs"
  "map sr_raw_log (make_records L env b logs) = map il_raw_log logs"
  "i < length logs \<Longrightarrow> make_records L env b logs ! i = make_record L env b (i, logs ! i)"
  by (auto simp: make_records_def make_record_def nth_enumerate_eq intro!: nth_equalityI)

lemma block_file_name_inject: "block_file_name a = block_file_name b \<Longrightarrow> a = b"
  by (auto simp: block_file_name_def unsigned_word_eqI dest!: pad_zeros_inject)

definition new_entry :: "integrity_libs \<Rightarrow> flush_env \<Rightarrow> batcher \<Rightarrow> ledger_entry" where
  "new_entry L env st =
     \<lparr>le_block_id = ba_current_block_id st, le_timestamp = fe_now_ms env,
      le_leaf_count = length (ba_buffer st),
      le_merkle_root = to_hex L (mth_raw (il_sha256 L) (raws (flush_records L env st))),
      le_parquet_file = block_file_name (ba_current_block_id st)\<rparr>"

lemma new_entry_matches: "block_matches L (new_entry L env st) (flush_records L env st)"
  by (simp add: block_matches_def new_entry_def flush_records_def make_records_props make_record_def)

text \<open>A successful flush, step by step.\<close>

lemma write_block_okE:
  assumes "write_block L env b n rs t st fs = (Ok r, st', fs')"
  obtains fs1 u1 u2 e where
    "e = \<lparr>le_block_id = b, le_timestamp = fe_now_ms env, le_leaf_count = n,
          le_merkle_root = to_hex L (mt_root t), le_parquet_file = block_file_name b\<rparr>"
    "write_records_to_parquet (il_store L) (fe_parquet_io env)
       (block_path (ba_config st) (block_file_name b)) rs (bc_compression (ba_config st)) fs = (Ok u1, fs1)"
    "append_ledger_entry L (fe_ledger_io env) (bc_ledger_path (ba_config st)) e fs1 = (Ok u2, fs')"
    "st' = st\<lparr>ba_ledger := ba_ledger st @ [e]\<rparr>" "r \<noteq> None"
  using assms that
  by (auto simp: write_block_def Let_def block_path_def split: prod.splits sum.splits)

lemma flush_okE:
  assumes "flush L env (st, fs) = Some (Ok r, st', fs')" "ba_buffer st \<noteq> []"
  obtains fs1 u1 u2 where
    "write_records_to_parquet (il_store L) (fe_parquet_io env)
       (block_path (ba_config st) (block_file_name (ba_current_block_id st)))
       (flush_records L env st) (bc_compression (ba_config st)) fs = (Ok u1, fs1)"
    "append_ledger_entry L (fe_ledger_io env) (bc_ledger_path (ba_config st)) (new_entry L env st) fs1
     = (Ok u2, fs')"
    "st' = (drained st)\<lparr>ba_ledger := ba_ledger st @ [new_entry L env st]\<rparr>" "r \<noteq> None"
proof -
  obtain t where t: "mt_root t = mth_raw (il_sha256 L) (raws (flush_records L env st))"
    "write_block L env (ba_current_block_id st) (length (ba_buffer st)) (flush_records L env st) t
       (drained st) fs = (Ok r, st', fs')"
    using flush_eq [OF assms(2), of L env fs] assms(1) by (auto simp: raws_def)
  show thesis
    by (rule write_block_okE [OF t(2)]) (use t(1) that in \<open>simp add: new_entry_def\<close>)
qed

lemma load_lines_append:
  "load_lines L xs = Ok es \<Longrightarrow> load_lines L (xs @ ys) = res_bind (load_lines L ys) (\<lambda>fs. Ok (es @ fs))"
proof (induction xs arbitrary: es)
  case (Cons l ls)
  then show ?case
    by (cases "load_lines L ls"; cases "load_lines L ys") (auto split: if_splits option.splits)
qed (cases "load_lines L ys"; simp)

definition ledger_file :: "integrity_libs \<Rightarrow> string \<Rightarrow> fs \<Rightarrow> ledger_entry list \<Rightarrow> bool" where
  "ledger_file L path fs es \<longleftrightarrow>
     (case fs path of
        None \<Rightarrow> es = []
      | Some b \<Rightarrow> (b = [] \<or> last b = newline) \<and> load_ledger_entries L path fs = Ok es)"

lemma append_load_ledger:
  assumes ok: "integrity_libs_ok L" and "ledger_file L path fs es"
    and "append_ledger_entry L io path e fs = (Ok u, fs')"
  shows "ledger_file L path fs' (es @ [e]) \<and> (\<forall>q. q \<noteq> path \<longrightarrow> fs' q = fs q)"
proof -
  let ?old = "case fs path of None \<Rightarrow> [] | Some b \<Rightarrow> b"
  obtain s where s: "il_ledger_ser L e = Some s" "fs' = fs(path \<mapsto> ?old @ s @ [newline])"
    using assms(3) by (auto simp: append_ledger_entry_def Let_def split: write_outcome.splits option.splits)
  have js: "json_object s" "il_ledger_de L s = Some e" using integrity_libs_okD(4) [OF ok s(1)] by auto
  then have tr: "trim s = s" "utf8_valid s" "s \<noteq> []" by (auto simp: json_object_def trim_braces)
  have "\<not> ends_cr s" using js(1) by (cases s) (auto simp: json_object_def carriage_return_def)
  then have "str_lines (?old @ s @ [newline]) = str_lines ?old @ [s]"
    using js assms(2) by (intro str_lines_snoc_line) (auto simp: json_object_def ledger_file_def split: option.splits)
  moreover have "load_lines L (str_lines ?old) = Ok es"
    using assms(2) by (auto simp: ledger_file_def load_ledger_entries_def split: option.splits)
  ultimately have "load_lines L (str_lines (?old @ s @ [newline])) = Ok (es @ [e])"
    using tr js by (simp add: load_lines_append)
  then show ?thesis using s(2) by (simp add: ledger_file_def load_ledger_entries_def)
qed

subsection \<open>Durability\<close>

definition entry_ok :: "integrity_libs \<Rightarrow> batcher_config \<Rightarrow> fs \<Rightarrow> u64 \<Rightarrow> ledger_entry \<Rightarrow> bool" where
  "entry_ok L c fs next e \<longleftrightarrow> le_parquet_file e = block_file_name (le_block_id e) \<and>
     le_block_id e < next \<and>
     (\<exists>rs. read_parquet_file (il_store L) (block_path c (le_parquet_file e)) fs = Some (Ok rs) \<and>
           block_matches L e rs)"

definition entry_logs :: "integrity_libs \<Rightarrow> batcher_config \<Rightarrow> fs \<Rightarrow> ledger_entry \<Rightarrow> string list" where
  "entry_logs L c fs e =
     (case read_parquet_file (il_store L) (block_path c (le_parquet_file e)) fs of
        Some (Inr rs) \<Rightarrow> map sr_raw_log rs
      | _ \<Rightarrow> [])"

definition stored_logs :: "integrity_libs \<Rightarrow> batcher \<times> fs \<Rightarrow> string list" where
  "stored_logs L = (\<lambda>(st, fs). concat (map (entry_logs L (ba_config st) fs) (ba_ledger st)))"

definition pending_logs :: "batcher \<times> fs \<Rightarrow> string list" where
  "pending_logs = (\<lambda>(st, fs). map il_raw_log (ba_buffer st))"

definition paths_ok :: "batcher_config \<Rightarrow> bool" where
  "paths_ok c \<longleftrightarrow> (\<forall>i. block_path c (block_file_name i) \<noteq> bc_ledger_path c)"

definition disk_ok :: "integrity_libs \<Rightarrow> nat \<Rightarrow> batcher \<Rightarrow> fs \<Rightarrow> bool" where
  "disk_ok L n st fs \<longleftrightarrow> integrity_libs_ok L \<and> paths_ok (ba_config st) \<and>
     unat (ba_current_block_id st) + n < 2 ^ 64 \<and>
     ledger_file L (bc_ledger_path (ba_config st)) fs (ba_ledger st) \<and>
     sorted_wrt (<) (map le_block_id (ba_ledger st)) \<and>
     (\<forall>e \<in> set (ba_ledger st). entry_ok L (ba_config st) fs (ba_current_block_id st) e)"

definition durable :: "integrity_libs \<Rightarrow> nat \<Rightarrow> batcher \<times> fs \<Rightarrow> bool" where
  "durable L n = (\<lambda>(st, fs). batcher_inv st \<and> disk_ok L n st fs)"

lemma block_path_inject [simp]: "block_path c f = block_path c g \<longleftrightarrow> f = g"
  by (simp add: block_path_def)

lemma next_block_id:
  assumes "unat (b :: u64) + Suc n < 2 ^ 64"
  shows "unat (b + 1) = Suc (unat b)" "unat (b + 1) + n < 2 ^ 64" "x \<le> b \<Longrightarrow> x < b + 1"
proof -
  show *: "unat (b + 1) = Suc (unat b)"
    using assms by (simp add: unat_word_ariths)
  then show "unat (b + 1) + n < 2 ^ 64" using assms by simp
  show "x \<le> b \<Longrightarrow> x < b + 1" using * by (simp add: word_le_nat_alt word_less_nat_alt)
qed

lemma flush_durable:
  assumes disk: "disk_ok L (Suc n) st fs" and ne: "ba_buffer st \<noteq> []"
    and fl: "flush L env (st, fs) = Some (Ok r, st', fs')"
  shows "disk_ok L n st' fs'" (is ?disk)
    and "stored_logs L (st', fs') = stored_logs L (st, fs) @ map il_raw_log (ba_buffer st)" (is ?logs)
proof -
  let ?c = "ba_config st" and ?b = "ba_current_block_id st" and ?e = "new_entry L env st"
    and ?read = "\<lambda>f fs. read_parquet_file (il_store L) (block_path (ba_config st) f) fs"
  have ok: "integrity_libs_ok L" and id: "unat ?b + Suc n < 2 ^ 64"
    using disk by (auto simp: disk_ok_def)
  obtain fs1 u1 u2 where w: "write_records_to_parquet (il_store L) (fe_parquet_io env)
        (block_path ?c (block_file_name ?b)) (flush_records L env st) (bc_compression ?c) fs = (Ok u1, fs1)"
    and a: "append_ledger_entry L (fe_ledger_io env) (bc_ledger_path ?c) ?e fs1 = (Ok u2, fs')"
    and st': "st' = (drained st)\<lparr>ba_ledger := ba_ledger st @ [?e]\<rparr>"
    using flush_okE [OF fl ne] by metis
  have lp: "block_path ?c (block_file_name i) \<noteq> bc_ledger_path ?c" for i
    using disk by (auto simp: disk_ok_def paths_ok_def)
  have "ledger_file L (bc_ledger_path ?c) fs1 (ba_ledger st)"
    using disk parquet.store_frame [of "il_store L" "(fe_parquet_io env, bc_compression ?c)", simplified, OF w lp]
    by (auto simp: disk_ok_def ledger_file_def load_ledger_entries_def split: option.splits)
  from append_load_ledger [OF ok this a]
  have led: "ledger_file L (bc_ledger_path ?c) fs' (ba_ledger st @ [?e])"
    and same: "\<And>q. q \<noteq> bc_ledger_path ?c \<Longrightarrow> fs' q = fs1 q" by auto
  have read_same: "?read (block_file_name i) fs' = ?read (block_file_name i) fs1" for i
    by (rule parquet.load_local) (simp add: same lp)
  have "?read (block_file_name ?b) fs1 = Some (Ok (flush_records L env st))"
    using integrity_libs_okD(1) [OF ok] w
      parquet.load_store [of "il_store L" "(fe_parquet_io env, bc_compression ?c)"
        "block_path ?c (block_file_name ?b)" "flush_records L env st" fs u1 fs1] by simp
  then have new: "?read (block_file_name ?b) fs' = Some (Ok (flush_records L env st))"
    using read_same by simp
  have old: "?read (le_parquet_file e) fs' = ?read (le_parquet_file e) fs" if "e \<in> set (ba_ledger st)" for e
  proof -
    have e: "le_parquet_file e = block_file_name (le_block_id e)" "le_block_id e < ?b"
      using disk that by (auto simp: disk_ok_def entry_ok_def)
    then have "block_path ?c (block_file_name ?b) \<noteq> block_path ?c (le_parquet_file e)"
      by (auto dest: block_file_name_inject)
    from parquet.load_other [of "il_store L" "(fe_parquet_io env, bc_compression ?c)", simplified, OF w this]
    show ?thesis using read_same e(1) by simp
  qed
  show ?disk
    using disk led new old next_block_id [OF id] new_entry_matches [of L env st] ok
    by (auto simp: disk_ok_def st' entry_ok_def new_entry_def less_imp_le sorted_wrt_append)
  have "entry_logs L ?c fs' ?e = map il_raw_log (ba_buffer st)"
    using new by (simp add: entry_logs_def new_entry_def flush_records_def make_records_props)
  then show ?logs using old by (simp add: stored_logs_def st' entry_logs_def cong: map_cong)
qed

subsection \<open>The accumulator is a log sink\<close>

definition push_ok :: "integrity_libs \<Rightarrow> push_env \<Rightarrow> incoming_log \<Rightarrow> batcher \<times> fs \<Rightarrow> (batcher \<times> fs) option" where
  "push_ok L env log s = (case push L env log s of Some (Inr r, s') \<Rightarrow> Some s' | _ \<Rightarrow> None)"

lemma push_ok_step:
  assumes "durable L (Suc n) s" "push_ok L env log s = Some s'"
  shows "durable L n s' \<and>
    stored_logs L s' @ pending_logs s' = stored_logs L s @ pending_logs s @ [il_raw_log log]"
proof -
  obtain st fs st' fs' r where s: "s = (st, fs)" "s' = (st', fs')"
    and p: "push L env log (st, fs) = Some (Ok r, st', fs')"
    using assms(2) by (cases s; cases s') (auto simp: push_ok_def split: option.splits sum.splits)
  let ?st1 = "if ba_buffer st = [] then st\<lparr>ba_first_item_time := Some (pe_enter env)\<rparr> else st"
  let ?st2 = "?st1\<lparr>ba_buffer := ba_buffer ?st1 @ [log]\<rparr>"
  have inv: "batcher_inv st'" "disk_ok L (Suc n) ?st2 fs"
    using assms(1) push_preserves_inv [OF _ p] by (auto simp: durable_def s disk_ok_def)
  have logs2: "stored_logs L (?st2, fs) = stored_logs L (st, fs)" by (simp add: stored_logs_def)
  show ?thesis
  proof (cases "should_flush (pe_check env) ?st2")
    case True
    then have f: "flush L (pe_flush env) (?st2, fs) = Some (Ok r, st', fs')"
      using p by (simp add: push_def Let_def)
    have "ba_buffer ?st2 \<noteq> []" by simp
    from flush_durable [OF inv(2) this f] flush_state [OF f] inv(1) logs2
    show ?thesis by (simp add: s durable_def pending_logs_def)
  next
    case False
    then have "st' = ?st2" "fs' = fs" using p by (auto simp: push_def Let_def)
    moreover from this have "disk_ok L n st' fs'" using inv(2) by (simp add: disk_ok_def)
    ultimately show ?thesis
      using inv(1) logs2 by (simp add: s durable_def pending_logs_def)
  qed
qed

interpretation batch: log_sink "durable L" "push_ok L" "stored_logs L" "pending_logs"
    "\<lambda>log. [il_raw_log log]" for L
  by unfold_locales (simp_all add: push_ok_step)

subsection \<open>Restarting\<close>

lemma sorted_wrt_last:
  "sorted_wrt (<) (map f xs) \<Longrightarrow> x \<in> set xs \<Longrightarrow> f x \<le> (f (last xs) :: u64)"
  by (cases xs rule: rev_cases) (auto simp: sorted_wrt_append less_imp_le)

lemma batcher_new_durable:
  assumes "disk_ok L n st fs"
  shows "\<exists>st'. batcher_new L (ba_config st) fs = Ok st' \<and> ba_ledger st' = ba_ledger st \<and>
    ba_config st' = ba_config st \<and> ba_buffer st' = [] \<and> durable L n (st', fs)"
proof -
  let ?lp = "bc_ledger_path (ba_config st)"
  let ?id = "case last_opt (ba_ledger st) of None \<Rightarrow> 0 | Some e \<Rightarrow> le_block_id e + 1"
  let ?st' = "\<lparr>ba_config = ba_config st, ba_buffer = [], ba_first_item_time = None,
      ba_current_block_id = ?id, ba_ledger = ba_ledger st\<rparr>"
  have new: "batcher_new L (ba_config st) fs = Ok ?st'"
    using assms by (auto simp: disk_ok_def ledger_file_def batcher_new_def split: option.splits)
  have "unat ?id \<le> unat (ba_current_block_id st) \<and> (\<forall>e \<in> set (ba_ledger st). le_block_id e < ?id)"
  proof (cases "ba_ledger st = []")
    case False
    let ?l = "last (ba_ledger st)"
    have l: "le_block_id ?l < ba_current_block_id st"
      using assms False by (auto simp: disk_ok_def entry_ok_def)
    then have "unat (le_block_id ?l) < unat (ba_current_block_id st)" by (simp add: word_less_nat_alt)
    moreover have "unat (ba_current_block_id st) < 2 ^ 64" using assms by (simp add: disk_ok_def)
    ultimately have u: "unat (le_block_id ?l + 1) = Suc (unat (le_block_id ?l))"
      by (simp add: unat_word_ariths)
    have "le_block_id e \<le> le_block_id ?l" if "e \<in> set (ba_ledger st)" for e
      using assms that by (intro sorted_wrt_last) (auto simp: disk_ok_def)
    then show ?thesis using u \<open>unat (le_block_id ?l) < _\<close> False
      by (auto simp: last_opt_def word_less_nat_alt word_le_nat_alt le_imp_less_Suc)
  qed (simp add: last_opt_def)
  then have "durable L n (?st', fs)"
    using assms by (auto simp: durable_def disk_ok_def batcher_inv_def entry_ok_def)
  then show ?thesis using new by auto
qed

end
