(* ===== verification/Tamper.thy ===== *)
theory Tamper
  imports Batcher_Correct
begin

text \<open>
  The forensic verifier of \<open>ulpf-integrity/src/tamper.rs\<close>: the report and its reasons,
  \<open>verify_records\<close> (count, sequence, digest and Merkle root checks), the two entry points that read a
  Parquet block and its ledger entry, and the rendered alert. The lemmas say exactly when a block is reported valid.
\<close>

datatype tamper_reason =
    DigestMismatch string string
  | IndexMismatch u32 u32
  | CountDiscrepancy nat nat
  | MerkleRootMismatch string string

record tampered_record =
  tr_leaf_index :: u32
  tr_event_id :: string
  tr_stored_raw_hash :: string
  tr_calculated_raw_hash :: string
  tr_raw_log_preview :: string
  tr_reason :: tamper_reason

record tamper_report =
  rp_is_valid :: bool
  rp_block_id :: u64
  rp_ledger_merkle_root :: string
  rp_computed_merkle_root :: string
  rp_expected_records :: nat
  rp_actual_records :: nat
  rp_tampered_records :: "tampered_record list"
  rp_summary :: string

fun show_reason :: "tamper_reason \<Rightarrow> string" where
  "show_reason (DigestMismatch s c) =
     ''SHA-256 Digest Mismatch (Stored: '' @ s @ '' vs Computed: '' @ c @ '')''"
| "show_reason (IndexMismatch e f) =
     ''Leaf Index Mismatch (Expected: '' @ show_nat (unat e) @ '', Found: '' @ show_nat (unat f) @ '')''"
| "show_reason (CountDiscrepancy e a) =
     ''Block Record Count Discrepancy (Ledger: '' @ show_nat e @ '' vs Actual: '' @ show_nat a @ '')''"
| "show_reason (MerkleRootMismatch l c) =
     ''Merkle Root Mismatch (Ledger: '' @ l @ '' vs Computed: '' @ c @ '')''"

definition is_tampered :: "tamper_report \<Rightarrow> bool" where
  "is_tampered r = (\<not> rp_is_valid r)"

definition alert_line :: "nat \<times> tampered_record \<Rightarrow> string" where
  "alert_line = (\<lambda>(i, rec).
     ''  ['' @ show_nat (i + 1) @ ''] Leaf #'' @ show_nat (unat (tr_leaf_index rec)) @
     '' (Event ID: '' @ tr_event_id rec @ '')'' @ [newline] @
     ''Reason:     '' @ show_reason (tr_reason rec) @ [newline] @
     ''Stored:     '' @ tr_stored_raw_hash rec @ [newline] @
     ''Calculated: '' @ tr_calculated_raw_hash rec @ [newline] @
     ''Log Snippet: \"'' @ tr_raw_log_preview rec @ ''\"'' @ [newline])"

definition format_alert :: "tamper_report \<Rightarrow> string" where
  "format_alert r =
     (if rp_is_valid r then
        ''PASS: Merkle Root Matches (RFC 6962)'' @ [newline] @
        ''Block ID:             '' @ show_nat (unat (rp_block_id r)) @ [newline] @
        ''Records Verified:     '' @ show_nat (rp_actual_records r) @ [newline] @
        ''Anchored Merkle Root: '' @ rp_ledger_merkle_root r @ [newline] @
        ''Integrity Status:     100% UNTAMPERED''
      else
        ''ALARM: FORENSIC TAMPER DETECTED IN BLOCK #'' @ pad_zeros 5 (show_nat (unat (rp_block_id r))) @
        ''!'' @ [newline] @
        replicate 50 CHR ''-'' @ [newline] @
        ''Ledger Root:   '' @ rp_ledger_merkle_root r @ [newline] @
        ''Computed Root: '' @ rp_computed_merkle_root r @ [newline] @
        ''Expected Rows: '' @ show_nat (rp_expected_records r) @
        '' | Actual Rows: '' @ show_nat (rp_actual_records r) @ [newline] @
        ''Summary:       '' @ rp_summary r @ [newline] @
        replicate 50 CHR ''-'' @ [newline] @
        (if rp_tampered_records r = [] then []
         else ''Tampered Records Breakdown:'' @ [newline] @
              concat (map alert_line (List.enumerate 0 (take 10 (rp_tampered_records r)))) @
              (if 10 < length (rp_tampered_records r)
               then ''  ... and '' @ show_nat (length (rp_tampered_records r) - 10) @
                    '' additional tampered records.'' @ [newline]
               else [])))"

definition preview_log :: "string \<Rightarrow> string" where
  "preview_log log =
     (if char_count log \<le> 64 then log else take_chars 64 log @ ''...'')"

definition raw_digest :: "integrity_libs \<Rightarrow> stored_log_record \<Rightarrow> string" where
  "raw_digest L record = il_hex_encode L (il_sha256 L (bytes_of (sr_raw_log record)))"

definition row_anomalies :: "integrity_libs \<Rightarrow> nat \<times> stored_log_record \<Rightarrow> tampered_record list" where
  "row_anomalies L = (\<lambda>(i, record).
     (let expected_idx = of_nat i in
      (if sr_leaf_index record \<noteq> expected_idx then
         [\<lparr>tr_leaf_index = sr_leaf_index record, tr_event_id = sr_event_id record,
           tr_stored_raw_hash = sr_raw_hash record, tr_calculated_raw_hash = [],
           tr_raw_log_preview = preview_log (sr_raw_log record),
           tr_reason = IndexMismatch expected_idx (sr_leaf_index record)\<rparr>]
       else []) @
      (if raw_digest L record \<noteq> sr_raw_hash record then
         [\<lparr>tr_leaf_index = sr_leaf_index record, tr_event_id = sr_event_id record,
           tr_stored_raw_hash = sr_raw_hash record, tr_calculated_raw_hash = raw_digest L record,
           tr_raw_log_preview = preview_log (sr_raw_log record),
           tr_reason = DigestMismatch (sr_raw_hash record) (raw_digest L record)\<rparr>]
       else [])))"

definition count_anomaly :: "nat \<Rightarrow> nat \<Rightarrow> tampered_record list" where
  "count_anomaly expected actual =
     (if actual \<noteq> expected then
        [\<lparr>tr_leaf_index = of_nat actual, tr_event_id = [], tr_stored_raw_hash = [],
          tr_calculated_raw_hash = [], tr_raw_log_preview = [],
          tr_reason = CountDiscrepancy expected actual\<rparr>]
      else [])"

text \<open>Steps 1 and 2: the count, then each row's index and digest.\<close>

definition record_anomalies ::
  "integrity_libs \<Rightarrow> nat \<Rightarrow> stored_log_record list \<Rightarrow> tampered_record list" where
  "record_anomalies L expected records =
     count_anomaly expected (length records) @
     concat (map (row_anomalies L) (List.enumerate 0 records))"

definition verify_records ::
  "integrity_libs \<Rightarrow> stored_log_record list \<Rightarrow> ledger_entry \<Rightarrow> tamper_report option" where
  "verify_records L records entry = do {
     computed_tree \<leftarrow> from_raw_logs (il_sha256 L) (map (bytes_of \<circ> sr_raw_log) records);
     let actual_records = length records;
         expected_records = le_leaf_count entry;
         tampered = record_anomalies L expected_records records;
         computed_root = to_hex L (mt_root computed_tree);
         ledger_root = le_merkle_root entry;
         root_matches = (computed_root = ledger_root);
         tampered' =
           (if \<not> root_matches \<and> tampered = [] then
              [\<lparr>tr_leaf_index = 0, tr_event_id = [], tr_stored_raw_hash = ledger_root,
                tr_calculated_raw_hash = computed_root, tr_raw_log_preview = [],
                tr_reason = MerkleRootMismatch ledger_root computed_root\<rparr>]
            else tampered);
         is_valid = (root_matches \<and> tampered' = []);
         summary =
           (if is_valid then ''Block integrity mathematically verified against anchored Merkle root.''
            else ''Tamper detected: '' @ show_nat (length tampered') @
                 '' anomaly/anomalies found. Recomputed root '' @ computed_root @
                 '' != Ledger root '' @ ledger_root @ ''.'')
     in Some \<lparr>rp_is_valid = is_valid, rp_block_id = le_block_id entry,
              rp_ledger_merkle_root = ledger_root, rp_computed_merkle_root = computed_root,
              rp_expected_records = expected_records, rp_actual_records = actual_records,
              rp_tampered_records = tampered', rp_summary = summary\<rparr>
   }"

datatype verify_error =
    ReadBlock storage_error
  | ReadLedger batch_error
  | NoLedgerEntry u64

definition verify_block_file ::
  "integrity_libs \<Rightarrow> string \<Rightarrow> ledger_entry \<Rightarrow> fs \<Rightarrow> (tamper_report, verify_error) comp" where
  "verify_block_file L path entry fs =
     (case read_parquet_file (il_store L) path fs of
        None \<Rightarrow> None
      | Some (Inl e) \<Rightarrow> Some (Err (ReadBlock e))
      | Some (Inr records) \<Rightarrow> map_option Ok (verify_records L records entry))"

definition target_block_id :: "string \<Rightarrow> stored_log_record list \<Rightarrow> u64" where
  "target_block_id path records =
     (case records of
        first # _ \<Rightarrow> sr_block_id first
      | [] \<Rightarrow>
          (case strip_prefix (file_stem path) ''block_'' of
             None \<Rightarrow> 0
           | Some s \<Rightarrow> unwrap_or 0 (parse_u64 s)))"

definition verify_block_with_ledger ::
  "integrity_libs \<Rightarrow> string \<Rightarrow> string \<Rightarrow> fs \<Rightarrow> (tamper_report, verify_error) comp" where
  "verify_block_with_ledger L parquet_path ledger_path fs =
     (case read_parquet_file (il_store L) parquet_path fs of
        None \<Rightarrow> None
      | Some (Inl e) \<Rightarrow> Some (Err (ReadBlock e))
      | Some (Inr records) \<Rightarrow>
         (case load_ledger_entries L ledger_path fs of
            Inl e \<Rightarrow> Some (Err (ReadLedger e))
          | Inr entries \<Rightarrow>
             (let block_id = target_block_id parquet_path records in
              case find (\<lambda>e. le_block_id e = block_id) entries of
                None \<Rightarrow> Some (Err (NoLedgerEntry block_id))
              | Some entry \<Rightarrow> map_option Ok (verify_records L records entry))))"

subsection \<open>When a block is valid\<close>

lemma row_anomalies_empty:
  "row_anomalies L (i, r) = [] \<longleftrightarrow> sr_leaf_index r = of_nat i \<and> sr_raw_hash r = raw_digest L r"
  by (auto simp: row_anomalies_def Let_def)

lemma rows_empty:
  "concat (map (row_anomalies L) (List.enumerate k rs)) = [] \<longleftrightarrow>
     (\<forall>i < length rs. sr_leaf_index (rs ! i) = of_nat (k + i) \<and> sr_raw_hash (rs ! i) = raw_digest L (rs ! i))"
proof (induction rs arbitrary: k)
  case (Cons r rs)
  show ?case
    using Cons.IH [of "Suc k"]
    by (simp del: concat_eq_Nil_conv of_nat_Suc of_nat_add add: All_less_Suc2 row_anomalies_empty)
qed simp

lemma record_anomalies_empty:
  "record_anomalies L n rs = [] \<longleftrightarrow> length rs = n \<and>
     (\<forall>i < length rs. sr_leaf_index (rs ! i) = of_nat i \<and> sr_raw_hash (rs ! i) = raw_digest L (rs ! i))"
  using rows_empty [of L 0 rs]
  by (simp del: concat_eq_Nil_conv add: record_anomalies_def count_anomaly_def)

lemma verify_records_total [panic_free]: "verify_records L rs e \<noteq> None"
  using from_raw_logs_some [of "il_sha256 L" "map (bytes_of \<circ> sr_raw_log) rs"]
  by (auto simp: verify_records_def Let_def)

lemma verify_records_root:
  "verify_records L rs e = Some r \<Longrightarrow>
     rp_computed_merkle_root r = to_hex L (mth_raw (il_sha256 L) (raws rs)) \<and>
     rp_ledger_merkle_root r = le_merkle_root e \<and> rp_actual_records r = length rs \<and>
     rp_expected_records r = le_leaf_count e \<and> rp_block_id r = le_block_id e"
  using from_raw_logs_some [of "il_sha256 L" "map (bytes_of \<circ> sr_raw_log) rs"]
  by (auto simp: verify_records_def Let_def raws_def)

lemma verify_records_valid_iff:
  "verify_records L rs e = Some r \<Longrightarrow>
     (rp_is_valid r \<longleftrightarrow> length rs = le_leaf_count e \<and>
        (\<forall>i < length rs. sr_leaf_index (rs ! i) = of_nat i \<and> sr_raw_hash (rs ! i) = raw_digest L (rs ! i)) \<and>
        le_merkle_root e = to_hex L (mth_raw (il_sha256 L) (raws rs))) \<and>
     (rp_is_valid r \<longleftrightarrow> rp_tampered_records r = [])"
  using from_raw_logs_some [of "il_sha256 L" "map (bytes_of \<circ> sr_raw_log) rs"]
    record_anomalies_empty [of L "le_leaf_count e" rs]
  by (auto simp: verify_records_def Let_def raws_def split: if_splits)

end
