(* ===== verification/Integrity_Properties.thy ===== *)
theory Integrity_Properties
  imports Tamper
begin

text \<open>
  The properties of storage, batcher and tamper verifier together. The libraries in the witnesses are
  \<open>test_libs rs e\<close>: a Parquet codec that knows one block, a ledger codec that knows one entry, and the checksum
  \<open>test_digest\<close>; they satisfy \<open>integrity_libs_ok\<close> for every \<open>rs\<close> and \<open>e\<close>.
\<close>

subsection \<open>Libraries to evaluate with\<close>

definition records_batch :: "stored_log_record list \<Rightarrow> record_batch" where
  "records_batch rs =
     \<lparr>rb_schema = log_schema, rb_columns = record_columns rs, rb_num_rows = length rs\<rparr>"

definition test_store :: "stored_log_record list \<Rightarrow> store_libs" where
  "test_store rs =
     \<lparr>sl_try_new = (\<lambda>schema cols. case cols of
          [] \<Rightarrow> None
        | c # cs \<Rightarrow>
            (if well_matched schema cols (column_length c)
             then Some \<lparr>rb_schema = schema, rb_columns = cols, rb_num_rows = column_length c\<rparr>
             else None)),
      sl_pq_encode = (\<lambda>c b. if b = records_batch rs then Some ''PAR1'' else None),
      sl_pq_decode = (\<lambda>s. if s = ''PAR1'' then Some [records_batch rs] else None)\<rparr>"

definition test_hex :: "u8 list \<Rightarrow> string" where
  "test_hex bs = map (\<lambda>b. char_of (unat b)) bs"

definition test_libs :: "stored_log_record list \<Rightarrow> ledger_entry \<Rightarrow> integrity_libs" where
  "test_libs rs e =
     \<lparr>il_store = test_store rs, il_sha256 = test_digest, il_hex_encode = test_hex,
      il_ledger_ser = (\<lambda>e'. if e' = e then Some ''{e}'' else None),
      il_ledger_de = (\<lambda>s. if s = ''{e}'' then Some e else None)\<rparr>"

lemma store_libs_ok_test: "store_libs_ok (test_store rs)"
  unfolding store_libs_ok_def
proof (intro conjI allI impI)
  fix schema :: "field list" and cols n
  assume "schema \<noteq> []" "well_matched schema cols n"
  moreover from this obtain c cs where "cols = c # cs" "column_length c = n"
    by (cases cols) (auto simp: well_matched_def)
  ultimately show "sl_try_new (test_store rs) schema cols =
      Some \<lparr>rb_schema = schema, rb_columns = cols, rb_num_rows = n\<rparr>"
    by (simp add: test_store_def)
next
  fix c b bytes
  assume "sl_pq_encode (test_store rs) c b = Some bytes"
  then have b: "b = records_batch rs" "bytes = ''PAR1''"
    by (auto simp: test_store_def split: if_splits)
  have "concat_columns log_schema [records_batch rs] = record_columns rs"
    using record_columns_append [of rs "[]"]
    by (simp add: concat_columns_def records_batch_def log_schema_def record_columns_def)
  then show "\<exists>bs. sl_pq_decode (test_store rs) bytes = Some bs \<and> (\<forall>b' \<in> set bs. batch_ok (rb_schema b) b') \<and>
      concat_columns (rb_schema b) bs = rb_columns b"
    by (simp add: b test_store_def batch_ok_def well_matched_records records_batch_def)
qed

lemma inj_test_hex: "inj test_hex"
proof -
  have "inj (\<lambda>b :: u8. char_of (unat b))"
  proof (rule injI)
    fix a b :: u8
    assume "(char_of (unat a) :: char) = char_of (unat b)"
    then have "code (char_of (unat a)) = code (char_of (unat b))" by simp
    moreover have "unat x < 2 ^ LENGTH(8)" for x :: u8 by (rule unsigned_less)
    ultimately have "unat a = unat b" by simp
    then show "a = b" by (rule unsigned_word_eqI)
  qed
  then show ?thesis unfolding test_hex_def by (simp add: inj_def inj_map_eq_map)
qed

lemma test_libs_simps [simp]:
  "il_store (test_libs rs e) = test_store rs" "il_sha256 (test_libs rs e) = test_digest"
  "il_hex_encode (test_libs rs e) = test_hex" "il_ledger_ser (test_libs rs e) e = Some ''{e}''"
  by (simp_all add: test_libs_def)

lemma integrity_libs_ok_test [simp]: "integrity_libs_ok (test_libs rs e)"
  by (simp add: integrity_libs_ok_def test_libs_def store_libs_ok_test inj_test_hex json_object_def
      newline_def utf8_ranges_def)

definition test_config :: batcher_config where
  "test_config = \<lparr>bc_max_batch_size = 2, bc_max_batch_duration_ms = 2000, bc_storage_dir = ''data'',
     bc_ledger_path = ''ledger.jsonl'', bc_compression = Snappy\<rparr>"

definition test_env :: flush_env where
  "test_env = \<lparr>fe_now_ms = 5, fe_uuid = (\<lambda>i. ''u'' @ show_nat i), fe_parquet_io = Written,
     fe_ledger_io = Written\<rparr>"

definition test_push_env :: push_env where
  "test_push_env = \<lparr>pe_enter = 0, pe_check = 1, pe_flush = test_env\<rparr>"

definition fresh_batcher :: batcher where
  "fresh_batcher = \<lparr>ba_config = test_config, ba_buffer = [], ba_first_item_time = None,
     ba_current_block_id = 0, ba_ledger = []\<rparr>"

definition full_batcher :: batcher where
  "full_batcher = fresh_batcher\<lparr>ba_buffer := [new_incoming_log ''V'' ''a'', new_incoming_log ''V'' ''b''],
     ba_first_item_time := Some 0\<rparr>"

definition test_record :: "nat \<Rightarrow> string \<Rightarrow> stored_log_record" where
  "test_record i raw = \<lparr>sr_event_id = ''u'' @ show_nat i, sr_block_id = 0, sr_leaf_index = of_nat i,
     sr_timestamp = 5, sr_vendor = ''V'', sr_raw_log = raw,
     sr_raw_hash = test_hex (test_digest (bytes_of raw)), sr_ocsf_json = ''{}''\<rparr>"

definition test_records :: "stored_log_record list" where
  "test_records = [test_record 0 ''a'', test_record 1 ''b'']"

definition test_entry :: ledger_entry where
  "test_entry = \<lparr>le_block_id = 0, le_timestamp = 5, le_leaf_count = 2,
     le_merkle_root = test_hex (as_bytes (mth_raw test_digest [bytes_of ''a'', bytes_of ''b''])),
     le_parquet_file = block_file_name 0\<rparr>"

abbreviation "TL \<equiv> test_libs test_records test_entry"

lemma full_batcher_simps [simp]:
  "ba_config full_batcher = test_config" "ba_current_block_id full_batcher = 0"
  "ba_buffer full_batcher = [new_incoming_log ''V'' ''a'', new_incoming_log ''V'' ''b'']"
  "ba_ledger full_batcher = []"
  by (simp_all add: full_batcher_def fresh_batcher_def)

lemma test_env_simps [simp]:
  "fe_now_ms test_env = 5" "fe_parquet_io test_env = Written" "fe_ledger_io test_env = Written"
  by (simp_all add: test_env_def)

lemma raws_test: "raws test_records = [bytes_of ''a'', bytes_of ''b'']"
  by (simp add: raws_def test_records_def test_record_def)

lemma flush_records_test: "flush_records TL test_env full_batcher = test_records"
  by (simp add: flush_records_def make_records_def make_record_def test_records_def test_record_def
      new_incoming_log_def) (simp add: test_env_def)

lemma new_entry_test: "new_entry TL test_env full_batcher = test_entry"
  unfolding new_entry_def flush_records_test raws_test
  by (simp add: test_entry_def to_hex_def)

lemma paths_ok_test: "paths_ok test_config"
  by (simp add: paths_ok_def block_path_def path_join_def test_config_def)

lemma disk_ok_fresh: "disk_ok (test_libs rs e) 5 fresh_batcher (\<lambda>p. None)"
  by (simp add: disk_ok_def fresh_batcher_def paths_ok_test ledger_file_def)

lemma disk_ok_full: "disk_ok (test_libs rs e) 5 full_batcher (\<lambda>p. None)"
  using disk_ok_fresh [of rs e] by (simp add: disk_ok_def full_batcher_def)

lemma durable_fresh: "durable (test_libs rs e) 5 (fresh_batcher, \<lambda>p. None)"
  using disk_ok_fresh [of rs e] by (simp add: durable_def batcher_inv_def fresh_batcher_def)

lemma records_to_batch_test: "records_to_batch (test_store rs) rs = Ok (records_batch rs)"
  using records_to_batch_ok [OF store_libs_ok_test] by (simp add: records_batch_def)

lemma write_test:
  "write_records_to_parquet (test_store rs) Written p rs c fs = (Ok (), fs(p \<mapsto> ''PAR1''))"
  by (simp add: write_records_to_parquet_def records_to_batch_test)
    (simp add: write_parquet_file_def test_store_def)

text \<open>The one block of the example, flushed.\<close>

definition flushed_batcher :: batcher where
  "flushed_batcher = (drained full_batcher)\<lparr>ba_ledger := [test_entry]\<rparr>"

definition flushed_fs :: fs where
  "flushed_fs = (\<lambda>p. None)(block_path test_config (block_file_name 0) \<mapsto> ''PAR1'',
     ''ledger.jsonl'' \<mapsto> ''{e}'' @ [newline])"

lemma flush_test:
  "\<exists>r. flush TL test_env (full_batcher, \<lambda>p. None) = Some (Ok r, flushed_batcher, flushed_fs)"
proof -
  have ne: "ba_buffer full_batcher \<noteq> []" by (simp add: full_batcher_def)
  obtain t where t: "mt_root t = mth_raw (il_sha256 TL) (map (bytes_of \<circ> sr_raw_log) test_records)"
    "flush TL test_env (full_batcher, \<lambda>p. None) =
       Some (write_block TL test_env (ba_current_block_id full_batcher) (length (ba_buffer full_batcher))
         test_records t (drained full_batcher) (\<lambda>p. None))"
    using flush_eq [OF ne, of TL test_env "\<lambda>p. None"] unfolding flush_records_test by blast
  have e: "\<lparr>le_block_id = 0, le_timestamp = 5, le_leaf_count = Suc (Suc 0),
      le_merkle_root = to_hex TL (mt_root t), le_parquet_file = block_file_name 0\<rparr> = test_entry"
    using raws_test by (simp add: t(1) test_entry_def to_hex_def numeral_2_eq_2 flip: raws_def)
  have lp: "bc_ledger_path test_config = ''ledger.jsonl''" by (simp add: test_config_def)
  have np: "block_path test_config (block_file_name 0) \<noteq> ''ledger.jsonl''"
    using paths_ok_test lp by (auto simp: paths_ok_def)
  show ?thesis
    unfolding t(2)
    using np e by (simp add: write_block_def Let_def write_test append_ledger_entry_def lp
        flushed_batcher_def flushed_fs_def flip: block_path_def)
qed

subsection \<open>Storage\<close>

text \<open>
  C17. A block written to Parquet without an error reads back as exactly the records written, in order and
  in every field, and no other file changes.
\<close>
theorem parquet_roundtrip:
  assumes "store_libs_ok L" "write_records_to_parquet L io p rs c fs = (Ok (), fs')"
  shows "read_parquet_file L p fs' = Some (Ok rs) \<and> (\<forall>q. fs' q = (if q = p then fs' p else fs q))"
  using write_read_parquet [OF assms] parquet.store_frame [of L "(io, c)" p rs fs "Ok ()" fs'] assms(2)
  by auto

theorem parquet_roundtrip_witness:
  "read_parquet_file (test_store test_records) ''f'' [''f'' \<mapsto> ''PAR1''] = Some (Ok test_records) \<and>
   (\<forall>q. [''f'' \<mapsto> ''PAR1''] q =
      (if q = ''f'' then [''f'' \<mapsto> ''PAR1''] ''f'' else (\<lambda>_. None) q :: string option))"
  by (rule parquet_roundtrip [OF store_libs_ok_test write_test])

subsection \<open>The accumulator\<close>

text \<open>
  C9. No log is lost, duplicated or reordered: over any run of pushes that all succeed, from a state whose
  disk matches its ledger, the raw logs stored in the blocks of the ledger (read back from the files) followed by the
  buffered ones are those at the start followed by the pushed ones; the disk still matches, so the ledger file
  reads back to the in-memory ledger and every block matches its entry.
\<close>
theorem batches_conserve_logs:
  assumes "durable L (length evs + n) s" "run_sink (push_ok L) evs s = Some s'"
  shows "stored_logs L s' @ pending_logs s' =
           stored_logs L s @ pending_logs s @ map (il_raw_log \<circ> snd) evs \<and> durable L n s'"
  using batch.run_conserves [OF assms] by (simp add: o_def)

lemma run_test:
  "run_sink (push_ok TL) [(test_push_env, new_incoming_log ''V'' ''a''), (test_push_env, new_incoming_log ''V'' ''b'')]
     (fresh_batcher, \<lambda>p. None) = Some (flushed_batcher, flushed_fs)"
proof -
  let ?half = "fresh_batcher\<lparr>ba_buffer := [new_incoming_log ''V'' ''a''], ba_first_item_time := Some 0\<rparr>"
  have "push_ok TL test_push_env (new_incoming_log ''V'' ''a'') (fresh_batcher, \<lambda>p. None) =
      Some (?half, \<lambda>p. None)"
    by (simp add: push_ok_def push_def should_flush_def pending_duration_def max_duration_ns_def
        fresh_batcher_def test_config_def test_push_env_def)
  moreover have "push_ok TL test_push_env (new_incoming_log ''V'' ''b'') (?half, \<lambda>p. None) =
      Some (flushed_batcher, flushed_fs)"
  proof -
    have "?half\<lparr>ba_buffer := ba_buffer ?half @ [new_incoming_log ''V'' ''b'']\<rparr> = full_batcher"
      by (simp add: full_batcher_def fresh_batcher_def)
    moreover have "should_flush 1 full_batcher"
      by (simp add: should_flush_def Let_def test_config_def)
    moreover obtain r where
      "flush TL test_env (full_batcher, \<lambda>p. None) = Some (Ok r, flushed_batcher, flushed_fs)"
      using flush_test by blast
    ultimately show ?thesis by (simp add: push_ok_def push_def Let_def test_push_env_def)
  qed
  ultimately show ?thesis by simp
qed

theorem batches_conserve_logs_witness:
  "stored_logs TL (flushed_batcher, flushed_fs) @ pending_logs (flushed_batcher, flushed_fs) =
     stored_logs TL (fresh_batcher, \<lambda>p. None) @ pending_logs (fresh_batcher, \<lambda>p. None) @
     map (il_raw_log \<circ> snd) [(test_push_env, new_incoming_log ''V'' ''a''), (test_push_env, new_incoming_log ''V'' ''b'')] \<and>
   durable TL 3 (flushed_batcher, flushed_fs)"
  using batches_conserve_logs [OF _ run_test, of 3] durable_fresh by simp

definition ledger_line :: "integrity_libs \<Rightarrow> ledger_entry \<Rightarrow> string" where
  "ledger_line L entry = (case il_ledger_ser L entry of None \<Rightarrow> [] | Some s \<Rightarrow> s @ [newline])"

lemma append_failed:
  "append_ledger_entry L io p entry fs = (Err e, fs') \<Longrightarrow> e = LedgerAppend \<and> (\<forall>q. q \<noteq> p \<longrightarrow> fs' q = fs q) \<and>
     (fs' p = fs p \<or> (\<exists>n. fs' p = Some (unwrap_or [] (fs p) @
        take n (ledger_line L entry))))"
  by (auto simp: append_ledger_entry_def ledger_line_def Let_def split: write_outcome.splits option.splits)

text \<open>
  C40. A flush writes one block for the whole buffer, and when a write fails the buffered logs are dropped: the error leaves
  the buffer empty, the ledger in memory as it was and the block id used up. On disk only the file of the block and the
  ledger file can have changed, and the latter, unless the two are one, only when it is the append that failed: it then may end in a part of the line
  of the entry, or in the whole of it.
\<close>
theorem failed_flush_drops_buffer:
  assumes "flush L env (st, fs) = Some (Err e, st', fs')"
    and "block = block_path (ba_config st) (block_file_name (ba_current_block_id st))"
    and "ledger = bc_ledger_path (ba_config st)"
  shows "pending_logs (st', fs') = [] \<and> ba_ledger st' = ba_ledger st \<and>
     ba_current_block_id st' = ba_current_block_id st + 1 \<and> pending_logs (st, fs) \<noteq> [] \<and>
     (\<forall>q. q \<noteq> block \<and> q \<noteq> ledger \<longrightarrow> fs' q = fs q) \<and>
     (ledger \<noteq> block \<longrightarrow> (case e of
        ParquetWrite x \<Rightarrow> fs' ledger = fs ledger
      | LedgerAppend \<Rightarrow> fs' ledger = fs ledger \<or>
          (\<exists>entry n. le_block_id entry = ba_current_block_id st \<and> le_leaf_count entry = length (pending_logs (st, fs)) \<and>
             fs' ledger = Some (unwrap_or [] (fs ledger) @
               take n (ledger_line L entry)))
      | _ \<Rightarrow> False))"
proof -
  let ?id = "ba_current_block_id st" and ?n = "length (ba_buffer st)"
  have ne: "ba_buffer st \<noteq> []" using assms(1) flush_empty [of st L env fs] by auto
  obtain t where w: "write_block L env ?id ?n (flush_records L env st) t (drained st) fs = (Err e, st', fs')"
    using flush_eq [OF ne, of L env fs] assms(1) by auto
  then have led: "ba_ledger st' = ba_ledger st"
    by (auto simp: write_block_def Let_def split: prod.splits sum.splits)
  obtain r fs1 where wr: "write_records_to_parquet (il_store L) (fe_parquet_io env) block (flush_records L env st)
      (bc_compression (ba_config st)) fs = (r, fs1)" by force
  have frame: "fs1 q = fs q" if "q \<noteq> block" for q
    using parquet.store_frame [of "il_store L" "(fe_parquet_io env, bc_compression (ba_config st))" block _ fs r fs1 q]
      wr that by simp
  have paths: "path_join (bc_storage_dir (ba_config st)) (block_file_name ?id) = block" by (simp add: assms(2) block_path_def)
  have len: "length (pending_logs (st, fs)) = ?n" by (simp add: pending_logs_def)
  obtain entry where entry: "le_block_id entry = ?id" "le_leaf_count entry = length (pending_logs (st, fs))"
    and disk: "(\<exists>x. e = ParquetWrite x) \<and> fs' = fs1 \<or>
      append_ledger_entry L (fe_ledger_io env) ledger entry fs1 = (Err e, fs')"
  proof
    let ?entry = "\<lparr>le_block_id = ?id, le_timestamp = fe_now_ms env, le_leaf_count = ?n,
      le_merkle_root = to_hex L (mt_root t), le_parquet_file = block_file_name ?id\<rparr>"
    show "(\<exists>x. e = ParquetWrite x) \<and> fs' = fs1 \<or> append_ledger_entry L (fe_ledger_io env) ledger ?entry fs1 = (Err e, fs')"
      using w wr paths by (auto simp: write_block_def Let_def drained_def assms(3) split: prod.splits sum.splits)
  qed (simp_all add: len)
  have on_disk: "(\<forall>q. q \<noteq> block \<and> q \<noteq> ledger \<longrightarrow> fs' q = fs q) \<and>
     (ledger \<noteq> block \<longrightarrow> (case e of
        ParquetWrite x \<Rightarrow> fs' ledger = fs ledger
      | LedgerAppend \<Rightarrow> fs' ledger = fs ledger \<or>
          (\<exists>entry n. le_block_id entry = ?id \<and> le_leaf_count entry = length (pending_logs (st, fs)) \<and>
             fs' ledger = Some (unwrap_or [] (fs ledger) @
               take n (ledger_line L entry)))
      | _ \<Rightarrow> False))"
    using disk
  proof
    assume "append_ledger_entry L (fe_ledger_io env) ledger entry fs1 = (Err e, fs')"
    note a = append_failed [OF this]
    have "ledger \<noteq> block \<Longrightarrow> fs1 ledger = fs ledger" by (rule frame)
    then show ?thesis using a frame entry by (auto, blast)
  qed (use frame in auto)
  show ?thesis using led flush_state [OF assms(1)] ne on_disk by (simp add: pending_logs_def)
qed

theorem failed_flush_drops_buffer_witness:
  "\<exists>st'. flush TL (test_env\<lparr>fe_parquet_io := NotOpened\<rparr>) (full_batcher, \<lambda>p. None) =
      Some (Err (ParquetWrite WriteNotOpened), st', \<lambda>p. None) \<and>
     pending_logs (st', \<lambda>p. None) = [] \<and> ba_ledger st' = ba_ledger full_batcher \<and>
     ba_current_block_id st' = ba_current_block_id full_batcher + 1 \<and>
     pending_logs (full_batcher, \<lambda>p. None) \<noteq> []"
proof -
  let ?env = "test_env\<lparr>fe_parquet_io := NotOpened\<rparr>"
  have ne: "ba_buffer full_batcher \<noteq> []" by simp
  have "write_block TL ?env b n (flush_records TL ?env full_batcher) t st (\<lambda>p. None) =
      (Err (ParquetWrite WriteNotOpened), st, \<lambda>p. None)" for b n t st
    using records_to_batch_ok [OF store_libs_ok_test]
    by (simp add: write_block_def Let_def write_records_to_parquet_def write_parquet_file_def)
  then have f: "flush TL ?env (full_batcher, \<lambda>p. None) =
      Some (Err (ParquetWrite WriteNotOpened), drained full_batcher, \<lambda>p. None)"
    using flush_eq [OF ne, of TL ?env "\<lambda>p. None"] by auto
  from failed_flush_drops_buffer [OF f refl refl] f show ?thesis by blast
qed

text \<open>
  The accumulator never panics and keeps its invariant: whatever the outcome of the writes, a
  push leaves fewer than \<open>max_batch_size\<close> logs buffered, and a start time exactly when the buffer is
  not empty.
\<close>
theorem push_keeps_invariant:
  assumes "batcher_inv st"
  shows "\<exists>r st' fs'. push L env log (st, fs) = Some (r, st', fs') \<and> batcher_inv st' \<and>
           ba_config st' = ba_config st"
proof -
  obtain r st' fs' where p: "push L env log (st, fs) = Some (r, st', fs')"
    using push_total [of L env log "(st, fs)"] by auto
  show ?thesis using p push_preserves_inv [OF assms p] by blast
qed

theorem push_keeps_invariant_witness:
  "\<exists>r st' fs'. push TL test_push_env (new_incoming_log ''V'' ''a'') (fresh_batcher, \<lambda>p. None) =
      Some (r, st', fs') \<and> batcher_inv st' \<and> ba_config st' = ba_config fresh_batcher"
  by (rule push_keeps_invariant) (simp add: batcher_inv_def fresh_batcher_def)

text \<open>
  C18. A restart continues where the ledger ends: on a disk that matches, \<open>new\<close> loads the same
  ledger and takes a block id above every id in it, so new blocks never overwrite stored ones.
\<close>
theorem restart_resumes:
  assumes "disk_ok L n st fs"
  shows "\<exists>st'. batcher_new L (ba_config st) fs = Ok st' \<and> ba_ledger st' = ba_ledger st \<and>
    (\<forall>e. e \<in> set (ba_ledger st) \<longrightarrow> le_block_id e < ba_current_block_id st') \<and> durable L n (st', fs)"
proof -
  obtain st' where st': "batcher_new L (ba_config st) fs = Ok st'" "ba_ledger st' = ba_ledger st"
    "durable L n (st', fs)"
    using batcher_new_durable [OF assms] by blast
  moreover from this have "\<forall>e \<in> set (ba_ledger st'). entry_ok L (ba_config st') fs (ba_current_block_id st') e"
    by (simp add: durable_def disk_ok_def)
  ultimately show ?thesis by (auto simp: entry_ok_def)
qed

lemma disk_ok_flushed: "disk_ok TL 4 flushed_batcher flushed_fs"
proof -
  obtain r where f: "flush TL test_env (full_batcher, \<lambda>p. None) = Some (Ok r, flushed_batcher, flushed_fs)"
    using flush_test by blast
  have "disk_ok TL (Suc 4) full_batcher (\<lambda>p. None)" using disk_ok_full by simp
  from flush_durable(1) [OF this _ f] show ?thesis by simp
qed

theorem restart_resumes_witness:
  "\<exists>st'. batcher_new TL (ba_config flushed_batcher) flushed_fs = Ok st' \<and>
     ba_ledger st' = ba_ledger flushed_batcher \<and>
     (\<forall>e. e \<in> set (ba_ledger flushed_batcher) \<longrightarrow> le_block_id e < ba_current_block_id st') \<and>
     durable TL 4 (st', flushed_fs)"
  by (rule restart_resumes [OF disk_ok_flushed])

subsection \<open>The forensic verifier\<close>

text \<open>
  What a flush wrote verifies: after a successful flush, verifying the new block's file against the
  ledger file finds its entry and reports a valid block with no anomaly.
\<close>
theorem flushed_block_verifies:
  assumes "disk_ok L (Suc n) st fs" "ba_buffer st \<noteq> []"
    and "flush L env (st, fs) = Some (Ok r, st', fs')"
  shows "\<exists>rep. verify_block_with_ledger L
      (block_path (ba_config st) (block_file_name (ba_current_block_id st)))
      (bc_ledger_path (ba_config st)) fs' = Some (Ok rep) \<and>
    rp_is_valid rep \<and> rp_tampered_records rep = [] \<and>
    rp_actual_records rep = length (ba_buffer st) \<and> rp_block_id rep = ba_current_block_id st"
proof -
  let ?e = "new_entry L env st" and ?rs = "flush_records L env st"
  obtain fs1 u1 u2 where a: "append_ledger_entry L (fe_ledger_io env) (bc_ledger_path (ba_config st)) ?e fs1 = (Ok u2, fs')"
    and st': "st' = (drained st)\<lparr>ba_ledger := ba_ledger st @ [?e]\<rparr>"
    using flush_okE [OF assms(3,2)] by metis
  have disk: "disk_ok L n st' fs'" by (rule flush_durable(1) [OF assms])
  have "fs' (bc_ledger_path (ba_config st)) \<noteq> None"
    using a by (auto simp: append_ledger_entry_def Let_def split: write_outcome.splits option.splits)
  then have load: "load_ledger_entries L (bc_ledger_path (ba_config st)) fs' = Ok (ba_ledger st @ [?e])"
    using disk by (auto simp: disk_ok_def ledger_file_def st' split: option.splits)
  have old: "\<forall>e \<in> set (ba_ledger st). le_block_id e \<noteq> ba_current_block_id st"
    using assms(1) by (auto simp: disk_ok_def entry_ok_def)
  have "entry_ok L (ba_config st) fs' (ba_current_block_id st + 1) ?e"
    using disk by (simp add: disk_ok_def st')
  then obtain rs where rs: "read_parquet_file (il_store L)
      (block_path (ba_config st) (block_file_name (ba_current_block_id st))) fs' = Some (Ok rs)"
    "block_matches L ?e rs" by (auto simp: entry_ok_def new_entry_def)
  then have len: "length rs = length (ba_buffer st)" "sr_block_id (hd rs) = ba_current_block_id st" "rs \<noteq> []"
    using assms(2) by (cases rs; force simp: block_matches_def new_entry_def)+
  then have target: "target_block_id p rs = ba_current_block_id st" for p
    by (cases rs) (auto simp: target_block_id_def)
  have "find (\<lambda>e. le_block_id e = ba_current_block_id st) (ba_ledger st @ [?e]) = Some ?e"
    using old by (intro find_append_new) (auto simp: new_entry_def)
  moreover obtain rep where rep: "verify_records L rs ?e = Some rep"
    using verify_records_total by blast
  moreover have valid: "rp_is_valid rep"
    using verify_records_valid_iff [OF rep] rs(2) by (simp add: block_matches_def raw_digest_def)
  moreover have "rp_tampered_records rep = []"
    using conjunct2 [OF verify_records_valid_iff [OF rep]] valid by simp
  ultimately show ?thesis
    using rs(1) load target len verify_records_root [OF rep]
    by (simp add: verify_block_with_ledger_def Let_def new_entry_def)
qed

theorem flushed_block_verifies_witness:
  "\<exists>rep. verify_block_with_ledger TL
      (block_path (ba_config full_batcher) (block_file_name (ba_current_block_id full_batcher)))
      (bc_ledger_path (ba_config full_batcher)) flushed_fs = Some (Ok rep) \<and>
    rp_is_valid rep \<and> rp_tampered_records rep = [] \<and>
    rp_actual_records rep = length (ba_buffer full_batcher) \<and>
    rp_block_id rep = ba_current_block_id full_batcher"
proof -
  obtain r where f: "flush TL test_env (full_batcher, \<lambda>p. None) = Some (Ok r, flushed_batcher, flushed_fs)"
    using flush_test by blast
  have "disk_ok TL (Suc 4) full_batcher (\<lambda>p. None)" using disk_ok_full by simp
  then show ?thesis by (rule flushed_block_verifies [OF _ _ f]) simp
qed

text \<open>
  C6. No altered log passes: if a block is reported valid against a ledger entry whose root anchors the
  logs \<open>orig\<close>, then the block holds exactly those logs, in that order, whatever else an attacker
  rewrote (leaf indices, stored digests), unless the digest collides on the inputs hashed.
\<close>
theorem valid_block_is_untampered:
  assumes "integrity_libs_ok L" "verify_records L rs e = Some rep" "rp_is_valid rep"
    and "le_merkle_root e = to_hex L (mth_raw (il_sha256 L) (map bytes_of orig))"
    and "merkle_safe (il_sha256 L) (raws rs) (map bytes_of orig)"
  shows "map sr_raw_log rs = orig"
proof -
  have "to_hex L (mth_raw (il_sha256 L) (raws rs)) = to_hex L (mth_raw (il_sha256 L) (map bytes_of orig))"
    using verify_records_valid_iff [OF assms(2)] assms(3,4) by simp
  then have "mth_raw (il_sha256 L) (raws rs) = mth_raw (il_sha256 L) (map bytes_of orig)"
    using integrity_libs_okD(3) [OF assms(1)] by (auto simp: to_hex_def dest: injD intro: hash.expand)
  then have "raws rs = map bytes_of orig" by (rule rfc6962.binding [OF assms(5)])
  then have "map bytes_of (map sr_raw_log rs) = map bytes_of orig" by (simp add: raws_def o_def)
  then show ?thesis using bytes_of_inject by (metis injI inj_map_eq_map)
qed

theorem valid_block_is_untampered_witness:
  "map sr_raw_log test_records = [''a'', ''b'']"
proof -
  obtain rep where rep: "verify_records TL test_records test_entry = Some rep"
    using verify_records_total by blast
  have "block_matches TL test_entry test_records"
    using new_entry_matches [of TL test_env full_batcher] by (simp only: new_entry_test flush_records_test)
  then have valid: "rp_is_valid rep"
    using verify_records_valid_iff [OF rep] by (simp add: block_matches_def raw_digest_def)
  have cf: "merkle_safe test_digest [bytes_of ''a'', bytes_of ''b''] [bytes_of ''a'', bytes_of ''b'']"
    unfolding merkle_safe_def by (rule conjI [OF digest_ok_test collision_free_code]) code_simp
  show ?thesis
    by (rule valid_block_is_untampered [OF integrity_libs_ok_test rep valid])
      (simp_all only: raws_test test_libs_simps cf list.map test_entry_def to_hex_def ledger_entry.select_convs)
qed

text \<open>
  Exactly which blocks are valid: the record count of the ledger, every leaf index its position, every
  stored digest that of its raw log, and the anchored root; and a report is valid exactly when it lists no anomaly.
\<close>
theorem verify_records_characterized:
  "\<exists>rep. verify_records L rs e = Some rep \<and>
     (rp_is_valid rep \<longleftrightarrow> rp_tampered_records rep = []) \<and>
     (rp_is_valid rep \<longleftrightarrow> length rs = le_leaf_count e \<and>
        map sr_leaf_index rs = map of_nat [0..<length rs] \<and>
        map sr_raw_hash rs = map (raw_digest L) rs \<and>
        le_merkle_root e = to_hex L (mth_raw (il_sha256 L) (raws rs)))"
proof -
  obtain rep where rep: "verify_records L rs e = Some rep" using verify_records_total by blast
  have index: "map sr_leaf_index rs = map of_nat [0..<length rs] \<longleftrightarrow>
      (\<forall>i < length rs. sr_leaf_index (rs ! i) = of_nat i)"
    by (subst list_eq_iff_nth_eq) simp
  have eq: "(\<forall>i < length rs. sr_leaf_index (rs ! i) = of_nat i \<and> sr_raw_hash (rs ! i) = raw_digest L (rs ! i)) \<longleftrightarrow>
      map sr_leaf_index rs = map of_nat [0..<length rs] \<and> map sr_raw_hash rs = map (raw_digest L) rs"
    unfolding map_eq_conv all_set_conv_all_nth index by blast
  note valid = verify_records_valid_iff [OF rep]
  show ?thesis
    using rep conjunct2 [OF valid] conjunct1 [OF valid, unfolded eq conj_assoc]
    by (intro exI [of _ rep] conjI)
qed

text \<open>
  Only three columns are authenticated: blocks that agree on raw logs, stored digests and leaf indices
  get the same verdict and the same computed root, so event ids, timestamps, vendors and the normalised OCSF
  events can be rewritten without detection.
\<close>
theorem other_columns_unauthenticated:
  assumes "map sr_raw_log rs = map sr_raw_log rs'" "map sr_raw_hash rs = map sr_raw_hash rs'"
    and "map sr_leaf_index rs = map sr_leaf_index rs'"
    and "verify_records L rs e = Some rep" "verify_records L rs' e = Some rep'"
  shows "rp_is_valid rep = rp_is_valid rep' \<and> rp_computed_merkle_root rep = rp_computed_merkle_root rep'"
proof -
  have len: "length rs = length rs'" using assms(1) by (metis length_map)
  have "raws rs = raws rs'" using assms(1) by (simp add: raws_def flip: map_map)
  moreover have "\<forall>i < length rs. sr_leaf_index (rs ! i) = sr_leaf_index (rs' ! i) \<and>
      sr_raw_hash (rs ! i) = sr_raw_hash (rs' ! i) \<and> sr_raw_log (rs ! i) = sr_raw_log (rs' ! i)"
    using assms(1-3) len by (metis nth_map)
  ultimately show ?thesis
    using verify_records_valid_iff [OF assms(4)] verify_records_valid_iff [OF assms(5)]
      verify_records_root [OF assms(4)] verify_records_root [OF assms(5)] len
    by (simp add: raw_digest_def)
qed

theorem other_columns_unauthenticated_witness:
  "\<exists>rep rep'. verify_records TL test_records test_entry = Some rep \<and>
     verify_records TL (map (sr_vendor_update (\<lambda>_. ''forged'')) test_records) test_entry = Some rep' \<and>
     rp_is_valid rep = rp_is_valid rep' \<and> rp_computed_merkle_root rep = rp_computed_merkle_root rep'"
proof -
  let ?rs' = "map (sr_vendor_update (\<lambda>_. ''forged'')) test_records"
  obtain rep rep' where rep: "verify_records TL test_records test_entry = Some rep"
    "verify_records TL ?rs' test_entry = Some rep'"
    using verify_records_total by blast
  have eq: "map sr_raw_log test_records = map sr_raw_log ?rs'" "map sr_raw_hash test_records = map sr_raw_hash ?rs'"
    "map sr_leaf_index test_records = map sr_leaf_index ?rs'" by (simp_all add: o_def)
  show ?thesis using rep other_columns_unauthenticated [OF eq rep] by blast
qed

text \<open>
  The verdict of \<open>verify_block_with_ledger\<close> on a block that is not empty does not depend on its
  path: a file overwritten by a copy of another valid block verifies as that other block, so replacing or replaying
  whole blocks goes unnoticed.
\<close>
theorem block_replay_unnoticed:
  assumes "fs p = fs q" "read_parquet_file (il_store L) q fs = Some (Ok rs)" "rs \<noteq> []"
  shows "verify_block_with_ledger L p ledger fs = verify_block_with_ledger L q ledger fs"
proof -
  have "read_parquet_file (il_store L) p fs = read_parquet_file (il_store L) q fs"
    by (rule parquet.load_local) (rule assms(1))
  moreover have "target_block_id p rs = target_block_id q rs"
    using assms(3) by (cases rs) (simp_all add: target_block_id_def)
  ultimately show ?thesis using assms(2) by (simp add: verify_block_with_ledger_def Let_def split: sum.split)
qed

theorem block_replay_unnoticed_witness:
  "verify_block_with_ledger TL ''block_00007.parquet'' ''ledger.jsonl''
     [''block_00000.parquet'' \<mapsto> ''PAR1'', ''block_00007.parquet'' \<mapsto> ''PAR1''] =
   verify_block_with_ledger TL ''block_00000.parquet'' ''ledger.jsonl''
     [''block_00000.parquet'' \<mapsto> ''PAR1'', ''block_00007.parquet'' \<mapsto> ''PAR1'']"
proof (rule block_replay_unnoticed)
  have "read_parquet_file (test_store test_records) ''f'' [''f'' \<mapsto> ''PAR1''] = Some (Ok test_records)"
    by (rule write_read_parquet [OF store_libs_ok_test write_test])
  then show "read_parquet_file (il_store TL) ''block_00000.parquet''
      [''block_00000.parquet'' \<mapsto> ''PAR1'', ''block_00007.parquet'' \<mapsto> ''PAR1''] = Some (Ok test_records)"
    by (simp add: read_parquet_file_def)
qed (simp_all add: test_records_def)

end
