(* ===== verification/Drain_Masker.thy ===== *)
theory Drain_Masker
  imports Rust_Str Complex_Main
begin

text \<open>
  The parameter masker of \<open>ulpf-ai/src/drain.rs\<close> (\<open>LogMasker\<close>) and the tokenizer of the miner. The
  regex engine is third-party: \<open>ml_replace\<close> replaces every match of a pattern, \<open>ml_matches\<close> cuts a
  text into its matches, each with the text in front of it, and the rest. A pattern literal writes a tilde for the
  backslash, which a literal cannot hold, and \<open>regex\<close> replaces it.
\<close>

record masker_libs =
  ml_replace :: "string \<Rightarrow> string \<Rightarrow> string \<Rightarrow> string"
  ml_matches :: "string \<Rightarrow> string \<Rightarrow> (string \<times> string) list \<times> string"

definition regex :: "string \<Rightarrow> string" where
  "regex p = map (\<lambda>c. if c = CHR ''~'' then backslash else c) p"

definition re_syslog_tag :: string where
  "re_syslog_tag = regex ''%[A-Za-z0-9_-]+-~d+-~d+:|%[A-Za-z0-9_-]+:''"

definition re_ip_port :: string where
  "re_ip_port = regex ''((?:~d{1,3}~.){3}~d{1,3})[:/](~d{1,5})''"

definition re_ip :: string where
  "re_ip = regex ''~b(?:~d{1,3}~.){3}~d{1,3}~b''"

definition re_timestamp_iso :: string where
  "re_timestamp_iso = regex ''~b~d{4}[-/]~d{2}[-/]~d{2}[T~s]~d{2}:~d{2}:~d{2}(?:~.~d+)?(?:Z|[+-]~d{2}:?~d{2})?~b''"

definition re_timestamp_syslog :: string where
  "re_timestamp_syslog = regex ''~b(?:Jan|Feb|Mar|Apr|May|Jun|Jul|Aug|Sep|Oct|Nov|Dec)~s+~d{1,2}~s+~d{2}:~d{2}:~d{2}~b''"

definition re_hex :: string where
  "re_hex = regex ''~b0x[0-9a-fA-F]+~b|~b[a-fA-F0-9]{32,64}~b''"

definition re_uuid :: string where
  "re_uuid = regex ''~b[0-9a-fA-F]{8}-[0-9a-fA-F]{4}-[0-9a-fA-F]{4}-[0-9a-fA-F]{4}-[0-9a-fA-F]{12}~b''"

definition re_url :: string where
  "re_url = regex (''https?://[^~s,'' @ CHR 0x22 # CHR 0x27 # ''>]+'')"

definition re_kv_num :: string where
  "re_kv_num = regex (''(~b(?:sessionid|session_id|logid|sentbyte|rcvdbyte|sentpkt|rcvdpkt|duration|bytes|cn1|cn2|cn3|eventtime|tracker)=~s*['' @
     CHR 0x22 # CHR 0x27 # '']?)~d+(['' @ CHR 0x22 # CHR 0x27 # '']?)'')"

definition re_pure_num :: string where
  "re_pure_num = regex ''~b~d{3,}~b''"

definition wildcard :: string where "wildcard = ''<*>''"

definition tag_placeholder :: "nat \<Rightarrow> string" where
  "tag_placeholder i = ''__SYSLOG_TAG_'' @ show_nat i @ ''__''"

text \<open>The text with the i-th tag replaced by its placeholder, and the saved tags.\<close>

definition protect_tags :: "masker_libs \<Rightarrow> string \<Rightarrow> string \<times> (string \<times> string) list" where
  "protect_tags L s =
     (let (pieces, rest) = ml_matches L re_syslog_tag s;
          saved = map (\<lambda>(i, gap, tag). (tag_placeholder i, tag)) (enumerate 0 pieces)
      in (concat (map (\<lambda>(i, gap, tag). gap @ tag_placeholder i) (enumerate 0 pieces)) @ rest, saved))"

definition restore_tags :: "(string \<times> string) list \<Rightarrow> string \<Rightarrow> string" where
  "restore_tags saved s = fold (\<lambda>(placeholder, tag) s. replace_str s placeholder tag) saved s"

definition when_apply :: "bool \<Rightarrow> (string \<Rightarrow> string) \<Rightarrow> string \<Rightarrow> string" where
  "when_apply b f s = (if b then f s else s)"

definition has_char :: "char \<Rightarrow> string \<Rightarrow> bool" where
  "has_char c s = list_ex (\<lambda>d. d = c) s"

definition mask_fields :: "masker_libs \<Rightarrow> string \<Rightarrow> string \<Rightarrow> string" where
  "mask_fields L raw s0 =
     (let has_dot = has_char CHR ''.'' raw;
          has_colon = has_char CHR '':'' raw;
          has_digit = list_ex is_ascii_digit raw;
          s1 = when_apply (contains raw ''http'') (ml_replace L re_url wildcard) s0;
          s2 = when_apply (has_char CHR ''-'' raw \<and> 36 < length raw) (ml_replace L re_uuid wildcard) s1;
          s3 = when_apply (contains raw ''0x'') (ml_replace L re_hex wildcard) s2;
          s4 = when_apply (has_colon \<and> (has_char CHR ''-'' raw \<or> has_char CHR ''/'' raw))
                 (ml_replace L re_timestamp_iso wildcard) s3;
          s5 = when_apply has_colon (ml_replace L re_timestamp_syslog wildcard) s4;
          s6 = when_apply (has_dot \<and> (has_colon \<or> has_char CHR ''/'' raw)) (ml_replace L re_ip_port wildcard) s5;
          s7 = when_apply has_dot (ml_replace L re_ip wildcard) s6;
          s8 = when_apply (has_char CHR ''='' raw) (ml_replace L re_kv_num ''${1}<*>${2}'') s7
      in when_apply has_digit (ml_replace L re_pure_num wildcard) s8)"

definition mask :: "masker_libs \<Rightarrow> string \<Rightarrow> string" where
  "mask L raw =
     (let has_percent = has_char CHR ''%'' raw;
          has_digit = list_ex is_ascii_digit raw
      in if \<not> has_digit \<and> \<not> has_percent then raw
         else
           let (s, saved_tags) = (if has_percent then protect_tags L raw else (raw, []))
           in restore_tags saved_tags (mask_fields L raw s))"

definition drain_trim :: "char \<Rightarrow> bool" where
  "drain_trim c \<longleftrightarrow> c = CHR '','' \<or> c = CHR '';'' \<or> c = CHR 0x22 \<or> c = CHR 0x27"

definition drain_tokenize :: "string \<Rightarrow> string list" where
  "drain_tokenize input =
     (if has_char CHR '' '' input then
        filter (\<lambda>s. s \<noteq> []) (map (trim_matches drain_trim) (split_whitespace input))
      else if has_char CHR '','' input then
        filter (\<lambda>s. s \<noteq> []) (map trim (split_char (\<lambda>c. c = CHR '','') input))
      else [input])"

text \<open>A line with neither digits nor a percent sign is left alone.\<close>

lemma mask_plain: "\<not> list_ex is_ascii_digit raw \<Longrightarrow> CHR ''%'' \<notin> set raw \<Longrightarrow> mask L raw = raw"
  by (auto simp: mask_def has_char_def list_ex_iff Let_def)

end
