(* ===== verification/Rust_Float.thy ===== *)
theory Rust_Float
  imports Rust_Str Complex_Main
begin

text \<open>
  Floating-point numbers as far as the code prints and reads them: a finite value is an exact rational (the rounding
  to 53 bits is left out), beside the infinities and NaN. \<open>show_fixed2\<close> is the format \<open>{:.2}\<close>,
  which rounds ties to even, and \<open>parse_f64\<close> is \<open>f64::from_str\<close>.
\<close>

datatype float_val = Finite rat | Infinite bool | Not_a_number

definition round_half_even :: "rat \<Rightarrow> int" where
  "round_half_even r =
     (let n = \<lfloor>r\<rfloor>; d = r - of_int n
      in if d < 1 / 2 \<or> (d = 1 / 2 \<and> even n) then n else n + 1)"

definition show_fixed2 :: "rat \<Rightarrow> string" where
  "show_fixed2 r =
     (let n = nat (round_half_even (100 * r))
      in show_nat (n div 100) @ ''.'' @ pad_zeros 2 (show_nat (n mod 100)))"

fun show_f64_2 :: "float_val \<Rightarrow> string" where
  "show_f64_2 (Finite r) = (if r < 0 then ''-'' @ show_fixed2 (- r) else show_fixed2 r)"
| "show_f64_2 (Infinite neg) = (if neg then ''-inf'' else ''inf'')"
| "show_f64_2 Not_a_number = ''NaN''"

definition parse_exponent :: "string \<Rightarrow> int option" where
  "parse_exponent s =
     (case s of
        [] \<Rightarrow> Some 0
      | c # r \<Rightarrow>
          if c \<noteq> CHR ''e'' \<and> c \<noteq> CHR ''E'' then None
          else case r of
            [] \<Rightarrow> None
          | d # ds \<Rightarrow>
              if d = CHR ''-'' then map_option (\<lambda>n. - int n) (parse_digits ds)
              else map_option int (parse_digits (if d = CHR ''+'' then ds else r)))"

definition scale10 :: "int \<Rightarrow> rat \<Rightarrow> rat" where
  "scale10 e x = (if 0 \<le> e then x * 10 ^ nat e else x / 10 ^ nat (- e))"

definition fraction_part :: "string \<Rightarrow> string \<times> string" where
  "fraction_part s =
     (case s of [] \<Rightarrow> ([], [])
      | c # cs \<Rightarrow> (if c = CHR ''.'' then (takeWhile is_ascii_digit cs, dropWhile is_ascii_digit cs) else ([], s)))"

definition parse_decimal :: "string \<Rightarrow> rat option" where
  "parse_decimal s =
     (let ip = takeWhile is_ascii_digit s;
          (fp, rest) = fraction_part (dropWhile is_ascii_digit s)
      in if ip = [] \<and> fp = [] then None
         else map_option (\<lambda>e. scale10 (e - int (length fp)) (of_nat (digits_val (ip @ fp)))) (parse_exponent rest))"

definition parse_unsigned_f64 :: "bool \<Rightarrow> string \<Rightarrow> float_val option" where
  "parse_unsigned_f64 neg s =
     (case parse_decimal s of
        Some r \<Rightarrow> Some (Finite (if neg then - r else r))
      | None \<Rightarrow>
          if eq_ignore_ascii_case s ''inf'' \<or> eq_ignore_ascii_case s ''infinity'' then Some (Infinite neg)
          else if eq_ignore_ascii_case s ''nan'' then Some Not_a_number else None)"

definition parse_f64 :: "string \<Rightarrow> float_val option" where
  "parse_f64 s =
     (case s of
        [] \<Rightarrow> None
      | c # cs \<Rightarrow>
          if c = CHR ''-'' then parse_unsigned_f64 True cs
          else parse_unsigned_f64 False (if c = CHR ''+'' then cs else s))"

subsection \<open>Reading back what was printed\<close>

lemma round_half_even_int [simp]: "round_half_even (of_int n) = n" "round_half_even (of_nat m) = int m"
proof -
  show i: "round_half_even (of_int n) = n" for n by (simp add: round_half_even_def)
  show "round_half_even (of_nat m) = int m" using i [of "int m"] by simp
qed

lemma digits_val_append: "digits_val (s @ t) = digits_val s * 10 ^ length t + digits_val t"
  by (induction t rule: rev_induct) (simp_all flip: append_assoc add: algebra_simps)

lemma show_nat_two: "n < 100 \<Longrightarrow>
    length (pad_zeros 2 (show_nat n)) = 2 \<and> list_all is_ascii_digit (pad_zeros 2 (show_nat n)) \<and>
    digits_val (pad_zeros 2 (show_nat n)) = n"
proof -
  assume n: "n < 100"
  show ?thesis
  proof (cases "n < 10")
    case True
    then show ?thesis
      using digits_val_snoc [of "[CHR ''0'']"] digits_val_snoc [of "[]" "CHR ''0''"]
      by (simp add: pad_zeros_def show_nat.simps [of n] is_ascii_digit_def digit_val_def)
  next
    case False
    then have "length (show_nat n) = 2"
      using n by (subst show_nat.simps) (simp add: show_nat.simps [of "n div 10"])
    then show ?thesis by (simp add: pad_zeros_def)
  qed
qed

lemma takeWhile_digits [simp]: "list_all is_ascii_digit s \<Longrightarrow> takeWhile is_ascii_digit s = s"
  "list_all is_ascii_digit s \<Longrightarrow> dropWhile is_ascii_digit s = []"
  by (simp_all add: list_all_iff takeWhile_eq_all_conv dropWhile_eq_Nil_conv)

lemma takeWhile_digits_append [simp]:
  "list_all is_ascii_digit s \<Longrightarrow> takeWhile is_ascii_digit (s @ CHR ''.'' # t) = s"
  "list_all is_ascii_digit s \<Longrightarrow> dropWhile is_ascii_digit (s @ CHR ''.'' # t) = CHR ''.'' # t"
  by (simp_all add: list_all_iff is_ascii_digit_def)

lemma parse_f64_show: "parse_f64 (show_f64_2 (Finite (of_nat n / 100))) = Some (Finite (of_nat n / 100))"
proof -
  let ?p = "pad_zeros 2 (show_nat (n mod 100))"
  have p: "length ?p = 2" "list_all is_ascii_digit ?p" "digits_val ?p = n mod 100"
    using show_nat_two [of "n mod 100"] by simp_all
  let ?s = "show_nat (n div 100) @ CHR ''.'' # ?p"
  have s: "show_f64_2 (Finite (of_nat n / 100)) = ?s"
    by (simp add: show_fixed2_def)
  have "digits_val (show_nat (n div 100) @ ?p) = n" using p by (simp add: digits_val_append)
  then have "parse_decimal ?s = Some (of_nat n / 100)"
    using p by (simp add: parse_decimal_def fraction_part_def parse_exponent_def scale10_def)
  moreover obtain c cs where c: "show_nat (n div 100) = c # cs" "is_ascii_digit c"
    using show_nat_digits [of "n div 100"] by (cases "show_nat (n div 100)") auto
  ultimately show ?thesis
    unfolding s using not_digit_plus by (auto simp: parse_f64_def parse_unsigned_f64_def)
qed

lemma parse_f64_samples:
  "parse_f64 ''1.00'' = Some (Finite 1)" "parse_f64 ''-2.5e-1'' = Some (Finite (- 1 / 4))"
  "parse_f64 ''.'' = None" "parse_f64 ''-Infinity'' = Some (Infinite True)" "parse_f64 ''1e'' = None"
  by code_simp+

end
