(* ===== verification/Drain.thy ===== *)
theory Drain
  imports Drain_Masker Rust_Float
begin

text \<open>
  The Drain template miner of \<open>ulpf-ai/src/drain.rs\<close>: clusters, the fixed-depth prefix tree, the similarity
  with its anchor tokens, and \<open>add_log\<close>. The clock, the elapsed time and the regex engine are arguments. The
  floating-point ratios of the code are exact rationals here; identifiers and counts are natural numbers. \<open>None\<close>
  is a panic.
\<close>

record drain_config =
  dc_depth :: nat
  dc_similarity_threshold :: rat
  dc_max_children :: nat
  dc_max_clusters :: nat
  dc_rare_count_threshold :: nat
  dc_surge_multiplier :: rat
  dc_window_size :: nat
  dc_unique_anchor_tokens :: "string list"

definition default_drain_config :: drain_config where
  "default_drain_config =
     \<lparr>dc_depth = 4, dc_similarity_threshold = 1 / 2, dc_max_children = 100, dc_max_clusters = 10000,
      dc_rare_count_threshold = 5, dc_surge_multiplier = 3, dc_window_size = 100,
      dc_unique_anchor_tokens =
        [''ALLOW'', ''DENY'', ''DROP'', ''BLOCK'', ''PERMIT'', ''REJECT'', ''PASS'']\<rparr>"

datatype alert_severity = Info | Low | Medium | High | Critical

datatype anomaly_type = NewTemplate | RareClusterSurge | EvasionAnomaly

record anomaly_alert =
  aa_anomaly_type :: anomaly_type
  aa_cluster_id :: nat
  aa_template :: string
  aa_message :: string
  aa_timestamp :: int
  aa_count :: nat
  aa_severity :: alert_severity

record log_cluster =
  cl_cluster_id :: nat
  cl_template_tokens :: "string list"
  cl_template :: string
  cl_count :: nat
  cl_size :: nat
  cl_created_at :: int
  cl_last_seen :: int
  cl_recent_timestamps :: "int list"

definition cluster_new :: "nat \<Rightarrow> string list \<Rightarrow> int \<Rightarrow> log_cluster" where
  "cluster_new cluster_id tokens now_ms =
     \<lparr>cl_cluster_id = cluster_id, cl_template_tokens = tokens, cl_template = join '' '' tokens,
      cl_count = 1, cl_size = length tokens, cl_created_at = now_ms, cl_last_seen = now_ms,
      cl_recent_timestamps = [now_ms]\<rparr>"

text \<open>The template tokens after an update: the zip stops at the shorter list, the rest of the template stays.\<close>

fun merge_tokens :: "string list \<Rightarrow> string list \<Rightarrow> string list" where
  "merge_tokens (t # ts) (w # ws) =
     (if t \<noteq> w \<and> t \<noteq> wildcard then wildcard else t) # merge_tokens ts ws"
| "merge_tokens ts ws = ts"

definition cluster_update :: "string list \<Rightarrow> int \<Rightarrow> log_cluster \<Rightarrow> log_cluster" where
  "cluster_update incoming_tokens now_ms c =
     (let recent = cl_recent_timestamps c;
          recent1 = (if 64 \<le> length recent then tl recent else recent);
          tokens = merge_tokens (cl_template_tokens c) incoming_tokens
      in c\<lparr>cl_count := cl_count c + 1, cl_last_seen := now_ms,
           cl_recent_timestamps := recent1 @ [now_ms],
           cl_template_tokens := tokens,
           cl_template := (if tokens \<noteq> cl_template_tokens c then join '' '' tokens else cl_template c)\<rparr>)"

definition recent_rate_per_sec :: "log_cluster \<Rightarrow> rat" where
  "recent_rate_per_sec c =
     (let recent = cl_recent_timestamps c; n = length recent in
      if n < 2 then 0
      else let elapsed_ms = last recent - hd recent in
        if elapsed_ms \<le> 0 then of_nat n else of_nat n / (of_int elapsed_ms / 1000))"

record cluster_result =
  cr_cluster_id :: nat
  cr_template :: string
  cr_is_new :: bool
  cr_similarity :: rat
  cr_anomaly :: "anomaly_alert option"
  cr_mining_latency_micros :: u64

datatype node = Node (node_key: string) (node_children: "(string \<times> node) list") (node_cluster_ids: "nat list")

record drain_miner =
  dm_config :: drain_config
  dm_root :: node
  dm_clusters :: "(nat, log_cluster) hash_map"
  dm_next_cluster_id :: nat
  dm_total_logs_processed :: nat

definition drain_new :: "drain_config \<Rightarrow> drain_miner" where
  "drain_new config =
     \<lparr>dm_config = config, dm_root = Node ''root'' [] [], dm_clusters = [], dm_next_cluster_id = 1,
      dm_total_logs_processed = 0\<rparr>"

subsection \<open>Similarity\<close>

definition has_digit_or_param :: "string \<Rightarrow> bool" where
  "has_digit_or_param token \<longleftrightarrow> token = wildcard \<or> list_ex is_ascii_digit token"

definition anchors_agree :: "string list \<Rightarrow> string \<Rightarrow> string \<Rightarrow> bool" where
  "anchors_agree anchors t1 t2 \<longleftrightarrow>
     (let u1 = to_ascii_uppercase t1; u2 = to_ascii_uppercase t2 in
      \<not> (list_ex (\<lambda>a. a = u1 \<or> a = u2) anchors \<and> u1 \<noteq> u2))"

definition token_matches :: "string \<Rightarrow> string \<Rightarrow> bool" where
  "token_matches t1 t2 \<longleftrightarrow> t1 = wildcard \<or> t1 = t2"

definition compute_similarity :: "string list \<Rightarrow> string list \<Rightarrow> string list \<Rightarrow> rat" where
  "compute_similarity tmpl_tokens in_tokens anchors =
     (if length tmpl_tokens \<noteq> length in_tokens \<or> tmpl_tokens = [] then 0
      else if anchors \<noteq> [] \<and> \<not> list_all (\<lambda>(t1, t2). anchors_agree anchors t1 t2) (zip tmpl_tokens in_tokens) then 0
      else of_nat (length (filter (\<lambda>(t1, t2). token_matches t1 t2) (zip tmpl_tokens in_tokens))) /
           of_nat (length tmpl_tokens))"

subsection \<open>The prefix tree\<close>

text \<open>The number of prefix tokens: the subtraction wraps in a release build.\<close>

definition max_prefix_depth :: "drain_config \<Rightarrow> nat" where
  "max_prefix_depth cfg = (if 2 \<le> dc_depth cfg then dc_depth cfg - 2 else 2 ^ 64 + dc_depth cfg - 2)"

fun find_leaf :: "node \<Rightarrow> string list \<Rightarrow> node option" where
  "find_leaf n [] = Some n"
| "find_leaf n (token # tokens) =
     (let key = (if has_digit_or_param token then ''*'' else token) in
      case map_of (node_children n) key of
        Some child \<Rightarrow> find_leaf child tokens
      | None \<Rightarrow>
          (case map_of (node_children n) ''*'' of
             Some wildcard_child \<Rightarrow> find_leaf wildcard_child tokens
           | None \<Rightarrow> None))"

definition best_step ::
  "drain_config \<Rightarrow> (nat, log_cluster) hash_map \<Rightarrow> string list \<Rightarrow> nat \<Rightarrow> nat option \<times> rat \<Rightarrow> nat option \<times> rat" where
  "best_step cfg clusters tokens c_id = (\<lambda>(best, max_sim).
     case map_of clusters c_id of
       None \<Rightarrow> (best, max_sim)
     | Some cluster \<Rightarrow>
         if cl_size cluster \<noteq> length tokens then (best, max_sim)
         else
           let sim = compute_similarity (cl_template_tokens cluster) tokens (dc_unique_anchor_tokens cfg) in
           if max_sim < sim then (if dc_similarity_threshold cfg \<le> sim then Some c_id else best, sim)
           else (best, max_sim))"

definition find_best_match :: "drain_miner \<Rightarrow> string list \<Rightarrow> nat option \<times> rat" where
  "find_best_match m tokens =
     (case map_of (node_children (dm_root m)) (show_nat (length tokens)) of
        None \<Rightarrow> (None, 0)
      | Some len_node \<Rightarrow>
          (case find_leaf len_node (take (max_prefix_depth (dm_config m)) tokens) of
             None \<Rightarrow> (None, 0)
           | Some leaf \<Rightarrow>
               fold (best_step (dm_config m) (dm_clusters m) tokens) (node_cluster_ids leaf) (None, 0)))"

fun insert_path :: "nat \<Rightarrow> nat \<Rightarrow> node \<Rightarrow> string list \<Rightarrow> node" where
  "insert_path max_children cluster_id (Node k cs ids) [] = Node k cs (ids @ [cluster_id])"
| "insert_path max_children cluster_id (Node k cs ids) (token # tokens) =
     (let key = (if has_digit_or_param token \<or> max_children \<le> length cs then ''*'' else token);
          child = unwrap_or (Node key [] []) (map_of cs key)
      in Node k (hm_insert key (insert_path max_children cluster_id child tokens) cs) ids)"

definition insert_to_tree :: "drain_config \<Rightarrow> nat \<Rightarrow> string list \<Rightarrow> node \<Rightarrow> node" where
  "insert_to_tree cfg cluster_id tokens tree =
     (let len_key = show_nat (length tokens);
          len_node = unwrap_or (Node len_key [] []) (map_of (node_children tree) len_key);
          len_node' = insert_path (dc_max_children cfg) cluster_id len_node (take (max_prefix_depth cfg) tokens)
      in Node (node_key tree) (hm_insert len_key len_node' (node_children tree)) (node_cluster_ids tree))"

subsection \<open>Processing a line\<close>

record drain_env =
  de_now_ms :: int
  de_elapsed_micros :: u64

definition surge_alert :: "drain_config \<Rightarrow> nat \<Rightarrow> nat \<Rightarrow> int \<Rightarrow> log_cluster \<Rightarrow> anomaly_alert option" where
  "surge_alert cfg total_logs prev_count now_ms cluster =
     (if dc_rare_count_threshold cfg * 3 < total_logs \<and> prev_count \<le> dc_rare_count_threshold cfg \<and>
         dc_rare_count_threshold cfg < cl_count cluster
      then
        let rate = recent_rate_per_sec cluster in
        if dc_surge_multiplier cfg \<le> rate \<or> dc_rare_count_threshold cfg + 2 \<le> cl_count cluster
        then Some \<lparr>aa_anomaly_type = RareClusterSurge, aa_cluster_id = cl_cluster_id cluster,
               aa_template = cl_template cluster,
               aa_message = ''Rare cluster #'' @ show_nat (cl_cluster_id cluster) @ '' suddenly surged to '' @
                 show_nat (cl_count cluster) @ '' events (rate: '' @ show_fixed2 rate @ '' eps)'',
               aa_timestamp = now_ms, aa_count = cl_count cluster, aa_severity = High\<rparr>
        else None
      else None)"

definition new_template_alert :: "nat \<Rightarrow> string \<Rightarrow> int \<Rightarrow> anomaly_alert" where
  "new_template_alert cluster_id template now_ms =
     \<lparr>aa_anomaly_type = NewTemplate, aa_cluster_id = cluster_id, aa_template = template,
      aa_message = ''Unseen log structural template #'' @ show_nat cluster_id @ '' detected: '' @
        CHR 0x27 # template @ [CHR 0x27],
      aa_timestamp = now_ms, aa_count = 1, aa_severity = Medium\<rparr>"

definition add_tokens ::
  "drain_env \<Rightarrow> string list \<Rightarrow> drain_miner \<Rightarrow> (cluster_result \<times> drain_miner) option" where
  "add_tokens E tokens m =
     (let (matched, max_sim) = find_best_match m tokens in
      case matched of
        Some c_id \<Rightarrow>
          (case map_of (dm_clusters m) c_id of
             None \<Rightarrow> None
           | Some cluster \<Rightarrow>
               let cluster' = cluster_update tokens (de_now_ms E) cluster in
               Some (\<lparr>cr_cluster_id = c_id, cr_template = cl_template cluster', cr_is_new = False,
                      cr_similarity = max_sim,
                      cr_anomaly = surge_alert (dm_config m) (dm_total_logs_processed m) (cl_count cluster)
                        (de_now_ms E) cluster',
                      cr_mining_latency_micros = de_elapsed_micros E\<rparr>,
                     m\<lparr>dm_clusters := hm_insert c_id cluster' (dm_clusters m)\<rparr>))
      | None \<Rightarrow>
          (let cluster_id = dm_next_cluster_id m;
               new_cluster = cluster_new cluster_id tokens (de_now_ms E);
               template = cl_template new_cluster
           in Some (\<lparr>cr_cluster_id = cluster_id, cr_template = template, cr_is_new = True,
                     cr_similarity = max_sim,
                     cr_anomaly = Some (new_template_alert cluster_id template (de_now_ms E)),
                     cr_mining_latency_micros = de_elapsed_micros E\<rparr>,
                    m\<lparr>dm_next_cluster_id := cluster_id + 1,
                      dm_root := insert_to_tree (dm_config m) cluster_id tokens (dm_root m),
                      dm_clusters := hm_insert cluster_id new_cluster (dm_clusters m)\<rparr>)))"

definition add_log ::
  "masker_libs \<Rightarrow> drain_env \<Rightarrow> string \<Rightarrow> drain_miner \<Rightarrow> (cluster_result \<times> drain_miner) option" where
  "add_log L E raw m0 =
     (let m = m0\<lparr>dm_total_logs_processed := dm_total_logs_processed m0 + 1\<rparr>;
          tokens = drain_tokenize (mask L raw)
      in if tokens = [] then
           Some (\<lparr>cr_cluster_id = 0, cr_template = [], cr_is_new = False, cr_similarity = 1,
                  cr_anomaly = None, cr_mining_latency_micros = de_elapsed_micros E\<rparr>, m)
         else add_tokens E tokens m)"

subsection \<open>Queries\<close>

definition get_cluster :: "drain_miner \<Rightarrow> nat \<Rightarrow> log_cluster option" where
  "get_cluster m i = map_of (dm_clusters m) i"

definition cluster_count :: "drain_miner \<Rightarrow> nat" where
  "cluster_count m = length (dm_clusters m)"

definition all_clusters_by_frequency :: "drain_miner \<Rightarrow> log_cluster list" where
  "all_clusters_by_frequency m = sort_key (\<lambda>c. - int (cl_count c)) (map snd (dm_clusters m))"

definition total_logs :: "drain_miner \<Rightarrow> nat" where
  "total_logs m = dm_total_logs_processed m"

end
