(* ===== verification/Drain_Correct.thy ===== *)
theory Drain_Correct
  imports Drain
begin

text \<open>
  The miner's invariant against its history, the list of the lines it was given with the cluster each went to. What
  a template owes to the lines of its cluster is the parameter of the locale \<open>template_contract\<close>: a relation
  between a template token and the token of a member that survives the merge of a further line. Generalisation of
  all members, and the protection of anchor tokens, are its two instances.
\<close>

type_synonym history = "(nat \<times> string list) list"

definition members :: "nat \<Rightarrow> history \<Rightarrow> string list list" where
  "members i hist = map snd (filter (\<lambda>h. fst h = i) hist)"

lemma members_simps [simp]:
  "members i [] = []" "members i (hist @ hist') = members i hist @ members i hist'"
  "members i [(j, ws)] = (if i = j then [ws] else [])"
  by (auto simp: members_def)

definition merge1 :: "string \<Rightarrow> string \<Rightarrow> string" where
  "merge1 t w = (if t \<noteq> w \<and> t \<noteq> wildcard then wildcard else t)"

lemma merge_tokens_map2: "length ts = length ws \<Longrightarrow> merge_tokens ts ws = map2 merge1 ts ws"
  by (induction ts ws rule: list_induct2) (auto simp: merge1_def)

lemma length_merge_tokens [simp]: "length (merge_tokens ts ws) = length ts"
  by (induction ts ws rule: merge_tokens.induct) auto

lemma wildcard_upper [simp]: "to_ascii_uppercase wildcard = wildcard"
  by code_simp

lemma anchors_agree_Nil [simp]: "anchors_agree [] t w"
  by (simp add: anchors_agree_def)

lemma anchors_agreeD:
  "anchors_agree A t w \<Longrightarrow> to_ascii_uppercase t \<in> set A \<or> to_ascii_uppercase w \<in> set A \<Longrightarrow>
     to_ascii_uppercase t = to_ascii_uppercase w"
  by (auto simp: anchors_agree_def Let_def list_ex_iff)

subsection \<open>Similarity\<close>

lemma similarity_pos:
  assumes "0 < compute_similarity ts ws A"
  shows "length ts = length ws \<and> list_all2 (anchors_agree A) ts ws"
proof -
  have "length ts = length ws" "ts \<noteq> []"
    using assms by (auto simp: compute_similarity_def split: if_splits)
  moreover have "A \<noteq> [] \<longrightarrow> list_all (\<lambda>(t, w). anchors_agree A t w) (zip ts ws)"
    using assms by (auto simp: compute_similarity_def split: if_splits)
  ultimately show ?thesis by (cases "A = []") (auto simp: list_all2_iff list_all_iff)
qed

lemma similarity_nonneg [simp]: "0 \<le> compute_similarity ts ws A"
  by (simp add: compute_similarity_def)

lemma similarity_self: "ws \<noteq> [] \<Longrightarrow> compute_similarity ws ws A = 1"
proof -
  assume ws: "ws \<noteq> []"
  have "list_all (\<lambda>(t, w). anchors_agree A t w) (zip ws ws)"
    by (auto simp: list_all_iff anchors_agree_def zip_same)
  moreover have "filter (\<lambda>(t, w). token_matches t w) (zip ws ws) = zip ws ws"
    by (auto simp: filter_id_conv token_matches_def zip_same)
  ultimately show ?thesis using ws by (simp add: compute_similarity_def)
qed

subsection \<open>The search returns a cluster above the threshold\<close>

definition chosen_ok :: "drain_config \<Rightarrow> (nat, log_cluster) hash_map \<Rightarrow> string list \<Rightarrow> nat option \<times> rat \<Rightarrow> bool" where
  "chosen_ok cfg clusters tokens b \<longleftrightarrow> 0 \<le> snd b \<and> (\<forall>i. fst b = Some i \<longrightarrow>
     (\<exists>c. map_of clusters i = Some c \<and> cl_size c = length tokens \<and>
        0 < compute_similarity (cl_template_tokens c) tokens (dc_unique_anchor_tokens cfg)))"

lemma best_step_ok: "chosen_ok cfg cs tokens b \<Longrightarrow> chosen_ok cfg cs tokens (best_step cfg cs tokens i b)"
  by (cases b) (auto simp: best_step_def chosen_ok_def Let_def split: option.splits)

lemma best_fold_ok: "chosen_ok cfg cs tokens b \<Longrightarrow> chosen_ok cfg cs tokens (fold (best_step cfg cs tokens) ids b)"
  by (induction ids arbitrary: b) (auto simp: best_step_ok)

lemma chosen_ok_none [simp]: "chosen_ok cfg cs tokens (None, 0)"
  by (simp add: chosen_ok_def)

lemma find_best_match_ok: "chosen_ok (dm_config m) (dm_clusters m) tokens (find_best_match m tokens)"
  by (simp add: find_best_match_def best_fold_ok split: option.split)

subsection \<open>The contract of a template\<close>

locale template_contract =
  fixes good :: "string list \<Rightarrow> string \<Rightarrow> bool"
    and owes :: "string list \<Rightarrow> string \<Rightarrow> string \<Rightarrow> bool"
  assumes good_wildcard: "good A wildcard"
    and owes_refl: "good A w \<Longrightarrow> owes A w w"
    and owes_new: "good A t \<Longrightarrow> good A w \<Longrightarrow> anchors_agree A t w \<Longrightarrow> owes A (merge1 t w) w"
    and owes_old: "good A t \<Longrightarrow> good A w \<Longrightarrow> anchors_agree A t w \<Longrightarrow> owes A t v \<Longrightarrow> owes A (merge1 t w) v"
begin

definition cluster_ok :: "string list \<Rightarrow> nat \<Rightarrow> string list list \<Rightarrow> log_cluster \<Rightarrow> bool" where
  "cluster_ok A i ws c \<longleftrightarrow> cl_cluster_id c = i \<and> cl_size c = length (cl_template_tokens c) \<and>
     cl_template c = join '' '' (cl_template_tokens c) \<and> cl_count c = length ws \<and>
     list_all (good A) (cl_template_tokens c) \<and> (\<forall>w \<in> set ws. list_all2 (owes A) (cl_template_tokens c) w)"

definition miner_ok :: "drain_miner \<Rightarrow> history \<Rightarrow> bool" where
  "miner_ok m hist \<longleftrightarrow> hm_ok (dm_clusters m) \<and> 0 < dm_next_cluster_id m \<and>
     (\<forall>i c. map_of (dm_clusters m) i = Some c \<longrightarrow> 0 < i \<and> i < dm_next_cluster_id m \<and>
        cluster_ok (dc_unique_anchor_tokens (dm_config m)) i (members i hist) c) \<and>
     (\<forall>h \<in> set hist. map_of (dm_clusters m) (fst h) \<noteq> None)"

lemma miner_ok_new: "miner_ok (drain_new cfg) []"
  by (simp add: miner_ok_def drain_new_def)

lemma cluster_new_ok: "list_all (good A) ws \<Longrightarrow> cluster_ok A i [ws] (cluster_new i ws now)"
  by (auto simp: cluster_ok_def cluster_new_def list_all2_same list_all_iff owes_refl)

lemma cluster_update_ok:
  assumes "cluster_ok A i ws c" "list_all2 (anchors_agree A) (cl_template_tokens c) w" "list_all (good A) w"
  shows "cluster_ok A i (ws @ [w]) (cluster_update w now c)"
proof -
  let ?t = "cl_template_tokens c"
  have len: "length ?t = length w" using assms(2) by (rule list_all2_lengthD)
  have agree: "anchors_agree A (?t ! k) (w ! k)" "good A (w ! k)" "good A (?t ! k)" if "k < length w" for k
    using assms that len by (auto simp: list_all2_conv_all_nth list_all_length cluster_ok_def)
  have "list_all (good A) (merge_tokens ?t w)"
    using agree len good_wildcard by (auto simp: merge_tokens_map2 list_all_length merge1_def)
  moreover have "list_all2 (owes A) (merge_tokens ?t w) w"
    using agree len owes_new by (auto simp: merge_tokens_map2 list_all2_conv_all_nth)
  moreover have "list_all2 (owes A) (merge_tokens ?t w) v" if "v \<in> set ws" for v
    using assms(1) that agree len owes_old by (auto simp: merge_tokens_map2 list_all2_conv_all_nth cluster_ok_def)
  ultimately show ?thesis using assms(1) by (auto simp: cluster_ok_def cluster_update_def Let_def)
qed

lemma add_tokens_ok:
  assumes ok: "miner_ok m hist" and ws: "list_all (good (dc_unique_anchor_tokens (dm_config m))) ws"
  shows "\<exists>r m'. add_tokens E ws m = Some (r, m') \<and> miner_ok m' (hist @ [(cr_cluster_id r, ws)]) \<and>
    dm_config m' = dm_config m \<and> cr_cluster_id r \<noteq> 0"
proof (cases "fst (find_best_match m ws)")
  case None
  then obtain s where s: "find_best_match m ws = (None, s)" by (metis prod.collapse)
  let ?i = "dm_next_cluster_id m"
  have "map_of (dm_clusters m) ?i = None"
    using ok by (cases "map_of (dm_clusters m) ?i") (auto simp: miner_ok_def)
  then have fresh: "members ?i hist = []" using ok by (auto simp: miner_ok_def members_def filter_empty_conv)
  show ?thesis using ok s fresh cluster_new_ok [OF ws]
    by (auto simp: add_tokens_def miner_ok_def Let_def less_Suc_eq)
next
  case (Some i)
  then obtain s where s: "find_best_match m ws = (Some i, s)" by (metis prod.collapse)
  from find_best_match_ok [of m ws] s obtain c where c: "map_of (dm_clusters m) i = Some c"
    "0 < compute_similarity (cl_template_tokens c) ws (dc_unique_anchor_tokens (dm_config m))"
    by (auto simp: chosen_ok_def)
  have "cluster_ok (dc_unique_anchor_tokens (dm_config m)) i (members i hist) c" "0 < i"
    using ok c(1) by (auto simp: miner_ok_def)
  from cluster_update_ok [OF this(1) conjunct2 [OF similarity_pos [OF c(2)]] ws] this(2) show ?thesis
    using ok s c(1) by (auto simp: add_tokens_def miner_ok_def Let_def)
qed

end

subsection \<open>The two instances\<close>

definition anchor_kept :: "string list \<Rightarrow> string \<Rightarrow> string \<Rightarrow> bool" where
  "anchor_kept A t w \<longleftrightarrow> token_matches t w \<and> (to_ascii_uppercase w \<in> set A \<longrightarrow> t = w)"

definition anchor_upper :: "string list \<Rightarrow> string \<Rightarrow> bool" where
  "anchor_upper A w \<longleftrightarrow> (to_ascii_uppercase w \<in> set A \<longrightarrow> w = to_ascii_uppercase w)"

interpretation general: template_contract "\<lambda>A w. True" "\<lambda>A. token_matches"
  by unfold_locales (auto simp: token_matches_def merge1_def)

interpretation anchored: template_contract anchor_upper anchor_kept
proof unfold_locales
  fix A t w v
  assume g: "anchor_upper A t" "anchor_upper A w" "anchors_agree A t w"
  then have eq: "t = w" if "to_ascii_uppercase t \<in> set A \<or> to_ascii_uppercase w \<in> set A"
    using that anchors_agreeD [OF g(3) that] by (auto simp: anchor_upper_def)
  show "anchor_kept A (merge1 t w) w" using eq by (auto simp: anchor_kept_def token_matches_def merge1_def)
  show "anchor_kept A (merge1 t w) v" if "anchor_kept A t v"
    using eq that by (auto simp: anchor_kept_def token_matches_def merge1_def)
qed (auto simp: anchor_upper_def anchor_kept_def token_matches_def)

subsection \<open>Runs\<close>

fun drain_run ::
  "masker_libs \<Rightarrow> (drain_env \<times> string) list \<Rightarrow> drain_miner \<Rightarrow> (cluster_result list \<times> drain_miner) option" where
  "drain_run L [] m = Some ([], m)"
| "drain_run L ((E, raw) # evs) m =
     (case add_log L E raw m of
        None \<Rightarrow> None
      | Some (r, m') \<Rightarrow> map_option (\<lambda>(rs, m''). (r # rs, m'')) (drain_run L evs m'))"

definition log_tokens :: "masker_libs \<Rightarrow> string \<Rightarrow> string list" where
  "log_tokens L raw = drain_tokenize (mask L raw)"

definition run_history :: "masker_libs \<Rightarrow> (drain_env \<times> string) list \<Rightarrow> cluster_result list \<Rightarrow> history" where
  "run_history L evs rs =
     filter (\<lambda>h. snd h \<noteq> []) (map2 (\<lambda>ev r. (cr_cluster_id r, log_tokens L (snd ev))) evs rs)"

definition result_ok :: "masker_libs \<Rightarrow> string \<Rightarrow> cluster_result \<Rightarrow> bool" where
  "result_ok L raw r \<longleftrightarrow> (log_tokens L raw = []) = (cr_cluster_id r = 0)"

lemma add_log_cases:
  "add_log L E raw m = (if log_tokens L raw = [] then
       Some (\<lparr>cr_cluster_id = 0, cr_template = [], cr_is_new = False, cr_similarity = 1,
              cr_anomaly = None, cr_mining_latency_micros = de_elapsed_micros E\<rparr>,
             m\<lparr>dm_total_logs_processed := dm_total_logs_processed m + 1\<rparr>)
     else add_tokens E (log_tokens L raw) (m\<lparr>dm_total_logs_processed := dm_total_logs_processed m + 1\<rparr>))"
  by (simp add: add_log_def log_tokens_def Let_def)

context template_contract
begin

lemma miner_ok_count [simp]: "miner_ok (m\<lparr>dm_total_logs_processed := n\<rparr>) hist = miner_ok m hist"
  by (simp add: miner_ok_def)

lemma add_log_ok:
  assumes ok: "miner_ok m hist" and ws: "list_all (good (dc_unique_anchor_tokens (dm_config m))) (log_tokens L raw)"
  shows "\<exists>r m'. add_log L E raw m = Some (r, m') \<and> miner_ok m' (hist @ run_history L [(E, raw)] [r]) \<and>
    dm_config m' = dm_config m \<and> result_ok L raw r"
proof (cases "log_tokens L raw = []")
  case True
  then show ?thesis using ok by (auto simp: add_log_cases run_history_def result_ok_def)
next
  case False
  let ?m = "m\<lparr>dm_total_logs_processed := dm_total_logs_processed m + 1\<rparr>"
  have "\<exists>r m'. add_tokens E (log_tokens L raw) ?m = Some (r, m') \<and>
      miner_ok m' (hist @ [(cr_cluster_id r, log_tokens L raw)]) \<and> dm_config m' = dm_config ?m \<and> cr_cluster_id r \<noteq> 0"
    using ok ws by (intro add_tokens_ok) simp_all
  then show ?thesis using False by (auto simp: add_log_cases run_history_def result_ok_def)
qed

lemma drain_run_ok:
  "miner_ok m hist \<Longrightarrow>
     \<forall>ev \<in> set evs. list_all (good (dc_unique_anchor_tokens (dm_config m))) (log_tokens L (snd ev)) \<Longrightarrow>
     \<exists>rs m'. drain_run L evs m = Some (rs, m') \<and> list_all2 (\<lambda>ev r. result_ok L (snd ev) r) evs rs \<and>
       miner_ok m' (hist @ run_history L evs rs) \<and> dm_config m' = dm_config m"
proof (induction evs arbitrary: m hist)
  case (Cons ev evs)
  obtain E raw where ev: "ev = (E, raw)" by force
  obtain r m1 where r: "add_log L E raw m = Some (r, m1)" "miner_ok m1 (hist @ run_history L [(E, raw)] [r])"
    "dm_config m1 = dm_config m" "result_ok L raw r"
    using add_log_ok [OF Cons.prems(1), of L raw E] Cons.prems(2) ev by auto
  obtain rs m2 where "drain_run L evs m1 = Some (rs, m2)" "list_all2 (\<lambda>ev r. result_ok L (snd ev) r) evs rs"
    "miner_ok m2 ((hist @ run_history L [(E, raw)] [r]) @ run_history L evs rs)" "dm_config m2 = dm_config m1"
    using Cons.IH [OF r(2), unfolded r(3)] Cons.prems(2) r(3) by auto
  then show ?case using r ev by (auto simp: run_history_def)
qed (simp add: run_history_def)

end

end
