(* ===== verification/Drain_Properties.thy ===== *)
theory Drain_Properties
  imports Drain_Correct
begin

text \<open>
  Properties of the template miner: what a template owes to its lines, the protection of anchor tokens and its gap,
  and which lines the prefix tree finds again.
\<close>

definition plain_libs :: masker_libs where
  "plain_libs = \<lparr>ml_replace = (\<lambda>re rep s. s), ml_matches = (\<lambda>re s. ([], s))\<rparr>"

definition drain_env0 :: drain_env where
  "drain_env0 = \<lparr>de_now_ms = 0, de_elapsed_micros = 1\<rparr>"

subsection \<open>Templates\<close>

lemma run_history_count:
  "list_all2 (\<lambda>ev r. result_ok L (snd ev) r) evs rs \<Longrightarrow> 0 < i \<Longrightarrow>
     length (members i (run_history L evs rs)) = length (filter (\<lambda>r. cr_cluster_id r = i) rs)"
proof (induction evs rs rule: list_all2_induct)
  case (Cons ev evs r rs)
  then show ?case
    by (auto simp: run_history_def members_def result_ok_def)
qed (simp add: run_history_def)

lemma run_history_member:
  assumes "list_all2 (\<lambda>ev r. result_ok L (snd ev) r) evs rs" "k < length evs" "log_tokens L (snd (evs ! k)) \<noteq> []"
  shows "(cr_cluster_id (rs ! k), log_tokens L (snd (evs ! k))) \<in> set (run_history L evs rs)"
  using assms list_all2_lengthD [OF assms(1)]
  by (auto simp: run_history_def in_set_zip image_iff intro!: bexI [of _ "(evs ! k, rs ! k)"] exI [of _ k])

lemma members_in: "(i, ws) \<in> set hist \<Longrightarrow> ws \<in> set (members i hist)"
  by (force simp: members_def)

text \<open>
  C15. Mining never fails and its templates generalise their logs: over any run of a new miner, every line with
  tokens goes to an existing cluster whose template has at each position the line's token or the wildcard, the template
  text is the joined tokens, and each cluster counts exactly the lines it got.
\<close>
theorem templates_generalise:
  "\<exists>rs m. drain_run L evs (drain_new cfg) = Some (rs, m) \<and> length rs = length evs \<and>
    (\<forall>k < length evs. log_tokens L (snd (evs ! k)) \<noteq> [] \<longrightarrow>
      (\<exists>c. get_cluster m (cr_cluster_id (rs ! k)) = Some c \<and>
        list_all2 token_matches (cl_template_tokens c) (log_tokens L (snd (evs ! k))))) \<and>
    (\<forall>i c. get_cluster m i = Some c \<longrightarrow> cl_template c = join '' '' (cl_template_tokens c) \<and>
      cl_count c = length (filter (\<lambda>r. cr_cluster_id r = i) rs))"
proof -
  have "\<forall>ev \<in> set evs. list_all (\<lambda>w. True) (log_tokens L (snd ev))" by (simp add: list_all_iff)
  then obtain rs m where r: "drain_run L evs (drain_new cfg) = Some (rs, m)"
    "list_all2 (\<lambda>ev r. result_ok L (snd ev) r) evs rs" "general.miner_ok m (run_history L evs rs)"
    using general.drain_run_ok [OF general.miner_ok_new] by fastforce
  have hist: "\<exists>c. get_cluster m (fst h) = Some c \<and> list_all2 token_matches (cl_template_tokens c) (snd h)"
    if h: "h \<in> set (run_history L evs rs)" for h
  proof -
    obtain c where c: "map_of (dm_clusters m) (fst h) = Some c"
      using r(3) h by (force simp: general.miner_ok_def)
    moreover have "snd h \<in> set (members (fst h) (run_history L evs rs))" using h by (intro members_in) simp
    ultimately show ?thesis using r(3) by (auto simp: general.miner_ok_def general.cluster_ok_def get_cluster_def)
  qed
  have count: "cl_template c = join '' '' (cl_template_tokens c) \<and>
      cl_count c = length (filter (\<lambda>r. cr_cluster_id r = i) rs)" if "get_cluster m i = Some c" for i c
    using that r(3) run_history_count [OF r(2)]
    by (auto simp: general.miner_ok_def general.cluster_ok_def get_cluster_def)
  have "length rs = length evs" using r(2) by (simp add: list_all2_lengthD)
  then show ?thesis
    using r(1) count run_history_member [OF r(2), THEN hist] by auto
qed

text \<open>A two-line run: the token that differs becomes the wildcard.\<close>

theorem templates_generalise_witness:
  "\<exists>rs m c. drain_run plain_libs [(drain_env0, ''link a b up''), (drain_env0, ''link a c up'')]
      (drain_new default_drain_config) = Some (rs, m) \<and>
    get_cluster m (cr_cluster_id (rs ! 1)) = Some c \<and>
    list_all2 token_matches (cl_template_tokens c) (log_tokens plain_libs ''link a c up'')"
proof -
  have t: "log_tokens plain_libs ''link a c up'' \<noteq> []" by code_simp
  from templates_generalise [of plain_libs
      "[(drain_env0, ''link a b up''), (drain_env0, ''link a c up'')]" default_drain_config]
  obtain rs m where "drain_run plain_libs [(drain_env0, ''link a b up''), (drain_env0, ''link a c up'')]
      (drain_new default_drain_config) = Some (rs, m)"
    "\<forall>k < length [(drain_env0, ''link a b up''), (drain_env0, ''link a c up'')].
      log_tokens plain_libs (snd ([(drain_env0, ''link a b up''), (drain_env0, ''link a c up'')] ! k)) \<noteq> [] \<longrightarrow>
      (\<exists>c. get_cluster m (cr_cluster_id (rs ! k)) = Some c \<and> list_all2 token_matches (cl_template_tokens c)
        (log_tokens plain_libs (snd ([(drain_env0, ''link a b up''), (drain_env0, ''link a c up'')] ! k))))"
    by blast
  from this(1) this(2) [rule_format, of 1] t show ?thesis by auto
qed

subsection \<open>Anchors\<close>

lemma same_cluster_same_anchors:
  assumes "list_all (\<lambda>ev. list_all (anchor_upper (dc_unique_anchor_tokens cfg)) (log_tokens L (snd ev))) evs"
    and "wildcard \<notin> set (dc_unique_anchor_tokens cfg)"
    and "drain_run L evs (drain_new cfg) = Some (rs, m)"
    and "j < length evs" "k < length evs" "cr_cluster_id (rs ! j) = cr_cluster_id (rs ! k)"
    and "log_tokens L (snd (evs ! j)) \<noteq> []" "log_tokens L (snd (evs ! k)) \<noteq> []"
  shows "list_all2 (\<lambda>v w. to_ascii_uppercase v \<in> set (dc_unique_anchor_tokens cfg) \<longrightarrow> v = w)
    (log_tokens L (snd (evs ! j))) (log_tokens L (snd (evs ! k)))"
proof -
  let ?A = "dc_unique_anchor_tokens cfg" and ?i = "cr_cluster_id (rs ! j)"
  have A: "dc_unique_anchor_tokens (dm_config (drain_new cfg)) = ?A" by (simp add: drain_new_def)
  have r: "list_all2 (\<lambda>ev r. result_ok L (snd ev) r) evs rs" "anchored.miner_ok m (run_history L evs rs)"
    "dm_config m = cfg"
    using anchored.drain_run_ok [OF anchored.miner_ok_new [of cfg], unfolded A, of evs L] assms(1,3)
    by (auto simp: list_all_iff drain_new_def)
  have mem: "log_tokens L (snd (evs ! j)) \<in> set (members ?i (run_history L evs rs))"
    "log_tokens L (snd (evs ! k)) \<in> set (members ?i (run_history L evs rs))"
    using members_in [OF run_history_member [OF r(1) assms(4,7)]]
      members_in [OF run_history_member [OF r(1) assms(5,8)]] assms(6) by simp_all
  obtain c where c: "map_of (dm_clusters m) ?i = Some c"
    using run_history_member [OF r(1) assms(4,7)] r(2) by (force simp: anchored.miner_ok_def)
  have "list_all2 (anchor_kept ?A) (cl_template_tokens c) (log_tokens L (snd (evs ! j)))"
    "list_all2 (anchor_kept ?A) (cl_template_tokens c) (log_tokens L (snd (evs ! k)))"
    using mem c r(2,3) by (auto simp: anchored.miner_ok_def anchored.cluster_ok_def)
  then show ?thesis using assms(2) wildcard_upper
    by (fastforce simp: list_all2_conv_all_nth anchor_kept_def token_matches_def)
qed

text \<open>
  C25. Anchor tokens separate clusters: when the lines spell their anchors in capitals, two lines of one
  cluster have the same anchor tokens at the same positions, so an ALLOW line and a DENY line never share a template.
\<close>
theorem anchors_separate_clusters:
  assumes "list_all (\<lambda>ev. list_all (anchor_upper (dc_unique_anchor_tokens cfg)) (log_tokens L (snd ev))) evs"
    and "wildcard \<notin> set (dc_unique_anchor_tokens cfg)"
    and "drain_run L evs (drain_new cfg) = Some (rs, m)"
    and "j < length evs" "k < length evs" "cr_cluster_id (rs ! j) = cr_cluster_id (rs ! k)"
    and "log_tokens L (snd (evs ! j)) \<noteq> []" "log_tokens L (snd (evs ! k)) \<noteq> []"
  shows "list_all2 (\<lambda>v w. to_ascii_uppercase v \<in> set (dc_unique_anchor_tokens cfg) \<longrightarrow> v = w)
    (log_tokens L (snd (evs ! j))) (log_tokens L (snd (evs ! k)))"
  by (rule same_cluster_same_anchors [OF assms])

theorem anchors_separate_clusters_witness:
  "\<exists>rs m. drain_run plain_libs [(drain_env0, ''fw a DENY b''), (drain_env0, ''fw a DENY c'')]
      (drain_new default_drain_config) = Some (rs, m) \<and> cr_cluster_id (rs ! 0) = cr_cluster_id (rs ! 1) \<and>
    list_all2 (\<lambda>v w. to_ascii_uppercase v \<in> set (dc_unique_anchor_tokens default_drain_config) \<longrightarrow> v = w)
      (log_tokens plain_libs ''fw a DENY b'') (log_tokens plain_libs ''fw a DENY c'')"
proof -
  let ?evs = "[(drain_env0, ''fw a DENY b''), (drain_env0, ''fw a DENY c'')]"
  have t: "log_tokens plain_libs ''fw a DENY b'' = [''fw'', ''a'', ''DENY'', ''b'']"
    "log_tokens plain_libs ''fw a DENY c'' = [''fw'', ''a'', ''DENY'', ''c'']" by code_simp+
  have g: "list_all (anchor_upper (dc_unique_anchor_tokens default_drain_config)) [''fw'', ''a'', ''DENY'', ''b'']"
    "list_all (anchor_upper (dc_unique_anchor_tokens default_drain_config)) [''fw'', ''a'', ''DENY'', ''c'']"
    "wildcard \<notin> set (dc_unique_anchor_tokens default_drain_config)"
    by code_simp+
  have "map_option (\<lambda>(rs, m). map cr_cluster_id rs) (drain_run plain_libs ?evs (drain_new default_drain_config)) = Some [1, 1]"
    by code_simp
  then obtain rs m where r: "drain_run plain_libs ?evs (drain_new default_drain_config) = Some (rs, m)"
    "map cr_cluster_id rs = [1, 1]" by auto
  then have "cr_cluster_id (rs ! 0) = cr_cluster_id (rs ! 1)" by (auto simp: map_eq_Cons_conv)
  from anchors_separate_clusters [OF _ g(3) r(1) _ _ this] r(1) this g t show ?thesis by auto
qed

text \<open>
  The anchor protection has a gap: spelling variants of one anchor are merged into the wildcard, and the
  cluster then takes lines with no anchor at that position at all.
\<close>
theorem anchor_case_variants_merge:
  "\<exists>rs m. drain_run plain_libs
      [(drain_env0, ''fw a Deny b''), (drain_env0, ''fw a DENY b''), (drain_env0, ''fw a note b'')]
      (drain_new default_drain_config) = Some (rs, m) \<and> map cr_cluster_id rs = [1, 1, 1] \<and>
    map_option cl_template_tokens (get_cluster m 1) = Some [''fw'', ''a'', wildcard, ''b'']"
proof -
  have "map_option (\<lambda>(rs, m). (map cr_cluster_id rs, map_option cl_template_tokens (get_cluster m 1)))
      (drain_run plain_libs
        [(drain_env0, ''fw a Deny b''), (drain_env0, ''fw a DENY b''), (drain_env0, ''fw a note b'')]
        (drain_new default_drain_config)) = Some ([1, 1, 1], Some [''fw'', ''a'', wildcard, ''b''])"
    by code_simp
  then show ?thesis by auto
qed

subsection \<open>Finding lines again\<close>

text \<open>Every node on the insertion path of the tokens can take another child.\<close>

fun path_room :: "nat \<Rightarrow> node \<Rightarrow> string list \<Rightarrow> bool" where
  "path_room max_children n [] = True"
| "path_room max_children n (token # tokens) =
     (let key = (if has_digit_or_param token then ''*'' else token) in
      (has_digit_or_param token \<or> length (node_children n) < max_children) \<and>
      (case map_of (node_children n) key of None \<Rightarrow> True | Some child \<Rightarrow> path_room max_children child tokens))"

definition len_node :: "drain_miner \<Rightarrow> nat \<Rightarrow> node" where
  "len_node m k = unwrap_or (Node (show_nat k) [] []) (map_of (node_children (dm_root m)) (show_nat k))"

lemma path_room_new: "0 < mx \<Longrightarrow> path_room mx (Node k [] []) tokens"
  by (cases tokens) (auto simp: Let_def)

lemma find_leaf_insert:
  "0 < mx \<Longrightarrow> path_room mx n tokens \<Longrightarrow>
     \<exists>leaf. find_leaf (insert_path mx i n tokens) tokens = Some leaf \<and> i \<in> set (node_cluster_ids leaf)"
proof (induction mx i n tokens rule: insert_path.induct)
  case (2 mx i k cs ids token tokens)
  let ?key = "if has_digit_or_param token then ''*'' else token"
  let ?child = "unwrap_or (Node ?key [] []) (map_of cs ?key)"
  have key: "(if has_digit_or_param token \<or> mx \<le> length cs then ''*'' else token) = ?key"
    using 2(3) by (auto simp: Let_def)
  have "path_room mx ?child tokens"
    using 2(2,3) path_room_new by (auto simp: Let_def split: option.splits if_splits)
  from 2(1) [OF refl refl, unfolded key, OF 2(2) this] show ?case
    by (simp add: key Let_def)
qed simp

definition recognised :: "drain_config \<Rightarrow> nat option \<times> rat \<Rightarrow> bool" where
  "recognised cfg b \<longleftrightarrow> (0 < snd b \<longrightarrow> dc_similarity_threshold cfg \<le> snd b \<longrightarrow> fst b \<noteq> None)"

lemma best_step_mono: "snd b \<le> snd (best_step cfg cs tokens i b)"
  by (cases b) (auto simp: best_step_def Let_def split: option.splits)

lemma best_step_recognised: "recognised cfg b \<Longrightarrow> recognised cfg (best_step cfg cs tokens i b)"
  by (cases b) (auto simp: best_step_def recognised_def Let_def split: option.splits)

lemma best_fold_mono: "snd b \<le> snd (fold (best_step cfg cs tokens) ids b)"
proof (induction ids arbitrary: b)
  case (Cons i ids)
  show ?case using order_trans [OF best_step_mono Cons.IH] by simp
qed simp

lemma best_fold_recognised: "recognised cfg b \<Longrightarrow> recognised cfg (fold (best_step cfg cs tokens) ids b)"
  by (induction ids arbitrary: b) (auto simp: best_step_recognised)

lemma best_fold_finds:
  assumes "i \<in> set ids" "map_of cs i = Some c" "cl_size c = length tokens" "cl_template_tokens c = tokens"
    "tokens \<noteq> []" "dc_similarity_threshold cfg \<le> 1"
  shows "fst (fold (best_step cfg cs tokens) ids (None, 0)) \<noteq> None"
proof -
  obtain xs ys where ids: "ids = xs @ i # ys" using assms(1) split_list by metis
  let ?b = "fold (best_step cfg cs tokens) xs (None, 0)"
  have "1 \<le> snd (best_step cfg cs tokens i ?b)"
    using assms(2-5) similarity_self by (cases ?b) (auto simp: best_step_def Let_def)
  then have "1 \<le> snd (fold (best_step cfg cs tokens) ids (None, 0))"
    using best_fold_mono [of "best_step cfg cs tokens i ?b" cfg cs tokens ys] by (simp add: ids)
  moreover have "recognised cfg (fold (best_step cfg cs tokens) ids (None, 0))"
    by (rule best_fold_recognised) (simp add: recognised_def)
  ultimately show ?thesis using assms(6) by (auto simp: recognised_def)
qed

lemma add_tokens_known:
  assumes "fst (find_best_match m tokens) \<noteq> None"
  shows "\<exists>r m'. add_tokens E tokens m = Some (r, m') \<and> \<not> cr_is_new r"
  using find_best_match_ok [of m tokens] assms
  by (cases "find_best_match m tokens") (auto simp: add_tokens_def chosen_ok_def Let_def)

lemma find_after_insert:
  assumes "0 < dc_max_children (dm_config m)" "dc_similarity_threshold (dm_config m) \<le> 1" "tokens \<noteq> []"
    and "path_room (dc_max_children (dm_config m)) (len_node m (length tokens))
           (take (max_prefix_depth (dm_config m)) tokens)"
    and "dm_root m' = insert_to_tree (dm_config m) i tokens (dm_root m)" "dm_config m' = dm_config m"
    and "dm_clusters m' = hm_insert i (cluster_new i tokens now) (dm_clusters m)"
  shows "fst (find_best_match m' tokens) \<noteq> None"
proof -
  obtain leaf where leaf: "find_leaf (insert_path (dc_max_children (dm_config m)) i (len_node m (length tokens))
      (take (max_prefix_depth (dm_config m)) tokens)) (take (max_prefix_depth (dm_config m)) tokens) = Some leaf"
    "i \<in> set (node_cluster_ids leaf)" using find_leaf_insert [OF assms(1,4)] by blast
  have "fst (fold (best_step (dm_config m) (dm_clusters m') tokens) (node_cluster_ids leaf) (None, 0)) \<noteq> None"
    by (rule best_fold_finds [OF leaf(2), where c = "cluster_new i tokens now"])
      (use assms in \<open>simp_all add: cluster_new_def\<close>)
  then show ?thesis using leaf(1) assms(5,6)
    by (simp add: find_best_match_def insert_to_tree_def len_node_def Let_def)
qed

text \<open>
  A line is recognised when it comes again: if it opened a new cluster and no prefix node on its path
  was full, the miner's next verdict on the same line is that it is known.
\<close>
theorem repeated_line_recognised:
  assumes "add_log L E raw m = Some (r, m')" "cr_is_new r"
    and "0 < dc_max_children (dm_config m)" "dc_similarity_threshold (dm_config m) \<le> 1"
    and "path_room (dc_max_children (dm_config m)) (len_node m (length (log_tokens L raw)))
           (take (max_prefix_depth (dm_config m)) (log_tokens L raw))"
  shows "\<exists>r' m''. add_log L E' raw m' = Some (r', m'') \<and> \<not> cr_is_new r'"
proof -
  have ne: "log_tokens L raw \<noteq> []" using assms(1,2) by (auto simp: add_log_cases)
  let ?m = "m\<lparr>dm_total_logs_processed := dm_total_logs_processed m + 1\<rparr>"
  have add: "add_tokens E (log_tokens L raw) ?m = Some (r, m')" using assms(1) ne by (simp add: add_log_cases)
  then have m': "dm_root m' = insert_to_tree (dm_config m) (dm_next_cluster_id m) (log_tokens L raw) (dm_root m)"
    "dm_config m' = dm_config m"
    "dm_clusters m' = hm_insert (dm_next_cluster_id m)
        (cluster_new (dm_next_cluster_id m) (log_tokens L raw) (de_now_ms E)) (dm_clusters m)"
    using assms(2) by (auto simp: add_tokens_def Let_def split: option.splits prod.splits)
  let ?m' = "m'\<lparr>dm_total_logs_processed := dm_total_logs_processed m' + 1\<rparr>"
  have "fst (find_best_match ?m' (log_tokens L raw)) \<noteq> None"
    by (rule find_after_insert [OF assms(3,4) ne assms(5)]) (use m' in simp_all)
  from add_tokens_known [OF this] show ?thesis using ne by (simp add: add_log_cases)
qed

theorem repeated_line_recognised_witness:
  "\<exists>r m' r' m''. add_log plain_libs drain_env0 ''link up'' (drain_new default_drain_config) = Some (r, m') \<and>
     add_log plain_libs drain_env0 ''link up'' m' = Some (r', m'') \<and> \<not> cr_is_new r'"
proof -
  let ?m = "drain_new default_drain_config"
  have "map_option (cr_is_new \<circ> fst) (add_log plain_libs drain_env0 ''link up'' ?m) = Some True" by code_simp
  then obtain r m' where r: "add_log plain_libs drain_env0 ''link up'' ?m = Some (r, m')" "cr_is_new r" by auto
  have "path_room (dc_max_children (dm_config ?m)) (len_node ?m (length (log_tokens plain_libs ''link up'')))
      (take (max_prefix_depth (dm_config ?m)) (log_tokens plain_libs ''link up''))"
    unfolding len_node_def by (simp add: drain_new_def path_room_new default_drain_config_def)
  from repeated_line_recognised [OF r _ _ this] r(1) show ?thesis
    by (auto simp: drain_new_def default_drain_config_def)
qed

text \<open>
  The node of the line's length is full and has a child for the line's first token under which the rest is not found.
\<close>

definition prefix_blocked :: "string \<Rightarrow> string list \<Rightarrow> drain_miner \<Rightarrow> bool" where
  "prefix_blocked token tokens m \<longleftrightarrow> 2 < dc_depth (dm_config m) \<and>
     (\<exists>n child. map_of (node_children (dm_root m)) (show_nat (Suc (length tokens))) = Some n \<and>
        dc_max_children (dm_config m) \<le> length (node_children n) \<and> map_of (node_children n) token = Some child \<and>
        find_leaf child (take (max_prefix_depth (dm_config m) - 1) tokens) = None)"

lemma blocked_step:
  assumes "log_tokens L raw = token # tokens" "\<not> has_digit_or_param token" "token \<noteq> ''*''"
    and "prefix_blocked token tokens m"
  shows "\<exists>r m'. add_log L E raw m = Some (r, m') \<and> cr_is_new r \<and> prefix_blocked token tokens m' \<and>
    dm_next_cluster_id m' = dm_next_cluster_id m + 1"
proof -
  let ?k = "show_nat (Suc (length tokens))"
  obtain key children ids child where n: "map_of (node_children (dm_root m)) ?k = Some (Node key children ids)"
    "dc_max_children (dm_config m) \<le> length children" "map_of children token = Some child"
    "find_leaf child (take (max_prefix_depth (dm_config m) - 1) tokens) = None" "2 < dc_depth (dm_config m)"
    using assms(4) unfolding prefix_blocked_def by (metis node.collapse node.sel(2))
  obtain d where d: "max_prefix_depth (dm_config m) = Suc d"
    using n(5) by (intro that [of "dc_depth (dm_config m) - 3"]) (simp add: max_prefix_depth_def)
  have miss: "find_best_match (m\<lparr>dm_total_logs_processed := t\<rparr>) (token # tokens) = (None, 0)" for t
    using n assms(2) d by (simp add: find_best_match_def)
  obtain sub where ins: "insert_to_tree (dm_config m) i (token # tokens) (dm_root m) =
      Node (node_key (dm_root m)) (hm_insert ?k (Node key (hm_insert ''*'' (sub i) children) ids)
        (node_children (dm_root m))) (node_cluster_ids (dm_root m))" for i
    using n d by (simp add: insert_to_tree_def Let_def)
  have "length children \<le> length (hm_insert ''*'' v children)" for v by (simp add: length_hm_insert)
  then have "dc_max_children (dm_config m) \<le> length (hm_insert ''*'' v children)" for v
    using n(2) order_trans by blast
  then show ?thesis using assms(1,3) n miss ins
    by (auto simp: add_log_cases add_tokens_def prefix_blocked_def Let_def)
qed

text \<open>
  A full prefix node never learns: when the node of the line's length already has its maximal number of
  children, one of them for the line's first token, a line that misses below it is inserted under the wildcard, where the
  search of the same line does not look; so every repetition is reported as new and opens another cluster.
\<close>
theorem full_node_never_learns:
  assumes "log_tokens L raw = token # tokens" "\<not> has_digit_or_param token" "token \<noteq> ''*''"
    and "prefix_blocked token tokens m"
  shows "\<exists>rs m'. drain_run L (replicate n (E, raw)) m = Some (rs, m') \<and> length rs = n \<and> list_all cr_is_new rs \<and>
    dm_next_cluster_id m' = dm_next_cluster_id m + n"
  using assms(4)
proof (induction n arbitrary: m)
  case (Suc n)
  from blocked_step [OF assms(1-3) Suc.prems, of E] obtain r m1 where r: "add_log L E raw m = Some (r, m1)"
    "cr_is_new r" "prefix_blocked token tokens m1" "dm_next_cluster_id m1 = dm_next_cluster_id m + 1" by blast
  from Suc.IH [OF r(3)] r show ?case by auto
qed simp

definition full_miner :: drain_miner where
  "full_miner =
     \<lparr>dm_config = default_drain_config\<lparr>dc_max_children := 1\<rparr>,
      dm_root = Node ''root'' [(''2'', Node ''2'' [(''a'', Node ''a'' [(''x'', Node ''x'' [] [1])] [])] [])] [],
      dm_clusters = [(1, cluster_new 1 [''a'', ''x''] 0)], dm_next_cluster_id = 2, dm_total_logs_processed = 1\<rparr>"

text \<open>The full node arises from one line when a node may have one child.\<close>

theorem full_node_never_learns_witness:
  "\<exists>rs m'. drain_run plain_libs (replicate 3 (drain_env0, ''a y'')) full_miner = Some (rs, m') \<and>
     length rs = 3 \<and> list_all cr_is_new rs \<and> dm_next_cluster_id m' = dm_next_cluster_id full_miner + 3"
proof -
  have t: "log_tokens plain_libs ''a y'' = [''a'', ''y'']" "\<not> has_digit_or_param ''a''" "show_nat 2 = ''2''"
    "\<not> has_digit_or_param ''y''" by code_simp+
  then have "prefix_blocked ''a'' [''y''] full_miner"
    by (simp add: prefix_blocked_def full_miner_def default_drain_config_def max_prefix_depth_def numeral_2_eq_2)
  from full_node_never_learns [OF t(1,2) _ this, of 3 drain_env0] show ?thesis by simp
qed

end
