(* ===== verification/Laya.thy ===== *)
theory Laya
  imports Rust_Str Complex_Main "HOL-Library.Multiset"
begin

text \<open>
  The decision engine of \<open>ulpf-ai/src/laya.rs\<close>: token priors per vendor and action, a clamped softmax over the
  token matches, and the threat score. Probabilities are real numbers and \<open>exp\<close> is the exponential
  function, where the code rounds to \<open>f64\<close>. The action priors are a \<open>HashMap\<close> the code
  iterates over, whose order differs from engine to engine: it is the argument of \<open>laya_new\<close>.
\<close>

record laya_choice =
  ly_label :: string
  ly_probability :: real
  ly_rankings :: "(string \<times> real) list"

record laya_score =
  lsc_score :: real
  lsc_confidence :: real

record laya_noul =
  ln_decision :: bool
  ln_probability :: real

record laya_engine =
  lye_vendor_candidates :: "string list"
  lye_vendor_token_priors :: "(string \<times> string list) list"
  lye_action_token_priors :: "(string \<times> string list) list"
  lye_threat_tokens :: "(string \<times> real) list"
  lye_onnx_model_path :: "string option"

definition vendor_candidates :: "string list" where
  "vendor_candidates = [''cisco_asa'', ''fortigate'', ''paloalto'', ''suricata'', ''pfsense'',
     ''kaggle_firewall'', ''juniper_srx'', ''checkpoint'']"

definition vendor_token_priors :: "(string \<times> string list) list" where
  "vendor_token_priors =
     [(''cisco_asa'', [''%ASA-'', ''Built'', ''Teardown'', ''outside:'', ''inside:'', ''connection'', ''inbound'',
        ''outbound'']),
      (''fortigate'', [''CEF:0|Fortinet'', ''|Fortinet|'', ''FortiGate'', ''devname='', ''type=\"traffic\"'',
        ''logid='', ''vd=\"root\"'', ''subtype=\"forward\"'', ''srcip='', ''dstip='']),
      (''paloalto'', ['',TRAFFIC,'', '',THREAT,'', ''Trust_to_Untrust'', ''pan-os'', ''vsys1'', ''Trust'', ''Untrust'']),
      (''suricata'', [''\"timestamp\":'', ''\"event_type\":'', ''\"flow_id\":'', ''\"alert\":'', ''\"app_proto\":'',
        ''\"dest_port\":'']),
      (''pfsense'', [''filterlog['', ''filterlog:'', ''pass'', ''block'', ''match'', ''igb0'', ''em0'']),
      (''kaggle_firewall'', [''%KAGGLE-FW-'', ''firewall-kaggle'', ''src_port='', ''dst_port='', ''nat_src_port='',
        ''sent_bytes='']),
      (''juniper_srx'', [''RT_FLOW:'', ''RT_FLOW_SESSION_CREATE'', ''session'', ''created'', ''ge-0/0/0'',
        ''sample-policy'']),
      (''checkpoint'', [''CheckPoint-FW'', ''Quantum'', ''rule'', ''accept'', ''drop'', ''reject''])]"

definition action_token_priors :: "(string \<times> string list) list" where
  "action_token_priors =
     [(''Allowed'', [''allow'', ''accept'', ''pass'', ''permit'', ''built'', ''created'', ''open'', ''authorized'']),
      (''Blocked'', [''block'', ''reject'', ''prevent'', ''denied'', ''filtered'', ''quarantine'']),
      (''Dropped'', [''drop'', ''deny'', ''discard'', ''timeout'', ''blackhole'']),
      (''Alert'', [''alert'', ''notice'', ''warn'', ''warning'', ''alarm'', ''violation'', ''tamper''])]"

definition threat_tokens :: "(string \<times> real) list" where
  "threat_tokens = [(''exploit'', 0.95), (''overflow'', 0.90), (''unauthorized'', 0.85), (''tamper'', 0.92),
     (''malicious'', 0.94), (''attack'', 0.88), (''sqli'', 0.96), (''injection'', 0.91), (''brute'', 0.82),
     (''spoof'', 0.87), (''backdoor'', 0.95), (''ransomware'', 0.99)]"

text \<open>\<open>actions\<close> is \<open>action_token_priors\<close> in the iteration order of the engine's map.\<close>

definition laya_new :: "(string \<times> string list) list \<Rightarrow> laya_engine" where
  "laya_new actions =
     \<lparr>lye_vendor_candidates = vendor_candidates, lye_vendor_token_priors = vendor_token_priors,
      lye_action_token_priors = actions, lye_threat_tokens = threat_tokens, lye_onnx_model_path = None\<rparr>"

definition with_onnx_model :: "string \<Rightarrow> laya_engine \<Rightarrow> laya_engine" where
  "with_onnx_model path e = e\<lparr>lye_onnx_model_path := Some path\<rparr>"

subsection \<open>Choices\<close>

definition match_weight :: "real \<Rightarrow> string list \<Rightarrow> string \<Rightarrow> real" where
  "match_weight step priors input = foldl (\<lambda>w token. if contains input token then w + step else w) 0 priors"

definition clamp :: "real \<Rightarrow> real \<Rightarrow> real \<Rightarrow> real" where
  "clamp lo hi x = (if x < lo then lo else if hi < x then hi else x)"

text \<open>The softmax of the scores, clamped, in a stable sort by descending probability.\<close>

definition rank_scores :: "(string \<times> real) list \<Rightarrow> (string \<times> real) list" where
  "rank_scores scores =
     (let total_raw = sum_list (map (\<lambda>(_, s). exp s) scores)
      in sort_key (\<lambda>(_, p). - p) (map (\<lambda>(v, s). (v, clamp 0.001 0.999 (exp s / total_raw))) scores))"

definition top_choice :: "string \<Rightarrow> (string \<times> real) list \<Rightarrow> laya_choice" where
  "top_choice fallback rankings =
     (let top = (case rankings of [] \<Rightarrow> (fallback, 0.5) | r # _ \<Rightarrow> r)
      in \<lparr>ly_label = fst top, ly_probability = snd top, ly_rankings = rankings\<rparr>)"

definition vendor_scores :: "laya_engine \<Rightarrow> string \<Rightarrow> (string \<times> real) list" where
  "vendor_scores e input =
     map (\<lambda>vendor. (vendor, case map_of (lye_vendor_token_priors e) vendor of
        None \<Rightarrow> 0 | Some priors \<Rightarrow> match_weight 2.5 priors input)) (lye_vendor_candidates e)"

definition classify_vendor :: "laya_engine \<Rightarrow> string \<Rightarrow> laya_choice" where
  "classify_vendor e input = top_choice ''unknown'' (rank_scores (vendor_scores e input))"

definition action_scores :: "laya_engine \<Rightarrow> string \<Rightarrow> (string \<times> real) list" where
  "action_scores e input =
     (let input_lower = to_ascii_lowercase input
      in map (\<lambda>(action, priors). (action, match_weight 3 priors input_lower)) (lye_action_token_priors e))"

definition classify_action :: "laya_engine \<Rightarrow> string \<Rightarrow> laya_choice" where
  "classify_action e input = top_choice ''Unknown'' (rank_scores (action_scores e input))"

subsection \<open>Scores\<close>

definition score_threat_risk :: "laya_engine \<Rightarrow> string \<Rightarrow> laya_score" where
  "score_threat_risk e input =
     (let input_lower = to_ascii_lowercase input;
          (max_risk, hits) = foldl (\<lambda>(risk, hits) (token, weight).
             if contains input_lower token then (if risk < weight then weight else risk, hits + 1)
             else (risk, hits)) (0.05, 0 :: nat) (lye_threat_tokens e)
      in \<lparr>lsc_score = max_risk,
          lsc_confidence = (if 0 < hits then min (0.70 + real hits * 0.10) 0.99 else 0.90)\<rparr>)"

definition is_malicious_anomaly :: "laya_engine \<Rightarrow> string \<Rightarrow> laya_noul" where
  "is_malicious_anomaly e input =
     (let risk = score_threat_risk e input;
          is_malicious = (0.50 \<le> lsc_score risk)
      in \<lparr>ln_decision = is_malicious,
          ln_probability = (if is_malicious then lsc_score risk else 1 - lsc_score risk)\<rparr>)"

subsection \<open>The reference ranking\<close>

text \<open>
  What the softmax amounts to: the number of tokens found, and the first candidate with the most of them.
\<close>

definition token_hits :: "string list \<Rightarrow> string \<Rightarrow> nat" where
  "token_hits priors input = length (filter (contains input) priors)"

fun first_max :: "('a \<Rightarrow> nat) \<Rightarrow> 'a list \<Rightarrow> 'a option" where
  "first_max h [] = None"
| "first_max h (x # xs) =
     (case first_max h xs of None \<Rightarrow> Some x | Some y \<Rightarrow> if h y \<le> h x then Some x else Some y)"

lemma first_max_SomeD:
  "first_max h xs = Some y \<Longrightarrow> y \<in> set xs \<and> (\<forall>x \<in> set xs. h x \<le> h y)"
proof (induction xs arbitrary: y)
  case (Cons x xs)
  show ?case
  proof (cases "first_max h xs")
    case None
    then have "xs = []" by (cases xs) (auto split: option.splits if_splits)
    then show ?thesis using Cons.prems by simp
  next
    case (Some z)
    then show ?thesis using Cons.prems Cons.IH [OF Some] by (auto split: if_splits)
  qed
qed simp

lemma first_max_some: "xs \<noteq> [] \<Longrightarrow> \<exists>y. first_max h xs = Some y"
  by (cases xs) (auto split: option.split)

lemma first_max_filter:
  "first_max h xs = Some y \<Longrightarrow> hd (filter (\<lambda>x. h x = h y) xs) = y \<and> filter (\<lambda>x. h x = h y) xs \<noteq> []"
proof (induction xs arbitrary: y)
  case (Cons x xs)
  show ?case
  proof (cases "first_max h xs")
    case None
    then show ?thesis using Cons.prems by simp
  next
    case (Some z)
    then have "h y = h x \<or> h x < h y"
      using Cons.prems by (auto split: if_splits)
    then show ?thesis using Cons Some by (auto split: if_splits)
  qed
qed simp

lemma first_max_map: "first_max h (map f xs) = map_option f (first_max (h \<circ> f) xs)"
  by (induction xs) (auto split: option.splits)

lemma first_max_const: "\<forall>x \<in> set xs. h x = n \<Longrightarrow> xs \<noteq> [] \<Longrightarrow> first_max h xs = Some (hd xs)"
proof (induction xs)
  case (Cons x xs)
  then show ?case by (cases "xs = []") auto
qed simp

lemma match_weight_hits: "match_weight step priors input = step * real (token_hits priors input)"
proof -
  have "foldl (\<lambda>w token. if contains input token then w + step else w) w priors =
      w + step * real (token_hits priors input)" for w
    by (induction priors arbitrary: w) (auto simp: token_hits_def algebra_simps)
  then show ?thesis by (simp add: match_weight_def)
qed

lemma hd_sort_key:
  assumes "xs \<noteq> []"
  shows "hd (sort_key f xs) = hd (filter (\<lambda>x. f x = Min (f ` set xs)) xs)"
proof -
  let ?s = "sort_key f xs"
  have ne: "?s \<noteq> []" using assms by (metis length_0_conv length_sort)
  then have m: "f (hd ?s) = Min (f ` set xs)"
    using sorted_sort_key [of f xs]
    by (cases ?s) (auto intro!: Min_eqI [symmetric] simp: image_iff dest!: arg_cong [where f = set])
  have "filter (\<lambda>x. f x = f (hd ?s)) ?s = filter (\<lambda>x. f x = f (hd ?s)) xs"
    by (rule sort_key_stable)
  moreover have "hd (filter (\<lambda>x. f x = f (hd ?s)) ?s) = hd ?s" using ne by (cases ?s) auto
  ultimately show ?thesis using m by simp
qed

text \<open>The probability the softmax gives to an entry with weight \<open>w\<close> when the weights add up to \<open>T\<close>.\<close>

definition soft_prob :: "real \<Rightarrow> real \<Rightarrow> real" where
  "soft_prob T w = clamp 0.001 0.999 (exp w / T)"

definition soft_total :: "('a \<Rightarrow> real) \<Rightarrow> 'a list \<Rightarrow> real" where
  "soft_total w xs = sum_list (map (\<lambda>x. exp (w x)) xs)"

lemma soft_prob_range [simp]: "0.001 \<le> soft_prob T w" "soft_prob T w \<le> 0.999"
  by (auto simp: soft_prob_def clamp_def)

lemma clamp_mono: "lo \<le> hi \<Longrightarrow> x \<le> y \<Longrightarrow> clamp lo hi x \<le> clamp lo hi y"
  by (simp add: clamp_def)

lemma clamp_less: "lo < hi \<Longrightarrow> lo < y \<Longrightarrow> x < y \<Longrightarrow> x < hi \<Longrightarrow> clamp lo hi x < clamp lo hi y"
  by (auto simp: clamp_def)

lemma clamp_geD: "lo < t \<Longrightarrow> t \<le> hi \<Longrightarrow> t \<le> clamp lo hi x \<Longrightarrow> t \<le> x"
  by (simp add: clamp_def split: if_splits)

lemma clamp_geI: "t \<le> hi \<Longrightarrow> t \<le> x \<Longrightarrow> t \<le> clamp lo hi x"
  by (simp add: clamp_def)

lemma soft_prob_mono: "0 < T \<Longrightarrow> v \<le> w \<Longrightarrow> soft_prob T v \<le> soft_prob T w"
  unfolding soft_prob_def by (intro clamp_mono divide_right_mono) simp_all

lemma soft_total_Cons: "soft_total w (x # xs) = exp (w x) + soft_total w xs"
  by (simp add: soft_total_def)

lemma soft_total_two: "x \<in> set xs \<Longrightarrow> y \<in> set xs \<Longrightarrow> x \<noteq> y \<Longrightarrow> exp (w x) + exp (w y) \<le> soft_total w xs"
proof (induction xs)
  case (Cons z xs)
  have le: "exp (w v) \<le> soft_total w xs" if "v \<in> set xs" for v
    unfolding soft_total_def by (rule member_le_sum_list) (use that in auto)
  show ?case
  proof (cases "x = z \<or> y = z")
    case True
    then show ?thesis using Cons.prems le by (auto simp: soft_total_def)
  next
    case False
    then show ?thesis using Cons by (auto simp: soft_total_def add_increasing)
  qed
qed simp

lemma soft_total_bounds:
  assumes "xs \<noteq> []" "\<forall>x \<in> set xs. w x \<le> m"
  shows "0 < soft_total w xs" "soft_total w xs \<le> real (length xs) * exp m"
proof -
  have "soft_total w xs \<le> sum_list (map (\<lambda>x. exp m) xs)"
    unfolding soft_total_def by (rule sum_list_mono) (use assms in simp)
  then show "soft_total w xs \<le> real (length xs) * exp m" by (simp add: sum_list_triv)
  show "0 < soft_total w xs"
    using assms(1) by (cases xs) (auto simp: soft_total_def intro!: add_pos_nonneg sum_list_nonneg)
qed

lemma soft_total_pos: "xs \<noteq> [] \<Longrightarrow> 0 < soft_total w xs"
  using soft_total_bounds(1) [of xs w "Max (w ` set xs)"] by simp

text \<open>The top of a ranking is the only one with its probability, unless the weights are the same.\<close>

lemma soft_prob_max:
  assumes "y \<in> set xs" "\<forall>x \<in> set xs. w x \<le> w y" "length xs < 1000" "x \<in> set xs"
  shows "soft_prob (soft_total w xs) (w x) = soft_prob (soft_total w xs) (w y) \<longleftrightarrow> w x = w y"
proof (cases "w x = w y")
  case False
  let ?T = "soft_total w xs"
  have ne: "xs \<noteq> []" using assms(1) by auto
  note T = soft_total_bounds [OF ne assms(2)]
  have lt: "exp (w x) < exp (w y)" using False assms by (auto simp: less_le)
  have two: "exp (w x) + exp (w y) \<le> ?T"
    by (rule soft_total_two) (use assms False in auto)
  have "real (length xs) * exp (w y) < 1000 * exp (w y)" using assms(3) by simp
  with T(2) have "?T < 1000 * exp (w y)" by (rule order_le_less_trans)
  then have lo: "0.001 < exp (w y) / ?T" using T(1) by (simp add: pos_less_divide_eq)
  have lt': "exp (w x) / ?T < exp (w y) / ?T" using lt T(1) by (simp add: divide_strict_right_mono)
  have "exp (w x) < 1 / 2 * ?T" using lt two by linarith
  then have "exp (w x) / ?T < 1 / 2" using T(1) by (simp only: pos_divide_less_eq)
  also have "(1 / 2 :: real) < 0.999" by simp
  finally have hi: "exp (w x) / ?T < 0.999" .
  have "soft_prob ?T (w x) < soft_prob ?T (w y)"
    unfolding soft_prob_def by (rule clamp_less [OF _ lo lt' hi]) simp
  then show ?thesis using False by simp
qed simp

lemma rank_scores_hd:
  assumes "first_max h xs = Some y" "0 < c" "length xs < 1000"
  shows "hd (rank_scores (map (\<lambda>x. (g x, c * real (h x))) xs)) =
    (g y, soft_prob (soft_total (\<lambda>x. c * real (h x)) xs) (c * real (h y)))"
proof -
  let ?w = "\<lambda>x. c * real (h x)" and ?f = "\<lambda>(v, p). - (p :: real)"
  let ?F = "\<lambda>x. (g x, soft_prob (soft_total ?w xs) (?w x))"
  note y = first_max_SomeD [OF assms(1)] and yf = first_max_filter [OF assms(1)]
  have ne: "xs \<noteq> []" using assms(1) by auto
  have le: "\<forall>x \<in> set xs. ?w x \<le> ?w y" using y assms(2) by simp
  note T = soft_total_bounds [OF ne le]
  have r: "rank_scores (map (\<lambda>x. (g x, c * real (h x))) xs) = sort_key ?f (map ?F xs)"
    by (simp add: rank_scores_def soft_prob_def soft_total_def o_def)
  have M: "Min (?f ` set (map ?F xs)) = ?f (?F y)"
    using y le soft_prob_mono [OF T(1)] by (intro Min_eqI) auto
  have "filter (\<lambda>r. ?f r = ?f (?F y)) (map ?F xs) = map ?F (filter (\<lambda>x. ?f (?F x) = ?f (?F y)) xs)"
    by (simp add: filter_map o_def)
  also have "filter (\<lambda>x. ?f (?F x) = ?f (?F y)) xs = filter (\<lambda>x. h x = h y) xs"
    by (rule filter_cong) (use soft_prob_max [of y xs ?w] y le assms in auto)
  finally show ?thesis using yf ne by (simp add: r hd_sort_key M hd_map del: set_map)
qed

lemma rank_scores_shape:
  "mset (map fst (rank_scores scores)) = mset (map fst scores)"
  "sorted_wrt (\<ge>) (map snd (rank_scores scores))"
  "r \<in> set (rank_scores scores) \<Longrightarrow> 0.001 \<le> snd r \<and> snd r \<le> 0.999"
proof -
  let ?q = "map (\<lambda>(v, s). (v, clamp 0.001 0.999 (exp s / sum_list (map (\<lambda>(_, s). exp s) scores)))) scores"
  have r: "rank_scores scores = sort_key (\<lambda>(_, p). - p) ?q" by (simp add: rank_scores_def)
  have "mset (map fst (rank_scores scores)) = mset (map fst ?q)"
    unfolding r by (simp only: mset_map mset_sort)
  also have "map fst ?q = map fst scores" by (simp add: case_prod_beta)
  finally show "mset (map fst (rank_scores scores)) = mset (map fst scores)" .
  have "sorted (map (\<lambda>(_, p). - p) (rank_scores scores))" unfolding r by (rule sorted_sort_key)
  then show "sorted_wrt (\<ge>) (map snd (rank_scores scores))"
    by (simp add: sorted_wrt_map case_prod_beta)
  show "r \<in> set (rank_scores scores) \<Longrightarrow> 0.001 \<le> snd r \<and> snd r \<le> 0.999"
    by (auto simp: r clamp_def)
qed

lemma length_rank_scores [simp, length_simps]: "length (rank_scores scores) = length scores"
  by (simp add: rank_scores_def)

lemma rank_scores_Nil_iff [simp]: "rank_scores scores = [] \<longleftrightarrow> scores = []"
  by (metis length_0_conv length_rank_scores)

lemma top_choice_hd:
  "r \<noteq> [] \<Longrightarrow> ly_label (top_choice d r) = fst (hd r) \<and> ly_probability (top_choice d r) = snd (hd r) \<and>
     ly_rankings (top_choice d r) = r"
  by (cases r) (simp_all add: top_choice_def)

lemma soft_total_ge:
  assumes "y \<in> set xs" "\<forall>x \<in> set xs. 0 \<le> w x"
  shows "exp (w y) + real (length xs - 1) \<le> soft_total w xs"
  using assms
proof (induction xs)
  case (Cons z xs)
  have one: "real (length xs) \<le> soft_total w xs"
    using sum_list_mono [of xs "\<lambda>x. 1" "\<lambda>x. exp (w x)"] Cons.prems by (simp add: soft_total_def sum_list_triv)
  show ?case
  proof (cases "y = z")
    case True
    then show ?thesis using one by (simp add: soft_total_def)
  next
    case False
    then have "exp (w y) + real (length xs - 1) \<le> soft_total w xs" "1 \<le> exp (w z)" "xs \<noteq> []"
      using Cons by auto
    moreover from this have "length (z # xs) - 1 = Suc (length xs - 1)" by (cases xs) simp_all
    ultimately show ?thesis by (simp only: soft_total_Cons)
  qed
qed simp

lemma soft_total_le:
  assumes "distinct xs" "y \<in> set xs" "\<forall>x \<in> set xs. x \<noteq> y \<longrightarrow> w x \<le> m"
  shows "soft_total w xs \<le> exp (w y) + real (length xs - 1) * exp m"
  using assms
proof (induction xs)
  case (Cons z xs)
  show ?case
  proof (cases "y = z")
    case True
    then have "\<forall>x \<in> set xs. exp (w x) \<le> exp m" using Cons.prems by auto
    then have "soft_total w xs \<le> real (length xs) * exp m"
      using sum_list_mono [of xs "\<lambda>x. exp (w x)" "\<lambda>x. exp m"] by (simp add: soft_total_def sum_list_triv)
    then show ?thesis using True by (simp add: soft_total_def)
  next
    case False
    then have "soft_total w xs \<le> exp (w y) + real (length xs - 1) * exp m" "exp (w z) \<le> exp m" "xs \<noteq> []"
      using Cons by auto
    moreover from this have "length (z # xs) - 1 = Suc (length xs - 1)" by (cases xs) simp_all
    then have "real (length (z # xs) - 1) * exp m = real (length xs - 1) * exp m + exp m"
      by (simp only: of_nat_Suc) (simp add: algebra_simps)
    ultimately show ?thesis by (simp only: soft_total_Cons)
  qed
qed simp

end
