(* ===== verification/Laya_Properties.thy ===== *)
theory Laya_Properties
  imports Laya
begin

text \<open>
  What the decision engine promises: its label is the first candidate with the most matching tokens, its rankings are
  ordered permutations of the candidates with probabilities strictly between 0 and 1, the confidence gate of the
  pipeline asks for an unrivalled vendor with two tokens, and an anomaly is malicious when a threat token occurs.
\<close>

definition vendor_hits :: "string \<Rightarrow> string \<Rightarrow> nat" where
  "vendor_hits input v = token_hits (unwrap_or [] (map_of vendor_token_priors v)) input"

definition action_hits :: "string \<Rightarrow> string \<times> string list \<Rightarrow> nat" where
  "action_hits input a = token_hits (snd a) (to_ascii_lowercase input)"

lemma token_hits_Nil [simp]: "token_hits [] input = 0"
  by (simp add: token_hits_def)

lemma vendor_scores_hits:
  "vendor_scores (laya_new \<pi>) input = map (\<lambda>v. (v, 2.5 * real (vendor_hits input v))) vendor_candidates"
  by (simp add: vendor_scores_def laya_new_def vendor_hits_def match_weight_hits unwrap_or_def split: option.split)

lemma action_scores_hits:
  "action_scores (laya_new \<pi>) input = map (\<lambda>a. (fst a, 3 * real (action_hits input a))) \<pi>"
  by (simp add: action_scores_def laya_new_def action_hits_def match_weight_hits case_prod_beta)

lemma vendor_candidates_length [simp]: "length vendor_candidates = 8" "vendor_candidates \<noteq> []"
  by (simp_all add: vendor_candidates_def)

definition vendor_total :: "string \<Rightarrow> real" where
  "vendor_total input = soft_total (\<lambda>v. 2.5 * real (vendor_hits input v)) vendor_candidates"

lemma classify_vendor_top:
  assumes "first_max (vendor_hits input) vendor_candidates = Some v"
  shows "ly_label (classify_vendor (laya_new \<pi>) input) = v"
    "ly_probability (classify_vendor (laya_new \<pi>) input) =
       soft_prob (vendor_total input) (2.5 * real (vendor_hits input v))"
proof -
  have "rank_scores (vendor_scores (laya_new \<pi>) input) \<noteq> []"
    by (simp add: vendor_scores_hits)
  moreover have "hd (rank_scores (vendor_scores (laya_new \<pi>) input)) =
      (v, soft_prob (vendor_total input) (2.5 * real (vendor_hits input v)))"
    unfolding vendor_scores_hits vendor_total_def
    by (rule rank_scores_hd [OF assms, where g = "\<lambda>v. v"]) simp_all
  ultimately show "ly_label (classify_vendor (laya_new \<pi>) input) = v"
    "ly_probability (classify_vendor (laya_new \<pi>) input) =
       soft_prob (vendor_total input) (2.5 * real (vendor_hits input v))"
    by (simp_all add: classify_vendor_def top_choice_hd)
qed

lemma classify_action_top:
  assumes "first_max (action_hits input) \<pi> = Some a" "length \<pi> < 1000"
  shows "ly_label (classify_action (laya_new \<pi>) input) = fst a"
    "ly_probability (classify_action (laya_new \<pi>) input) =
       soft_prob (soft_total (\<lambda>a. 3 * real (action_hits input a)) \<pi>) (3 * real (action_hits input a))"
proof -
  have "\<pi> \<noteq> []" using assms(1) by auto
  then have "rank_scores (action_scores (laya_new \<pi>) input) \<noteq> []"
    by (simp add: action_scores_hits)
  moreover have "hd (rank_scores (action_scores (laya_new \<pi>) input)) =
      (fst a, soft_prob (soft_total (\<lambda>a. 3 * real (action_hits input a)) \<pi>) (3 * real (action_hits input a)))"
    unfolding action_scores_hits by (rule rank_scores_hd [OF assms(1)]) (use assms(2) in simp_all)
  ultimately show "ly_label (classify_action (laya_new \<pi>) input) = fst a"
    "ly_probability (classify_action (laya_new \<pi>) input) =
       soft_prob (soft_total (\<lambda>a. 3 * real (action_hits input a)) \<pi>) (3 * real (action_hits input a))"
    by (simp_all add: classify_action_def top_choice_hd)
qed

lemma vendor_label_max:
  "first_max (vendor_hits input) vendor_candidates = Some (ly_label (classify_vendor (laya_new \<pi>) input))"
  using first_max_some [of vendor_candidates "vendor_hits input"] classify_vendor_top(1) by auto

text \<open>
  C38. The softmax label of a line is what counting gives: the first vendor, in the order of the candidates, with the
  most of its tokens in the line. The order of the action map plays no role.
\<close>
theorem vendor_label_is_first_max:
  "first_max (vendor_hits input) vendor_candidates = Some (ly_label (classify_vendor (laya_new \<pi>) input))"
  by (rule vendor_label_max)

text \<open>
  The rankings are a permutation of the candidates in descending order of probability, every probability is
  between 0.001 and 0.999, and label and probability are those of the first entry; for vendors and for actions.
\<close>
theorem rankings_calibrated:
  assumes "c = classify_vendor (laya_new \<pi>) input \<and> labels = vendor_candidates \<or>
    c = classify_action (laya_new \<pi>) input \<and> labels = map fst \<pi> \<and> \<pi> \<noteq> []"
  shows "mset (map fst (ly_rankings c)) = mset labels \<and>
    sorted_wrt (\<ge>) (map snd (ly_rankings c)) \<and>
    (\<forall>r \<in> set (ly_rankings c). 0.001 \<le> snd r \<and> snd r \<le> 0.999) \<and>
    (ly_label c, ly_probability c) = hd (ly_rankings c)"
proof -
  obtain d scores where s: "c = top_choice d (rank_scores scores)" "map fst scores = labels" "scores \<noteq> []"
  proof (cases "c = classify_vendor (laya_new \<pi>) input \<and> labels = vendor_candidates")
    case True
    then show thesis
      by (intro that [of "''unknown''" "vendor_scores (laya_new \<pi>) input"])
        (simp_all add: classify_vendor_def vendor_scores_hits o_def)
  next
    case False
    with assms show thesis
      by (intro that [of "''Unknown''" "action_scores (laya_new \<pi>) input"])
        (auto simp: classify_action_def action_scores_hits o_def)
  qed
  then have "rank_scores scores \<noteq> []" by simp
  then show ?thesis using s rank_scores_shape(1,2) [of scores] rank_scores_shape(3) [of _ scores]
    by (simp add: top_choice_hd)
qed

theorem rankings_calibrated_witness:
  "mset (map fst (ly_rankings (classify_action (laya_new action_token_priors) ''permit''))) =
     mset (map fst action_token_priors)"
  using rankings_calibrated [of "classify_action (laya_new action_token_priors) ''permit''" action_token_priors
      "''permit''" "map fst action_token_priors"]
  by (simp add: action_token_priors_def)

lemma exp_one_bounds: "9 / 4 \<le> exp (1 :: real)" "exp (1 :: real) \<le> 3"
proof -
  have "(3 / 2 :: real) \<le> exp (1 / 2)" using exp_ge_add_one_self [of "1 / 2"] by simp
  then have "(3 / 2 :: real) ^ 2 \<le> exp (1 / 2) ^ 2" by (intro power_mono) simp_all
  then show "9 / 4 \<le> exp (1 :: real)" by (simp add: power2_eq_square flip: exp_add)
qed (rule exp_le)

lemma exp_lead: "(57 :: real) \<le> exp 5"
proof -
  have "(9 / 4 :: real) ^ 5 \<le> exp 1 ^ 5" using exp_one_bounds(1) by (intro power_mono) simp_all
  then show ?thesis by (simp flip: exp_of_nat_mult) (simp add: power_def)
qed

lemma exp_single: "exp (5 / 2 :: real) \<le> 27"
proof -
  have "exp (5 / 2 :: real) \<le> exp 1 ^ 3" by (simp flip: exp_of_nat_mult)
  also have "\<dots> \<le> 3 ^ 3" using exp_one_bounds(2) by (intro power_mono) simp_all
  finally show ?thesis by simp
qed

text \<open>Who passes the gate.\<close>

lemma gate_passed:
  assumes y: "first_max (vendor_hits input) vendor_candidates = Some y"
    and p: "0.85 \<le> soft_prob (vendor_total input) (2.5 * real (vendor_hits input y))"
  shows "2 \<le> vendor_hits input y"
    "v \<in> set vendor_candidates \<Longrightarrow> v \<noteq> y \<Longrightarrow> vendor_hits input v < vendor_hits input y"
proof -
  let ?w = "\<lambda>v. 2.5 * real (vendor_hits input v)" and ?T = "vendor_total input"
  note ym = first_max_SomeD [OF y]
  have T: "exp (?w y) + 7 \<le> ?T"
    using soft_total_ge [of y vendor_candidates ?w] ym by (simp add: vendor_total_def)
  have pos: "0 < ?T" using T exp_gt_zero [of "?w y"] by linarith
  have "0.85 \<le> exp (?w y) / ?T" using clamp_geD [OF _ _ p [unfolded soft_prob_def]] by simp
  then have p': "0.85 * ?T \<le> exp (?w y)" using pos by (simp only: pos_le_divide_eq)
  show less: "vendor_hits input v < vendor_hits input y" if "v \<in> set vendor_candidates" "v \<noteq> y" for v
  proof (rule ccontr)
    assume "\<not> ?thesis"
    then have "vendor_hits input v = vendor_hits input y" using ym that by (simp add: order.antisym)
    then have "2 * exp (?w y) \<le> ?T"
      using soft_total_two [of v vendor_candidates y ?w] that ym by (simp add: vendor_total_def)
    then show False using p' pos by (simp add: field_simps)
  qed
  have "vendor_hits input y \<noteq> 0"
  proof (cases "y = ''fortigate''")
    case True
    then show ?thesis using less [of "''pfsense''"] by (simp add: vendor_candidates_def)
  next
    case False
    then show ?thesis using less [of "''fortigate''"] by (simp add: vendor_candidates_def)
  qed
  moreover have "vendor_hits input y \<noteq> 1"
  proof
    assume "vendor_hits input y = 1"
    then have "exp (?w y) \<le> 27" using exp_single by simp
    then show False using p' T by (simp add: field_simps)
  qed
  ultimately show "2 \<le> vendor_hits input y" by linarith
qed

lemma gate_lead:
  assumes v: "v \<in> set vendor_candidates"
    and lead: "\<forall>u \<in> set vendor_candidates. u \<noteq> v \<longrightarrow> vendor_hits input u + 2 \<le> vendor_hits input v"
  shows "first_max (vendor_hits input) vendor_candidates = Some v"
    "0.85 \<le> soft_prob (vendor_total input) (2.5 * real (vendor_hits input v))"
proof -
  obtain y where y: "first_max (vendor_hits input) vendor_candidates = Some y"
    using first_max_some [of vendor_candidates] by auto
  then have "y = v" using first_max_SomeD [OF y] v lead by fastforce
  with y show "first_max (vendor_hits input) vendor_candidates = Some v" by simp
  let ?w = "\<lambda>v. 2.5 * real (vendor_hits input v)" and ?T = "vendor_total input"
  have "\<forall>u \<in> set vendor_candidates. u \<noteq> v \<longrightarrow> ?w u \<le> ?w v - 5" using lead by fastforce
  then have "?T \<le> exp (?w v) + 7 * exp (?w v - 5)"
    using soft_total_le [of vendor_candidates v ?w "?w v - 5"] v
    by (simp add: vendor_total_def vendor_candidates_def)
  also have "exp (?w v - 5) = exp (?w v) / exp 5" by (simp only: exp_diff)
  also have "\<dots> \<le> exp (?w v) / 57" using exp_lead by (intro divide_left_mono) simp_all
  finally have T: "?T \<le> exp (?w v) + 7 * (exp (?w v) / 57)" by simp
  have pos: "0 < ?T" by (simp add: vendor_total_def soft_total_pos)
  have "17 / 20 * ?T \<le> exp (?w v)" using T exp_gt_zero [of "?w v"] by linarith
  then have "17 / 20 \<le> exp (?w v) / ?T" using pos by (simp only: pos_le_divide_eq)
  then show "0.85 \<le> soft_prob ?T (?w v)" unfolding soft_prob_def by (intro clamp_geI) simp_all
qed

text \<open>
  The confidence gate at 0.85: a choice that passes it has at least two matching tokens, and strictly more than any
  other vendor; a vendor with a lead of two tokens over all others passes.
\<close>
theorem confidence_gate:
  fixes \<pi> input
  defines "c \<equiv> classify_vendor (laya_new \<pi>) input"
  shows "(0.85 \<le> ly_probability c \<longrightarrow> 2 \<le> vendor_hits input (ly_label c) \<and>
      (\<forall>v \<in> set vendor_candidates. v \<noteq> ly_label c \<longrightarrow> vendor_hits input v < vendor_hits input (ly_label c))) \<and>
    (\<forall>v \<in> set vendor_candidates.
      (\<forall>u \<in> set vendor_candidates. u \<noteq> v \<longrightarrow> vendor_hits input u + 2 \<le> vendor_hits input v) \<longrightarrow>
      ly_label c = v \<and> 0.85 \<le> ly_probability c)"
proof -
  note y = vendor_label_max [of input \<pi>]
  have p: "ly_probability c = soft_prob (vendor_total input) (2.5 * real (vendor_hits input (ly_label c)))"
    using classify_vendor_top(2) [OF y] by (simp add: c_def)
  have "ly_label c = v \<and> 0.85 \<le> ly_probability c"
    if "v \<in> set vendor_candidates"
      "\<forall>u \<in> set vendor_candidates. u \<noteq> v \<longrightarrow> vendor_hits input u + 2 \<le> vendor_hits input v" for v
    using gate_lead [OF that] y p by (simp add: c_def)
  then show ?thesis using gate_passed [OF y] p by (auto simp: c_def)
qed

theorem confidence_gate_witness:
  "ly_label (classify_vendor (laya_new []) ''CheckPoint-FW drop'') = ''checkpoint'' \<and>
   0.85 \<le> ly_probability (classify_vendor (laya_new []) ''CheckPoint-FW drop'')"
proof -
  have "vendor_hits ''CheckPoint-FW drop'' ''checkpoint'' = 2" by code_simp
  moreover have "list_all (\<lambda>v. v = ''checkpoint'' \<or> vendor_hits ''CheckPoint-FW drop'' v = 0) vendor_candidates"
    by code_simp
  ultimately have "\<forall>u \<in> set vendor_candidates. u \<noteq> ''checkpoint'' \<longrightarrow>
      vendor_hits ''CheckPoint-FW drop'' u + 2 \<le> vendor_hits ''CheckPoint-FW drop'' ''checkpoint''"
    by (auto simp: list_all_iff)
  moreover have "''checkpoint'' \<in> set vendor_candidates" by (simp add: vendor_candidates_def)
  ultimately show ?thesis using confidence_gate [of "[]" "''CheckPoint-FW drop''"] by blast
qed

text \<open>
  A line without any action token gets whichever label comes first in the iteration order of the action map: every
  action is the label, with probability 1/4, under some order.
\<close>
theorem action_tie_depends_on_order:
  assumes "\<forall>a \<in> set action_token_priors. action_hits input a = 0" "l \<in> fst ` set action_token_priors"
  shows "\<exists>\<pi>. mset \<pi> = mset action_token_priors \<and> ly_label (classify_action (laya_new \<pi>) input) = l \<and>
    ly_probability (classify_action (laya_new \<pi>) input) = 1 / 4"
proof -
  obtain a where a: "a \<in> set action_token_priors" "l = fst a" using assms(2) by auto
  have "\<exists>\<rho>. mset (a # \<rho>) = mset action_token_priors"
    using a by (intro exI [of _ "remove1 a action_token_priors"]) simp
  then obtain \<pi> where m: "mset \<pi> = mset action_token_priors" and hd: "\<pi> \<noteq> []" "hd \<pi> = a" by fastforce
  have s: "set \<pi> = set action_token_priors" "length \<pi> = 4"
    using mset_eq_setD [OF m] mset_eq_length [OF m] by (simp_all add: action_token_priors_def)
  then have z: "\<forall>x \<in> set \<pi>. action_hits input x = 0" using assms(1) by simp
  then have f: "first_max (action_hits input) \<pi> = Some a" using first_max_const [OF z hd(1)] hd(2) by simp
  have "soft_total (\<lambda>a. 3 * real (action_hits input a)) \<pi> = sum_list (map (\<lambda>x. 1) \<pi>)"
    unfolding soft_total_def using z by (intro arg_cong [where f = sum_list] map_cong) auto
  then have t: "soft_total (\<lambda>a. 3 * real (action_hits input a)) \<pi> = 4"
    using s(2) by (simp add: sum_list_triv)
  have "action_hits input a = 0" using z hd by (metis hd_in_set)
  then have "ly_probability (classify_action (laya_new \<pi>) input) = 1 / 4"
    using classify_action_top(2) [OF f] s(2) t by (simp add: soft_prob_def clamp_def)
  then show ?thesis using m classify_action_top(1) [OF f] s(2) a(2) by auto
qed

theorem action_tie_depends_on_order_witness:
  "(\<exists>\<pi>. mset \<pi> = mset action_token_priors \<and> ly_label (classify_action (laya_new \<pi>) ''hello'') = ''Alert'' \<and>
     ly_probability (classify_action (laya_new \<pi>) ''hello'') = 1 / 4) \<and>
   (\<exists>\<pi>. mset \<pi> = mset action_token_priors \<and> ly_label (classify_action (laya_new \<pi>) ''hello'') = ''Allowed'' \<and>
     ly_probability (classify_action (laya_new \<pi>) ''hello'') = 1 / 4)"
proof -
  have "list_all (\<lambda>a. action_hits ''hello'' a = 0) action_token_priors" by code_simp
  then have "\<forall>a \<in> set action_token_priors. action_hits ''hello'' a = 0" by (simp add: list_all_iff)
  from action_tie_depends_on_order [OF this, of "''Alert''"] action_tie_depends_on_order [OF this, of "''Allowed''"]
  show ?thesis by (simp add: action_token_priors_def)
qed

subsection \<open>Threats\<close>

lemma threat_fold:
  fixes ts :: "(string \<times> real) list"
  defines "hit \<equiv> \<lambda>s. filter (\<lambda>t. contains s (fst t)) ts"
  shows "foldl (\<lambda>(risk, hits) (token, weight).
       if contains s token then (if risk < weight then weight else risk, hits + 1) else (risk, hits)) (r, n) ts =
     (foldl max r (map snd (hit s)), n + length (hit s))"
  unfolding hit_def by (induction ts arbitrary: r n) (auto simp: max_def)

lemma foldl_max_ge: "(r :: real) \<le> foldl max r xs"
  by (induction xs arbitrary: r) (auto intro: order_trans [OF max.cobounded1])

text \<open>
  A line is a malicious anomaly exactly when one of the threat tokens occurs in it, in any spelling; the score is
  then that of the worst token, between 0.82 and 0.99, and the certainty is the score; otherwise the certainty is 0.95.
\<close>
theorem malicious_iff_threat_token:
  "(ln_decision (is_malicious_anomaly (laya_new \<pi>) input) \<longleftrightarrow>
      list_ex (\<lambda>t. contains (to_ascii_lowercase input) (fst t)) threat_tokens) \<and>
   ln_probability (is_malicious_anomaly (laya_new \<pi>) input) =
     foldl max (if list_ex (\<lambda>t. contains (to_ascii_lowercase input) (fst t)) threat_tokens then 0.82 else 0.95)
       (map snd (filter (\<lambda>t. contains (to_ascii_lowercase input) (fst t)) threat_tokens)) \<and>
   lsc_confidence (score_threat_risk (laya_new \<pi>) input) \<in> {0.80..0.99}"
proof -
  let ?hit = "filter (\<lambda>t. contains (to_ascii_lowercase input) (fst t)) threat_tokens"
  let ?m = "foldl max 0.05 (map snd ?hit)"
  have r: "lsc_score (score_threat_risk (laya_new \<pi>) input) = ?m"
    "lsc_confidence (score_threat_risk (laya_new \<pi>) input) =
       (if ?hit \<noteq> [] then min (0.70 + real (length ?hit) * 0.10) 0.99 else 0.90)"
    by (simp_all add: score_threat_risk_def laya_new_def threat_fold Let_def)
  have ex: "list_ex (\<lambda>t. contains (to_ascii_lowercase input) (fst t)) threat_tokens \<longleftrightarrow> ?hit \<noteq> []"
    by (auto simp: list_ex_iff filter_empty_conv)
  have w: "list_all (\<lambda>t. 0.82 \<le> snd t) threat_tokens" by (simp add: threat_tokens_def)
  show ?thesis
  proof (cases "?hit = []")
    case True
    then show ?thesis using r ex by (simp add: is_malicious_anomaly_def)
  next
    case False
    then obtain t ts where t: "?hit = t # ts" by (cases ?hit) auto
    then have "t \<in> set ?hit" by simp
    then have "0.82 \<le> snd t" using w by (simp add: list_all_iff)
    then have m: "?m = foldl max 0.82 (map snd ?hit)" "0.82 \<le> ?m"
      using foldl_max_ge(1) [of "snd t" "map snd ts"] by (simp_all add: t max_def)
    have "1 \<le> real (length ?hit)" using False by (simp add: Suc_le_eq)
    then have "0.80 \<le> 0.70 + real (length ?hit) * 0.10" by simp
    then show ?thesis using r ex m False by (simp add: is_malicious_anomaly_def min_def)
  qed
qed

end
