(* ===== verification/Ocsf.thy ===== *)
theory Ocsf
  imports Rust_Str
begin

text \<open>
  The OCSF 1.3 data model of \<open>ulpf-core/src/schema/ocsf.rs\<close>: the nested records of a Network
  Activity event and its constructor, which derives the activity name and type id. \<open>event_ok\<close> is the type
  invariant every constructed event has.
\<close>

definition CATEGORY_UID_NETWORK_ACTIVITY :: u8 where "CATEGORY_UID_NETWORK_ACTIVITY = 4"
definition CLASS_UID_NETWORK_ACTIVITY :: u16 where "CLASS_UID_NETWORK_ACTIVITY = 4001"

definition OPEN :: u8 where "OPEN = 1"
definition CLOSE :: u8 where "CLOSE = 2"
definition TRAFFIC_FLOW :: u8 where "TRAFFIC_FLOW = 3"
definition OTHER :: u8 where "OTHER = 99"

definition ALLOWED :: string where "ALLOWED = ''Allowed''"
definition BLOCKED :: string where "BLOCKED = ''Blocked''"
definition DROPPED :: string where "DROPPED = ''Dropped''"
definition UNKNOWN :: string where "UNKNOWN = ''Unknown''"

definition activity_name_from_id :: "u8 \<Rightarrow> string" where
  "activity_name_from_id i =
     (if i = OPEN then ''Open'' else if i = CLOSE then ''Close''
      else if i = TRAFFIC_FLOW then ''Traffic/Flow'' else if i = OTHER then ''Other''
      else ''Unknown'')"

definition calculate_type_uid :: "u16 \<Rightarrow> u8 \<Rightarrow> u32" where
  "calculate_type_uid class_uid activity = ucast class_uid * 100 + ucast activity"

record endpoint =
  ep_ip :: "string option"
  ep_port :: "u16 option"
  ep_interface :: "string option"
  ep_zone :: "string option"

definition endpoint_new ::
  "string option \<Rightarrow> u16 option \<Rightarrow> string option \<Rightarrow> string option \<Rightarrow> endpoint" where
  "endpoint_new ip port interface zone =
     \<lparr>ep_ip = ip, ep_port = port, ep_interface = interface, ep_zone = zone\<rparr>"

definition endpoint_default :: endpoint where
  "endpoint_default = endpoint_new None None None None"

record connection_info =
  ci_protocol_num :: "u8 option"
  ci_protocol_name :: "string option"
  ci_direction :: "string option"

definition connection_info_new :: "u8 option \<Rightarrow> string option \<Rightarrow> string option \<Rightarrow> connection_info" where
  "connection_info_new num name direction =
     \<lparr>ci_protocol_num = num, ci_protocol_name = name, ci_direction = direction\<rparr>"

definition connection_info_default :: connection_info where
  "connection_info_default = connection_info_new None None None"

record traffic =
  tf_bytes_in :: "u64 option"
  tf_bytes_out :: "u64 option"
  tf_packets_in :: "u64 option"
  tf_packets_out :: "u64 option"

definition traffic_new :: "u64 option \<Rightarrow> u64 option \<Rightarrow> u64 option \<Rightarrow> u64 option \<Rightarrow> traffic" where
  "traffic_new bi bo pi po =
     \<lparr>tf_bytes_in = bi, tf_bytes_out = bo, tf_packets_in = pi, tf_packets_out = po\<rparr>"

record product =
  pr_vendor_name :: string
  pr_name :: string
  pr_version :: "string option"

definition product_new :: "string \<Rightarrow> string \<Rightarrow> string option \<Rightarrow> product" where
  "product_new vendor name version =
     \<lparr>pr_vendor_name = vendor, pr_name = name, pr_version = version\<rparr>"

record metadata =
  md_product :: product
  md_raw_data :: string
  md_raw_hash :: string
  md_event_id :: string
  md_ingest_time :: int

definition metadata_new :: "product \<Rightarrow> string \<Rightarrow> string \<Rightarrow> string \<Rightarrow> int \<Rightarrow> metadata" where
  "metadata_new product raw_data raw_hash event_id ingest_time =
     \<lparr>md_product = product, md_raw_data = raw_data, md_raw_hash = raw_hash,
      md_event_id = event_id, md_ingest_time = ingest_time\<rparr>"

record network_activity =
  na_activity_id :: u8
  na_activity_name :: string
  na_category_uid :: u8
  na_class_uid :: u16
  na_type_uid :: u32
  na_time :: int
  na_disposition :: string
  na_src_endpoint :: endpoint
  na_dst_endpoint :: endpoint
  na_connection_info :: connection_info
  na_traffic :: "traffic option"
  na_metadata :: metadata
  na_unmapped :: "(string, string) hash_map option"

definition network_activity_new ::
  "u8 \<Rightarrow> int \<Rightarrow> string \<Rightarrow> endpoint \<Rightarrow> endpoint \<Rightarrow> connection_info \<Rightarrow> traffic option \<Rightarrow> metadata \<Rightarrow>
     network_activity" where
  "network_activity_new activity time disposition src dst conn traffic metadata =
     \<lparr>na_activity_id = activity,
      na_activity_name = activity_name_from_id activity,
      na_category_uid = CATEGORY_UID_NETWORK_ACTIVITY,
      na_class_uid = CLASS_UID_NETWORK_ACTIVITY,
      na_type_uid = calculate_type_uid CLASS_UID_NETWORK_ACTIVITY activity,
      na_time = time,
      na_disposition = disposition,
      na_src_endpoint = src,
      na_dst_endpoint = dst,
      na_connection_info = conn,
      na_traffic = traffic,
      na_metadata = metadata,
      na_unmapped = None\<rparr>"

definition with_unmapped :: "network_activity \<Rightarrow> (string, string) hash_map \<Rightarrow> network_activity" where
  "with_unmapped a unmapped = (if unmapped \<noteq> [] then a\<lparr>na_unmapped := Some unmapped\<rparr> else a)"

definition add_unmapped :: "network_activity \<Rightarrow> string \<Rightarrow> string \<Rightarrow> network_activity" where
  "add_unmapped a key value =
     a\<lparr>na_unmapped := Some (hm_insert key value (unwrap_or [] (na_unmapped a)))\<rparr>"

subsection \<open>The type invariant of events\<close>

definition event_ok :: "network_activity \<Rightarrow> bool" where
  "event_ok a \<longleftrightarrow>
     na_category_uid a = 4 \<and> na_class_uid a = 4001 \<and>
     na_activity_id a \<in> {OPEN, CLOSE, TRAFFIC_FLOW, OTHER} \<and>
     na_activity_name a = activity_name_from_id (na_activity_id a) \<and>
     unat (na_type_uid a) = 400100 + unat (na_activity_id a) \<and>
     na_disposition a \<in> {ALLOWED, BLOCKED, DROPPED, UNKNOWN}"

lemma type_uid_eq: "unat (calculate_type_uid 4001 i) = 400100 + unat i"
proof -
  have "unat i < 2 ^ LENGTH(8)" by (rule unsigned_less)
  then show ?thesis by (simp add: calculate_type_uid_def unat_word_ariths unsigned_ucast_eq take_bit_nat_eq_self)
qed

definition dispositions :: "string set" where
  "dispositions = {ALLOWED, BLOCKED, DROPPED, UNKNOWN}"

definition activities :: "u8 set" where
  "activities = {OPEN, CLOSE, TRAFFIC_FLOW, OTHER}"

lemma dispositions_simps [simp]:
  "ALLOWED \<in> dispositions" "BLOCKED \<in> dispositions" "DROPPED \<in> dispositions" "UNKNOWN \<in> dispositions"
  by (simp_all add: dispositions_def)

lemma activities_simps [simp]:
  "OPEN \<in> activities" "CLOSE \<in> activities" "TRAFFIC_FLOW \<in> activities" "OTHER \<in> activities"
  by (simp_all add: activities_def)

named_theorems event_intros "when a constructed event is well-formed"

lemma event_ok_new [event_intros]:
  "i \<in> activities \<Longrightarrow> d \<in> dispositions \<Longrightarrow>
     event_ok (network_activity_new i t d s e c tr md)"
  by (simp add: event_ok_def network_activity_new_def CATEGORY_UID_NETWORK_ACTIVITY_def
      CLASS_UID_NETWORK_ACTIVITY_def type_uid_eq activities_def dispositions_def)

lemma event_ok_unmapped [simp]: "event_ok (with_unmapped a u) = event_ok a"
  by (simp add: event_ok_def with_unmapped_def)

lemma event_ok_add_unmapped [simp]: "event_ok (add_unmapped a k v) = event_ok a"
  by (simp add: event_ok_def add_unmapped_def)

lemma na_metadata_simps [simp]:
  "na_metadata (network_activity_new i t d s e c tr md) = md"
  "na_metadata (with_unmapped a u) = na_metadata a"
  by (simp_all add: network_activity_new_def with_unmapped_def)

lemma na_fields_simps [simp]:
  "na_disposition (with_unmapped a u) = na_disposition a"
  "na_disposition (network_activity_new i t d s e c tr md) = d"
  "na_activity_id (with_unmapped a u) = na_activity_id a"
  "na_activity_id (network_activity_new i t d s e c tr md) = i"
  "na_src_endpoint (with_unmapped a u) = na_src_endpoint a"
  "na_src_endpoint (network_activity_new i t d s e c tr md) = s"
  "na_dst_endpoint (with_unmapped a u) = na_dst_endpoint a"
  "na_dst_endpoint (network_activity_new i t d s e c tr md) = e"
  by (simp_all add: network_activity_new_def with_unmapped_def)

lemma md_simps [simp]:
  "md_raw_data (metadata_new p r h e t) = r" "md_product (metadata_new p r h e t) = p"
  by (simp_all add: metadata_new_def)

lemma pr_vendor_new [simp]: "pr_vendor_name (product_new v n ver) = v"
  by (simp add: product_new_def)

end
