(* ===== verification/Classifier.thy ===== *)
theory Classifier
  imports Rust_Str
begin

text \<open>
  Vendor classification, \<open>ulpf-core/src/parser/classifier.rs\<close>: the pattern table, the automaton lookup and the
  structural fallback. The Aho-Corasick automaton is third-party: an argument \<open>ac\<close> from patterns and text to
  the index of the matching pattern; \<open>leftmost_first_ok\<close> is the documented semantics of
  \<open>MatchKind::LeftmostFirst\<close>, and \<open>leftmost_first\<close> an executable function that has it.
\<close>

datatype vendor_format = CiscoAsa | Fortinet | PaloAlto | Suricata | PfSense | KaggleFirewall | Unknown

fun vendor_str :: "vendor_format \<Rightarrow> string" where
  "vendor_str CiscoAsa = ''Cisco ASA''"
| "vendor_str Fortinet = ''Fortinet FortiGate''"
| "vendor_str PaloAlto = ''Palo Alto PAN-OS''"
| "vendor_str Suricata = ''Suricata EVE-JSON''"
| "vendor_str PfSense = ''pfSense Filterlog''"
| "vendor_str KaggleFirewall = ''Kaggle Firewall''"
| "vendor_str Unknown = ''Unknown''"

definition patterns_with_formats :: "(string \<times> vendor_format) list" where
  "patterns_with_formats =
    [(''%ASA-'', CiscoAsa),
     (''CEF:0|Fortinet'', Fortinet),
     (''|Fortinet|'', Fortinet),
     (''deviceExternalId=FGT'', Fortinet),
     (''devname=\"'', Fortinet),
     (''type=\"traffic\"'', Fortinet),
     (''logid=\"'', Fortinet),
     (''type=traffic'', Fortinet),
     (''devname='', Fortinet),
     (''filterlog['', PfSense),
     (''filterlog:'', PfSense),
     (''{\"timestamp\":'', Suricata),
     (''\"event_type\":'', Suricata),
     (''\"flow\":'', Suricata),
     (''\"alert\":'', Suricata),
     ('',TRAFFIC,'', PaloAlto),
     ('',THREAT,'', PaloAlto),
     ('',SYSTEM,'', PaloAlto),
     (''TRAFFIC,drop'', PaloAlto),
     (''TRAFFIC,allow'', PaloAlto),
     (''TRAFFIC,start'', PaloAlto),
     (''TRAFFIC,end'', PaloAlto),
     (''PAN-OS'', PaloAlto),
     (''%KAGGLE-FW-'', KaggleFirewall),
     (''firewall-kaggle'', KaggleFirewall)]"

type_synonym automaton = "string list \<Rightarrow> string \<Rightarrow> nat option"

definition ac_patterns :: "string list" where
  "ac_patterns = map fst patterns_with_formats"

definition pattern_to_format :: "vendor_format list" where
  "pattern_to_format = map snd patterns_with_formats"

definition fallback_classify :: "string \<Rightarrow> vendor_format" where
  "fallback_classify raw =
     (let trimmed = trim raw in
      if contains trimmed ''%ASA-'' then CiscoAsa
      else if contains trimmed ''filterlog'' then PfSense
      else if (starts_with trimmed ''{'' \<or> contains trimmed ''{\"'') \<and>
              (contains trimmed ''\"timestamp\"'' \<or> contains trimmed ''\"event_type\"'') then Suricata
      else if (contains trimmed ''srcip='' \<or> contains trimmed ''dstip='') \<and> contains trimmed ''proto=''
        then Fortinet
      else if (starts_with trimmed ''CEF:'' \<or> contains trimmed ''CEF:'') \<and>
              (contains trimmed ''Fortinet'' \<or> contains trimmed ''FortiGate'') then Fortinet
      else if contains trimmed ''%KAGGLE-FW-'' \<or> contains trimmed ''firewall-kaggle'' then KaggleFirewall
      else
        let comma_count = length (filter (\<lambda>c. c = CHR '','') trimmed) in
        if 15 \<le> comma_count \<and>
           (contains trimmed ''TRAFFIC'' \<or> contains trimmed ''THREAT'' \<or> contains trimmed ''allow'' \<or>
            contains trimmed ''deny'' \<or> contains trimmed ''drop'') then PaloAlto
        else if comma_count = 11 \<and>
           (starts_with trimmed ''Source Port'' \<or>
            parse_u16 (trim (hd (split_char (\<lambda>c. c = CHR '','') trimmed))) \<noteq> None) then KaggleFirewall
        else Unknown)"

definition classify :: "automaton \<Rightarrow> string \<Rightarrow> vendor_format" where
  "classify ac raw =
     (case ac ac_patterns raw of
        Some idx \<Rightarrow>
          if idx < length pattern_to_format then pattern_to_format ! idx else fallback_classify raw
      | None \<Rightarrow> fallback_classify raw)"

subsection \<open>The automaton's documented semantics\<close>

fun first_prefix :: "string list \<Rightarrow> string \<Rightarrow> nat option" where
  "first_prefix [] s = None"
| "first_prefix (p # ps) s = (if starts_with s p then Some 0 else map_option Suc (first_prefix ps s))"

fun leftmost_first :: automaton where
  "leftmost_first pats [] = first_prefix pats []"
| "leftmost_first pats (c # cs) =
     (case first_prefix pats (c # cs) of Some i \<Rightarrow> Some i | None \<Rightarrow> leftmost_first pats cs)"

text \<open>
  A match is at the leftmost position where any pattern occurs, and there it is the first pattern of the list.
\<close>

definition match_at :: "string list \<Rightarrow> string \<Rightarrow> nat \<Rightarrow> nat \<Rightarrow> bool" where
  "match_at pats s pos i \<longleftrightarrow> pos \<le> length s \<and> i < length pats \<and> starts_with (drop pos s) (pats ! i) \<and>
     (\<forall>j < i. \<not> starts_with (drop pos s) (pats ! j)) \<and>
     (\<forall>q < pos. \<forall>p \<in> set pats. \<not> starts_with (drop q s) p)"

definition leftmost_first_ok :: "automaton \<Rightarrow> bool" where
  "leftmost_first_ok ac \<longleftrightarrow> (\<forall>pats s.
     (case ac pats s of
        None \<Rightarrow> \<forall>p \<in> set pats. \<not> contains s p
      | Some i \<Rightarrow> \<exists>pos. match_at pats s pos i))"

lemma first_prefix_SomeD:
  "first_prefix ps s = Some i \<Longrightarrow>
     i < length ps \<and> starts_with s (ps ! i) \<and> (\<forall>j < i. \<not> starts_with s (ps ! j))"
proof (induction ps s arbitrary: i rule: first_prefix.induct)
  case (2 p ps s)
  then show ?case by (auto split: if_splits simp: less_Suc_eq_0_disj)
qed simp

lemma first_prefix_None_iff: "first_prefix ps s = None \<longleftrightarrow> (\<forall>p \<in> set ps. \<not> starts_with s p)"
  by (induction ps s rule: first_prefix.induct) auto

lemma leftmost_first_match: "leftmost_first pats s = Some i \<Longrightarrow> \<exists>pos. match_at pats s pos i"
proof (induction pats s rule: leftmost_first.induct)
  case (1 pats)
  then show ?case by (auto simp: match_at_def dest: first_prefix_SomeD)
next
  case (2 pats c cs)
  show ?case
  proof (cases "first_prefix pats (c # cs)")
    case None
    with 2 obtain pos where "match_at pats cs pos i" by auto
    then have "match_at pats (c # cs) (Suc pos) i"
      using None by (auto simp: match_at_def first_prefix_None_iff less_Suc_eq_0_disj)
    then show ?thesis by blast
  next
    case (Some j)
    then have "match_at pats (c # cs) 0 i"
      using 2 first_prefix_SomeD [OF Some] by (simp add: match_at_def)
    then show ?thesis by blast
  qed
qed

lemma leftmost_first_None: "leftmost_first pats s = None \<longleftrightarrow> (\<forall>p \<in> set pats. \<not> contains s p)"
proof (induction pats s rule: leftmost_first.induct)
  case (1 pats)
  then show ?case by (auto simp: first_prefix_None_iff contains_def starts_with_take)
next
  case (2 pats c cs)
  show ?case
  proof (cases "first_prefix pats (c # cs)")
    case None
    then have "leftmost_first pats (c # cs) = leftmost_first pats cs"
      "\<And>p. p \<in> set pats \<Longrightarrow> contains (c # cs) p = contains cs p"
      by (auto simp: contains_def dest: first_prefix_None_iff [THEN iffD1])
    then show ?thesis using 2 None by auto
  next
    case (Some i)
    then have "pats ! i \<in> set pats" "contains (c # cs) (pats ! i)"
      using first_prefix_SomeD [OF Some] by (auto simp: contains_def)
    then show ?thesis using Some by auto
  qed
qed

lemma leftmost_first_ok: "leftmost_first_ok leftmost_first"
  using leftmost_first_match leftmost_first_None by (auto simp: leftmost_first_ok_def split: option.splits)

lemma match_at_unique:
  assumes "match_at pats s pos i" "match_at pats s pos' i'"
  shows "i = i'"
proof -
  have "pos = pos'" using assms by (meson linorder_neqE_nat match_at_def nth_mem)
  then show ?thesis using assms by (meson linorder_neqE_nat match_at_def)
qed

lemma match_at_contains: "match_at pats s pos i \<Longrightarrow> \<exists>p \<in> set pats. contains s p"
  by (metis append_take_drop_id contains_iff match_at_def nth_mem starts_with_iff)

text \<open>The documented semantics determines the automaton.\<close>

lemma leftmost_first_unique: "leftmost_first_ok ac \<Longrightarrow> ac = leftmost_first"
proof (intro ext)
  fix pats s
  assume ok: "leftmost_first_ok ac"
  then have "case ac pats s of None \<Rightarrow> \<forall>p \<in> set pats. \<not> contains s p | Some i \<Rightarrow> \<exists>pos. match_at pats s pos i"
    by (simp add: leftmost_first_ok_def)
  moreover have "case leftmost_first pats s of None \<Rightarrow> \<forall>p \<in> set pats. \<not> contains s p
      | Some i \<Rightarrow> \<exists>pos. match_at pats s pos i"
    using leftmost_first_ok by (simp add: leftmost_first_ok_def)
  ultimately show "ac pats s = leftmost_first pats s"
    by (auto split: option.splits dest: match_at_contains match_at_unique)
qed

lemma table_simps [simp]:
  "length ac_patterns = 25" "length pattern_to_format = 25"
  "i < 25 \<Longrightarrow> ac_patterns ! i = fst (patterns_with_formats ! i)"
  "i < 25 \<Longrightarrow> pattern_to_format ! i = snd (patterns_with_formats ! i)"
proof -
  have len: "length patterns_with_formats = 25" by (simp add: patterns_with_formats_def)
  show "length ac_patterns = 25" "length pattern_to_format = 25"
    "i < 25 \<Longrightarrow> ac_patterns ! i = fst (patterns_with_formats ! i)"
    "i < 25 \<Longrightarrow> pattern_to_format ! i = snd (patterns_with_formats ! i)"
    by (simp_all add: ac_patterns_def pattern_to_format_def len)
qed

lemma classify_match:
  "leftmost_first_ok ac \<Longrightarrow> match_at ac_patterns raw pos i \<Longrightarrow>
     classify ac raw = snd (patterns_with_formats ! i)"
proof -
  assume ac: "leftmost_first_ok ac" and m: "match_at ac_patterns raw pos i"
  from leftmost_first_unique [OF ac] have "ac = leftmost_first" .
  moreover have "leftmost_first ac_patterns raw \<noteq> None"
    using match_at_contains [OF m] leftmost_first_None by blast
  ultimately obtain j where j: "ac ac_patterns raw = Some j" "leftmost_first ac_patterns raw = Some j" by auto
  then have "ac ac_patterns raw = Some i"
    using leftmost_first_match [OF j(2)] match_at_unique [OF m] by auto
  then show ?thesis using m by (simp add: classify_def match_at_def)
qed

lemma classify_no_match:
  "leftmost_first_ok ac \<Longrightarrow> (\<And>p. p \<in> set ac_patterns \<Longrightarrow> \<not> contains raw p) \<Longrightarrow>
     classify ac raw = fallback_classify raw"
  using leftmost_first_None [of ac_patterns raw] leftmost_first_unique [of ac]
  by (auto simp: classify_def)

end
