(* ===== verification/Extractor_Common.thy ===== *)
theory Extractor_Common
  imports Ocsf Classifier Merkle_Properties
begin

text \<open>
  What the vendor extractors share (\<open>ulpf-core/src/parser/extractors/mod.rs\<close>): protocol tables,
  the CSV splitter and the time helpers, the third-party libraries as the record \<open>parser_libs\<close> (regex captures,
  chrono parsing, serde_json, the Aho-Corasick automaton, SHA-256, hex, and Unicode's alphabetic table beyond ASCII), and
  the contract \<open>log_parser\<close> every extractor interprets.
\<close>

datatype json =
    JNull
  | JBool bool
  | JPosInt u64
  | JNegInt int
  | JFloat string
  | JString string
  | JArray "json list"
  | JObject "(string \<times> json) list"

fun json_get :: "string \<Rightarrow> json \<Rightarrow> json option" where
  "json_get k (JObject m) = map_of m k"
| "json_get k _ = None"

fun json_as_str :: "json \<Rightarrow> string option" where
  "json_as_str (JString s) = Some s"
| "json_as_str _ = None"

fun json_as_u64 :: "json \<Rightarrow> u64 option" where
  "json_as_u64 (JPosInt n) = Some n"
| "json_as_u64 _ = None"

fun json_as_object :: "json \<Rightarrow> json option" where
  "json_as_object (JObject m) = Some (JObject m)"
| "json_as_object _ = None"

record parser_libs =
  pl_ac :: automaton
  pl_captures :: "string \<Rightarrow> string \<Rightarrow> string option list option"
  pl_datetime :: "string \<Rightarrow> string \<Rightarrow> int option"
  pl_rfc3339 :: "string \<Rightarrow> int option"
  pl_json_parse :: "string \<Rightarrow> (json, string) result"
  pl_json_show :: "json \<Rightarrow> string"
  pl_alphanumeric :: "string \<Rightarrow> bool"
  pl_sha256 :: digest
  pl_hex :: "u8 list \<Rightarrow> string"

text \<open>A character is the list of its UTF-8 bytes; the table decides beyond ASCII.\<close>

definition is_alphanumeric_char :: "parser_libs \<Rightarrow> string \<Rightarrow> bool" where
  "is_alphanumeric_char L ch =
     (case ch of [c] \<Rightarrow> is_ascii_alnum c | _ \<Rightarrow> pl_alphanumeric L ch)"

subsection \<open>Protocol tables\<close>

definition protocol_num_from_name :: "string \<Rightarrow> u8 option" where
  "protocol_num_from_name name =
     (let n = to_ascii_uppercase name in
      if n = ''ICMP'' then Some 1 else if n = ''IGMP'' then Some 2 else if n = ''TCP'' then Some 6
      else if n = ''UDP'' then Some 17 else if n = ''GRE'' then Some 47 else if n = ''ESP'' then Some 50
      else if n = ''AH'' then Some 51 else if n = ''ICMPV6'' \<or> n = ''ICMP6'' then Some 58
      else if n = ''OSPF'' then Some 89 else if n = ''SCTP'' then Some 132 else None)"

definition protocol_name_from_num :: "u8 \<Rightarrow> string" where
  "protocol_name_from_num num =
     (if num = 1 then ''ICMP'' else if num = 2 then ''IGMP'' else if num = 6 then ''TCP''
      else if num = 17 then ''UDP'' else if num = 47 then ''GRE'' else if num = 50 then ''ESP''
      else if num = 51 then ''AH'' else if num = 58 then ''ICMPv6'' else if num = 89 then ''OSPF''
      else if num = 132 then ''SCTP'' else ''UNKNOWN'')"

lemma protocol_tables_agree:
  "protocol_num_from_name (protocol_name_from_num n) = Some n \<longleftrightarrow>
     n \<in> {1, 2, 6, 17, 47, 50, 51, 58, 89, 132}"
proof -
  have v: "char_of (86 :: nat) = CHR ''V''" by code_simp
  show ?thesis
    by (simp add: protocol_name_from_num_def protocol_num_from_name_def to_ascii_uppercase_def
        ascii_upper_def is_ascii_lower_def v)
qed

subsection \<open>The CSV splitter\<close>

definition csv_field :: "string \<Rightarrow> string" where
  "csv_field field = trim (trim_matches (\<lambda>c. c = CHR 0x22) field)"

fun split_csv_from :: "bool \<Rightarrow> string \<Rightarrow> string \<Rightarrow> string list" where
  "split_csv_from in_quotes cur [] = [csv_field (rev cur)]"
| "split_csv_from in_quotes cur (c # cs) =
     (if c = CHR 0x22 then split_csv_from (\<not> in_quotes) (c # cur) cs
      else if c = CHR '','' \<and> \<not> in_quotes then csv_field (rev cur) # split_csv_from in_quotes [] cs
      else split_csv_from in_quotes (c # cur) cs)"

definition split_csv :: "string \<Rightarrow> string list" where
  "split_csv input = split_csv_from False [] input"

lemma split_csv_nonempty [simp]: "split_csv_from q cur s \<noteq> []"
  by (induction q cur s rule: split_csv_from.induct) auto

definition csv_quote :: "string \<Rightarrow> string" where
  "csv_quote f = (if CHR '','' \<in> set f then CHR 0x22 # f @ [CHR 0x22] else f)"

lemma split_csv_plain:
  "CHR 0x22 \<notin> set f \<Longrightarrow> (\<not> q \<Longrightarrow> CHR '','' \<notin> set f) \<Longrightarrow>
     split_csv_from q cur (f @ s) = split_csv_from q (rev f @ cur) s"
  by (induction f arbitrary: cur) auto

lemma csv_field_quote:
  assumes "CHR 0x22 \<notin> set f" "trim f = f"
  shows "csv_field (csv_quote f) = f"
proof -
  have d: "dropWhile (\<lambda>c. c = CHR 0x22) (g @ [CHR 0x22]) = (if g = [] then [] else g @ [CHR 0x22])"
    if "CHR 0x22 \<notin> set g" for g using that by (cases g) auto
  have e: "dropWhile (\<lambda>c. c = CHR 0x22) g = g" if "CHR 0x22 \<notin> set g" for g
    using that by (cases g) auto
  have "trim_matches (\<lambda>c. c = CHR 0x22) (csv_quote f) = f"
    using assms(1) d [of f] e [of f] e [of "rev f"] by (auto simp: trim_matches_def csv_quote_def)
  then show ?thesis using assms(2) by (simp add: csv_field_def)
qed

lemma split_csv_quote:
  assumes "CHR 0x22 \<notin> set f"
  shows "split_csv_from False [] (csv_quote f @ s) = split_csv_from False (rev (csv_quote f)) s"
proof (cases "CHR '','' \<in> set f")
  case True
  then show ?thesis
    using split_csv_plain [OF assms, of True "[CHR 0x22]" "CHR 0x22 # s"] by (simp add: csv_quote_def)
qed (use split_csv_plain [OF assms, of False "[]" s] in \<open>simp add: csv_quote_def\<close>)

lemma split_csv_join:
  assumes "fs \<noteq> []" "\<forall>f \<in> set fs. CHR 0x22 \<notin> set f \<and> trim f = f"
  shows "split_csv (join '','' (map csv_quote fs)) = fs"
  using assms unfolding split_csv_def
proof (induction fs rule: induct_list012)
  case (2 f)
  then show ?case using split_csv_quote [of f "[]"] csv_field_quote [of f] by simp
next
  case (3 f g fs)
  then show ?case using split_csv_quote [of f "'','' @ join '','' (map csv_quote (g # fs))"]
    csv_field_quote [of f] by simp
qed simp

subsection \<open>Times\<close>

definition parse_date_time_or_fallback :: "parser_libs \<Rightarrow> string \<Rightarrow> string \<Rightarrow> int \<Rightarrow> int" where
  "parse_date_time_or_fallback L date time fallback =
     unwrap_or fallback (pl_datetime L (trim date @ '' '' @ trim time) ''%Y-%m-%d %H:%M:%S'')"

definition parse_palo_alto_time_or_fallback :: "parser_libs \<Rightarrow> string \<Rightarrow> int \<Rightarrow> int" where
  "parse_palo_alto_time_or_fallback L dt fallback =
     unwrap_or fallback (pl_datetime L (trim dt) ''%Y/%m/%d %H:%M:%S'')"

definition parse_rfc3339_or_fallback :: "parser_libs \<Rightarrow> string \<Rightarrow> int \<Rightarrow> int" where
  "parse_rfc3339_or_fallback L ts fallback = unwrap_or fallback (pl_rfc3339 L (trim ts))"

subsection \<open>The extractor contract\<close>

definition ascii_str :: "string \<Rightarrow> bool" where
  "ascii_str s \<longleftrightarrow> (\<forall>c \<in> set s. code c < 128)"

lemma ascii_str_take_drop [simp]:
  "ascii_str s \<Longrightarrow> ascii_str (take n s)" "ascii_str s \<Longrightarrow> ascii_str (drop n s)"
  by (auto simp: ascii_str_def dest: in_set_takeD in_set_dropD)

lemma ascii_str_trim_by: "ascii_str s \<Longrightarrow> ascii_str (trim_by f s)"
proof -
  assume s: "ascii_str s"
  obtain p where "s = p @ trim_by f s" using trim_by_suffix by blast
  then have "set (trim_by f s) \<subseteq> set s" by (metis set_append sup_ge2)
  then show ?thesis using s by (auto simp: ascii_str_def)
qed

lemma ascii_str_trim_start [simp]: "ascii_str s \<Longrightarrow> ascii_str (trim_start s)"
  by (simp add: trim_start_def ascii_str_trim_by)

type_synonym extractor = "parser_libs \<Rightarrow> int \<Rightarrow> string \<Rightarrow> (network_activity, string) comp"

definition extracted_ok :: "string \<Rightarrow> string \<Rightarrow> network_activity \<Rightarrow> bool" where
  "extracted_ok vendor raw a \<longleftrightarrow> event_ok a \<and> md_raw_data (na_metadata a) = raw \<and>
     pr_vendor_name (md_product (na_metadata a)) = vendor"

lemma extracted_okI [event_intros]:
  "i \<in> activities \<Longrightarrow> d \<in> dispositions \<Longrightarrow>
     extracted_ok v raw (network_activity_new i t d s e c tr
       (metadata_new (product_new v n ver) raw h ev ing))"
  by (simp add: extracted_ok_def event_ok_new)

lemma extracted_ok_unmapped [simp]: "extracted_ok v raw (with_unmapped a u) = extracted_ok v raw a"
  by (simp add: extracted_ok_def)

locale log_parser =
  fixes parse :: extractor and vendor :: string
  assumes parse_ok: "parse L now raw = Some (Ok a) \<Longrightarrow> extracted_ok vendor raw a"
    and parse_ascii: "ascii_str raw \<Longrightarrow> parse L now raw \<noteq> None"
begin

lemma parse_event_ok: "parse L now raw = Some (Ok a) \<Longrightarrow> event_ok a"
  using parse_ok by (simp add: extracted_ok_def)

lemma parse_keeps_raw: "parse L now raw = Some (Ok a) \<Longrightarrow> md_raw_data (na_metadata a) = raw"
  using parse_ok by (simp add: extracted_ok_def)

lemma parse_vendor: "parse L now raw = Some (Ok a) \<Longrightarrow> pr_vendor_name (md_product (na_metadata a)) = vendor"
  using parse_ok by (simp add: extracted_ok_def)

end

end
