(* ===== verification/Parser_Definition.thy ===== *)
theory Parser_Definition
  imports Extractor_Common Rust_Float Drain_Masker
begin

text \<open>
  The dynamic parser definitions of \<open>ulpf-ai/src/onboarder.rs\<close>: the record, its YAML form and reader, the
  parser it stands for, the Rust code it generates, and the registry. The regex engine is third-party:
  \<open>ol_compile\<close> compiles a pattern, and a compiled pattern gives the named groups of its first match, their
  names, and where it matches; serde_json's reader and writer, \<open>regex::escape\<close> and the Unicode lower-case
  table are further fields. A pattern literal writes a tilde for the backslash.
\<close>

record parser_definition =
  pd_vendor :: string
  pd_device_model :: string
  pd_regex_pattern :: string
  pd_action_mappings :: "(string, string) hash_map"
  pd_sample_logs :: "string list"
  pd_confidence_score :: float_val
  pd_created_at :: int

record validation_report =
  vr_passed :: bool
  vr_total_samples :: nat
  vr_matched_samples :: nat
  vr_match_percentage :: rat
  vr_errors :: "string list"

datatype onboard_error =
    Json_Error
  | Missing_Regex_Pattern
  | Invalid_Regex string
  | No_Match string string
  | Not_Registered string
  | Too_Few_Samples nat
  | Empty_Samples
  | No_Key_Values
  | Validation_Failed validation_report

record compiled_regex =
  rx_captures :: "string \<Rightarrow> (string \<Rightarrow> string option) option"
  rx_names :: "string list"
  rx_find :: "string \<Rightarrow> nat option"

record onboarder_libs =
  ol_core :: parser_libs
  ol_compile :: "string \<Rightarrow> compiled_regex option"
  ol_escape :: "string \<Rightarrow> string"
  ol_lowercase :: "string \<Rightarrow> string"
  ol_json_show :: "parser_definition \<Rightarrow> string option"
  ol_json_read :: "string \<Rightarrow> parser_definition option"

definition to_json :: "onboarder_libs \<Rightarrow> parser_definition \<Rightarrow> (string, onboard_error) result" where
  "to_json L d = ok_or Json_Error (ol_json_show L d)"

definition from_json :: "onboarder_libs \<Rightarrow> string \<Rightarrow> (parser_definition, onboard_error) result" where
  "from_json L s = ok_or Json_Error (ol_json_read L s)"

subsection \<open>YAML\<close>

definition dquote :: char where "dquote = CHR 0x22"

definition quoted :: "string \<Rightarrow> string" where
  "quoted s = dquote # s @ [dquote]"

definition escape_backslashes :: "string \<Rightarrow> string" where
  "escape_backslashes s = replace_str [backslash] [backslash, backslash] s"

definition escape_quotes :: "string \<Rightarrow> string" where
  "escape_quotes s = replace_str [dquote] [backslash, dquote] s"

definition yaml_header :: "parser_definition \<Rightarrow> string list" where
  "yaml_header d =
     [''vendor: '' @ quoted (pd_vendor d),
      ''device_model: '' @ quoted (pd_device_model d),
      ''confidence_score: '' @ show_f64_2 (pd_confidence_score d),
      ''created_at: '' @ show_int (pd_created_at d),
      ''regex_pattern: '' @ quoted (escape_quotes (escape_backslashes (pd_regex_pattern d)))]"

definition yaml_action :: "string \<times> string \<Rightarrow> string" where
  "yaml_action = (\<lambda>(k, v). ''  '' @ k @ '': '' @ quoted v)"

definition yaml_sample :: "string \<Rightarrow> string" where
  "yaml_sample s = ''  - '' @ quoted (escape_quotes s)"

definition to_yaml :: "parser_definition \<Rightarrow> (string, onboard_error) result" where
  "to_yaml d =
     Ok (concat (map (\<lambda>line. line @ [newline])
       (yaml_header d @ [''action_mappings:''] @ map yaml_action (pd_action_mappings d) @
        [''sample_logs:''] @ map yaml_sample (pd_sample_logs d))))"

definition split_once :: "char \<Rightarrow> string \<Rightarrow> (string \<times> string) option" where
  "split_once c s = map_option (\<lambda>i. (take i s, drop (Suc i) s)) (find_idx (\<lambda>d. d = c) s)"

definition trim_quotes :: "string \<Rightarrow> string" where
  "trim_quotes s = trim_matches (\<lambda>c. c = dquote) s"

record yaml_state =
  ys_def :: parser_definition
  ys_in_actions :: bool
  ys_in_samples :: bool

definition yaml_property :: "int \<Rightarrow> string \<Rightarrow> string \<Rightarrow> parser_definition \<Rightarrow> parser_definition" where
  "yaml_property now key val d =
     (if key = ''vendor'' then d\<lparr>pd_vendor := val\<rparr>
      else if key = ''device_model'' then d\<lparr>pd_device_model := val\<rparr>
      else if key = ''confidence_score'' then d\<lparr>pd_confidence_score := unwrap_or (Finite 1) (parse_f64 val)\<rparr>
      else if key = ''created_at'' then d\<lparr>pd_created_at := unwrap_or now (parse_i64 val)\<rparr>
      else if key = ''regex_pattern'' then
        d\<lparr>pd_regex_pattern := replace_str [backslash, backslash] [backslash] val\<rparr>
      else d)"

text \<open>The end of the loop body: no section took the line, so it is a top-level property.\<close>

definition yaml_top :: "int \<Rightarrow> string \<Rightarrow> yaml_state \<Rightarrow> yaml_state" where
  "yaml_top now trimmed st =
     (case split_once (CHR '':'') trimmed of
        None \<Rightarrow> st
      | Some (k, v) \<Rightarrow> st\<lparr>ys_def := yaml_property now (trim k) (trim_quotes (trim v)) (ys_def st)\<rparr>)"

definition yaml_samples :: "int \<Rightarrow> string \<Rightarrow> string \<Rightarrow> yaml_state \<Rightarrow> yaml_state" where
  "yaml_samples now line trimmed st =
     (if ys_in_samples st then
        (case strip_prefix trimmed ''- '' of
           Some rest \<Rightarrow> st\<lparr>ys_def := (ys_def st)\<lparr>pd_sample_logs := pd_sample_logs (ys_def st) @ [trim_quotes rest]\<rparr>\<rparr>
         | None \<Rightarrow> yaml_top now trimmed
             (if starts_with line ''  '' then st else st\<lparr>ys_in_samples := False\<rparr>))
      else yaml_top now trimmed st)"

definition yaml_actions :: "int \<Rightarrow> string \<Rightarrow> string \<Rightarrow> yaml_state \<Rightarrow> yaml_state" where
  "yaml_actions now line trimmed st =
     (if ys_in_actions st then
        (case split_once (CHR '':'') trimmed of
           Some (k, v) \<Rightarrow> st\<lparr>ys_def := (ys_def st)\<lparr>pd_action_mappings :=
             hm_insert (trim k) (trim_quotes (trim v)) (pd_action_mappings (ys_def st))\<rparr>\<rparr>
         | None \<Rightarrow> yaml_samples now line trimmed
             (if starts_with line ''  '' then st else st\<lparr>ys_in_actions := False\<rparr>))
      else yaml_samples now line trimmed st)"

definition yaml_line :: "int \<Rightarrow> yaml_state \<Rightarrow> string \<Rightarrow> yaml_state" where
  "yaml_line now st line =
     (let trimmed = trim line in
      if trimmed = [] \<or> starts_with trimmed ''#'' then st
      else if trimmed = ''action_mappings:'' then st\<lparr>ys_in_actions := True, ys_in_samples := False\<rparr>
      else if trimmed = ''sample_logs:'' then st\<lparr>ys_in_samples := True, ys_in_actions := False\<rparr>
      else yaml_actions now line trimmed st)"

definition yaml_start :: "int \<Rightarrow> yaml_state" where
  "yaml_start now =
     \<lparr>ys_def = \<lparr>pd_vendor = ''Custom'', pd_device_model = ''Device'', pd_regex_pattern = [],
        pd_action_mappings = [], pd_sample_logs = [], pd_confidence_score = Finite 1, pd_created_at = now\<rparr>,
      ys_in_actions = False, ys_in_samples = False\<rparr>"

text \<open>\<open>now\<close> is the clock, read at the start and where a timestamp does not parse.\<close>

definition from_yaml :: "onboarder_libs \<Rightarrow> int \<Rightarrow> string \<Rightarrow> (parser_definition, onboard_error) result" where
  "from_yaml L now yaml =
     (case ol_json_read L yaml of
        Some d \<Rightarrow> Ok d
      | None \<Rightarrow>
          let d = ys_def (foldl (yaml_line now) (yaml_start now) (str_lines yaml))
          in if pd_regex_pattern d = [] then Err Missing_Regex_Pattern else Ok d)"

subsection \<open>Parsing a line with a definition\<close>

definition dyn_protocol_num_from_name :: "string \<Rightarrow> u8 option" where
  "dyn_protocol_num_from_name name =
     (let n = to_ascii_uppercase name in
      if n = ''ICMP'' then Some 1 else if n = ''IGMP'' then Some 2 else if n = ''TCP'' then Some 6
      else if n = ''UDP'' then Some 17 else if n = ''GRE'' then Some 47 else if n = ''ESP'' then Some 50
      else if n = ''AH'' then Some 51 else if n = ''ICMPV6'' \<or> n = ''ICMP6'' then Some 58
      else if n = ''OSPF'' then Some 89 else if n = ''SCTP'' then Some 132 else None)"

definition dyn_protocol_name_from_num :: "u8 \<Rightarrow> string" where
  "dyn_protocol_name_from_num num =
     unwrap_or ''UNKNOWN'' (map_of
       [(1, ''ICMP''), (2, ''IGMP''), (6, ''TCP''), (17, ''UDP''), (47, ''GRE''), (50, ''ESP''), (51, ''AH''),
        (58, ''ICMPv6''), (89, ''OSPF''), (132, ''SCTP'')] num)"

definition dyn_connection :: "string option \<Rightarrow> connection_info" where
  "dyn_connection protocol =
     (case protocol of
        None \<Rightarrow> connection_info_new None None None
      | Some m \<Rightarrow>
          let p_str = trim m in
          (case parse_u8 p_str of
             Some num \<Rightarrow> connection_info_new (Some num) (Some (dyn_protocol_name_from_num num)) None
           | None \<Rightarrow>
               let upper = to_ascii_uppercase p_str
               in connection_info_new (dyn_protocol_num_from_name upper) (Some upper) None))"

definition dyn_raw_action :: "(string \<Rightarrow> string option) \<Rightarrow> string" where
  "dyn_raw_action caps =
     unwrap_or ''unknown'' (map_option to_ascii_lowercase (or_else (caps ''action'') (caps ''action_verb'')))"

definition default_disposition :: "string \<Rightarrow> string" where
  "default_disposition raw_action =
     (if raw_action \<in> {''accept'', ''permit'', ''allow'', ''created'', ''passed'', ''pass''} then ALLOWED
      else if raw_action \<in> {''deny'', ''block'', ''reject'', ''denied'', ''blocked''} then BLOCKED
      else if raw_action \<in> {''drop'', ''dropped''} then DROPPED
      else if raw_action \<in> {''closed'', ''close'', ''teardown''} then ALLOWED
      else UNKNOWN)"

definition dyn_disposition :: "parser_definition \<Rightarrow> string \<Rightarrow> string" where
  "dyn_disposition d raw_action =
     unwrap_or (default_disposition raw_action) (map_of (pd_action_mappings d) raw_action)"

definition dyn_activity :: "string \<Rightarrow> string \<Rightarrow> u8" where
  "dyn_activity raw_action norm_disp =
     (if raw_action \<in> {''created'', ''start'', ''open''} then OPEN
      else if raw_action \<in> {''closed'', ''close'', ''teardown''} then CLOSE
      else if norm_disp = ALLOWED then TRAFFIC_FLOW else OTHER)"

definition mapped_groups :: "string list" where
  "mapped_groups = [''src_ip'', ''src_port'', ''dst_ip'', ''dst_port'', ''protocol'', ''action'',
     ''action_verb'', ''interface'', ''src_zone'', ''dst_zone'']"

definition dyn_unmapped :: "string list \<Rightarrow> (string \<Rightarrow> string option) \<Rightarrow> (string, string) hash_map" where
  "dyn_unmapped names caps =
     foldl (\<lambda>m name. if name \<notin> set mapped_groups
        then (case caps name of Some v \<Rightarrow> hm_insert name v m | None \<Rightarrow> m) else m) [] names"

definition dyn_event ::
  "onboarder_libs \<Rightarrow> int \<Rightarrow> string \<Rightarrow> parser_definition \<Rightarrow> compiled_regex \<Rightarrow> (string \<Rightarrow> string option) \<Rightarrow>
     string \<Rightarrow> network_activity" where
  "dyn_event L now_ms event_id d re caps raw =
     (let port = (\<lambda>name. Option.bind (caps name) parse_u16);
          raw_action = dyn_raw_action caps;
          norm_disp = dyn_disposition d raw_action;
          unmapped = dyn_unmapped (rx_names re) caps;
          event = network_activity_new (dyn_activity raw_action norm_disp) now_ms norm_disp
            (endpoint_new (caps ''src_ip'') (port ''src_port'') (caps ''interface'') (caps ''src_zone''))
            (endpoint_new (caps ''dst_ip'') (port ''dst_port'') None (caps ''dst_zone''))
            (dyn_connection (caps ''protocol'')) None
            (metadata_new (product_new (pd_vendor d) (pd_device_model d) None) raw
               (pl_hex (ol_core L) (pl_sha256 (ol_core L) (bytes_of raw))) event_id now_ms)
      in if unmapped \<noteq> [] then with_unmapped event unmapped else event)"

definition definition_parse ::
  "onboarder_libs \<Rightarrow> int \<Rightarrow> string \<Rightarrow> parser_definition \<Rightarrow> string \<Rightarrow> (network_activity, onboard_error) result" where
  "definition_parse L now_ms event_id d raw =
     res_bind (ok_or (Invalid_Regex (pd_regex_pattern d)) (ol_compile L (pd_regex_pattern d))) (\<lambda>re.
     res_bind (ok_or (No_Match (pd_vendor d) raw) (rx_captures re raw)) (\<lambda>caps.
       Ok (dyn_event L now_ms event_id d re caps raw)))"

subsection \<open>Generated code\<close>

function str_chars :: "string \<Rightarrow> string list" where
  "str_chars [] = []"
| "str_chars (c # cs) = take (utf8_width c) (c # cs) # str_chars (drop (utf8_width c) (c # cs))"
  by pat_completeness auto
termination by (relation "measure length") auto

definition sanitize_ident :: "onboarder_libs \<Rightarrow> string \<Rightarrow> string" where
  "sanitize_ident L s =
     concat (filter (is_alphanumeric_char (ol_core L)) (str_chars s))"

definition extractor_template :: string where
  "extractor_template = concat (map (\<lambda>line. line @ [newline])
     [''// Auto-generated 1-click OCSF 1.3 Extractor for __VENDOR__ __MODEL__'',
      ''// Generated by ULPF Air-Gapped AI Onboarder'',
      ''use ulpf_core::schema::ocsf::{'',
      ''    activity_id, disposition, ConnectionInfo, Endpoint, Metadata, NetworkActivity, Product,'',
      ''};'',
      ''use regex::Regex;'',
      ''use std::sync::OnceLock;'',
      ''use sha2::{Digest, Sha256};'',
      ''use uuid::Uuid;'',
      ''use chrono::Utc;'',
      '''',
      ''pub struct __VENDOR____MODEL__Extractor {'',
      ''    regex: OnceLock<Regex>,'',
      ''}'',
      '''',
      ''impl __VENDOR____MODEL__Extractor {'',
      ''    pub fn new() -> Self {'',
      ''        Self { regex: OnceLock::new() }'',
      ''    }'',
      '''',
      ''    pub fn parse(&self, raw: &str) -> anyhow::Result<NetworkActivity> {'',
      ''        let re = self.regex.get_or_init(|| {'',
      ''            Regex::new(r\"__PATTERN__\").expect(\"Invalid regex for __VENDOR__\")'',
      ''        });'',
      '''',
      ''        let caps = re.captures(raw).ok_or_else(|| anyhow::anyhow!(\"Log match failed\"))?;'',
      ''        let now_ms = Utc::now().timestamp_millis();'',
      ''        let raw_hash = hex::encode(Sha256::digest(raw.as_bytes()));'',
      ''        let event_id = Uuid::now_v7().to_string();'',
      '''',
      ''        let src_ip = caps.name(\"src_ip\").map(|m| m.as_str().to_string());'',
      ''        let dst_ip = caps.name(\"dst_ip\").map(|m| m.as_str().to_string());'',
      ''        let src_port = caps.name(\"src_port\").and_then(|m| m.as_str().parse::<u16>().ok());'',
      ''        let dst_port = caps.name(\"dst_port\").and_then(|m| m.as_str().parse::<u16>().ok());'',
      '''',
      ''        let src_endpoint = Endpoint::new(src_ip, src_port, None, None);'',
      ''        let dst_endpoint = Endpoint::new(dst_ip, dst_port, None, None);'',
      '''',
      ''        let proto_str = caps.name(\"protocol\").map(|m| m.as_str()).unwrap_or(\"TCP\");'',
      ''        let connection_info = ConnectionInfo::new(Some(6), Some(proto_str.to_string()), None);'',
      '''',
      ''        let product = Product::new(\"__VENDOR__\", \"__MODEL__\", None);'',
      ''        let metadata = Metadata::new(product, raw, raw_hash, event_id, now_ms);'',
      '''',
      ''        Ok(NetworkActivity::new('',
      ''            activity_id::TRAFFIC_FLOW,'',
      ''            now_ms,'',
      ''            disposition::ALLOWED,'',
      ''            src_endpoint,'',
      ''            dst_endpoint,'',
      ''            connection_info,'',
      ''            None,'',
      ''            metadata,'',
      ''        ))'',
      ''    }'',
      ''}''])"

definition generate_rust_code :: "onboarder_libs \<Rightarrow> parser_definition \<Rightarrow> string" where
  "generate_rust_code L d =
     replace_str ''__PATTERN__'' (pd_regex_pattern d)
       (replace_str ''__MODEL__'' (sanitize_ident L (pd_device_model d))
         (replace_str ''__VENDOR__'' (sanitize_ident L (pd_vendor d)) extractor_template))"

subsection \<open>The registry\<close>

type_synonym registry = "(string, parser_definition) hash_map"

definition registry_new :: registry where
  "registry_new = []"

definition register :: "onboarder_libs \<Rightarrow> parser_definition \<Rightarrow> registry \<Rightarrow> registry" where
  "register L d reg = hm_insert (ol_lowercase L (pd_vendor d)) d reg"

definition load_from_json ::
  "onboarder_libs \<Rightarrow> string \<Rightarrow> registry \<Rightarrow> (unit, onboard_error) result \<times> registry" where
  "load_from_json L s reg = (case from_json L s of Inl e \<Rightarrow> (Err e, reg) | Inr d \<Rightarrow> (Ok (), register L d reg))"

definition load_from_yaml ::
  "onboarder_libs \<Rightarrow> int \<Rightarrow> string \<Rightarrow> registry \<Rightarrow> (unit, onboard_error) result \<times> registry" where
  "load_from_yaml L now s reg =
     (case from_yaml L now s of Inl e \<Rightarrow> (Err e, reg) | Inr d \<Rightarrow> (Ok (), register L d reg))"

definition registry_parse ::
  "onboarder_libs \<Rightarrow> int \<Rightarrow> string \<Rightarrow> registry \<Rightarrow> string \<Rightarrow> string \<Rightarrow> (network_activity, onboard_error) result" where
  "registry_parse L now_ms event_id reg vendor raw =
     res_bind (ok_or (Not_Registered vendor) (map_of reg (ol_lowercase L vendor)))
       (\<lambda>parser. definition_parse L now_ms event_id parser raw)"

definition registry_len :: "registry \<Rightarrow> nat" where
  "registry_len reg = length reg"

definition registry_is_empty :: "registry \<Rightarrow> bool" where
  "registry_is_empty reg \<longleftrightarrow> reg = []"

end
