(* ===== verification/Onboarder.thy ===== *)
theory Onboarder
  imports Parser_Definition
begin

text \<open>
  The onboarder of \<open>ulpf-ai/src/onboarder.rs\<close>: it synthesizes a pattern from sample lines (directional flows,
  key-value pairs, or aligned tokens), and keeps the definition only when the sandbox validation accepts every sample.
  An \<open>unwrap\<close> of a literal pattern and an index out of range are the panic \<open>None\<close>.
\<close>

subsection \<open>Sandbox validation\<close>

text \<open>\<open>Ipv4Addr::from_str\<close>: four decimal octets without leading zeros.\<close>

definition parse_octet :: "string \<Rightarrow> u8 option" where
  "parse_octet s =
     (if length s \<le> 3 \<and> (take 1 s = ''0'' \<longrightarrow> length s = 1) then
        Option.bind (parse_digits s) (\<lambda>n. if n < 256 then Some (of_nat n) else None)
      else None)"

definition parse_ipv4 :: "string \<Rightarrow> u8 list option" where
  "parse_ipv4 s =
     (let parts = split_char (\<lambda>c. c = CHR ''.'') s
      in if length parts = 4 then map_opt parse_octet parts else None)"

datatype verdict = Blank | Matched | Failed string

definition sample_error :: "nat \<Rightarrow> string \<Rightarrow> string \<Rightarrow> verdict" where
  "sample_error idx msg arg = Failed (''Sample #'' @ show_nat (idx + 1) @ msg @ CHR 0x27 # arg @ [CHR 0x27])"

definition check_ip :: "nat \<Rightarrow> string \<Rightarrow> (string \<Rightarrow> string option) \<Rightarrow> verdict" where
  "check_ip idx grp caps =
     (case caps grp of
        None \<Rightarrow> sample_error idx '': missing required capture group '' grp
      | Some ip \<Rightarrow>
          if parse_ipv4 ip = None then sample_error idx ('': invalid IPv4 for '' @ grp @ '': '') ip else Matched)"

definition check_port :: "nat \<Rightarrow> string \<Rightarrow> (string \<Rightarrow> string option) \<Rightarrow> verdict" where
  "check_port idx grp caps =
     (case caps grp of
        None \<Rightarrow> Matched
      | Some p \<Rightarrow>
          if parse_u16 p = None then sample_error idx ('': invalid port for '' @ grp @ '': '') p else Matched)"

text \<open>The first check that does not pass decides; \<open>continue\<close> leaves the sample.\<close>

fun first_failure :: "verdict list \<Rightarrow> verdict" where
  "first_failure [] = Matched"
| "first_failure (v # vs) = (case v of Matched \<Rightarrow> first_failure vs | _ \<Rightarrow> v)"

definition check_sample :: "compiled_regex \<Rightarrow> nat \<times> string \<Rightarrow> verdict" where
  "check_sample re = (\<lambda>(idx, sample).
     let line = trim sample in
     if line = [] then Blank
     else case rx_captures re line of
       None \<Rightarrow> sample_error idx '' did not match regex pattern: '' line
     | Some caps \<Rightarrow>
         first_failure [check_ip idx ''src_ip'' caps, check_ip idx ''dst_ip'' caps,
           check_port idx ''src_port'' caps, check_port idx ''dst_port'' caps])"

definition verdict_errors :: "verdict list \<Rightarrow> string list" where
  "verdict_errors vs = concat (map (\<lambda>v. case v of Failed e \<Rightarrow> [e] | _ \<Rightarrow> []) vs)"

definition report_of :: "verdict list \<Rightarrow> validation_report" where
  "report_of vs =
     (let matched = length (filter (\<lambda>v. v = Matched) vs);
          errors = verdict_errors vs;
          total = length vs
      in \<lparr>vr_passed = (matched = total \<and> errors = []), vr_total_samples = total, vr_matched_samples = matched,
          vr_match_percentage = (if 0 < total then of_nat matched / of_nat total * 100 else 0),
          vr_errors = errors\<rparr>)"

definition validate_parser ::
  "onboarder_libs \<Rightarrow> parser_definition \<Rightarrow> string list \<Rightarrow> (validation_report, onboard_error) result" where
  "validate_parser L parser samples =
     res_bind (ok_or (Invalid_Regex (pd_regex_pattern parser)) (ol_compile L (pd_regex_pattern parser)))
       (\<lambda>re. Ok (report_of (map (check_sample re) (enumerate 0 samples))))"

subsection \<open>Patterns\<close>

definition matches :: "compiled_regex \<Rightarrow> string \<Rightarrow> bool" where
  "matches re s \<longleftrightarrow> rx_find re s \<noteq> None"

definition re_flow_slash :: string where
  "re_flow_slash = regex ''((?:~d{1,3}~.){3}~d{1,3})/(~d{1,5})->((?:~d{1,3}~.){3}~d{1,3})/(~d{1,5})''"

definition re_flow_colon :: string where
  "re_flow_colon =
     regex ''((?:~d{1,3}~.){3}~d{1,3}):(~d{1,5})~s*->~s*((?:~d{1,3}~.){3}~d{1,3}):(~d{1,5})''"

definition rt_flow_pattern :: string where
  "rt_flow_pattern = regex (''^RT_FLOW:~s+(?P<event_type>~S+)~s+session~s+(?P<action_verb>~w+)(?:.*?)~s+'' @
     ''(?P<src_ip>(?:~d{1,3}~.){3}~d{1,3})/(?P<src_port>~d{1,5})->(?P<dst_ip>(?:~d{1,3}~.){3}~d{1,3})/'' @
     ''(?P<dst_port>~d{1,5})~s+~S+~s+~S+~s+(?P<protocol>~d+)~s+(?P<policy>~S+)~s+(?P<src_zone>~S+)~s+'' @
     ''(?P<dst_zone>~S+)(?:.*)$'')"

definition slash_pattern :: string where
  "slash_pattern = regex (''^.*?(?P<src_ip>(?:~d{1,3}~.){3}~d{1,3})/(?P<src_port>~d{1,5})->'' @
     ''(?P<dst_ip>(?:~d{1,3}~.){3}~d{1,3})/(?P<dst_port>~d{1,5})(?:.*?proto[=:~s]+(?P<protocol>~S+))?'' @
     ''(?:.*?action[=:~s]+(?P<action>~w+))?.*$'')"

definition colon_pattern :: string where
  "colon_pattern = regex (''^(?:(?P<timestamp>~d{4}-~d{2}-~d{2}~s+~d{2}:~d{2}:~d{2})~s+)?(?P<device>~S+)~s+'' @
     ''(?P<action>[a-zA-Z]+)~s+(?P<src_ip>(?:~d{1,3}~.){3}~d{1,3}):(?P<src_port>~d{1,5})~s*->~s*'' @
     ''(?P<dst_ip>(?:~d{1,3}~.){3}~d{1,3}):(?P<dst_port>~d{1,5})(?:.*?proto~s+(?P<protocol>[a-zA-Z0-9]+))?(?:.*)$'')"

subsection \<open>Positional patterns\<close>

definition column_patterns :: "string list" where
  "column_patterns = map regex
     [''^((?:~d{1,3}~.){3}~d{1,3})[:/](~d{1,5})$'', ''^(?:~d{1,3}~.){3}~d{1,3}$'', ''^~d{1,5}$'',
      ''^(?i)(TCP|UDP|ICMP|GRE|ESP|AH|IGMP|SCTP)$'',
      ''^(?i)(accept|deny|drop|permit|block|reject|pass|allow)$'',
      ''^~d{4}[-/]~d{2}[-/]~d{2}(?:[T~s]~d{2}:~d{2}:~d{2})?$'']"

record column_regexes =
  co_ip_port :: compiled_regex
  co_ip :: compiled_regex
  co_port :: compiled_regex
  co_proto :: compiled_regex
  co_action :: compiled_regex
  co_timestamp :: compiled_regex

definition compile_columns :: "onboarder_libs \<Rightarrow> column_regexes option" where
  "compile_columns L =
     (case map_opt (ol_compile L) column_patterns of
        Some [a, b, c, d, e, f] \<Rightarrow>
          Some \<lparr>co_ip_port = a, co_ip = b, co_port = c, co_proto = d, co_action = e, co_timestamp = f\<rparr>
      | _ \<Rightarrow> None)"

definition ip_group :: "string \<Rightarrow> string" where
  "ip_group name = regex (''(?P<'' @ name @ ''>(?:~d{1,3}~.){3}~d{1,3})'')"

definition port_group :: "string \<Rightarrow> string" where
  "port_group name = regex (''(?P<'' @ name @ ''>~d{1,5})'')"

text \<open>One column: its part of the pattern, and the numbers of address and port columns seen.\<close>

definition column_part ::
  "onboarder_libs \<Rightarrow> column_regexes \<Rightarrow> nat \<times> nat \<Rightarrow> string list \<Rightarrow> string \<times> nat \<times> nat" where
  "column_part L co = (\<lambda>(ip_count, port_count) col.
     let ip_name = (if ip_count = 0 then ''src_ip'' else ''dst_ip'') in
     if list_all (\<lambda>t. t = hd col) col then (ol_escape L (hd col), ip_count, port_count)
     else if list_all (matches (co_ip_port co)) col then
       let delimiter = (if contains (hd col) '':'' then '':'' else ''/'') in
       (ip_group ip_name @ delimiter @ port_group (if ip_count = 0 then ''src_port'' else ''dst_port''),
        ip_count + 1, port_count + 1)
     else if list_all (matches (co_ip co)) col then (ip_group ip_name, ip_count + 1, port_count)
     else if list_all (matches (co_port co)) col then
       (port_group (if port_count = 0 then ''src_port'' else ''dst_port''), ip_count, port_count + 1)
     else if list_all (matches (co_proto co)) col then (''(?P<protocol>[a-zA-Z0-9]+)'', ip_count, port_count)
     else if list_all (matches (co_action co)) col then (''(?P<action>[a-zA-Z]+)'', ip_count, port_count)
     else if list_all (matches (co_timestamp co)) col then (regex ''(?P<timestamp>~S+)'', ip_count, port_count)
     else (regex ''(?:~S+)'', ip_count, port_count))"

fun column_parts :: "onboarder_libs \<Rightarrow> column_regexes \<Rightarrow> nat \<times> nat \<Rightarrow> string list list \<Rightarrow> string list" where
  "column_parts L co counts [] = []"
| "column_parts L co counts (col # cols) =
     (let (part, counts') = column_part L co counts col in part # column_parts L co counts' cols)"

definition columns :: "string list list \<Rightarrow> string list list" where
  "columns split_lines =
     (let min_len = (if split_lines = [] then 0 else Min (length ` set split_lines))
      in map (\<lambda>i. map (\<lambda>l. l ! i) split_lines) [0..<min_len])"

definition synthesize_positional_regex :: "onboarder_libs \<Rightarrow> string list \<Rightarrow> (string, onboard_error) comp" where
  "synthesize_positional_regex L samples = do {
     co \<leftarrow> compile_columns L;
     let cols = columns (map split_whitespace samples) in
     if cols = [] then Some (Err Empty_Samples)
     else Some (Ok (''^'' @ join (regex ''~s+'') (column_parts L co (0, 0) cols) @ ''(?:.*)$''))
   }"

subsection \<open>Flow and key-value patterns\<close>

definition synthesize_flow_regex :: "onboarder_libs \<Rightarrow> string list \<Rightarrow> (string, onboard_error) comp" where
  "synthesize_flow_regex L samples = do {
     slash \<leftarrow> ol_compile L re_flow_slash;
     colon \<leftarrow> ol_compile L re_flow_colon;
     first \<leftarrow> nth_opt samples 0;
     if matches slash first then
       Some (Ok (if starts_with first ''RT_FLOW'' then rt_flow_pattern else slash_pattern))
     else if matches colon first then Some (Ok colon_pattern)
     else synthesize_positional_regex L samples
   }"

definition key_patterns :: "(string \<times> string) list" where
  "key_patterns = map (\<lambda>(p, c). (regex p, regex c))
     [(''~b(?:action|act)='', ''(?:action|act)=(?P<action>[a-zA-Z]+)''),
      (''~b(?:src|srcip|saddr)='', ''(?:src|srcip|saddr)=(?P<src_ip>(?:~d{1,3}~.){3}~d{1,3})''),
      (''~b(?:sport|srcport)='', ''(?:sport|srcport)=(?P<src_port>~d{1,5})''),
      (''~b(?:dst|dstip|daddr)='', ''(?:dst|dstip|daddr)=(?P<dst_ip>(?:~d{1,3}~.){3}~d{1,3})''),
      (''~b(?:dport|dstport)='', ''(?:dport|dstport)=(?P<dst_port>~d{1,5})''),
      (''~b(?:proto|protocol)='', ''(?:proto|protocol)=(?P<protocol>[a-zA-Z0-9]+)'')]"

definition synthesize_kv_regex :: "onboarder_libs \<Rightarrow> string list \<Rightarrow> (string, onboard_error) comp" where
  "synthesize_kv_regex L samples = do {
     first \<leftarrow> nth_opt samples 0;
     keys \<leftarrow> map_opt (\<lambda>(p, c). map_option (\<lambda>re. (re, c)) (ol_compile L p)) key_patterns;
     let found = concat (map (\<lambda>(re, c). case rx_find re first of Some i \<Rightarrow> [(i, c)] | None \<Rightarrow> []) keys);
         ordered = sort_key fst found
     in if ordered = [] then Some (Err No_Key_Values)
        else Some (Ok (''^'' @ concat (map (\<lambda>(i, pat). regex ''.*?~b'' @ pat) ordered) @ ''.*$''))
   }"

definition synthesize_regex :: "onboarder_libs \<Rightarrow> string list \<Rightarrow> (string, onboard_error) comp" where
  "synthesize_regex L samples = do {
     first \<leftarrow> nth_opt samples 0;
     if contains first ''->'' \<or> contains first ''session created'' \<or> contains first ''session denied''
     then synthesize_flow_regex L samples
     else if contains first ''src='' \<or> contains first ''srcip='' \<or> contains first ''saddr=''
     then synthesize_kv_regex L samples
     else synthesize_positional_regex L samples
   }"

subsection \<open>Onboarding\<close>

definition infer_action_mappings :: "(string, string) hash_map" where
  "infer_action_mappings = foldl (\<lambda>m (k, v). hm_insert k v m) []
     [(''created'', ALLOWED), (''closed'', ALLOWED), (''accept'', ALLOWED), (''permit'', ALLOWED),
      (''allow'', ALLOWED), (''passed'', ALLOWED), (''pass'', ALLOWED), (''deny'', BLOCKED), (''denied'', BLOCKED),
      (''block'', BLOCKED), (''blocked'', BLOCKED), (''reject'', BLOCKED), (''drop'', DROPPED),
      (''dropped'', DROPPED)]"

definition generate_parser ::
  "onboarder_libs \<Rightarrow> int \<Rightarrow> string \<Rightarrow> string \<Rightarrow> string list \<Rightarrow>
     (parser_definition \<times> validation_report, onboard_error) comp" where
  "generate_parser L now vendor device_model samples =
     (if length samples < 3 then Some (Err (Too_Few_Samples (length samples)))
      else try_bind (synthesize_regex L samples) (\<lambda>pattern.
        let parser_def = \<lparr>pd_vendor = vendor, pd_device_model = device_model, pd_regex_pattern = pattern,
              pd_action_mappings = infer_action_mappings, pd_sample_logs = samples,
              pd_confidence_score = Finite 1, pd_created_at = now\<rparr>
        in try_bind (Some (validate_parser L parser_def samples)) (\<lambda>report.
          if \<not> vr_passed report then Some (Err (Validation_Failed report))
          else Some (Ok (parser_def, report)))))"

end
