(* ===== verification/Lru_Cache.thy ===== *)
theory Lru_Cache
  imports Classifier Complex_Main
begin

unbundle bit_operations_syntax

text \<open>
  The Tier-1 signature cache of \<open>ulpf-core/src/parser/lru_cache.rs\<close>: the FxHash-style hasher, the
  structural signature of a raw line, a shard (a bounded map with its insertion order) and the sharded cache with its
  counters. Locks are taken for one operation at a time, so an operation is a function of the cache. The locale
  \<open>route_cache\<close> is what a client may rely on: a lookup never returns a format that was not the last one
  inserted for that key.
\<close>

subsection \<open>The hasher and the signature\<close>

definition fx_step :: "u64 \<Rightarrow> u8 \<Rightarrow> u64" where
  "fx_step h b = (word_rotl 5 h XOR ucast b) * 0x517cc1b727220a95"

definition fx_write :: "u64 \<Rightarrow> u8 list \<Rightarrow> u64" where
  "fx_write h bytes = foldl fx_step h bytes"

definition token_sep_len :: "string \<Rightarrow> nat" where
  "token_sep_len s =
     (case s of [] \<Rightarrow> 0 | c # cs \<Rightarrow> if c = CHR '','' \<or> c = CHR '':'' then 1 else ws_len s)"

definition signature_tokens :: "string \<Rightarrow> string list" where
  "signature_tokens window =
     take 3 (filter (\<lambda>t. t \<noteq> [] \<and> \<not> list_all is_ascii_digit t) (split_len token_sep_len window))"

text \<open>The hash of the inspected window: the ASA tag, a vendor anchor, or the first three tokens.\<close>

definition anchor_signature :: "string \<Rightarrow> u64" where
  "anchor_signature window =
     (if contains window ''devname='' \<or> contains window ''type=\"traffic\"'' \<or> contains window ''logid=''
      then fx_write 0 (bytes_of ''fortigate_traffic'')
      else if contains window ''filterlog['' \<or> contains window ''filterlog:''
      then fx_write 0 (bytes_of ''pfsense_filterlog'')
      else if starts_with window ''{'' \<or> contains window ''\"event_type\"''
      then fx_write 0 (bytes_of ''suricata_eve_json'')
      else if contains window '',TRAFFIC,'' \<or> contains window '',THREAT,''
      then fx_write 0 (bytes_of ''paloalto_panos_csv'')
      else foldl (\<lambda>h t. fx_write h (bytes_of t)) 0 (signature_tokens window))"

definition window_signature :: "string \<Rightarrow> u64 option" where
  "window_signature window =
     (case find_str window ''%ASA-'' of
        Some pos \<Rightarrow>
          map_option (\<lambda>tag. fx_write 0 (bytes_of tag)) (slice window pos (min (length window) (pos + 16)))
      | None \<Rightarrow> Some (anchor_signature window))"

definition compute_signature_hash :: "string \<Rightarrow> u64 option" where
  "compute_signature_hash raw =
     (if raw = [] then Some 0
      else do {
        window \<leftarrow> slice_to raw (min (length raw) 96);
        window_signature window
      })"

subsection \<open>A shard\<close>

record shard =
  sh_capacity :: nat
  sh_entries :: "(u64, vendor_format) hash_map"
  sh_order :: "u64 list"

definition shard_new :: "nat \<Rightarrow> shard" where
  "shard_new capacity = \<lparr>sh_capacity = capacity, sh_entries = [], sh_order = []\<rparr>"

definition shard_get :: "shard \<Rightarrow> u64 \<Rightarrow> vendor_format option" where
  "shard_get s key = map_of (sh_entries s) key"

definition shard_insert :: "u64 \<Rightarrow> vendor_format \<Rightarrow> shard \<Rightarrow> bool \<times> shard" where
  "shard_insert key format s =
     (if map_of (sh_entries s) key \<noteq> None
      then (False, s\<lparr>sh_entries := hm_insert key format (sh_entries s)\<rparr>)
      else
        let (evicted, s1) =
          (if sh_capacity s \<le> length (sh_entries s) then
             (case sh_order s of
                oldest # rest \<Rightarrow>
                  (True, s\<lparr>sh_entries := hm_remove oldest (sh_entries s), sh_order := rest\<rparr>)
              | [] \<Rightarrow> (False, s))
           else (False, s))
        in (evicted, s1\<lparr>sh_entries := hm_insert key format (sh_entries s1),
                        sh_order := sh_order s1 @ [key]\<rparr>))"

definition shard_len :: "shard \<Rightarrow> nat" where
  "shard_len s = length (sh_entries s)"

definition shard_ok :: "shard \<Rightarrow> bool" where
  "shard_ok s \<longleftrightarrow> hm_ok (sh_entries s) \<and> distinct (sh_order s) \<and>
     set (sh_order s) = fst ` set (sh_entries s) \<and> shard_len s \<le> max 1 (sh_capacity s)"

subsection \<open>The sharded cache\<close>

record lru_stats =
  ls_hits :: u64
  ls_misses :: u64
  ls_evictions :: u64
  ls_hit_ratio :: rat
  ls_total_lookups :: u64
  ls_entries_count :: nat

record signature_cache =
  lc_shards :: "shard list"
  lc_shard_mask :: u64
  lc_hits :: u64
  lc_misses :: u64
  lc_evictions :: u64

definition is_power_of_two :: "nat \<Rightarrow> bool" where
  "is_power_of_two n \<longleftrightarrow> n \<noteq> 0 \<and> n AND (n - 1) = 0"

definition cache_with_capacity :: "nat \<Rightarrow> nat \<Rightarrow> signature_cache option" where
  "cache_with_capacity num_shards capacity_per_shard =
     (if is_power_of_two num_shards
      then Some \<lparr>lc_shards = replicate num_shards (shard_new capacity_per_shard),
                 lc_shard_mask = of_nat (num_shards - 1), lc_hits = 0, lc_misses = 0, lc_evictions = 0\<rparr>
      else None)"

definition cache_new :: "signature_cache option" where
  "cache_new = cache_with_capacity 16 512"

definition shard_idx :: "signature_cache \<Rightarrow> u64 \<Rightarrow> nat" where
  "shard_idx c signature = unat (signature AND lc_shard_mask c)"

definition cache_get :: "u64 \<Rightarrow> signature_cache \<Rightarrow> (vendor_format option \<times> signature_cache) option" where
  "cache_get signature c = do {
     shard \<leftarrow> nth_opt (lc_shards c) (shard_idx c signature);
     Some (case shard_get shard signature of
         Some format \<Rightarrow> (Some format, c\<lparr>lc_hits := lc_hits c + 1\<rparr>)
       | None \<Rightarrow> (None, c\<lparr>lc_misses := lc_misses c + 1\<rparr>))
   }"

definition cache_insert :: "u64 \<Rightarrow> vendor_format \<Rightarrow> signature_cache \<Rightarrow> signature_cache option" where
  "cache_insert signature format c = do {
     shard \<leftarrow> nth_opt (lc_shards c) (shard_idx c signature);
     let (evicted, shard') = shard_insert signature format shard;
         c1 = c\<lparr>lc_shards := (lc_shards c)[shard_idx c signature := shard']\<rparr>
     in Some (if evicted then c1\<lparr>lc_evictions := lc_evictions c1 + 1\<rparr> else c1)
   }"

definition cache_stats :: "signature_cache \<Rightarrow> lru_stats" where
  "cache_stats c =
     (let total = lc_hits c + lc_misses c in
      \<lparr>ls_hits = lc_hits c, ls_misses = lc_misses c, ls_evictions = lc_evictions c,
       ls_hit_ratio = (if 0 < total then of_nat (unat (lc_hits c)) / of_nat (unat total) else 0),
       ls_total_lookups = total,
       ls_entries_count = sum_list (map shard_len (lc_shards c))\<rparr>)"

definition cache_reset_stats :: "signature_cache \<Rightarrow> signature_cache" where
  "cache_reset_stats c = c\<lparr>lc_hits := 0, lc_misses := 0, lc_evictions := 0\<rparr>"

definition cache_ok :: "signature_cache \<Rightarrow> bool" where
  "cache_ok c \<longleftrightarrow> length (lc_shards c) = Suc (unat (lc_shard_mask c)) \<and>
     (\<forall>s \<in> set (lc_shards c). shard_ok s)"

text \<open>What the cache holds for a key, without touching the counters.\<close>

definition cache_peek :: "signature_cache \<Rightarrow> u64 \<Rightarrow> vendor_format option" where
  "cache_peek c signature = shard_get (lc_shards c ! shard_idx c signature) signature"

subsection \<open>The contract\<close>

locale route_cache =
  fixes ok :: "'c \<Rightarrow> bool"
    and put :: "'k \<Rightarrow> 'v \<Rightarrow> 'c \<Rightarrow> 'c"
    and peek :: "'c \<Rightarrow> 'k \<Rightarrow> 'v option"
  assumes put_ok: "ok c \<Longrightarrow> ok (put k v c)"
    and peek_put: "ok c \<Longrightarrow> peek (put k v c) k = Some v"
    and peek_put_other: "ok c \<Longrightarrow> l \<noteq> k \<Longrightarrow> peek (put k v c) l = Some w \<Longrightarrow> peek c l = Some w"
begin

lemma puts_ok: "ok c \<Longrightarrow> ok (fold (\<lambda>(k, v). put k v) kvs c)"
  by (induction kvs arbitrary: c) (auto simp: put_ok)

lemma peek_history:
  "ok c \<Longrightarrow> peek (fold (\<lambda>(k, v). put k v) kvs c) l = Some w \<Longrightarrow>
     map_of (rev kvs) l = Some w \<or> (map_of (rev kvs) l = None \<and> peek c l = Some w)"
proof (induction kvs arbitrary: c)
  case (Cons kv kvs)
  obtain k v where kv: "kv = (k, v)" by force
  from Cons.IH [of "put k v c"] Cons.prems kv put_ok [of c k v] peek_put [of c k v] peek_put_other [of c l k v w]
  show ?case by (auto simp: map_add_def split: option.splits)
qed simp

lemma peek_invariant:
  assumes "\<And>l w. peek c l = Some w \<Longrightarrow> P l w" "ok c" "P k v" "peek (put k v c) l = Some w"
  shows "P l w"
  using assms peek_put peek_put_other by (metis option.inject)

end

subsection \<open>A shard is a route cache\<close>

lemma shard_new_ok [simp]: "shard_ok (shard_new n)"
  by (simp add: shard_ok_def shard_new_def shard_len_def)

lemma order_length: "shard_ok s \<Longrightarrow> length (sh_order s) = length (sh_entries s)"
  by (metis distinct_card hm_ok_def length_map list.set_map shard_ok_def)

lemma shard_insert_ok:
  assumes "shard_ok s" shows "shard_ok (snd (shard_insert k v s))"
proof (cases "map_of (sh_entries s) k")
  case (Some w)
  then have "k \<in> fst ` set (sh_entries s)" by (metis map_of_eq_None_keys option.distinct(1))
  then show ?thesis using assms Some
    by (auto simp: shard_ok_def shard_insert_def keys_hm_insert length_hm_insert shard_len_def)
next
  case None
  then have k: "k \<notin> fst ` set (sh_entries s)" by (simp add: map_of_eq_None_keys)
  show ?thesis
  proof (cases "sh_capacity s \<le> length (sh_entries s)")
    case False
    then show ?thesis using assms None k
      by (auto simp: shard_ok_def shard_insert_def keys_hm_insert length_hm_insert shard_len_def)
  next
    case full: True
    show ?thesis
    proof (cases "sh_order s")
      case Nil
      then have "sh_entries s = []" using order_length [OF assms] by simp
      then show ?thesis using Nil None full
        by (simp add: shard_insert_def shard_ok_def shard_len_def hm_ok_def)
    next
      case (Cons x xs)
      then have x: "x \<in> fst ` set (sh_entries s)" "x \<notin> set xs" "set xs = fst ` set (sh_entries s) - {x}"
        using assms by (auto simp: shard_ok_def)
      have "Suc (length (hm_remove x (sh_entries s))) = length (sh_entries s)"
        using assms x by (intro length_hm_remove) (auto simp: shard_ok_def)
      then show ?thesis using assms None full Cons x k
        by (auto simp: shard_ok_def shard_insert_def keys_hm_insert length_hm_insert keys_hm_remove
            shard_len_def)
    qed
  qed
qed

lemma shard_insert_get: "shard_get (snd (shard_insert k v s)) k = Some v"
  by (auto simp: shard_insert_def shard_get_def Let_def split: list.splits)

lemma shard_insert_get_other:
  "l \<noteq> k \<Longrightarrow> shard_get (snd (shard_insert k v s)) l = Some w \<Longrightarrow> shard_get s l = Some w"
  by (auto simp: shard_insert_def shard_get_def Let_def split: list.splits if_splits)

lemma shard_insert_keeps_others:
  "shard_insert k v s = (False, s') \<Longrightarrow> l \<noteq> k \<Longrightarrow> shard_get s' l = shard_get s l"
  by (auto simp: shard_insert_def shard_get_def Let_def split: list.splits if_splits)

interpretation shard: route_cache shard_ok "\<lambda>k v s. snd (shard_insert k v s)" shard_get
  by unfold_locales (auto simp: shard_insert_ok shard_insert_get dest: shard_insert_get_other)

subsection \<open>The sharded cache is a route cache\<close>

lemma shard_idx_less:
  assumes "cache_ok c" shows "shard_idx c k < length (lc_shards c)"
proof -
  have "k AND lc_shard_mask c \<le> lc_shard_mask c" by (rule word_and_le1)
  then show ?thesis using assms by (simp add: cache_ok_def shard_idx_def word_le_nat_alt less_Suc_eq_le)
qed

lemma cache_get_eq:
  "cache_ok c \<Longrightarrow> cache_get k c = Some (cache_peek c k,
     (if cache_peek c k = None then c\<lparr>lc_misses := lc_misses c + 1\<rparr> else c\<lparr>lc_hits := lc_hits c + 1\<rparr>))"
  using shard_idx_less [of c k] by (auto simp: cache_get_def cache_peek_def split: option.splits)

lemma cache_insert_eq:
  assumes "cache_ok c"
  obtains b s' where "shard_insert k v (lc_shards c ! shard_idx c k) = (b, s')"
    "cache_insert k v c = Some (c\<lparr>lc_shards := (lc_shards c)[shard_idx c k := s'],
       lc_evictions := (if b then lc_evictions c + 1 else lc_evictions c)\<rparr>)"
proof -
  obtain b s' where "shard_insert k v (lc_shards c ! shard_idx c k) = (b, s')" by force
  then show thesis using that [of b s'] shard_idx_less [OF assms, of k]
    by (auto simp: cache_insert_def Let_def)
qed

lemma shard_nth_ok: "cache_ok c \<Longrightarrow> i < length (lc_shards c) \<Longrightarrow> shard_ok (lc_shards c ! i)"
  by (simp add: cache_ok_def)

lemma cache_insert_props:
  assumes ok: "cache_ok c"
  obtains c' where "cache_insert k v c = Some c'" "cache_ok c'" "cache_peek c' k = Some v"
    "\<And>l w. l \<noteq> k \<Longrightarrow> cache_peek c' l = Some w \<Longrightarrow> cache_peek c l = Some w"
    "length (lc_shards c') = length (lc_shards c)" "lc_hits c' = lc_hits c" "lc_misses c' = lc_misses c"
    "map sh_capacity (lc_shards c') = map sh_capacity (lc_shards c)"
proof -
  let ?i = "shard_idx c k"
  obtain b s' where s': "shard_insert k v (lc_shards c ! ?i) = (b, s')"
    "cache_insert k v c = Some (c\<lparr>lc_shards := (lc_shards c)[?i := s'],
       lc_evictions := (if b then lc_evictions c + 1 else lc_evictions c)\<rparr>)" (is "_ = Some ?c'")
    using cache_insert_eq [OF ok] by metis
  have i: "?i < length (lc_shards c)" by (rule shard_idx_less [OF ok])
  have sok: "shard_ok s'" using shard_insert_ok [OF shard_nth_ok [OF ok i], of k v] s'(1) by simp
  have idx: "shard_idx ?c' l = shard_idx c l" for l by (simp add: shard_idx_def)
  have cap: "sh_capacity s' = sh_capacity (lc_shards c ! ?i)"
    using s'(1) by (auto simp: shard_insert_def Let_def split: if_splits list.splits)
  show thesis
  proof (rule that [OF s'(2)])
    show "cache_ok ?c'" using ok sok by (auto simp: cache_ok_def dest: set_update_subset_insert [THEN subsetD])
    show "cache_peek ?c' k = Some v"
      using shard_insert_get [of k v "lc_shards c ! ?i"] s'(1) i by (simp add: cache_peek_def idx)
    show "l \<noteq> k \<Longrightarrow> cache_peek ?c' l = Some w \<Longrightarrow> cache_peek c l = Some w" for l w
      using shard_insert_get_other [of l k v "lc_shards c ! ?i" w] s'(1) i
      by (cases "shard_idx c l = ?i") (auto simp: cache_peek_def idx)
    show "map sh_capacity (lc_shards ?c') = map sh_capacity (lc_shards c)"
      using i cap by (simp add: map_update list_update_same_conv)
  qed simp_all
qed

definition cache_put :: "u64 \<Rightarrow> vendor_format \<Rightarrow> signature_cache \<Rightarrow> signature_cache" where
  "cache_put k v c = the (cache_insert k v c)"

interpretation cache: route_cache cache_ok cache_put cache_peek
proof unfold_locales
  fix c k v
  assume "cache_ok c"
  then show "cache_ok (cache_put k v c)" "cache_peek (cache_put k v c) k = Some v"
    by (metis cache_insert_props cache_put_def option.sel)+
next
  fix c l k v w
  assume "cache_ok c" "l \<noteq> k" "cache_peek (cache_put k v c) l = Some w"
  then show "cache_peek c l = Some w" by (metis cache_insert_props cache_put_def option.sel)
qed

lemma power_of_two_mask: "is_power_of_two n \<Longrightarrow> 0 < n"
  by (simp add: is_power_of_two_def)

lemma cache_with_capacity_ok:
  assumes "cache_with_capacity n cap = Some c" "n < 2 ^ 64"
  shows "cache_ok c \<and> length (lc_shards c) = n \<and> (\<forall>k. cache_peek c k = None) \<and>
    map sh_capacity (lc_shards c) = replicate n cap"
proof -
  have n: "0 < n" "c = \<lparr>lc_shards = replicate n (shard_new cap),
                 lc_shard_mask = of_nat (n - 1), lc_hits = 0, lc_misses = 0, lc_evictions = 0\<rparr>"
    using assms by (auto simp: cache_with_capacity_def power_of_two_mask split: if_splits)
  have "unat (of_nat (n - 1) :: u64) = n - 1"
    unfolding unat_of_nat using assms(2) n(1) by (simp del: of_nat_diff)
  then have ok: "cache_ok c" using n by (simp add: cache_ok_def)
  then have "cache_peek c k = None" for k
    using shard_idx_less [OF ok, of k] n by (simp add: cache_peek_def shard_get_def shard_new_def)
  then show ?thesis using ok n by (simp add: shard_new_def)
qed

lemma cache_puts_shape:
  "cache_ok c \<Longrightarrow> length (lc_shards (fold (\<lambda>(k, v). cache_put k v) kvs c)) = length (lc_shards c) \<and>
     map sh_capacity (lc_shards (fold (\<lambda>(k, v). cache_put k v) kvs c)) = map sh_capacity (lc_shards c)"
proof (induction kvs arbitrary: c)
  case (Cons kv kvs)
  obtain k v where kv: "kv = (k, v)" by force
  obtain c' where "cache_insert k v c = Some c'" "cache_ok c'" "length (lc_shards c') = length (lc_shards c)"
    "map sh_capacity (lc_shards c') = map sh_capacity (lc_shards c)"
    using cache_insert_props [OF Cons.prems] by metis
  then show ?case using Cons.IH [of c'] kv by (simp add: cache_put_def)
qed simp

lemma sum_list_bound: "\<forall>x \<in> set xs. f x \<le> (b :: nat) \<Longrightarrow> sum_list (map f xs) \<le> length xs * b"
  by (induction xs) auto

subsection \<open>Panics of the signature\<close>

lemma slice_ascii:
  "\<forall>c \<in> set s. code c < 128 \<Longrightarrow> i \<le> j \<Longrightarrow> j \<le> length s \<Longrightarrow> slice s i j = Some (drop i (take j s))"
  by (simp add: slice_def is_char_boundary_ascii)

lemma signature_ascii_total [panic_free]:
  assumes "\<forall>c \<in> set raw. code c < 128" shows "compute_signature_hash raw \<noteq> None"
proof -
  let ?w = "take (min (length raw) 96) raw"
  have w: "slice_to raw (min (length raw) 96) = Some ?w" "\<forall>c \<in> set ?w. code c < 128"
    using assms by (auto simp: slice_to_def is_char_boundary_ascii dest: in_set_takeD)
  have "slice ?w pos (min (length ?w) (pos + 16)) \<noteq> None" if "find_str ?w ''%ASA-'' = Some pos" for pos
  proof -
    have "pos \<le> min (length ?w) (pos + 16)" using find_str_bound [OF that] by simp
    from slice_ascii [OF w(2) this min.cobounded1] show ?thesis by (metis option.distinct(1))
  qed
  then have "window_signature ?w \<noteq> None" by (simp add: window_signature_def split: option.split)
  then show ?thesis using w(1) by (simp add: compute_signature_hash_def)
qed

end
