(* ===== verification/Cisco_Asa.thy ===== *)
theory Cisco_Asa
  imports Extractor_Common
begin

text \<open>
  The Cisco ASA extractor of \<open>ulpf-core/src/parser/extractors/cisco_asa.rs\<close>: the header, the five message
  families with their regular expressions, the fallback, and the endpoint parser. The regex engine is the field
  \<open>pl_captures\<close> of the libraries: the pattern and the text give the capture groups. In the pattern literals a
  tilde stands for the backslash, which a literal cannot hold (\<open>rx\<close> replaces it).
\<close>

definition rx :: "string \<Rightarrow> string" where
  "rx p = map (\<lambda>c. if c = CHR ''~'' then backslash else c) p"

definition REGEX_ASA_HEADER :: string where
  "REGEX_ASA_HEADER = rx ''%ASA-(~d+)-(~d+):~s*(.*)''"

definition REGEX_BUILT :: string where
  "REGEX_BUILT = rx ''Built~s+(inbound|outbound)?~s*([A-Za-z0-9]+)~s+connection~s+(~d+)~s+for~s+([^~s]+)(?:~s+~([^~)]+~))?~s+to~s+([^~s]+)(?:~s+~([^~)]+~))?''"

definition REGEX_TEARDOWN :: string where
  "REGEX_TEARDOWN = rx ''Teardown~s+([A-Za-z0-9]+)~s+connection~s+(~d+)~s+for~s+([^~s]+)(?:~s+~([^~)]+~))?~s+to~s+([^~s]+)(?:~s+~([^~)]+~))?(?:.*?duration~s+([^~s]+))?(?:.*?bytes~s+(~d+))?''"

definition REGEX_DENY :: string where
  "REGEX_DENY = rx ''Deny~s+([A-Za-z0-9]+)~s+src~s+([^~s]+)~s+dst~s+([^~s]+)(?:.*?by~s+access-group~s+([^~s~[]+))?''"

definition REGEX_DENIED_CONN :: string where
  "REGEX_DENIED_CONN = rx ''(?:(Inbound|Outbound)~s+)?([A-Za-z0-9]+)~s+connection~s+denied~s+from~s+([^~s]+)~s+to~s+([^~s]+)(?:.*?interface~s+([^~s]+))?''"

definition REGEX_VPN_DISCONNECT :: string where
  "REGEX_VPN_DISCONNECT = rx ''Group~s*=~s*([^,]+),~s*Username~s*=~s*([^,]+),~s*IP~s*=~s*([0-9a-fA-F~.:]+).*?Bytes~s+xmt:~s*(~d+),~s*Bytes~s+rcv:~s*(~d+)(?:,~s*Reason:~s*(.*))?''"

definition cap :: "string option list \<Rightarrow> nat \<Rightarrow> string option" where
  "cap groups i = (case nth_opt groups (i - 1) of Some (Some s) \<Rightarrow> Some s | _ \<Rightarrow> None)"

definition normalize_direction :: "string \<Rightarrow> string" where
  "normalize_direction dir =
     (let d = to_ascii_lowercase dir in
      if d = ''inbound'' \<or> d = ''in'' then ''Inbound''
      else if d = ''outbound'' \<or> d = ''out'' then ''Outbound''
      else ''Unknown'')"

definition is_bracket :: "char \<Rightarrow> bool" where
  "is_bracket c \<longleftrightarrow> c = CHR ''('' \<or> c = CHR '')'' \<or> c = CHR ''['' \<or> c = CHR '']''"

definition parse_endpoint_str ::
  "string \<Rightarrow> string option \<Rightarrow> string option \<times> u16 option \<times> string option" where
  "parse_endpoint_str text default_intf =
     (let clean = trim_matches is_bracket (trim text);
          (intf, rest) =
            (case find_idx (\<lambda>c. c = CHR '':'') clean of
               Some colon_pos \<Rightarrow> (Some (take colon_pos clean), drop (colon_pos + 1) clean)
             | None \<Rightarrow> (default_intf, clean));
          (ip, port) =
            (case find_idx (\<lambda>c. c = CHR ''/'') rest of
               Some slash_pos \<Rightarrow> (Some (take slash_pos rest), parse_u16 (drop (slash_pos + 1) rest))
             | None \<Rightarrow> (Some rest, None))
      in (ip, port, intf))"

definition endpoint_of :: "string option \<times> u16 option \<times> string option \<Rightarrow> endpoint" where
  "endpoint_of = (\<lambda>(ip, port, intf). endpoint_new ip port intf None)"

definition asa_metadata :: "string \<Rightarrow> int \<Rightarrow> metadata" where
  "asa_metadata raw now_ms = metadata_new (product_new ''Cisco'' ''ASA'' None) raw [] [] now_ms"

definition asa_fallback_parse ::
  "string \<Rightarrow> string \<Rightarrow> int \<Rightarrow> (string, string) hash_map \<Rightarrow> network_activity" where
  "asa_fallback_parse raw body now_ms unmapped =
     (let disp =
            (if contains body ''Built'' \<or> contains body ''Teardown'' then ALLOWED
             else if contains body ''Deny'' \<or> contains body ''denied'' then BLOCKED
             else if contains body ''drop'' \<or> contains body ''dropped'' then DROPPED
             else UNKNOWN);
          act_id =
            (if contains body ''Built'' then OPEN
             else if contains body ''Teardown'' then CLOSE
             else OTHER)
      in with_unmapped
           (network_activity_new act_id now_ms disp endpoint_default endpoint_default
              connection_info_default None (asa_metadata raw now_ms)) unmapped)"

definition asa_built ::
  "string \<Rightarrow> int \<Rightarrow> (string, string) hash_map \<Rightarrow> string option list \<Rightarrow> network_activity" where
  "asa_built raw now_ms unmapped caps =
     (let dir_str = unwrap_or ''Unknown'' (cap caps 1);
          proto_str = unwrap_or ''TCP'' (cap caps 2);
          conn_id = unwrap_or [] (cap caps 3);
          src_str = unwrap_or [] (cap caps 4);
          dst_str = unwrap_or [] (cap caps 5);
          proto_name = to_ascii_uppercase proto_str;
          unmapped' = hm_insert ''connection_id'' conn_id unmapped
      in with_unmapped
           (network_activity_new OPEN now_ms ALLOWED
              (endpoint_of (parse_endpoint_str src_str None)) (endpoint_of (parse_endpoint_str dst_str None))
              (connection_info_new (protocol_num_from_name proto_name) (Some proto_name)
                 (Some (normalize_direction dir_str)))
              None (asa_metadata raw now_ms)) unmapped')"

definition asa_teardown ::
  "string \<Rightarrow> int \<Rightarrow> (string, string) hash_map \<Rightarrow> string option list \<Rightarrow> network_activity" where
  "asa_teardown raw now_ms unmapped caps =
     (let proto_str = unwrap_or ''TCP'' (cap caps 1);
          conn_id = unwrap_or [] (cap caps 2);
          src_str = unwrap_or [] (cap caps 3);
          dst_str = unwrap_or [] (cap caps 4);
          duration = cap caps 5;
          bytes = Option.bind (cap caps 6) parse_u64;
          proto_name = to_ascii_uppercase proto_str;
          unmapped1 = hm_insert ''connection_id'' conn_id unmapped;
          unmapped2 = (case duration of Some d \<Rightarrow> hm_insert ''duration'' d unmapped1 | None \<Rightarrow> unmapped1)
      in with_unmapped
           (network_activity_new CLOSE now_ms ALLOWED
              (endpoint_of (parse_endpoint_str src_str None)) (endpoint_of (parse_endpoint_str dst_str None))
              (connection_info_new (protocol_num_from_name proto_name) (Some proto_name) None)
              (map_option (\<lambda>b. traffic_new None (Some b) None None) bytes)
              (asa_metadata raw now_ms)) unmapped2)"

definition asa_deny ::
  "string \<Rightarrow> int \<Rightarrow> (string, string) hash_map \<Rightarrow> string option list \<Rightarrow> network_activity" where
  "asa_deny raw now_ms unmapped caps =
     (let proto_str = unwrap_or ''TCP'' (cap caps 1);
          src_str = unwrap_or [] (cap caps 2);
          dst_str = unwrap_or [] (cap caps 3);
          acl = map_option (trim_matches (\<lambda>c. c = CHR 0x22)) (cap caps 4);
          proto_name = to_ascii_uppercase proto_str;
          unmapped' = (case acl of Some a \<Rightarrow> hm_insert ''access_group'' a unmapped | None \<Rightarrow> unmapped)
      in with_unmapped
           (network_activity_new OTHER now_ms BLOCKED
              (endpoint_of (parse_endpoint_str src_str None)) (endpoint_of (parse_endpoint_str dst_str None))
              (connection_info_new (protocol_num_from_name proto_name) (Some proto_name) None)
              None (asa_metadata raw now_ms)) unmapped')"

definition asa_denied_conn ::
  "string \<Rightarrow> int \<Rightarrow> (string, string) hash_map \<Rightarrow> string option list \<Rightarrow> network_activity" where
  "asa_denied_conn raw now_ms unmapped caps =
     (let dir_str = unwrap_or ''Inbound'' (cap caps 1);
          proto_str = unwrap_or ''TCP'' (cap caps 2);
          src_str = unwrap_or [] (cap caps 3);
          dst_str = unwrap_or [] (cap caps 4);
          intf_str = cap caps 5;
          proto_name = to_ascii_uppercase proto_str
      in with_unmapped
           (network_activity_new OTHER now_ms DROPPED
              (endpoint_of (parse_endpoint_str src_str intf_str)) (endpoint_of (parse_endpoint_str dst_str None))
              (connection_info_new (protocol_num_from_name proto_name) (Some proto_name)
                 (Some (normalize_direction dir_str)))
              None (asa_metadata raw now_ms)) unmapped)"

definition asa_vpn_disconnect ::
  "string \<Rightarrow> int \<Rightarrow> (string, string) hash_map \<Rightarrow> string option list \<Rightarrow> network_activity" where
  "asa_vpn_disconnect raw now_ms unmapped caps =
     (let group = unwrap_or [] (map_option trim (cap caps 1));
          username = unwrap_or [] (map_option trim (cap caps 2));
          ip = unwrap_or [] (map_option trim (cap caps 3));
          bytes_xmt = Option.bind (cap caps 4) parse_u64;
          bytes_rcv = Option.bind (cap caps 5) parse_u64;
          reason = map_option trim (cap caps 6);
          unmapped1 = hm_insert ''vpn_username'' username (hm_insert ''vpn_group'' group unmapped);
          unmapped2 = (case reason of Some r \<Rightarrow> hm_insert ''disconnect_reason'' r unmapped1 | None \<Rightarrow> unmapped1);
          traffic = (if bytes_xmt \<noteq> None \<or> bytes_rcv \<noteq> None
                     then Some (traffic_new bytes_rcv bytes_xmt None None) else None)
      in with_unmapped
           (network_activity_new CLOSE now_ms ALLOWED
              (endpoint_new (Some ip) None None None)
              (endpoint_new (Some ''10.0.0.1'') (Some 443) (Some ''outside'') None)
              (connection_info_new (Some 6) (Some ''SSL'') None)
              traffic (asa_metadata raw now_ms)) unmapped2)"

definition asa_message :: "string \<Rightarrow> (string \<times> (string \<Rightarrow> int \<Rightarrow> (string, string) hash_map \<Rightarrow>
    string option list \<Rightarrow> network_activity)) option" where
  "asa_message msg =
     (if msg = ''302013'' \<or> msg = ''302015'' \<or> msg = ''302020'' then Some (REGEX_BUILT, asa_built)
      else if msg = ''302014'' \<or> msg = ''302016'' \<or> msg = ''302021'' then Some (REGEX_TEARDOWN, asa_teardown)
      else if msg = ''106023'' then Some (REGEX_DENY, asa_deny)
      else if msg = ''106001'' \<or> msg = ''106006'' \<or> msg = ''106007''
        then Some (REGEX_DENIED_CONN, asa_denied_conn)
      else if msg = ''113019'' then Some (REGEX_VPN_DISCONNECT, asa_vpn_disconnect)
      else None)"

definition cisco_parse :: extractor where
  "cisco_parse L now_ms raw =
     (case pl_captures L REGEX_ASA_HEADER raw of
        None \<Rightarrow> Some (Err (''Raw log does not contain valid %ASA- header: '' @ raw))
      | Some captures \<Rightarrow>
          (let severity = (case cap captures 1 of None \<Rightarrow> 6 | Some m \<Rightarrow> unwrap_or 6 (parse_u8 m));
               message_code = unwrap_or [] (cap captures 2);
               body = unwrap_or [] (cap captures 3);
               unmapped = hm_insert ''cisco_message_code'' message_code
                            (hm_insert ''cisco_severity'' (show_nat (unat severity)) [])
           in Some (Ok (case asa_message message_code of
                  None \<Rightarrow> asa_fallback_parse raw body now_ms unmapped
                | Some (re, build) \<Rightarrow>
                    (case pl_captures L re body of
                       Some caps \<Rightarrow> build raw now_ms unmapped caps
                     | None \<Rightarrow> asa_fallback_parse raw body now_ms unmapped)))))"

subsection \<open>The contract\<close>

lemma asa_builders_ok:
  "extracted_ok ''Cisco'' raw (asa_built raw now u c)" "extracted_ok ''Cisco'' raw (asa_teardown raw now u c)"
  "extracted_ok ''Cisco'' raw (asa_deny raw now u c)" "extracted_ok ''Cisco'' raw (asa_denied_conn raw now u c)"
  "extracted_ok ''Cisco'' raw (asa_vpn_disconnect raw now u c)"
  unfolding asa_built_def asa_teardown_def asa_deny_def asa_denied_conn_def asa_vpn_disconnect_def
    Let_def asa_metadata_def extracted_ok_unmapped
  by (intro extracted_okI; simp)+

lemma asa_fallback_ok: "extracted_ok ''Cisco'' raw (asa_fallback_parse raw body now u)"
  unfolding asa_fallback_parse_def Let_def asa_metadata_def extracted_ok_unmapped
  by (intro extracted_okI if_mem; simp)

lemma asa_message_ok: "asa_message c = Some (re, build) \<Longrightarrow> extracted_ok ''Cisco'' raw (build raw now u caps)"
  unfolding asa_message_def using asa_builders_ok
  by (simp only: option.inject prod.inject split: if_splits) auto

interpretation cisco: log_parser cisco_parse "''Cisco''"
proof unfold_locales
  show "cisco_parse L now raw = Some (Ok a) \<Longrightarrow> extracted_ok ''Cisco'' raw a" for L now raw a
    using asa_fallback_ok asa_message_ok
    by (auto simp: cisco_parse_def Let_def split: option.splits prod.splits)
  show "ascii_str raw \<Longrightarrow> cisco_parse L now raw \<noteq> None" for L now raw
    by (auto simp: cisco_parse_def Let_def split: option.splits)
qed

subsection \<open>Endpoints\<close>

definition render_endpoint :: "string option \<Rightarrow> string \<Rightarrow> u16 option \<Rightarrow> string" where
  "render_endpoint intf ip port =
     (case intf of Some i \<Rightarrow> i @ '':'' | None \<Rightarrow> []) @ ip @
     (case port of Some p \<Rightarrow> ''/'' @ show_nat (unat p) | None \<Rightarrow> [])"

text \<open>A rendered endpoint that trimming leaves alone.\<close>

definition clean_text :: "string \<Rightarrow> bool" where
  "clean_text s \<longleftrightarrow> trim s = s \<and> trim_matches is_bracket s = s"

lemma find_idx_None: "\<forall>c \<in> set s. \<not> P c \<Longrightarrow> find_idx P s = None"
  by (simp add: find_idx_None_iff)

lemma parse_endpoint_render:
  assumes "clean_text (render_endpoint intf ip port)"
    and "CHR '':'' \<notin> set ip" "CHR ''/'' \<notin> set ip" "\<forall>i. intf = Some i \<longrightarrow> CHR '':'' \<notin> set i"
  shows "parse_endpoint_str (render_endpoint intf ip port) d =
    (Some ip, port, (case intf of Some i \<Rightarrow> Some i | None \<Rightarrow> d))"
proof -
  let ?rest = "ip @ (case port of Some p \<Rightarrow> ''/'' @ show_nat (unat p) | None \<Rightarrow> [])"
  have nd: "CHR '':'' \<notin> set (show_nat n)" for n by (rule show_nat_no_sign) (simp add: is_ascii_digit_def)
  have colon: "find_idx (\<lambda>c. c = CHR '':'') ?rest = None"
    using assms(2) nd by (intro find_idx_None) (auto split: option.splits)
  have "find_idx (\<lambda>c. c = CHR ''/'') (ip @ CHR ''/'' # s) = Some (length ip)" for s
    using assms(3) by (intro find_idx_append) auto
  moreover have "find_idx (\<lambda>c. c = CHR ''/'') ip = None"
    using assms(3) by (intro find_idx_None) auto
  moreover have "find_idx (\<lambda>c. c = CHR '':'') (i @ CHR '':'' # ?rest) = Some (length i)" if "intf = Some i" for i
    using assms(4) that by (intro find_idx_append) auto
  ultimately show ?thesis
    using assms(1) colon
    by (cases intf; cases port) (auto simp: parse_endpoint_str_def render_endpoint_def clean_text_def Let_def)
qed

end
