(* ===== verification/Fortigate.thy ===== *)
theory Fortigate
  imports Extractor_Common
begin

text \<open>
  The FortiGate extractor of \<open>ulpf-core/src/parser/extractors/fortigate.rs\<close>: the key-value tokenizer,
  as an iterator step and its run to the end, and the mapping of the pairs to an event. The slice after the
  separator in front of a key starts one byte behind it: behind a multi-byte white space that is not a character
  boundary, and the step panics.
\<close>

subsection \<open>The tokenizer\<close>

fun quote_end :: "bool \<Rightarrow> string \<Rightarrow> nat option" where
  "quote_end escaped [] = None"
| "quote_end escaped (b # bs) =
     (if escaped then map_option Suc (quote_end False bs)
      else if b = backslash then map_option Suc (quote_end True bs)
      else if b = CHR 0x22 then Some 0
      else map_option Suc (quote_end False bs))"

definition key_sep :: "string \<Rightarrow> bool" where
  "key_sep s \<longleftrightarrow> starts_ws s \<or> starts_with s ''|''"

definition kv_key :: "parser_libs \<Rightarrow> string \<Rightarrow> string option" where
  "kv_key L raw_key =
     map_option (trim_start_matches (\<lambda>ch. \<not> is_alphanumeric_char L ch \<and> ch \<noteq> ''_''))
       (case rfind_suffix key_sep raw_key of
          Some space_pos \<Rightarrow> slice_from raw_key (space_pos + 1)
        | None \<Rightarrow> Some raw_key)"

definition kv_value :: "string \<Rightarrow> string \<times> string" where
  "kv_value after_eq =
     (case strip_prefix after_eq [CHR 0x22] of
        Some inner \<Rightarrow>
          (case quote_end False inner of
             Some close_idx \<Rightarrow> (take close_idx inner, drop (close_idx + 1) inner)
           | None \<Rightarrow> (inner, []))
      | None \<Rightarrow>
          (case find_suffix starts_ws after_eq of
             Some idx \<Rightarrow> (take idx after_eq, drop idx after_eq)
           | None \<Rightarrow> (after_eq, [])))"

definition kv_next :: "parser_libs \<Rightarrow> string \<Rightarrow> ((string \<times> string) \<times> string) option option" where
  "kv_next L s0 =
     (let s = trim_start s0 in
      if s = [] then Some None
      else case find_idx (\<lambda>c. c = CHR ''='') s of
          None \<Rightarrow> Some None
        | Some eq_pos \<Rightarrow>
            map_option (\<lambda>key. let vr = kv_value (drop (eq_pos + 1) s) in Some ((key, fst vr), snd vr))
              (kv_key L (take eq_pos s)))"

lemma kv_value_suffix: "\<exists>p. s = p @ snd (kv_value s)"
proof -
  have "\<exists>n. snd (kv_value s) = drop n s"
    by (auto simp: kv_value_def strip_prefix_def split: option.splits intro: exI [of _ "length s"])
  then show ?thesis by (metis append_take_drop_id)
qed

lemma kv_nextE:
  assumes "kv_next L s = Some (Some (kv, rest))"
  obtains i where "find_idx (\<lambda>c. c = CHR ''='') (trim_start s) = Some i" "i < length (trim_start s)"
    "kv_key L (take i (trim_start s)) = Some (fst kv)"
    "kv_value (drop (i + 1) (trim_start s)) = (snd kv, rest)"
proof -
  obtain i where "find_idx (\<lambda>c. c = CHR ''='') (trim_start s) = Some i"
    "kv_key L (take i (trim_start s)) = Some (fst kv)"
    "kv_value (drop (i + 1) (trim_start s)) = (snd kv, rest)"
    using assms by (auto simp: kv_next_def Let_def split: if_splits option.splits)
  then show thesis using that find_idx_SomeD by blast
qed

lemma kv_next_length: "kv_next L s = Some (Some (kv, rest)) \<Longrightarrow> length rest < length s"
proof -
  assume n: "kv_next L s = Some (Some (kv, rest))"
  obtain p where "s = p @ trim_start s" unfolding trim_start_def using trim_by_suffix by blast
  then have le: "length (trim_start s) \<le> length s" by (metis length_append le_add2)
  obtain i where i: "i < length (trim_start s)" "kv_value (drop (i + 1) (trim_start s)) = (snd kv, rest)"
    using kv_nextE [OF n] by metis
  obtain q where "drop (i + 1) (trim_start s) = q @ rest" using kv_value_suffix i(2) by (metis snd_conv)
  then have "length (drop (i + 1) (trim_start s)) = length q + length rest" by simp
  then show "length rest < length s" using le i(1) by simp
qed

function kv_pairs :: "parser_libs \<Rightarrow> string \<Rightarrow> (string \<times> string) list option" where
  "kv_pairs L s =
     (case kv_next L s of
        None \<Rightarrow> None
      | Some None \<Rightarrow> Some []
      | Some (Some (kv, rest)) \<Rightarrow> map_option (Cons kv) (kv_pairs L rest))"
  by pat_completeness auto
termination by (relation "measure (\<lambda>(L, s). length s)") (auto dest: kv_next_length)

declare kv_pairs.simps [simp del]

definition tokenize :: "parser_libs \<Rightarrow> string \<Rightarrow> (string \<times> string) list option" where
  "tokenize L input = kv_pairs L (trim input)"

subsection \<open>The extractor\<close>

record fortigate_fields =
  fg_src_ip :: "string option"
  fg_dst_ip :: "string option"
  fg_src_port :: "u16 option"
  fg_dst_port :: "u16 option"
  fg_src_intf :: "string option"
  fg_dst_intf :: "string option"
  fg_src_zone :: "string option"
  fg_dst_zone :: "string option"
  fg_proto_num :: "u8 option"
  fg_proto_name :: "string option"
  fg_action :: "string option"
  fg_sent_bytes :: "u64 option"
  fg_rcvd_bytes :: "u64 option"
  fg_sent_pkts :: "u64 option"
  fg_rcvd_pkts :: "u64 option"
  fg_date :: "string option"
  fg_time :: "string option"
  fg_devname :: "string option"
  fg_unmapped :: "(string, string) hash_map"

definition fortigate_init :: fortigate_fields where
  "fortigate_init =
     \<lparr>fg_src_ip = None, fg_dst_ip = None, fg_src_port = None, fg_dst_port = None,
      fg_src_intf = None, fg_dst_intf = None, fg_src_zone = None, fg_dst_zone = None,
      fg_proto_num = None, fg_proto_name = None, fg_action = None, fg_sent_bytes = None,
      fg_rcvd_bytes = None, fg_sent_pkts = None, fg_rcvd_pkts = None, fg_date = None,
      fg_time = None, fg_devname = None, fg_unmapped = []\<rparr>"

definition fortigate_field :: "string \<times> string \<Rightarrow> fortigate_fields \<Rightarrow> fortigate_fields" where
  "fortigate_field = (\<lambda>(key, val) f.
     if key = ''srcip'' \<or> key = ''src'' then f\<lparr>fg_src_ip := Some val\<rparr>
     else if key = ''dstip'' \<or> key = ''dst'' then f\<lparr>fg_dst_ip := Some val\<rparr>
     else if key = ''srcport'' \<or> key = ''spt'' then f\<lparr>fg_src_port := parse_u16 val\<rparr>
     else if key = ''dstport'' \<or> key = ''dpt'' then f\<lparr>fg_dst_port := parse_u16 val\<rparr>
     else if key = ''srcintf'' \<or> key = ''cs2'' then f\<lparr>fg_src_intf := Some val\<rparr>
     else if key = ''dstintf'' \<or> key = ''cs3'' then f\<lparr>fg_dst_intf := Some val\<rparr>
     else if key = ''srcintfrole'' \<or> key = ''srczone'' then f\<lparr>fg_src_zone := Some val\<rparr>
     else if key = ''dstintfrole'' \<or> key = ''dstzone'' then f\<lparr>fg_dst_zone := Some val\<rparr>
     else if key = ''proto'' then
       (case parse_u8 val of
          Some num \<Rightarrow> f\<lparr>fg_proto_num := Some num, fg_proto_name := Some (protocol_name_from_num num)\<rparr>
        | None \<Rightarrow>
            let name = to_ascii_uppercase val
            in f\<lparr>fg_proto_num := protocol_num_from_name name, fg_proto_name := Some name\<rparr>)
     else if key = ''action'' \<or> key = ''act'' then f\<lparr>fg_action := Some val\<rparr>
     else if key = ''sentbyte'' \<or> key = ''out'' then f\<lparr>fg_sent_bytes := parse_u64 val\<rparr>
     else if key = ''rcvdbyte'' \<or> key = ''in'' then f\<lparr>fg_rcvd_bytes := parse_u64 val\<rparr>
     else if key = ''sentpkt'' then f\<lparr>fg_sent_pkts := parse_u64 val\<rparr>
     else if key = ''rcvdpkt'' then f\<lparr>fg_rcvd_pkts := parse_u64 val\<rparr>
     else if key = ''date'' then f\<lparr>fg_date := Some val\<rparr>
     else if key = ''time'' then f\<lparr>fg_time := Some val\<rparr>
     else if key = ''devname'' \<or> key = ''dvchost'' \<or> key = ''deviceExternalId''
       then f\<lparr>fg_devname := Some val\<rparr>
     else f\<lparr>fg_unmapped := hm_insert key val (fg_unmapped f)\<rparr>)"

definition fortigate_disposition :: "string option \<Rightarrow> string \<times> u8" where
  "fortigate_disposition action =
     (let a = map_option to_ascii_lowercase action in
      if a \<in> {Some ''accept'', Some ''allow'', Some ''permitted''} then (ALLOWED, TRAFFIC_FLOW)
      else if a \<in> {Some ''deny'', Some ''block'', Some ''blocked''} then (BLOCKED, OTHER)
      else if a \<in> {Some ''drop'', Some ''dropped''} then (DROPPED, OTHER)
      else if a \<in> {Some ''close'', Some ''client-rst'', Some ''server-rst'', Some ''timeout''}
        then (ALLOWED, CLOSE)
      else if a \<in> {Some ''open'', Some ''start''} then (ALLOWED, OPEN)
      else (UNKNOWN, TRAFFIC_FLOW))"

definition fortigate_event :: "parser_libs \<Rightarrow> int \<Rightarrow> string \<Rightarrow> fortigate_fields \<Rightarrow> network_activity" where
  "fortigate_event L now_ms raw f =
     (let event_time =
            (case (fg_date f, fg_time f) of
               (Some d, Some t) \<Rightarrow> parse_date_time_or_fallback L d t now_ms
             | _ \<Rightarrow> now_ms);
          (disp, act_id) = fortigate_disposition (fg_action f);
          src_endpoint = endpoint_new (fg_src_ip f) (fg_src_port f) (fg_src_intf f) (fg_src_zone f);
          dst_endpoint = endpoint_new (fg_dst_ip f) (fg_dst_port f) (fg_dst_intf f) (fg_dst_zone f);
          conn = connection_info_new (fg_proto_num f) (fg_proto_name f) None;
          traffic =
            (if fg_sent_bytes f \<noteq> None \<or> fg_rcvd_bytes f \<noteq> None \<or> fg_sent_pkts f \<noteq> None \<or>
                fg_rcvd_pkts f \<noteq> None
             then Some (traffic_new (fg_rcvd_bytes f) (fg_sent_bytes f) (fg_rcvd_pkts f) (fg_sent_pkts f))
             else None);
          product = product_new ''Fortinet'' (unwrap_or ''FortiGate'' (fg_devname f)) None;
          metadata = metadata_new product raw [] [] now_ms
      in with_unmapped
           (network_activity_new act_id event_time disp src_endpoint dst_endpoint conn traffic metadata)
           (fg_unmapped f))"

definition fortigate_parse :: extractor where
  "fortigate_parse L now_ms raw =
     map_option (\<lambda>kvs. Ok (fortigate_event L now_ms raw (fold fortigate_field kvs fortigate_init)))
       (tokenize L raw)"

subsection \<open>The contract\<close>

lemma fortigate_disposition_range: "fortigate_disposition a \<in> dispositions \<times> activities"
  unfolding fortigate_disposition_def Let_def by (intro if_mem) simp_all

lemma fortigate_event_ok: "extracted_ok ''Fortinet'' raw (fortigate_event L now raw f)"
  using fortigate_disposition_range [of "fg_action f"]
  unfolding fortigate_event_def Let_def case_prod_unfold extracted_ok_unmapped mem_Times_iff
  by (intro extracted_okI) simp_all

lemma kv_next_ascii:
  assumes "ascii_str s"
  shows "kv_next L s \<noteq> None \<and> (\<forall>kv rest. kv_next L s = Some (Some (kv, rest)) \<longrightarrow> ascii_str rest)"
proof -
  have key: "kv_key L k \<noteq> None" if "ascii_str k" for k
  proof -
    have "slice_from k (i + 1) \<noteq> None" if "rfind_suffix key_sep k = Some i" for i
      using rfind_suffix_SomeD [OF that] is_char_boundary_ascii [of k "i + 1"] \<open>ascii_str k\<close>
      by (simp add: slice_from_def ascii_str_def)
    then show ?thesis by (auto simp: kv_key_def split: option.splits)
  qed
  have t: "ascii_str (trim_start s)" using assms by simp
  have "kv_key L (take i (trim_start s)) \<noteq> None" for i using t by (intro key) simp
  then have "kv_next L s \<noteq> None" by (simp add: kv_next_def Let_def split: option.split)
  moreover have "ascii_str rest" if n: "kv_next L s = Some (Some (kv, rest))" for kv rest
  proof -
    obtain i where "kv_value (drop (i + 1) (trim_start s)) = (snd kv, rest)" using kv_nextE [OF n] by metis
    then obtain q where "drop (i + 1) (trim_start s) = q @ rest" using kv_value_suffix by (metis snd_conv)
    moreover have "ascii_str (drop (i + 1) (trim_start s))" using t by simp
    ultimately show ?thesis by (simp add: ascii_str_def)
  qed
  ultimately show ?thesis by blast
qed

lemma kv_pairs_ascii: "ascii_str s \<Longrightarrow> kv_pairs L s \<noteq> None"
proof (induction L s rule: kv_pairs.induct)
  case (1 L s)
  then show ?case using kv_next_ascii [OF 1(2), of L]
    by (subst kv_pairs.simps) (auto split: option.splits)
qed

lemma ascii_str_trim [simp]: "ascii_str s \<Longrightarrow> ascii_str (trim s)"
proof -
  assume "ascii_str s"
  moreover obtain a b where "s = a @ trim s @ b" using trim_infix by blast
  then have "set (trim s) \<subseteq> set s" by (metis le_supI2 set_append sup_ge1)
  ultimately show ?thesis by (auto simp: ascii_str_def)
qed

interpretation fortigate: log_parser fortigate_parse "''Fortinet''"
proof unfold_locales
  show "fortigate_parse L now raw = Some (Ok a) \<Longrightarrow> extracted_ok ''Fortinet'' raw a" for L now raw a
    by (auto simp: fortigate_parse_def fortigate_event_ok)
  show "ascii_str raw \<Longrightarrow> fortigate_parse L now raw \<noteq> None" for L now raw
    using kv_pairs_ascii [of "trim raw" L] by (auto simp: fortigate_parse_def tokenize_def)
qed

subsection \<open>Round trip of the tokenizer\<close>

definition word_char :: "char \<Rightarrow> bool" where
  "word_char c \<longleftrightarrow> is_ascii_alnum c \<or> c = CHR ''_''"

definition kv_ok :: "string \<times> string \<Rightarrow> bool" where
  "kv_ok = (\<lambda>(k, v). k \<noteq> [] \<and> list_all word_char k \<and> CHR 0x22 \<notin> set v \<and> backslash \<notin> set v)"

definition render_kv :: "string \<times> string \<Rightarrow> string" where
  "render_kv = (\<lambda>(k, v). k @ CHR ''='' # CHR 0x22 # v @ [CHR 0x22])"

definition render_kvs :: "(string \<times> string) list \<Rightarrow> string" where
  "render_kvs kvs = join '' '' (map render_kv kvs)"

lemma word_char_props:
  assumes "word_char c"
  shows "\<forall>e \<in> set ws_encodings. hd e \<noteq> c" "c \<noteq> CHR ''|''" "c \<noteq> CHR ''=''" "utf8_width c = 1"
  using assms
  by (auto simp: ws_encodings_def word_char_def is_ascii_alnum_def is_ascii_digit_def is_ascii_upper_def
      is_ascii_lower_def utf8_width_def)

lemma ws_len_word [simp]: "word_char c \<Longrightarrow> ws_len (c # cs) = 0"
  using word_char_props(1) [of c] by (auto simp: ws_len_def intro!: prefix_len_zero)

lemma rfind_suffix_None: "\<forall>i < length s. \<not> Q (drop i s) \<Longrightarrow> rfind_suffix Q s = None"
proof (induction s)
  case (Cons c cs)
  then show ?case by (simp del: drop_Suc_Cons add: All_less_Suc2) simp
qed simp

lemma kv_key_word:
  assumes "k \<noteq> []" "list_all word_char k"
  shows "kv_key L k = Some k"
proof -
  have "\<not> key_sep (drop i k)" if i: "i < length k" for i
  proof -
    have "drop i k = k ! i # drop (Suc i) k" "word_char (k ! i)"
      using i assms(2) by (simp_all add: Cons_nth_drop_Suc list_all_length)
    then show ?thesis using word_char_props(2) [of "k ! i"] by (simp add: key_sep_def starts_ws_def)
  qed
  then have "rfind_suffix key_sep k = None" by (intro rfind_suffix_None) simp
  moreover obtain c cs where c: "k = c # cs" "word_char c" using assms by (cases k) auto
  then have "first_char k = [c]" using word_char_props(4) [of c] by simp
  then have "is_alphanumeric_char L (first_char k) \<or> first_char k = ''_''"
    using c(2) by (auto simp: is_alphanumeric_char_def word_char_def)
  ultimately show ?thesis using c(1) by (auto simp: kv_key_def)
qed

lemma quote_end_plain:
  "CHR 0x22 \<notin> set v \<Longrightarrow> backslash \<notin> set v \<Longrightarrow> quote_end False (v @ CHR 0x22 # rest) = Some (length v)"
  by (induction v) (auto simp: backslash_def)

lemma kv_next_render:
  assumes "kv_ok (k, v)" "sp = [] \<or> sp = '' ''"
  shows "kv_next L (sp @ render_kv (k, v) @ rest) = Some (Some ((k, v), rest))"
proof -
  let ?t = "k @ CHR ''='' # CHR 0x22 # v @ CHR 0x22 # rest"
  obtain c cs where k: "k = c # cs" "word_char c" "list_all word_char k"
    using assms(1) by (cases k) (auto simp: kv_ok_def)
  have "ws_len ('' '' @ ?t) = 1" by (simp add: ws_len_def ws_encodings_def)
  then have "trim_start (sp @ ?t) = ?t" using assms(2) k by (auto simp: trim_start_def)
  moreover have "find_idx (\<lambda>c. c = CHR ''='') ?t = Some (length k)"
    using k(3) word_char_props(3) by (intro find_idx_append) (auto simp: list_all_iff)
  moreover have "kv_value (CHR 0x22 # v @ CHR 0x22 # rest) = (v, rest)"
    using assms(1) quote_end_plain [of v rest] by (simp add: kv_value_def strip_prefix_def kv_ok_def)
  ultimately show ?thesis
    using kv_key_word [OF _ k(3)] k(1) by (simp add: kv_next_def render_kv_def Let_def)
qed

lemma kv_pairs_render:
  "\<forall>kv \<in> set kvs. kv_ok kv \<Longrightarrow> sp = [] \<or> sp = '' '' \<Longrightarrow> kv_pairs L (sp @ render_kvs kvs) = Some kvs"
proof (induction kvs arbitrary: sp rule: induct_list012)
  case 1
  have "ws_len '' '' = 1" by (simp add: ws_len_def ws_encodings_def)
  then have "kv_next L sp = Some None" using 1 by (auto simp: kv_next_def trim_start_def)
  then show ?case by (simp add: render_kvs_def kv_pairs.simps [of L sp])
next
  case (2 kv)
  have "kv_next L [] = Some None" by (simp add: kv_next_def trim_start_def)
  then show ?case
    using 2 kv_next_render [of "fst kv" "snd kv" sp L "[]"]
    by (simp add: render_kvs_def kv_pairs.simps [of L "sp @ render_kv kv"] kv_pairs.simps [of L "[]"])
next
  case (3 kv kv' kvs)
  have "kv_pairs L ('' '' @ render_kvs (kv' # kvs)) = Some (kv' # kvs)"
    using "3.prems"(1) by (intro "3.IH"(2)) auto
  then show ?case
    using 3 kv_next_render [of "fst kv" "snd kv" sp L "'' '' @ render_kvs (kv' # kvs)"]
    by (simp add: render_kvs_def kv_pairs.simps [of L "sp @ render_kv kv @ _"])
qed

lemma trim_render:
  assumes "\<forall>kv \<in> set kvs. kv_ok kv" shows "trim (render_kvs kvs) = render_kvs kvs"
proof (cases "kvs = []")
  case False
  then obtain k v rest where kvs: "kvs = (k, v) # rest" by (cases kvs) auto
  obtain c cs where c: "k = c # cs" "word_char c" using assms kvs by (cases k) (auto simp: kv_ok_def)
  have hd: "hd (render_kvs kvs) = c" using kvs c by (cases rest) (auto simp: render_kvs_def render_kv_def)
  have "last (render_kvs kvs) = CHR 0x22" using False
  proof (induction kvs rule: induct_list012)
    case (3 x y zs)
    then have "last (render_kvs (y # zs)) = CHR 0x22" "render_kvs (y # zs) \<noteq> []"
      by (cases zs; auto simp: render_kvs_def render_kv_def split: prod.splits)+
    then show ?case by (simp add: render_kvs_def)
  qed (auto simp: render_kvs_def render_kv_def split: prod.splits)
  then show ?thesis
    using hd word_char_props(1) [OF c(2)] by (intro trim_id [of _ c "CHR 0x22"]) (auto simp: ws_encodings_def)
qed (simp add: render_kvs_def trim_def trim_start_def trim_end_def)

lemma tokenize_render: "\<forall>kv \<in> set kvs. kv_ok kv \<Longrightarrow> tokenize L (render_kvs kvs) = Some kvs"
  using kv_pairs_render [of kvs "[]" L] trim_render [of kvs] by (simp add: tokenize_def)

subsection \<open>The panic\<close>

lemma kv_key_panics:
  assumes "list_all word_char w" "w \<noteq> []"
  shows "kv_key L (p @ CHR 0xC2 # CHR 0xA0 # w) = None"
proof -
  have "\<not> key_sep (drop i w)" if i: "i < length w" for i
  proof -
    have "drop i w = w ! i # drop (Suc i) w" "word_char (w ! i)"
      using i assms(1) by (simp_all add: Cons_nth_drop_Suc list_all_length)
    then show ?thesis using word_char_props(2) [of "w ! i"] by (simp add: key_sep_def starts_ws_def)
  qed
  then have "rfind_suffix key_sep w = None" by (intro rfind_suffix_None) simp
  then have "rfind_suffix key_sep (CHR 0xC2 # CHR 0xA0 # w) = Some 0"
    by (simp add: key_sep_def starts_ws_def ws_len_def ws_encodings_def)
  then have "rfind_suffix key_sep (p @ CHR 0xC2 # CHR 0xA0 # w) = Some (length p)"
    by (induction p) (auto simp del: rfind_suffix.simps(2) simp: rfind_suffix.simps(2) [of _ _ "_ @ _"])
  then show ?thesis
    by (simp add: kv_key_def slice_from_def is_char_boundary_def nth_append cont_byte_def)
qed

end
