(* ===== verification/Kaggle.thy ===== *)
theory Kaggle
  imports Extractor_Common
begin

unbundle bit_operations_syntax

text \<open>
  The Kaggle firewall extractor of \<open>ulpf-core/src/parser/extractors/kaggle.rs\<close>: the header row, the
  syslog form with its key-value pairs, the CSV form, and the event built from either.
\<close>

record kaggle_fields =
  kf_src_port :: "u16 option"
  kf_dst_port :: "u16 option"
  kf_nat_src_port :: "u16 option"
  kf_nat_dst_port :: "u16 option"
  kf_action :: "string option"
  kf_bytes :: "u64 option"
  kf_sent_bytes :: "u64 option"
  kf_rcvd_bytes :: "u64 option"
  kf_packets :: "u64 option"
  kf_elapsed :: "u64 option"
  kf_pkts_sent :: "u64 option"
  kf_pkts_rcvd :: "u64 option"
  kf_unmapped :: "(string, string) hash_map"

definition kaggle_init :: kaggle_fields where
  "kaggle_init =
     \<lparr>kf_src_port = None, kf_dst_port = None, kf_nat_src_port = None, kf_nat_dst_port = None,
      kf_action = None, kf_bytes = None, kf_sent_bytes = None, kf_rcvd_bytes = None,
      kf_packets = None, kf_elapsed = None, kf_pkts_sent = None, kf_pkts_rcvd = None, kf_unmapped = []\<rparr>"

definition kaggle_metadata :: "string \<Rightarrow> int \<Rightarrow> metadata" where
  "kaggle_metadata raw now_ms =
     metadata_new (product_new ''Kaggle'' ''Firewall-Simulator'' None) raw [] [] now_ms"

definition port_ip :: "string \<Rightarrow> u16 \<Rightarrow> string" where
  "port_ip prefix p =
     prefix @ show_nat (unat (drop_bit 8 p AND 0xff)) @ ''.'' @ show_nat (unat (p AND 0xff))"

definition kaggle_disposition :: "string option \<Rightarrow> string \<times> u8" where
  "kaggle_disposition action =
     (let a = map_option to_ascii_lowercase action in
      if a \<in> {Some ''allow'', Some ''accept'', Some ''permit''} then (ALLOWED, TRAFFIC_FLOW)
      else if a \<in> {Some ''deny'', Some ''block''} then (BLOCKED, OTHER)
      else if a = Some ''drop'' then (DROPPED, OTHER)
      else if a \<in> {Some ''reset-both'', Some ''close''} then (ALLOWED, CLOSE)
      else (UNKNOWN, TRAFFIC_FLOW))"

definition insert_some :: "string \<Rightarrow> string option \<Rightarrow> (string, string) hash_map \<Rightarrow> (string, string) hash_map" where
  "insert_some k v m = (case v of Some x \<Rightarrow> hm_insert k x m | None \<Rightarrow> m)"

definition kaggle_build :: "int \<Rightarrow> string \<Rightarrow> kaggle_fields \<Rightarrow> network_activity" where
  "kaggle_build now_ms raw f =
     (let s_port = unwrap_or 0 (kf_src_port f);
          d_port = unwrap_or 0 (kf_dst_port f);
          src_ip = port_ip ''10.10.'' s_port;
          dst_ip = port_ip ''10.20.'' d_port;
          unmapped =
            insert_some ''elapsed_sec'' (map_option (show_nat \<circ> unat) (kf_elapsed f))
              (insert_some ''nat_dst_port'' (map_option (show_nat \<circ> unat) (kf_nat_dst_port f))
                (insert_some ''nat_src_port'' (map_option (show_nat \<circ> unat) (kf_nat_src_port f))
                  (kf_unmapped f)));
          (disp, act_id) = kaggle_disposition (kf_action f);
          conn = (if d_port = 53 \<or> s_port = 53 then connection_info_new (Some 17) (Some ''UDP'') None
                  else connection_info_new (Some 6) (Some ''TCP'') None);
          traffic =
            (if kf_sent_bytes f \<noteq> None \<or> kf_rcvd_bytes f \<noteq> None \<or> kf_pkts_sent f \<noteq> None \<or>
                kf_pkts_rcvd f \<noteq> None
             then Some (traffic_new (kf_rcvd_bytes f) (kf_sent_bytes f) (kf_pkts_rcvd f) (kf_pkts_sent f))
             else None)
      in with_unmapped
           (network_activity_new act_id now_ms disp
              (endpoint_new (Some src_ip) (kf_src_port f) None None)
              (endpoint_new (Some dst_ip) (kf_dst_port f) None None)
              conn traffic (kaggle_metadata raw now_ms)) unmapped)"

definition kaggle_field :: "string \<Rightarrow> kaggle_fields \<Rightarrow> kaggle_fields" where
  "kaggle_field part f =
     (case find_idx (\<lambda>c. c = CHR ''='') part of
        None \<Rightarrow> f
      | Some eq \<Rightarrow>
          (let k = take eq part;
               v = trim_matches (\<lambda>c. c = CHR 0x22) (drop (eq + 1) part)
           in if k = ''src_port'' then f\<lparr>kf_src_port := parse_u16 v\<rparr>
              else if k = ''dst_port'' then f\<lparr>kf_dst_port := parse_u16 v\<rparr>
              else if k = ''nat_src_port'' then f\<lparr>kf_nat_src_port := parse_u16 v\<rparr>
              else if k = ''nat_dst_port'' then f\<lparr>kf_nat_dst_port := parse_u16 v\<rparr>
              else if k = ''action'' then f\<lparr>kf_action := Some v\<rparr>
              else if k = ''bytes'' then f\<lparr>kf_bytes := parse_u64 v\<rparr>
              else if k = ''sent_bytes'' then f\<lparr>kf_sent_bytes := parse_u64 v\<rparr>
              else if k = ''rcvd_bytes'' then f\<lparr>kf_rcvd_bytes := parse_u64 v\<rparr>
              else if k = ''packets'' then f\<lparr>kf_packets := parse_u64 v\<rparr>
              else if k = ''elapsed_sec'' then f\<lparr>kf_elapsed := parse_u64 v\<rparr>
              else if k = ''pkts_sent'' then f\<lparr>kf_pkts_sent := parse_u64 v\<rparr>
              else if k = ''pkts_rcvd'' then f\<lparr>kf_pkts_rcvd := parse_u64 v\<rparr>
              else f\<lparr>kf_unmapped := hm_insert k v (kf_unmapped f)\<rparr>))"

definition kaggle_parse_syslog :: "int \<Rightarrow> string \<Rightarrow> string \<Rightarrow> network_activity" where
  "kaggle_parse_syslog now_ms trimmed raw =
     kaggle_build now_ms raw (fold kaggle_field (split_whitespace trimmed) kaggle_init)"

definition kaggle_parse_csv :: "int \<Rightarrow> string \<Rightarrow> string \<Rightarrow> (network_activity, string) result" where
  "kaggle_parse_csv now_ms trimmed raw =
     (let parts = map trim (split_char (\<lambda>c. c = CHR '','') trimmed);
          port = (\<lambda>i. Option.bind (nth_opt parts i) parse_u16);
          num = (\<lambda>i. Option.bind (nth_opt parts i) parse_u64)
      in if length parts < 5 then Err (''Invalid Kaggle CSV line: '' @ trimmed)
         else Ok (kaggle_build now_ms raw
           \<lparr>kf_src_port = port 0, kf_dst_port = port 1, kf_nat_src_port = port 2, kf_nat_dst_port = port 3,
            kf_action = nth_opt parts 4, kf_bytes = num 5, kf_sent_bytes = num 6, kf_rcvd_bytes = num 7,
            kf_packets = num 8, kf_elapsed = num 9, kf_pkts_sent = num 10, kf_pkts_rcvd = num 11,
            kf_unmapped = []\<rparr>))"

definition kaggle_parse :: extractor where
  "kaggle_parse L now_ms raw =
     (let trimmed = trim raw in
      Some (if starts_with trimmed ''Source Port'' \<or> starts_with trimmed ''source port'' then
              Ok (network_activity_new OTHER now_ms UNKNOWN endpoint_default endpoint_default
                    connection_info_default None (kaggle_metadata raw now_ms))
            else if contains trimmed ''%KAGGLE-FW-'' then Ok (kaggle_parse_syslog now_ms trimmed raw)
            else kaggle_parse_csv now_ms trimmed raw))"

subsection \<open>The contract\<close>

lemma kaggle_disposition_range: "kaggle_disposition a \<in> dispositions \<times> activities"
  unfolding kaggle_disposition_def Let_def by (intro if_mem) simp_all

lemma kaggle_build_ok: "extracted_ok ''Kaggle'' raw (kaggle_build now raw f)"
  using kaggle_disposition_range [of "kf_action f"]
  unfolding kaggle_build_def Let_def case_prod_unfold extracted_ok_unmapped mem_Times_iff kaggle_metadata_def
  by (intro extracted_okI) simp_all

interpretation kaggle: log_parser kaggle_parse "''Kaggle''"
proof unfold_locales
  show "kaggle_parse L now raw = Some (Ok a) \<Longrightarrow> extracted_ok ''Kaggle'' raw a" for L now raw a
    using kaggle_build_ok extracted_okI [of OTHER UNKNOWN "''Kaggle''" raw]
    by (auto simp: kaggle_parse_def Let_def kaggle_parse_syslog_def kaggle_parse_csv_def
        kaggle_metadata_def split: if_splits)
  show "ascii_str raw \<Longrightarrow> kaggle_parse L now raw \<noteq> None" for L now raw
    by (simp add: kaggle_parse_def Let_def)
qed

end
