(* ===== verification/Palo_Alto.thy ===== *)
theory Palo_Alto
  imports Extractor_Common
begin

text \<open>
  The PAN-OS extractor of \<open>ulpf-core/src/parser/extractors/paloalto.rs\<close>: the syslog prefix, the base
  offset of the TRAFFIC column (a signed index) and the mapping of the columns.
\<close>

definition strip_syslog_prefix :: "string \<Rightarrow> string" where
  "strip_syslog_prefix raw =
     (let trimmed = trim raw in
      if starts_with trimmed ''1,20'' then trimmed
      else case find_str trimmed '' 1,20'' of
        Some pos \<Rightarrow> drop (pos + 1) trimmed
      | None \<Rightarrow>
         (case find_str trimmed '': 1,20'' of
            Some pos \<Rightarrow> drop (pos + 2) trimmed
          | None \<Rightarrow>
             (case find_str trimmed '',TRAFFIC,'' of
                Some traffic_pos \<Rightarrow>
                  (case rfind_idx (\<lambda>c. c = CHR '' '') (take traffic_pos trimmed) of
                     Some space_pos \<Rightarrow> drop (space_pos + 1) trimmed
                   | None \<Rightarrow> trimmed)
              | None \<Rightarrow> trimmed)))"

fun position :: "('a \<Rightarrow> bool) \<Rightarrow> 'a list \<Rightarrow> nat option" where
  "position P [] = None"
| "position P (x # xs) = (if P x then Some 0 else map_option Suc (position P xs))"

definition pan_get :: "string list \<Rightarrow> int \<Rightarrow> int \<Rightarrow> string option" where
  "pan_get columns base idx =
     (let actual = idx + base in
      if 0 \<le> actual \<and> nat actual < length columns
      then (let s = trim (columns ! nat actual) in if s = [] then None else Some s)
      else None)"

definition pan_disposition :: "string \<Rightarrow> string" where
  "pan_disposition action_str =
     (let a = to_ascii_lowercase action_str in
      if a = ''allow'' then ALLOWED
      else if a = ''deny'' then BLOCKED
      else if a = ''drop'' then DROPPED
      else if a \<in> {''reset-client'', ''reset-server'', ''reset-both''} then BLOCKED
      else UNKNOWN)"

definition pan_activity :: "string \<Rightarrow> string \<Rightarrow> u8" where
  "pan_activity subtype disp =
     (let s = to_ascii_lowercase subtype in
      if s = ''start'' then OPEN
      else if s = ''end'' then CLOSE
      else if s = ''drop'' \<or> s = ''deny'' then OTHER
      else if disp = ALLOWED then TRAFFIC_FLOW
      else OTHER)"

definition pan_unmapped :: "(nat \<Rightarrow> string option) \<Rightarrow> string \<Rightarrow> (string, string) hash_map" where
  "pan_unmapped get subtype =
     (let put = (\<lambda>k v m. case v of Some x \<Rightarrow> hm_insert k x m | None \<Rightarrow> m);
          m = put ''session_id'' (get 22) (put ''serial'' (get 2) (put ''application'' (get 14)
                (put ''rule'' (get 11) [])))
      in if subtype \<noteq> [] then hm_insert ''subtype'' subtype m else m)"

definition palo_alto_build :: "parser_libs \<Rightarrow> int \<Rightarrow> string \<Rightarrow> string list \<Rightarrow> network_activity" where
  "palo_alto_build L now_ms raw columns =
     (let traffic_idx = unwrap_or 3 (position (\<lambda>f. eq_ignore_ascii_case f ''TRAFFIC'') columns);
          base = int traffic_idx - 3;
          get = (\<lambda>i :: nat. pan_get columns base (int i));
          receive_time = get 1;
          subtype = unwrap_or [] (get 4);
          src_port = Option.bind (get 24) parse_u16;
          dst_port = Option.bind (get 25) parse_u16;
          proto_str = unwrap_or [] (get 29);
          action_str = unwrap_or [] (get 30);
          bytes_sent = Option.bind (get 32) parse_u64;
          bytes_rcvd = Option.bind (get 33) parse_u64;
          packets = Option.bind (get 34) parse_u64;
          event_time = (case receive_time of
              Some rt \<Rightarrow> parse_palo_alto_time_or_fallback L rt now_ms
            | None \<Rightarrow> now_ms);
          proto_name = (if proto_str \<noteq> [] then Some (to_ascii_uppercase proto_str) else None);
          proto_num = Option.bind proto_name protocol_num_from_name;
          disp = pan_disposition action_str;
          act_id = pan_activity subtype disp;
          traffic = (if bytes_sent \<noteq> None \<or> bytes_rcvd \<noteq> None \<or> packets \<noteq> None
                     then Some (traffic_new bytes_rcvd bytes_sent None packets) else None)
      in with_unmapped
           (network_activity_new act_id event_time disp
              (endpoint_new (get 7) src_port (get 18) (get 16))
              (endpoint_new (get 8) dst_port (get 19) (get 17))
              (connection_info_new proto_num proto_name None) traffic
              (metadata_new (product_new ''Palo Alto Networks'' ''PAN-OS'' None) raw [] [] now_ms))
           (pan_unmapped get subtype))"

definition palo_alto_parse :: extractor where
  "palo_alto_parse L now_ms raw =
     (let columns = split_csv (strip_syslog_prefix raw) in
      if length columns < 10 then
        Some (Err (''Palo Alto log does not have enough CSV fields (found '' @ show_nat (length columns) @
                   ''): '' @ raw))
      else Some (Ok (palo_alto_build L now_ms raw columns)))"

subsection \<open>The contract\<close>

lemma pan_disposition_range [simp]: "pan_disposition a \<in> dispositions"
  unfolding pan_disposition_def Let_def by (intro if_mem) simp_all

lemma pan_activity_range [simp]: "pan_activity s d \<in> activities"
  unfolding pan_activity_def Let_def by (intro if_mem) simp_all

lemma palo_alto_build_ok: "extracted_ok ''Palo Alto Networks'' raw (palo_alto_build L now raw columns)"
  unfolding palo_alto_build_def Let_def extracted_ok_unmapped by (intro extracted_okI) simp_all

interpretation palo_alto: log_parser palo_alto_parse "''Palo Alto Networks''"
  by unfold_locales (auto simp: palo_alto_parse_def Let_def palo_alto_build_ok split: if_splits)

lemma palo_alto_error_iff:
  "(\<exists>e. palo_alto_parse L now raw = Some (Err e)) \<longleftrightarrow> length (split_csv (strip_syslog_prefix raw)) < 10"
  by (simp add: palo_alto_parse_def Let_def)

end
