(* ===== verification/Pf_Sense.thy ===== *)
theory Pf_Sense
  imports Extractor_Common
begin

text \<open>
  The pfSense filterlog extractor of \<open>ulpf-core/src/parser/extractors/pfsense.rs\<close>: the CSV part behind
  \<open>filterlog...:\<close>, the IPv4 and the IPv6 column layouts, and the mapping.
\<close>

definition pf_csv_part :: "string \<Rightarrow> string" where
  "pf_csv_part raw =
     (case find_str raw ''filterlog'' of
        Some fl_pos \<Rightarrow>
          (let sub = drop fl_pos raw in
           case find_idx (\<lambda>c. c = CHR '':'') sub of
             Some colon_pos \<Rightarrow> trim (drop (colon_pos + 1) sub)
           | None \<Rightarrow> trim raw)
      | None \<Rightarrow> trim raw)"

record pf_addr =
  pf_src_ip :: "string option"
  pf_dst_ip :: "string option"
  pf_src_port :: "u16 option"
  pf_dst_port :: "u16 option"
  pf_proto_num :: "u8 option"
  pf_proto_name :: "string option"

definition pf_layout :: "string list \<Rightarrow> string \<Rightarrow> pf_addr" where
  "pf_layout columns ip_version =
     (let col = nth_opt columns;
          port = (\<lambda>i. Option.bind (col i) parse_u16)
      in if ip_version = ''4'' then
           (let num = Option.bind (col 15) parse_u8;
                name = map_option to_ascii_uppercase (col 16)
            in \<lparr>pf_src_ip = col 18, pf_dst_ip = col 19, pf_src_port = port 20, pf_dst_port = port 21,
                pf_proto_num = or_else num (Option.bind name protocol_num_from_name),
                pf_proto_name = name\<rparr>)
         else if ip_version = ''6'' then
           (let name = map_option to_ascii_uppercase (col 12)
            in \<lparr>pf_src_ip = col 15, pf_dst_ip = col 16, pf_src_port = port 17, pf_dst_port = port 18,
                pf_proto_num = or_else (Option.bind name protocol_num_from_name)
                                       (Option.bind (col 13) parse_u8),
                pf_proto_name = name\<rparr>)
         else \<lparr>pf_src_ip = None, pf_dst_ip = None, pf_src_port = None, pf_dst_port = None,
               pf_proto_num = None, pf_proto_name = None\<rparr>)"

definition pf_disposition :: "string \<Rightarrow> string" where
  "pf_disposition action =
     (let a = to_ascii_lowercase action in
      if a = ''pass'' then ALLOWED
      else if a = ''block'' \<or> a = ''reject'' then BLOCKED
      else if a = ''drop'' then DROPPED
      else UNKNOWN)"

definition pf_direction :: "string \<Rightarrow> string option" where
  "pf_direction direction =
     (let d = to_ascii_lowercase direction in
      if d = ''in'' then Some ''Inbound'' else if d = ''out'' then Some ''Outbound'' else None)"

definition pf_unmapped :: "string \<Rightarrow> string \<Rightarrow> string \<Rightarrow> string \<Rightarrow> (string, string) hash_map" where
  "pf_unmapped rule_num tracker reason ip_version =
     (let put = (\<lambda>k v m. if v \<noteq> [] then hm_insert k v m else m)
      in hm_insert ''ip_version'' ip_version
           (put ''reason'' reason (put ''tracker'' tracker (put ''rule_number'' rule_num []))))"

definition pf_build :: "int \<Rightarrow> string \<Rightarrow> string list \<Rightarrow> network_activity" where
  "pf_build now_ms raw columns =
     (let col = (\<lambda>i. unwrap_or [] (nth_opt columns i));
          ip_version = unwrap_or ''4'' (nth_opt columns 8);
          addr = pf_layout columns ip_version;
          disp = pf_disposition (col 6);
          act_id = (if disp = ALLOWED then TRAFFIC_FLOW else OTHER);
          interface = (if col 4 \<noteq> [] then Some (col 4) else None)
      in with_unmapped
           (network_activity_new act_id now_ms disp
              (endpoint_new (pf_src_ip addr) (pf_src_port addr) interface None)
              (endpoint_new (pf_dst_ip addr) (pf_dst_port addr) None None)
              (connection_info_new (pf_proto_num addr) (pf_proto_name addr) (pf_direction (col 7)))
              None
              (metadata_new (product_new ''Netgate'' ''pfSense filterlog'' None) raw [] [] now_ms))
           (pf_unmapped (col 0) (col 3) (col 5) ip_version))"

definition pfsense_parse :: extractor where
  "pfsense_parse L now_ms raw =
     (let columns = split_csv (pf_csv_part raw) in
      if length columns < 9 then
        Some (Err (''pfSense filterlog has insufficient fields (found '' @ show_nat (length columns) @
                   ''): '' @ raw))
      else Some (Ok (pf_build now_ms raw columns)))"

subsection \<open>The contract\<close>

lemma pf_disposition_range [simp]: "pf_disposition a \<in> dispositions"
  unfolding pf_disposition_def Let_def by (intro if_mem) simp_all

lemma pf_build_ok: "extracted_ok ''Netgate'' raw (pf_build now raw columns)"
  unfolding pf_build_def Let_def extracted_ok_unmapped by (intro extracted_okI if_mem) simp_all

interpretation pfsense: log_parser pfsense_parse "''Netgate''"
  by unfold_locales (auto simp: pfsense_parse_def Let_def pf_build_ok split: if_splits)

lemma pfsense_error_iff:
  "(\<exists>e. pfsense_parse L now raw = Some (Err e)) \<longleftrightarrow> length (split_csv (pf_csv_part raw)) < 9"
  by (simp add: pfsense_parse_def Let_def)

text \<open>
  The two layouts address the columns the format documents: in a record of the IPv4 layout the addresses and ports
  are the four columns behind the packet length.
\<close>

lemma pf_layout_v4:
  assumes "length pre = 18" "parse_u8 (pre ! 15) = Some n"
  shows "pf_layout (pre @ [src, dst, show_nat (unat (sp :: u16)), show_nat (unat (dp :: u16))] @ post) ''4'' =
    \<lparr>pf_src_ip = Some src, pf_dst_ip = Some dst, pf_src_port = Some sp, pf_dst_port = Some dp,
     pf_proto_num = Some n, pf_proto_name = Some (to_ascii_uppercase (pre ! 16))\<rparr>"
  using assms by (simp add: pf_layout_def nth_append Let_def)

lemma pf_layout_v6:
  assumes "length pre = 15" "protocol_num_from_name (to_ascii_uppercase (pre ! 12)) = Some n"
  shows "pf_layout (pre @ [src, dst, show_nat (unat (sp :: u16)), show_nat (unat (dp :: u16))] @ post) ''6'' =
    \<lparr>pf_src_ip = Some src, pf_dst_ip = Some dst, pf_src_port = Some sp, pf_dst_port = Some dp,
     pf_proto_num = Some n, pf_proto_name = Some (to_ascii_uppercase (pre ! 12))\<rparr>"
  using assms by (simp add: pf_layout_def nth_append Let_def)

end
