(* ===== verification/Suricata.thy ===== *)
theory Suricata
  imports Extractor_Common
begin

text \<open>
  The Suricata EVE extractor of \<open>ulpf-core/src/parser/extractors/suricata.rs\<close> over the values of serde_json:
  the flow object first, the alert object last, which overrides what the flow decided. A port is read as a
  64-bit number and cast to 16 bits.
\<close>

definition json_str :: "json \<Rightarrow> string \<Rightarrow> string option" where
  "json_str v k = Option.bind (json_get k v) json_as_str"

definition json_u64 :: "json \<Rightarrow> string \<Rightarrow> u64 option" where
  "json_u64 v k = Option.bind (json_get k v) json_as_u64"

definition json_object_of :: "json \<Rightarrow> string \<Rightarrow> json option" where
  "json_object_of v k = Option.bind (json_get k v) json_as_object"

definition json_port :: "json \<Rightarrow> string \<Rightarrow> u16 option" where
  "json_port v k = map_option ucast (json_u64 v k)"

definition put_opt ::
  "string \<Rightarrow> string option \<Rightarrow> (string, string) hash_map \<Rightarrow> (string, string) hash_map" where
  "put_opt k v m = (case v of Some x \<Rightarrow> hm_insert k x m | None \<Rightarrow> m)"

definition flow_traffic :: "json option \<Rightarrow> traffic option" where
  "flow_traffic flow = Option.bind flow (\<lambda>f.
     let bytes_toserver = json_u64 f ''bytes_toserver''; bytes_toclient = json_u64 f ''bytes_toclient'';
         pkts_toserver = json_u64 f ''pkts_toserver''; pkts_toclient = json_u64 f ''pkts_toclient''
     in if bytes_toserver \<noteq> None \<or> bytes_toclient \<noteq> None \<or> pkts_toserver \<noteq> None \<or> pkts_toclient \<noteq> None
        then Some (traffic_new bytes_toclient bytes_toserver pkts_toclient pkts_toserver)
        else None)"

definition flow_disposition :: "json option \<Rightarrow> string" where
  "flow_disposition flow =
     (case Option.bind flow (\<lambda>f. json_str f ''action'') of
        Some flow_action \<Rightarrow> if eq_ignore_ascii_case flow_action ''drop'' then DROPPED else ALLOWED
      | None \<Rightarrow> ALLOWED)"

definition flow_state :: "json option \<Rightarrow> string option" where
  "flow_state flow = Option.bind flow (\<lambda>f. json_str f ''state'')"

definition flow_activity :: "json option \<Rightarrow> u8" where
  "flow_activity flow =
     (case flow_state flow of
        Some state \<Rightarrow>
          (let s = to_ascii_lowercase state in
           if s = ''closed'' then CLOSE else if s = ''new'' then OPEN else TRAFFIC_FLOW)
      | None \<Rightarrow> TRAFFIC_FLOW)"

definition alert_disposition :: "string option \<Rightarrow> string" where
  "alert_disposition action =
     (case action of
        Some a' \<Rightarrow>
          (let a = to_ascii_lowercase a' in
           if a = ''blocked'' \<or> a = ''reject'' then BLOCKED
           else if a = ''drop'' \<or> a = ''dropped'' then DROPPED
           else if a = ''allowed'' \<or> a = ''pass'' then ALLOWED
           else BLOCKED)
      | None \<Rightarrow> BLOCKED)"

definition alert_unmapped ::
  "parser_libs \<Rightarrow> json \<Rightarrow> (string, string) hash_map \<Rightarrow> (string, string) hash_map" where
  "alert_unmapped L alert m =
     put_opt ''alert_severity'' (map_option (pl_json_show L) (json_get ''severity'' alert))
       (put_opt ''alert_category'' (json_str alert ''category'')
          (put_opt ''alert_signature'' (json_str alert ''signature'')
             (put_opt ''alert_action'' (json_str alert ''action'') m)))"

definition suricata_unmapped :: "parser_libs \<Rightarrow> json \<Rightarrow> (string, string) hash_map" where
  "suricata_unmapped L val =
     (let event_type = unwrap_or ''unknown'' (json_str val ''event_type'');
          flow = json_object_of val ''flow'';
          m = put_opt ''flow_state'' (flow_state flow)
                (put_opt ''flow_id'' (map_option (pl_json_show L) (json_get ''flow_id'' val))
                   (hm_insert ''event_type'' event_type []))
      in case json_object_of val ''alert'' of
           Some alert \<Rightarrow> alert_unmapped L alert m
         | None \<Rightarrow> m)"

definition suricata_disposition :: "json \<Rightarrow> string" where
  "suricata_disposition val =
     (case json_object_of val ''alert'' of
        Some alert \<Rightarrow> alert_disposition (json_str alert ''action'')
      | None \<Rightarrow> flow_disposition (json_object_of val ''flow''))"

definition suricata_activity :: "json \<Rightarrow> u8" where
  "suricata_activity val =
     (case json_object_of val ''alert'' of
        Some alert \<Rightarrow> OTHER
      | None \<Rightarrow> flow_activity (json_object_of val ''flow''))"

definition suricata_build :: "parser_libs \<Rightarrow> int \<Rightarrow> string \<Rightarrow> json \<Rightarrow> network_activity" where
  "suricata_build L now_ms raw val =
     (let event_time = (case json_str val ''timestamp'' of
              Some ts \<Rightarrow> parse_rfc3339_or_fallback L ts now_ms
            | None \<Rightarrow> now_ms);
          proto_name = map_option to_ascii_uppercase (json_str val ''proto'');
          proto_num = Option.bind proto_name protocol_num_from_name
      in with_unmapped
           (network_activity_new (suricata_activity val) event_time (suricata_disposition val)
              (endpoint_new (json_str val ''src_ip'') (json_port val ''src_port'') (json_str val ''in_iface'') None)
              (endpoint_new (json_str val ''dest_ip'') (json_port val ''dest_port'') None None)
              (connection_info_new proto_num proto_name None)
              (flow_traffic (json_object_of val ''flow''))
              (metadata_new (product_new ''OISF'' ''Suricata'' None) raw [] [] now_ms))
           (suricata_unmapped L val))"

definition json_slice :: "string \<Rightarrow> string" where
  "json_slice raw = (case find_idx (\<lambda>c. c = CHR ''{'') raw of Some pos \<Rightarrow> drop pos raw | None \<Rightarrow> trim raw)"

definition suricata_parse :: extractor where
  "suricata_parse L now_ms raw =
     (case pl_json_parse L (json_slice raw) of
        Inl e \<Rightarrow> Some (Err (''Failed to parse Suricata JSON: '' @ e @ '' in '' @ raw))
      | Inr val \<Rightarrow> Some (Ok (suricata_build L now_ms raw val)))"

subsection \<open>The contract\<close>

lemma alert_disposition_range [simp]: "alert_disposition a \<in> dispositions"
  unfolding alert_disposition_def Let_def by (cases a) (simp_all only: option.case, (intro if_mem | simp)+)

lemma flow_disposition_range [simp]: "flow_disposition f \<in> dispositions"
  unfolding flow_disposition_def by (simp split: option.split)

lemma flow_activity_range [simp]: "flow_activity f \<in> activities"
  unfolding flow_activity_def Let_def by (cases "flow_state f") (simp_all only: option.case, (intro if_mem | simp)+)

lemma suricata_ranges [simp]: "suricata_disposition v \<in> dispositions" "suricata_activity v \<in> activities"
  by (simp_all add: suricata_disposition_def suricata_activity_def split: option.split)

lemma suricata_build_ok: "extracted_ok ''OISF'' raw (suricata_build L now raw val)"
  unfolding suricata_build_def Let_def extracted_ok_unmapped by (intro extracted_okI) simp_all

interpretation suricata: log_parser suricata_parse "''OISF''"
  by unfold_locales (auto simp: suricata_parse_def suricata_build_ok split: sum.splits)

text \<open>The cast keeps a port below \<open>2 ^ 16\<close> and reduces every other number modulo \<open>2 ^ 16\<close>.\<close>

lemma json_port_mod: "json_u64 v k = Some n \<Longrightarrow> json_port v k = Some p \<Longrightarrow> unat p = unat n mod 65536"
  by (auto simp: json_port_def unsigned_ucast_eq take_bit_eq_mod)

end
