(* ===== verification/Universal_Parser.thy ===== *)
theory Universal_Parser
  imports Lru_Cache Cisco_Asa Fortigate Kaggle Palo_Alto Pf_Sense Suricata
begin

text \<open>
  The orchestrator of \<open>ulpf-core/src/parser/mod.rs\<close>: classification, dispatch to the extractor, the stamp
  every event gets (raw line, digest, event id, ingest time), the lossless variants and the cached variants over the
  signature cache. Clock readings and fresh UUIDs of one call are the record \<open>parse_env\<close>; the second id and
  the second time are those the lossless variant takes when parsing failed. The result \<open>None\<close> is a panic.
\<close>

record parse_env =
  en_event_id :: string
  en_ingest_time :: int
  en_now_ms :: int
  en_err_event_id :: string
  en_err_now_ms :: int

definition compute_sha256 :: "parser_libs \<Rightarrow> string \<Rightarrow> string" where
  "compute_sha256 L raw = pl_hex L (pl_sha256 L (bytes_of raw))"

fun extract_with :: "vendor_format \<Rightarrow> extractor" where
  "extract_with CiscoAsa = cisco_parse"
| "extract_with Fortinet = fortigate_parse"
| "extract_with PaloAlto = palo_alto_parse"
| "extract_with Suricata = suricata_parse"
| "extract_with PfSense = pfsense_parse"
| "extract_with KaggleFirewall = kaggle_parse"
| "extract_with Unknown = (\<lambda>L now_ms raw. Some (Err (''Unrecognized log format for raw line: '' @ raw)))"

definition stamp :: "parser_libs \<Rightarrow> parse_env \<Rightarrow> string \<Rightarrow> network_activity \<Rightarrow> network_activity" where
  "stamp L E raw a = a\<lparr>na_metadata := (na_metadata a)\<lparr>
     md_raw_data := raw, md_raw_hash := compute_sha256 L raw,
     md_event_id := en_event_id E, md_ingest_time := en_ingest_time E\<rparr>\<rparr>"

definition parse :: "parser_libs \<Rightarrow> parse_env \<Rightarrow> string \<Rightarrow> (network_activity, string) comp" where
  "parse L E raw =
     (let format = classify (pl_ac L) raw in
      try_bind (extract_with format L (en_now_ms E) raw) (\<lambda>activity. Some (Ok (stamp L E raw activity))))"

definition unparsed_event :: "parser_libs \<Rightarrow> parse_env \<Rightarrow> string \<Rightarrow> string \<Rightarrow> network_activity" where
  "unparsed_event L E raw err =
     with_unmapped
       (network_activity_new OTHER (en_err_now_ms E) UNKNOWN endpoint_default endpoint_default
          connection_info_default None
          (metadata_new (product_new ''Unknown'' ''Generic / Unparsed'' None) raw (compute_sha256 L raw)
             (en_err_event_id E) (en_err_now_ms E)))
       (hm_insert ''parse_error'' err [])"

definition or_unparsed ::
  "parser_libs \<Rightarrow> parse_env \<Rightarrow> string \<Rightarrow> (network_activity, string) result \<Rightarrow> network_activity" where
  "or_unparsed L E raw r = (case r of Inr activity \<Rightarrow> activity | Inl err \<Rightarrow> unparsed_event L E raw err)"

definition parse_lossless :: "parser_libs \<Rightarrow> parse_env \<Rightarrow> string \<Rightarrow> network_activity option" where
  "parse_lossless L E raw = map_option (or_unparsed L E raw) (parse L E raw)"

definition parse_with_format ::
  "parser_libs \<Rightarrow> parse_env \<Rightarrow> string \<Rightarrow> vendor_format \<Rightarrow> (network_activity, string) comp" where
  "parse_with_format L E raw format =
     try_bind (extract_with format L (en_now_ms E) raw) (\<lambda>activity. Some (Ok (stamp L E raw activity)))"

definition cached_format ::
  "parser_libs \<Rightarrow> string \<Rightarrow> signature_cache \<Rightarrow> (vendor_format \<times> signature_cache) option" where
  "cached_format L raw cache = do {
     sig_hash \<leftarrow> compute_signature_hash raw;
     (hit, cache1) \<leftarrow> cache_get sig_hash cache;
     (case hit of
        Some fmt \<Rightarrow> Some (fmt, cache1)
      | None \<Rightarrow>
          (let fmt = classify (pl_ac L) raw in
           if fmt \<noteq> Unknown then map_option (Pair fmt) (cache_insert sig_hash fmt cache1)
           else Some (fmt, cache1)))
   }"

definition parse_cached ::
  "parser_libs \<Rightarrow> parse_env \<Rightarrow> string \<Rightarrow> signature_cache \<Rightarrow>
     ((network_activity, string) result \<times> signature_cache) option" where
  "parse_cached L E raw cache = do {
     (format, cache') \<leftarrow> cached_format L raw cache;
     r \<leftarrow> parse_with_format L E raw format;
     Some (r, cache')
   }"

definition parse_cached_lossless ::
  "parser_libs \<Rightarrow> parse_env \<Rightarrow> string \<Rightarrow> signature_cache \<Rightarrow> (network_activity \<times> signature_cache) option" where
  "parse_cached_lossless L E raw cache =
     map_option (\<lambda>(r, cache'). (or_unparsed L E raw r, cache')) (parse_cached L E raw cache)"

subsection \<open>What every event carries\<close>

text \<open>The promise of the comments: the raw line, its digest and a schema-conforming event.\<close>

definition traceable :: "parser_libs \<Rightarrow> string \<Rightarrow> network_activity \<Rightarrow> bool" where
  "traceable L raw a \<longleftrightarrow> event_ok a \<and> md_raw_data (na_metadata a) = raw \<and>
     md_raw_hash (na_metadata a) = compute_sha256 L raw"

lemma event_ok_stamp [simp]: "event_ok (stamp L E raw a) = event_ok a"
  by (simp add: event_ok_def stamp_def)

lemma stamp_traceable [simp]: "traceable L raw (stamp L E raw a) = event_ok a"
  by (auto simp: traceable_def) (simp_all add: stamp_def)

lemma unparsed_traceable [simp]: "traceable L raw (unparsed_event L E raw err)"
  by (simp add: traceable_def unparsed_event_def event_ok_new) (simp add: metadata_new_def)

lemma extract_event_ok: "extract_with f L now raw = Some (Ok a) \<Longrightarrow> event_ok a"
  using cisco.parse_event_ok fortigate.parse_event_ok palo_alto.parse_event_ok suricata.parse_event_ok
    pfsense.parse_event_ok kaggle.parse_event_ok
  by (cases f) auto

lemma extract_ascii [panic_free]: "ascii_str raw \<Longrightarrow> extract_with f L now raw \<noteq> None"
  using cisco.parse_ascii fortigate.parse_ascii palo_alto.parse_ascii suricata.parse_ascii
    pfsense.parse_ascii kaggle.parse_ascii
  by (cases f) auto

lemma extract_vendor: "extract_with f L now raw = Some (Ok a) \<Longrightarrow>
    map_of [(CiscoAsa, ''Cisco''), (Fortinet, ''Fortinet''), (PaloAlto, ''Palo Alto Networks''),
            (Suricata, ''OISF''), (PfSense, ''Netgate''), (KaggleFirewall, ''Kaggle'')] f =
      Some (pr_vendor_name (md_product (na_metadata a)))"
  using cisco.parse_vendor fortigate.parse_vendor palo_alto.parse_vendor suricata.parse_vendor
    pfsense.parse_vendor kaggle.parse_vendor
  by (cases f) auto

lemma parse_is_with_format: "parse L E raw = parse_with_format L E raw (classify (pl_ac L) raw)"
  by (simp add: parse_def parse_with_format_def)

lemma parse_with_format_traceable: "parse_with_format L E raw f = Some (Ok a) \<Longrightarrow> traceable L raw a"
  using extract_event_ok by (auto simp: parse_with_format_def ok_iff)

lemma parse_with_format_ascii [panic_free]: "ascii_str raw \<Longrightarrow> parse_with_format L E raw f \<noteq> None"
  using extract_ascii [of raw f L "en_now_ms E"]
  by (auto simp: parse_with_format_def try_bind_def split: option.split sum.split)

lemma or_unparsed_traceable:
  "(\<And>a. r = Ok a \<Longrightarrow> traceable L raw a) \<Longrightarrow> traceable L raw (or_unparsed L E raw r)"
  by (cases r) (simp_all add: or_unparsed_def)

lemma parse_lossless_traceable: "parse_lossless L E raw = Some a \<Longrightarrow> traceable L raw a"
  by (auto simp: parse_lossless_def parse_is_with_format
      intro: or_unparsed_traceable parse_with_format_traceable)

subsection \<open>The cached variants\<close>

text \<open>A cache is coherent for a set of lines when what it holds for their signatures is their classification.\<close>

definition coherent :: "parser_libs \<Rightarrow> string set \<Rightarrow> signature_cache \<Rightarrow> bool" where
  "coherent L S c \<longleftrightarrow> cache_ok c \<and>
     (\<forall>raw \<in> S. \<forall>k f. compute_signature_hash raw = Some k \<longrightarrow> cache_peek c k = Some f \<longrightarrow>
        f = classify (pl_ac L) raw)"

text \<open>
  Lines that never share a signature across formats: for them the cache is transparent.
\<close>

definition separated :: "parser_libs \<Rightarrow> string set \<Rightarrow> bool" where
  "separated L S \<longleftrightarrow> (\<forall>r \<in> S. \<forall>q \<in> S. compute_signature_hash r = compute_signature_hash q \<longrightarrow>
     classify (pl_ac L) r = classify (pl_ac L) q)"

lemma cache_counters [simp]:
  "cache_ok (c\<lparr>lc_hits := h\<rparr>) = cache_ok c" "cache_ok (c\<lparr>lc_misses := h\<rparr>) = cache_ok c"
  "cache_peek (c\<lparr>lc_hits := h\<rparr>) k = cache_peek c k" "cache_peek (c\<lparr>lc_misses := h\<rparr>) k = cache_peek c k"
  by (simp_all add: cache_ok_def cache_peek_def shard_idx_def)

lemma cache_insert_some:
  "cache_ok c \<Longrightarrow> \<exists>c'. cache_insert k v c = Some c' \<and> cache_ok c' \<and> cache_peek c' k = Some v \<and>
     (\<forall>l w. l \<noteq> k \<longrightarrow> cache_peek c' l = Some w \<longrightarrow> cache_peek c l = Some w)"
  by (rule cache_insert_props) blast+

lemma cached_format_coherent:
  assumes "coherent L S c" "separated L S" "raw \<in> S" "compute_signature_hash raw = Some k"
  shows "\<exists>c'. cached_format L raw c = Some (classify (pl_ac L) raw, c') \<and> coherent L S c'"
proof (cases "cache_peek c k")
  case (Some f)
  then show ?thesis using assms cache_get_eq [of c k]
    by (auto simp: cached_format_def coherent_def)
next
  case None
  let ?c1 = "c\<lparr>lc_misses := lc_misses c + 1\<rparr>" and ?f = "classify (pl_ac L) raw"
  have ok: "cache_ok c" using assms(1) by (simp add: coherent_def)
  then have ok1: "cache_ok ?c1" by simp
  have get: "cache_get k c = Some (None, ?c1)" using None cache_get_eq [OF ok, of k] by simp
  obtain c' where c': "cache_insert k ?f ?c1 = Some c'" "cache_ok c'" "cache_peek c' k = Some ?f"
    "\<And>l w. l \<noteq> k \<Longrightarrow> cache_peek c' l = Some w \<Longrightarrow> cache_peek ?c1 l = Some w"
    using cache_insert_some [OF ok1, of k ?f] by auto
  have "coherent L S c'" unfolding coherent_def
  proof (intro conjI ballI allI impI)
    fix q l f
    assume q: "q \<in> S" "compute_signature_hash q = Some l" "cache_peek c' l = Some f"
    show "f = classify (pl_ac L) q"
    proof (cases "l = k")
      case True
      then have "classify (pl_ac L) q = ?f" using assms q by (metis separated_def)
      then show ?thesis using True q c'(3) by simp
    next
      case False
      then have "cache_peek c l = Some f" using c'(4) q by simp
      then show ?thesis using assms(1) q by (simp add: coherent_def)
    qed
  qed (rule c'(2))
  moreover have "coherent L S ?c1" using assms(1) by (simp add: coherent_def)
  ultimately show ?thesis using assms(4) get c'(1) by (auto simp: cached_format_def Let_def)
qed

text \<open>Formats that reach the cache come from the classifier.\<close>

lemma cached_format_ok:
  assumes "cache_ok c" "cached_format L raw c = Some (f, c')"
  shows "cache_ok c' \<and> (f = classify (pl_ac L) raw \<or>
    (\<exists>k. compute_signature_hash raw = Some k \<and> cache_peek c k = Some f))"
proof -
  obtain k where k: "compute_signature_hash raw = Some k"
    using assms(2) by (auto simp: cached_format_def Option.bind_eq_Some_conv)
  let ?c1 = "c\<lparr>lc_misses := lc_misses c + 1\<rparr>"
  have ok1: "cache_ok ?c1" using assms(1) by simp
  obtain c2 where "cache_insert k (classify (pl_ac L) raw) ?c1 = Some c2" "cache_ok c2"
    using cache_insert_some [OF ok1, of k "classify (pl_ac L) raw"] by blast
  then show ?thesis using assms k cache_get_eq [OF assms(1), of k]
    by (cases "cache_peek c k") (auto simp: cached_format_def Let_def split: if_splits)
qed

lemma cached_format_ascii [panic_free]:
  assumes "cache_ok c" "ascii_str raw"
  shows "cached_format L raw c \<noteq> None"
proof -
  obtain k where k: "compute_signature_hash raw = Some k"
    using signature_ascii_total [of raw] assms(2) by (auto simp: ascii_str_def)
  let ?c1 = "c\<lparr>lc_misses := lc_misses c + 1\<rparr>"
  have ok1: "cache_ok ?c1" using assms(1) by simp
  obtain c2 where "cache_insert k (classify (pl_ac L) raw) ?c1 = Some c2"
    using cache_insert_some [OF ok1, of k "classify (pl_ac L) raw"] by blast
  then show ?thesis using k cache_get_eq [OF assms(1), of k]
    by (cases "cache_peek c k") (auto simp: cached_format_def Let_def)
qed

end
