(* ===== verification/Lru_Properties.thy ===== *)
theory Lru_Properties
  imports Lru_Cache
begin

text \<open>
  Properties of the signature cache: bounds and answers after any history of insertions, the eviction order, and
  the panic of the signature on multi-byte text.
\<close>

definition cache_puts :: "(u64 \<times> vendor_format) list \<Rightarrow> signature_cache \<Rightarrow> signature_cache" where
  "cache_puts kvs c = fold (\<lambda>(k, v). cache_put k v) kvs c"

text \<open>
  C24. After any history of insertions into a new cache of \<open>n\<close> shards, the cache holds at most
  \<open>n\<close> times its shard capacity (one, when the capacity is zero) of routes, and a lookup never panics and
  returns nothing or the format last inserted for exactly that signature.
\<close>
theorem cache_bounded_and_sound:
  assumes "cache_with_capacity n cap = Some c" "n < 2 ^ 64"
  shows "cache_ok (cache_puts kvs c) \<and>
    ls_entries_count (cache_stats (cache_puts kvs c)) \<le> n * max 1 cap \<and>
    (\<exists>r c'. cache_get k (cache_puts kvs c) = Some (r, c') \<and> (r = None \<or> r = map_of (rev kvs) k))"
proof -
  let ?c = "cache_puts kvs c"
  note new = cache_with_capacity_ok [OF assms]
  have ok: "cache_ok ?c" using new cache.puts_ok by (simp add: cache_puts_def)
  have shape: "length (lc_shards ?c) = n" "map sh_capacity (lc_shards ?c) = replicate n cap"
    using new cache_puts_shape [of c kvs] by (auto simp: cache_puts_def)
  then have "\<forall>s \<in> set (lc_shards ?c). sh_capacity s = cap"
    by (metis in_set_replicate list.set_map imageI)
  then have "\<forall>s \<in> set (lc_shards ?c). shard_len s \<le> max 1 cap"
    using ok by (auto simp: cache_ok_def shard_ok_def)
  from sum_list_bound [OF this] shape have "ls_entries_count (cache_stats ?c) \<le> n * max 1 cap"
    by (simp add: cache_stats_def Let_def)
  moreover have "cache_peek ?c k = None \<or> cache_peek ?c k = map_of (rev kvs) k"
    using cache.peek_history [of c kvs k] new by (cases "cache_peek ?c k") (auto simp: cache_puts_def)
  ultimately show ?thesis using ok cache_get_eq [OF ok, of k] by auto
qed

theorem cache_bounded_and_sound_witness:
  "\<exists>c. cache_with_capacity 2 1 = Some c \<and> cache_ok (cache_puts [(1, CiscoAsa), (3, PaloAlto)] c) \<and>
    ls_entries_count (cache_stats (cache_puts [(1, CiscoAsa), (3, PaloAlto)] c)) \<le> 2 * max 1 1 \<and>
    (\<exists>r c'. cache_get 3 (cache_puts [(1, CiscoAsa), (3, PaloAlto)] c) = Some (r, c') \<and>
       (r = None \<or> r = map_of (rev [(1, CiscoAsa), (3, PaloAlto)]) 3))"
proof -
  have "is_power_of_two 2" by code_simp
  then obtain c where c: "cache_with_capacity 2 1 = Some c" by (simp add: cache_with_capacity_def)
  from cache_bounded_and_sound [OF c, of "[(1, CiscoAsa), (3, PaloAlto)]" 3] c show ?thesis by auto
qed

text \<open>
  Eviction is first in, first out, not least recently used: inserting a new signature into a full shard
  removes the one inserted longest ago and nothing else, and a lookup changes only the counters, so it never saves an
  entry from eviction.
\<close>
theorem eviction_is_fifo:
  assumes "shard_ok s" "shard_get s k = None" "sh_capacity s \<le> shard_len s" "0 < shard_len s"
  shows "\<exists>oldest rest s'. sh_order s = oldest # rest \<and> shard_insert k v s = (True, s') \<and>
    sh_order s' = rest @ [k] \<and> shard_get s' oldest = None \<and> shard_get s' k = Some v \<and>
    (\<forall>l. l = oldest \<or> l = k \<or> shard_get s' l = shard_get s l) \<and>
    (\<forall>c j. cache_ok c \<longrightarrow> (\<exists>r c'. cache_get j c = Some (r, c') \<and> lc_shards c' = lc_shards c))"
proof -
  have "length (sh_order s) = shard_len s" using order_length [OF assms(1)] by (simp add: shard_len_def)
  then obtain oldest rest where o: "sh_order s = oldest # rest" using assms(4) by (cases "sh_order s") auto
  then have "oldest \<in> fst ` set (sh_entries s)" using assms(1) by (auto simp: shard_ok_def)
  then have "oldest \<noteq> k" using assms(2) by (auto simp: shard_get_def map_of_eq_None_keys)
  moreover have "cache_get j c = Some (r, c') \<Longrightarrow> cache_ok c \<Longrightarrow> lc_shards c' = lc_shards c" for c j r c'
    using cache_get_eq [of c j] by auto
  ultimately show ?thesis
    using o assms(2,3) cache_get_eq
    by (auto simp: shard_insert_def shard_get_def shard_len_def Let_def split: if_splits)
qed

definition full_shard :: shard where
  "full_shard = \<lparr>sh_capacity = 2, sh_entries = [(1, CiscoAsa), (2, PaloAlto)], sh_order = [1, 2]\<rparr>"

theorem eviction_is_fifo_witness:
  "\<exists>oldest rest s'. sh_order full_shard = oldest # rest \<and> shard_insert 3 PfSense full_shard = (True, s') \<and>
    sh_order s' = rest @ [3] \<and> shard_get s' oldest = None \<and> shard_get s' 3 = Some PfSense \<and>
    (\<forall>l. l = oldest \<or> l = 3 \<or> shard_get s' l = shard_get full_shard l) \<and>
    (\<forall>c j. cache_ok c \<longrightarrow> (\<exists>r c'. cache_get j c = Some (r, c') \<and> lc_shards c' = lc_shards c))"
  by (rule eviction_is_fifo)
    (auto simp: full_shard_def shard_ok_def hm_ok_def shard_len_def shard_get_def)

text \<open>
  The signature panics on text whose 96th byte is inside a character: a line with a multi-byte character
  across that boundary crashes every caller of the cache, before any parsing.
\<close>
theorem signature_panics_on_split_character:
  assumes "length a = 95" "cont_byte d"
  shows "compute_signature_hash (a @ c # d # rest) = None"
proof -
  have "\<not> is_char_boundary (a @ c # d # rest) 96"
    using assms by (simp add: is_char_boundary_def nth_append)
  then show ?thesis using assms by (simp add: compute_signature_hash_def slice_to_def)
qed

theorem signature_panics_on_split_character_witness:
  "utf8_valid (replicate 95 CHR ''x'' @ [CHR 0xC3, CHR 0xA9]) \<and>
   compute_signature_hash (replicate 95 CHR ''x'' @ CHR 0xC3 # CHR 0xA9 # []) = None"
proof
  show "utf8_valid (replicate 95 CHR ''x'' @ [CHR 0xC3, CHR 0xA9])" by code_simp
  show "compute_signature_hash (replicate 95 CHR ''x'' @ CHR 0xC3 # CHR 0xA9 # []) = None"
    by (rule signature_panics_on_split_character) (simp_all add: cont_byte_def)
qed

end
