(* ===== verification/Parser_Properties.thy ===== *)
theory Parser_Properties
  imports Universal_Parser Lru_Properties
begin

text \<open>
  Properties of the parser: no line is dropped, the cached variants agree with the plain ones as long as no signature
  is shared across formats (and what happens when one is), the classifier's order, the round trips of the tokenizers,
  and the inputs on which an extractor panics or misreads. The witnesses use \<open>test_parser_libs\<close>, whose
  automaton is \<open>leftmost_first\<close>.
\<close>

subsection \<open>Libraries to evaluate with\<close>

definition test_parser_libs :: parser_libs where
  "test_parser_libs =
     \<lparr>pl_ac = leftmost_first, pl_captures = (\<lambda>re s. None), pl_datetime = (\<lambda>s fmt. None),
      pl_rfc3339 = (\<lambda>s. None),
      pl_json_parse = (\<lambda>s. if s = ''{\"src_port\":65616}'' then Ok (JObject [(''src_port'', JPosInt 65616)])
                           else Err ''expected value''),
      pl_json_show = (\<lambda>v. []), pl_alphanumeric = (\<lambda>ch. False), pl_sha256 = (\<lambda>bs. take 4 bs),
      pl_hex = map (\<lambda>b. char_of (unat b))\<rparr>"

definition test_env :: parse_env where
  "test_env = \<lparr>en_event_id = ''id-1'', en_ingest_time = 7, en_now_ms = 7, en_err_event_id = ''id-2'', en_err_now_ms = 8\<rparr>"

subsection \<open>No line is dropped\<close>

lemma parse_error_recorded:
  "Option.bind (na_unmapped (unparsed_event L E raw err)) (\<lambda>m. map_of m ''parse_error'') = Some err"
  by (simp add: unparsed_event_def with_unmapped_def)

text \<open>
  C12. On ASCII text the lossless parser never panics and always returns an event: it is a conforming
  network activity holding the raw line and its digest, and it is either the extractor's event or the fallback
  event that records the parse error.
\<close>
theorem lossless_on_ascii:
  assumes "ascii_str raw"
  shows "\<exists>a. parse_lossless L E raw = Some a \<and> traceable L raw a \<and>
    (parse L E raw = Some (Ok a) \<or>
     (\<exists>err. parse L E raw = Some (Err err) \<and> a = unparsed_event L E raw err \<and>
        Option.bind (na_unmapped a) (\<lambda>m. map_of m ''parse_error'') = Some err))"
proof -
  obtain r where r: "parse L E raw = Some r"
    using parse_with_format_ascii [OF assms, of L E "classify (pl_ac L) raw"] by (auto simp: parse_is_with_format)
  then have a: "parse_lossless L E raw = Some (or_unparsed L E raw r)" by (simp add: parse_lossless_def)
  then show ?thesis using r parse_lossless_traceable [OF a] parse_error_recorded
    by (cases r) (auto simp: or_unparsed_def)
qed

theorem lossless_on_ascii_witness:
  "\<exists>a. parse_lossless test_parser_libs test_env ''%ASA-6-302013: Built'' = Some a \<and>
    traceable test_parser_libs ''%ASA-6-302013: Built'' a \<and>
    (parse test_parser_libs test_env ''%ASA-6-302013: Built'' = Some (Ok a) \<or>
     (\<exists>err. parse test_parser_libs test_env ''%ASA-6-302013: Built'' = Some (Err err) \<and>
        a = unparsed_event test_parser_libs test_env ''%ASA-6-302013: Built'' err \<and>
        Option.bind (na_unmapped a) (\<lambda>m. map_of m ''parse_error'') = Some err))"
  by (rule lossless_on_ascii) (simp add: ascii_str_def)

subsection \<open>The cached parser\<close>

text \<open>A run of the cached lossless parser over lines, threading the cache.\<close>

fun cached_run ::
  "parser_libs \<Rightarrow> (parse_env \<times> string) list \<Rightarrow> signature_cache \<Rightarrow> network_activity list option" where
  "cached_run L [] c = Some []"
| "cached_run L ((E, raw) # evs) c =
     (case parse_cached_lossless L E raw c of
        None \<Rightarrow> None
      | Some (a, c') \<Rightarrow> map_option (Cons a) (cached_run L evs c'))"

lemma parse_cached_lossless_coherent:
  assumes "coherent L S c" "separated L S" "raw \<in> S" "compute_signature_hash raw \<noteq> None"
  shows "\<exists>c'. parse_cached_lossless L E raw c = map_option (\<lambda>a. (a, c')) (parse_lossless L E raw) \<and> coherent L S c'"
proof -
  obtain k where "compute_signature_hash raw = Some k" using assms(4) by blast
  from cached_format_coherent [OF assms(1-3) this] obtain c' where c':
    "cached_format L raw c = Some (classify (pl_ac L) raw, c')" "coherent L S c'" by blast
  have "parse_cached_lossless L E raw c = map_option (\<lambda>a. (a, c')) (parse_lossless L E raw)"
    using c'(1) by (cases "parse L E raw")
      (simp_all add: parse_cached_lossless_def parse_cached_def parse_lossless_def parse_is_with_format)
  then show ?thesis using c'(2) by blast
qed

lemma cached_run_coherent:
  "coherent L S c \<Longrightarrow> separated L S \<Longrightarrow> snd ` set evs \<subseteq> S \<Longrightarrow>
     \<forall>raw \<in> S. compute_signature_hash raw \<noteq> None \<Longrightarrow>
     cached_run L evs c = map_opt (\<lambda>(E, raw). parse_lossless L E raw) evs"
proof (induction L evs c rule: cached_run.induct)
  case (2 L E raw evs c)
  then obtain c' where "parse_cached_lossless L E raw c = map_option (\<lambda>a. (a, c')) (parse_lossless L E raw)"
    "coherent L S c'" using parse_cached_lossless_coherent [of L S c raw E] by auto
  then show ?case using 2 by (cases "parse_lossless L E raw") simp_all
qed simp

text \<open>
  C13. The cache is transparent on lines that share no signature across formats: from a new cache, the
  cached lossless parser returns for every line of a run exactly what the plain lossless parser returns, whatever is
  evicted on the way.
\<close>
theorem cached_run_transparent:
  assumes "cache_new = Some c" "separated L (snd ` set evs)"
    and "\<forall>raw \<in> snd ` set evs. compute_signature_hash raw \<noteq> None"
  shows "cached_run L evs c = map_opt (\<lambda>(E, raw). parse_lossless L E raw) evs"
proof -
  have "cache_ok c" "\<forall>k. cache_peek c k = None"
    using cache_with_capacity_ok [of 16 512 c] assms(1) by (auto simp: cache_new_def)
  then have "coherent L (snd ` set evs) c" by (simp add: coherent_def)
  from cached_run_coherent [OF this assms(2) subset_refl assms(3)] show ?thesis .
qed

lemma asa_lines:
  "classify leftmost_first ''%ASA-6-302013: Built'' = CiscoAsa"
  "classify leftmost_first ''%ASA-6-302013: Teardown'' = CiscoAsa"
  by code_simp+

theorem cached_run_transparent_witness:
  "\<exists>c. cache_new = Some c \<and>
    cached_run test_parser_libs [(test_env, ''%ASA-6-302013: Built''), (test_env, ''%ASA-6-302013: Teardown'')] c =
      map_opt (\<lambda>(E, raw). parse_lossless test_parser_libs E raw)
        [(test_env, ''%ASA-6-302013: Built''), (test_env, ''%ASA-6-302013: Teardown'')]"
proof -
  have "is_power_of_two 16" by code_simp
  then obtain c where c: "cache_new = Some c" by (simp add: cache_new_def cache_with_capacity_def)
  have "pl_ac test_parser_libs = leftmost_first" by (simp add: test_parser_libs_def)
  then have "separated test_parser_libs {''%ASA-6-302013: Built'', ''%ASA-6-302013: Teardown''}"
    using asa_lines by (simp add: separated_def)
  moreover have "compute_signature_hash ''%ASA-6-302013: Built'' \<noteq> None"
    "compute_signature_hash ''%ASA-6-302013: Teardown'' \<noteq> None"
    by (rule signature_ascii_total; simp)+
  ultimately show ?thesis
    using c by (intro exI [of _ c] conjI cached_run_transparent) (simp_all del: not_None_eq)
qed

text \<open>
  A signature shared across formats misroutes: once a line of a recognised format is cached, every
  line of the same signature is parsed with the extractor of the first one, whatever the classifier says of it.
\<close>
theorem shared_signature_misroutes:
  assumes "cache_ok c" "compute_signature_hash q = Some k" "compute_signature_hash raw = Some k"
    and "cache_peek c k = None" "classify (pl_ac L) q = f" "f \<noteq> Unknown"
    and "parse_cached L E q c = Some (r, c')"
  shows "\<exists>c''. parse_cached L E' raw c' = map_option (\<lambda>r'. (r', c'')) (parse_with_format L E' raw f)"
proof -
  let ?c1 = "c\<lparr>lc_misses := lc_misses c + 1\<rparr>"
  have "cache_ok ?c1" using assms(1) by simp
  from cache_insert_some [OF this, of k f] obtain c2 where
    c2: "cache_insert k f ?c1 = Some c2" "cache_ok c2" "cache_peek c2 k = Some f" by blast
  have "cached_format L q c = Some (f, c2)"
    using assms c2(1) cache_get_eq [OF assms(1), of k] by (simp add: cached_format_def Let_def)
  then have "c' = c2" using assms(7) by (auto simp: parse_cached_def Option.bind_eq_Some_conv)
  then have "cached_format L raw c' = Some (f, c2\<lparr>lc_hits := lc_hits c2 + 1\<rparr>)"
    using assms(3) c2 cache_get_eq [OF c2(2), of k] by (simp add: cached_format_def)
  then show ?thesis
    by (cases "parse_with_format L E' raw f") (auto simp: parse_cached_def)
qed


lemma misrouted_lines:
  "classify leftmost_first ''{x|Fortinet|'' = Fortinet"
  "classify leftmost_first ''{\"timestamp\":1}'' = Suricata"
  by code_simp+

lemma signature_short: "raw \<noteq> [] \<Longrightarrow> length raw \<le> 96 \<Longrightarrow> compute_signature_hash raw = window_signature raw"
  by (simp add: compute_signature_hash_def slice_to_def min_absorb1)

lemma misrouted_signatures:
  "compute_signature_hash ''{x|Fortinet|'' = Some (fx_write 0 (bytes_of ''suricata_eve_json''))"
  "compute_signature_hash ''{\"timestamp\":1}'' = Some (fx_write 0 (bytes_of ''suricata_eve_json''))"
  by (simp_all add: signature_short window_signature_def anchor_signature_def contains_def)

theorem shared_signature_misroutes_witness:
  "\<exists>c r c' c''. cache_new = Some c \<and> parse_cached test_parser_libs test_env ''{x|Fortinet|'' c = Some (r, c') \<and>
    classify leftmost_first ''{\"timestamp\":1}'' = Suricata \<and>
    parse_cached test_parser_libs test_env ''{\"timestamp\":1}'' c' =
      map_option (\<lambda>r'. (r', c'')) (parse_with_format test_parser_libs test_env ''{\"timestamp\":1}'' Fortinet)"
proof -
  have "is_power_of_two 16" by code_simp
  then obtain c where c: "cache_new = Some c" by (simp add: cache_new_def cache_with_capacity_def)
  have ok: "cache_ok c" "\<And>k. cache_peek c k = None"
    using cache_with_capacity_ok [of 16 512 c] c by (auto simp: cache_new_def)
  have "ascii_str ''{x|Fortinet|''" by (simp add: ascii_str_def)
  then obtain f c' r where "cached_format test_parser_libs ''{x|Fortinet|'' c = Some (f, c')"
    "parse_with_format test_parser_libs test_env ''{x|Fortinet|'' f = Some r"
    using cached_format_ascii [OF ok(1)] parse_with_format_ascii by (metis option.exhaust surj_pair)
  then have r: "parse_cached test_parser_libs test_env ''{x|Fortinet|'' c = Some (r, c')"
    by (simp add: parse_cached_def)
  have "pl_ac test_parser_libs = leftmost_first" by (simp add: test_parser_libs_def)
  then have "\<exists>c''. parse_cached test_parser_libs test_env ''{\"timestamp\":1}'' c' =
      map_option (\<lambda>r'. (r', c'')) (parse_with_format test_parser_libs test_env ''{\"timestamp\":1}'' Fortinet)"
    using shared_signature_misroutes [OF ok(1) misrouted_signatures ok(2) _ _ r, of Fortinet] misrouted_lines
    by simp
  then show ?thesis using c r misrouted_lines(2) by blast
qed

subsection \<open>Classification\<close>

text \<open>
  The classifier is leftmost-first: over an automaton with the documented semantics, the format is
  that of the first pattern of the table that occurs at the leftmost position where any pattern occurs; only a line
  holding none of the patterns reaches the structural fallback.
\<close>
theorem classify_leftmost_first:
  assumes "leftmost_first_ok ac"
  shows "(\<exists>pos i. match_at ac_patterns raw pos i \<and> classify ac raw = snd (patterns_with_formats ! i)) \<or>
    ((\<forall>p \<in> set ac_patterns. \<not> contains raw p) \<and> classify ac raw = fallback_classify raw)"
proof (cases "leftmost_first ac_patterns raw")
  case None
  then have "\<forall>p \<in> set ac_patterns. \<not> contains raw p" by (simp only: leftmost_first_None)
  then show ?thesis using classify_no_match [OF assms] by blast
next
  case (Some i)
  from leftmost_first_match [OF this] classify_match [OF assms] show ?thesis by blast
qed

theorem classify_leftmost_first_witness:
  "(\<exists>pos i. match_at ac_patterns ''1,TRAFFIC,%ASA-'' pos i \<and>
      classify leftmost_first ''1,TRAFFIC,%ASA-'' = snd (patterns_with_formats ! i)) \<or>
    ((\<forall>p \<in> set ac_patterns. \<not> contains ''1,TRAFFIC,%ASA-'' p) \<and>
      classify leftmost_first ''1,TRAFFIC,%ASA-'' = fallback_classify ''1,TRAFFIC,%ASA-'')"
  by (rule classify_leftmost_first) (rule leftmost_first_ok)

subsection \<open>Round trips\<close>

definition fortigate_keys :: "string list" where
  "fortigate_keys =
     [''srcip'', ''src'', ''dstip'', ''dst'', ''srcport'', ''spt'', ''dstport'', ''dpt'', ''srcintf'', ''cs2'',
      ''dstintf'', ''cs3'', ''srcintfrole'', ''srczone'', ''dstintfrole'', ''dstzone'', ''proto'', ''action'',
      ''act'', ''sentbyte'', ''out'', ''rcvdbyte'', ''in'', ''sentpkt'', ''rcvdpkt'', ''date'', ''time'',
      ''devname'', ''dvchost'', ''deviceExternalId'']"

lemma fortigate_field_other:
  "k \<notin> set fortigate_keys \<Longrightarrow> fortigate_field (k, v) f = f\<lparr>fg_unmapped := hm_insert k v (fg_unmapped f)\<rparr>"
  by (simp add: fortigate_field_def fortigate_keys_def)

lemma fortigate_field_known:
  "k \<in> set fortigate_keys \<Longrightarrow> fg_unmapped (fortigate_field (k, v) f) = fg_unmapped f"
  unfolding fortigate_keys_def list.set insert_iff empty_iff
  by (elim disjE; simp add: fortigate_field_def Let_def split: option.split)

lemma fortigate_fold_unmapped:
  assumes "k \<notin> set fortigate_keys"
  shows "map_of (fg_unmapped (fold fortigate_field kvs f)) k =
    (case map_of (rev kvs) k of Some v \<Rightarrow> Some v | None \<Rightarrow> map_of (fg_unmapped f) k)"
proof (induction kvs arbitrary: f)
  case (Cons kv kvs)
  obtain l v where kv: "kv = (l, v)" by force
  have "map_of (fg_unmapped (fortigate_field (l, v) f)) k =
      (if k = l then Some v else map_of (fg_unmapped f) k)"
    using assms by (cases "l \<in> set fortigate_keys") (auto simp: fortigate_field_known fortigate_field_other)
  then show ?case using Cons.IH [of "fortigate_field (l, v) f"] kv
    by (auto simp: map_add_def split: option.splits)
qed simp

text \<open>
  C34. The FortiGate extractor loses no field of a well-formed line: of quoted key-value pairs separated
  by blanks it produces an event, and every key it does not map to a column is kept under its own name with its last
  value. The pairs are recovered exactly, whatever the values hold short of quotes and backslashes.
\<close>
theorem fortigate_keeps_fields:
  assumes "\<forall>kv \<in> set kvs. kv_ok kv"
  shows "tokenize L (render_kvs kvs) = Some kvs \<and>
    (\<exists>a. fortigate_parse L now (render_kvs kvs) = Some (Ok a) \<and>
      (\<forall>k v. map_of (rev kvs) k = Some v \<longrightarrow> k \<notin> set fortigate_keys \<longrightarrow>
        Option.bind (na_unmapped a) (\<lambda>m. map_of m k) = Some v))"
proof -
  let ?f = "fold fortigate_field kvs fortigate_init"
  have "Option.bind (na_unmapped (fortigate_event L now raw ?f)) (\<lambda>m. map_of m k) = Some v"
    if "map_of (rev kvs) k = Some v" "k \<notin> set fortigate_keys" for k v raw
  proof -
    have "map_of (fg_unmapped ?f) k = Some v" using fortigate_fold_unmapped [OF that(2)] that(1) by simp
    moreover from this have "fg_unmapped ?f \<noteq> []" by auto
    ultimately show ?thesis
      by (simp add: fortigate_event_def Let_def case_prod_unfold with_unmapped_def)
  qed
  then show ?thesis using tokenize_render [OF assms, of L] by (simp add: fortigate_parse_def)
qed

theorem fortigate_keeps_fields_witness:
  "tokenize test_parser_libs (render_kvs [(''srcip'', ''10.0.0.1''), (''policyid'', ''5 a=b'')]) =
     Some [(''srcip'', ''10.0.0.1''), (''policyid'', ''5 a=b'')] \<and>
   (\<exists>a. fortigate_parse test_parser_libs 0 (render_kvs [(''srcip'', ''10.0.0.1''), (''policyid'', ''5 a=b'')]) =
       Some (Ok a) \<and> Option.bind (na_unmapped a) (\<lambda>m. map_of m ''policyid'') = Some ''5 a=b'')"
proof -
  have "\<forall>kv \<in> set [(''srcip'', ''10.0.0.1''), (''policyid'', ''5 a=b'')]. kv_ok kv"
    by (simp add: kv_ok_def word_char_def is_ascii_alnum_def is_ascii_digit_def is_ascii_upper_def
        is_ascii_lower_def backslash_def)
  from fortigate_keeps_fields [OF this, of test_parser_libs 0] show ?thesis
    by (auto simp: fortigate_keys_def)
qed

text \<open>
  The CSV splitter inverts a writer that quotes the fields holding commas: every non-empty list of
  trimmed fields without quotation marks comes back unchanged.
\<close>
theorem split_csv_inverts_join:
  assumes "fs \<noteq> []" "\<forall>f \<in> set fs. CHR 0x22 \<notin> set f \<and> trim f = f"
  shows "split_csv (join '','' (map csv_quote fs)) = fs"
  using split_csv_join [OF assms] .

theorem split_csv_inverts_join_witness:
  "split_csv (join '','' (map csv_quote [''a,b'', '''', ''c''])) = [''a,b'', '''', ''c'']"
  by (rule split_csv_inverts_join)
    (simp_all add: trim_def trim_start_def trim_end_def ws_len_def ws_len_rev_def ws_encodings_def)

text \<open>
  The Cisco endpoint parser reads back what an endpoint renders to, interface, address and port,
  for every port and every address without a colon; an IPv6 address written without an interface is misread: its first
  group becomes the interface.
\<close>
theorem parse_endpoint_reads_rendered:
  assumes "clean_text (render_endpoint intf ip port)"
    and "CHR ''/'' \<notin> set ip" "\<forall>i. intf = Some i \<longrightarrow> CHR '':'' \<notin> set i"
  shows "(CHR '':'' \<notin> set ip \<longrightarrow>
      parse_endpoint_str (render_endpoint intf ip port) d = (Some ip, port, or_else intf d)) \<and>
    (\<forall>g rest. intf = None \<longrightarrow> ip = g @ CHR '':'' # rest \<longrightarrow> CHR '':'' \<notin> set g \<longrightarrow>
      parse_endpoint_str (render_endpoint intf ip port) d = (Some rest, port, Some g))"
proof (intro conjI impI allI)
  assume "CHR '':'' \<notin> set ip"
  from parse_endpoint_render [OF assms(1) this assms(2,3), of d]
  show "parse_endpoint_str (render_endpoint intf ip port) d = (Some ip, port, or_else intf d)"
    by (cases intf) simp_all
next
  fix g rest
  assume g: "intf = None" "ip = g @ CHR '':'' # rest" "CHR '':'' \<notin> set g"
  have "find_idx (\<lambda>c. c = CHR '':'') (g @ CHR '':'' # s) = Some (length g)" for s
    using g(3) by (intro find_idx_append) auto
  moreover have "find_idx (\<lambda>c. c = CHR ''/'') (rest @ CHR ''/'' # s) = Some (length rest)" for s
    using assms(2) g(2) by (intro find_idx_append) auto
  moreover have "find_idx (\<lambda>c. c = CHR ''/'') rest = None"
    using assms(2) g(2) by (intro find_idx_None) auto
  ultimately show "parse_endpoint_str (render_endpoint intf ip port) d = (Some rest, port, Some g)"
    using assms(1) g
    by (cases port) (auto simp: parse_endpoint_str_def render_endpoint_def clean_text_def Let_def)
qed

theorem parse_endpoint_reads_rendered_witness:
  "parse_endpoint_str (render_endpoint None ''fe80::1'' (Some 443)) None = (Some '':1'', Some 443, Some ''fe80'')"
proof -
  have "clean_text (render_endpoint None ''fe80::1'' (Some 443))" by code_simp
  from parse_endpoint_reads_rendered [OF this, of None]
  have "\<forall>g rest. ''fe80::1'' = g @ CHR '':'' # rest \<longrightarrow> CHR '':'' \<notin> set g \<longrightarrow>
      parse_endpoint_str (render_endpoint None ''fe80::1'' (Some 443)) None = (Some rest, Some 443, Some g)"
    by simp
  from this [rule_format, of "''fe80''" "'':1''"] show ?thesis by simp
qed

text \<open>
  Ports of a Suricata record are cast, not checked: a \<open>src_port\<close> of \<open>65536\<close> or more
  comes out reduced modulo \<open>2 ^ 16\<close>; in range it is exact.
\<close>
theorem suricata_port_truncated:
  assumes "pl_json_parse L (json_slice raw) = Ok val" "json_u64 val ''src_port'' = Some n"
  shows "\<exists>a p. suricata_parse L now raw = Some (Ok a) \<and> ep_port (na_src_endpoint a) = Some p \<and>
    unat p = unat n mod 65536 \<and> (unat n < 65536 \<longrightarrow> unat p = unat n)"
proof -
  have "json_port val ''src_port'' = Some (ucast n)" using assms(2) by (simp add: json_port_def)
  from json_port_mod [OF assms(2) this] show ?thesis using assms
    by (auto simp: suricata_parse_def suricata_build_def Let_def json_port_def endpoint_new_def)
qed

theorem suricata_port_truncated_witness:
  "\<exists>a p. suricata_parse test_parser_libs 0 ''{\"src_port\":65616}'' = Some (Ok a) \<and>
    ep_port (na_src_endpoint a) = Some p \<and> unat p = 80"
proof -
  have "pl_json_parse test_parser_libs (json_slice ''{\"src_port\":65616}'') =
      Ok (JObject [(''src_port'', JPosInt 65616)])"
    by (simp add: test_parser_libs_def json_slice_def)
  from suricata_port_truncated [OF this, of 65616 0] show ?thesis by (auto simp: json_u64_def)
qed

subsection \<open>The panic of the FortiGate tokenizer\<close>

lemma prefix_len_before: "\<forall>e \<in> set es. x \<notin> set e \<Longrightarrow> prefix_len es (b @ x # a) \<le> length b"
proof (induction es)
  case (Cons e es)
  have "length e \<le> length b" if st: "starts_with (b @ x # a) e"
  proof (rule ccontr)
    assume "\<not> length e \<le> length b"
    then have "x \<in> set (take (length e) (b @ x # a))"
      by (cases "length e - length b") auto
    then show False using st Cons.prems by (metis list.set_intros(1) starts_with_take)
  qed
  then show ?case using Cons by simp
qed simp

lemma trim_by_before:
  "(\<And>b. f (b @ x # a) \<le> length b) \<Longrightarrow> \<exists>b'. trim_by f (b @ x # a) = b' @ x # a"
proof (induction b rule: length_induct)
  case (1 b)
  let ?n = "f (b @ x # a)"
  have step: "trim_by f (b @ x # a) = (if ?n = 0 then b @ x # a else trim_by f (drop ?n (b @ x # a)))"
    by (cases "b @ x # a") simp_all
  show ?case
  proof (cases "?n = 0")
    case False
    then have "drop ?n (b @ x # a) = drop ?n b @ x # a" "length (drop ?n b) < length b"
      using 1(2) [of b] by auto
    then show ?thesis using 1 step False by metis
  qed (use step in auto)
qed

lemma trim_keeps_eq:
  assumes "word_char c" shows "\<exists>x. trim (c # s @ CHR ''='' # rest) = c # s @ CHR ''='' # x"
proof -
  have "trim_start (c # s @ CHR ''='' # rest) = c # s @ CHR ''='' # rest"
    using assms by (simp add: trim_start_def)
  moreover have "\<forall>e \<in> set (map rev ws_encodings). CHR ''='' \<notin> set e" by (simp add: ws_encodings_def)
  from prefix_len_before [OF this]
  have "ws_len_rev (b @ CHR ''='' # rev (c # s)) \<le> length b" for b by (simp only: ws_len_rev_def)
  from trim_by_before [of ws_len_rev, OF this] obtain b' where
    "trim_by ws_len_rev (rev rest @ CHR ''='' # rev (c # s)) = b' @ CHR ''='' # rev (c # s)" by blast
  ultimately show ?thesis by (simp add: trim_def trim_end_def)
qed

text \<open>
  A FortiGate line with a no-break space in front of a key crashes the parser, the lossless one
  included: the key is cut one byte behind the separator, which is inside the two-byte space.
\<close>
theorem fortigate_panics_behind_nbsp:
  assumes "classify (pl_ac L) (c # p @ CHR 0xC2 # CHR 0xA0 # w @ CHR ''='' # rest) = Fortinet"
    and "word_char c" "CHR ''='' \<notin> set p" "w \<noteq> []" "list_all word_char w"
  shows "parse_lossless L E (c # p @ CHR 0xC2 # CHR 0xA0 # w @ CHR ''='' # rest) = None"
proof -
  let ?k = "(c # p) @ CHR 0xC2 # CHR 0xA0 # w"
  obtain x where x: "trim (?k @ CHR ''='' # rest) = ?k @ CHR ''='' # x"
    using trim_keeps_eq [OF assms(2), of "p @ CHR 0xC2 # CHR 0xA0 # w" rest] by auto
  have "find_idx (\<lambda>c. c = CHR ''='') (?k @ CHR ''='' # x) = Some (length ?k)"
    using assms(2-5) word_char_props(3) by (intro find_idx_append) (auto simp: list_all_iff)
  moreover have "trim_start (?k @ CHR ''='' # x) = ?k @ CHR ''='' # x"
    using assms(2) by (simp add: trim_start_def)
  ultimately have "kv_next L (?k @ CHR ''='' # x) = None"
    using kv_key_panics [OF assms(5,4), of L "c # p"] by (simp add: kv_next_def Let_def)
  then have "tokenize L (?k @ CHR ''='' # rest) = None"
    using x by (simp add: tokenize_def kv_pairs.simps [of L "_ # _"])
  then show ?thesis using assms(1)
    by (simp add: parse_lossless_def parse_def Let_def fortigate_parse_def)
qed

theorem fortigate_panics_behind_nbsp_witness:
  "utf8_valid (''x'' @ [CHR 0xC2, CHR 0xA0] @ ''devname=y'') \<and>
   parse_lossless test_parser_libs test_env (CHR ''x'' # [] @ CHR 0xC2 # CHR 0xA0 # ''devname'' @ CHR ''='' # ''y'') = None"
proof
  show "utf8_valid (''x'' @ [CHR 0xC2, CHR 0xA0] @ ''devname=y'')" by code_simp
  have "classify leftmost_first (CHR ''x'' # [] @ CHR 0xC2 # CHR 0xA0 # ''devname'' @ CHR ''='' # ''y'') = Fortinet"
    by code_simp
  then show "parse_lossless test_parser_libs test_env
      (CHR ''x'' # [] @ CHR 0xC2 # CHR 0xA0 # ''devname'' @ CHR ''='' # ''y'') = None"
    by (intro fortigate_panics_behind_nbsp)
      (simp_all add: test_parser_libs_def word_char_def is_ascii_alnum_def is_ascii_digit_def is_ascii_upper_def
        is_ascii_lower_def)
qed

end
