(* ===== verification/Onboarder_Properties.thy ===== *)
theory Onboarder_Properties
  imports Onboarder Parser_Properties
begin

text \<open>
  What onboarding certifies: a generated definition parses its samples into conforming events with valid addresses;
  what validation refuses; what a definition keeps of a line; what survives the YAML form; and how the registry
  resolves vendors. The witnesses use a small engine that reads the values of \<open>src=\<close> and \<open>dst=\<close>.
\<close>

subsection \<open>A library to evaluate with\<close>

definition value_after :: "string \<Rightarrow> string \<Rightarrow> string option" where
  "value_after key s = map_option (\<lambda>i. takeWhile (\<lambda>c. c \<noteq> CHR '' '') (drop (i + length key) s)) (find_str s key)"

definition kv_engine :: "string \<Rightarrow> compiled_regex option" where
  "kv_engine p = Some
     \<lparr>rx_captures = (\<lambda>s. Some (\<lambda>n. if n = ''src_ip'' then value_after ''src='' s
        else if n = ''dst_ip'' then value_after ''dst='' s else if n = ''rule'' then value_after ''rule='' s else None)),
      rx_names = [''src_ip'', ''dst_ip'', ''rule''],
      rx_find = (\<lambda>s. if contains p ''src'' then find_str s ''src='' else if contains p ''dst'' then find_str s ''dst=''
        else None)\<rparr>"

definition test_onboarder_libs :: onboarder_libs where
  "test_onboarder_libs =
     \<lparr>ol_core = test_parser_libs, ol_compile = kv_engine, ol_escape = (\<lambda>s. s),
      ol_lowercase = to_ascii_lowercase, ol_json_show = (\<lambda>d. None), ol_json_read = (\<lambda>s. None)\<rparr>"

definition sample_lines :: "string list" where
  "sample_lines = [''src=10.0.0.1 dst=10.0.0.9'', ''src=10.0.0.2 dst=10.0.0.9'', ''src=10.0.0.3 dst=10.0.0.9'']"

subsection \<open>Validation\<close>

definition accepted :: "compiled_regex \<Rightarrow> string \<Rightarrow> bool" where
  "accepted re sample \<longleftrightarrow> trim sample \<noteq> [] \<and>
     (case rx_captures re (trim sample) of
        None \<Rightarrow> False
      | Some caps \<Rightarrow>
          Option.bind (caps ''src_ip'') parse_ipv4 \<noteq> None \<and> Option.bind (caps ''dst_ip'') parse_ipv4 \<noteq> None \<and>
          (caps ''src_port'' \<noteq> None \<longrightarrow> Option.bind (caps ''src_port'') parse_u16 \<noteq> None) \<and>
          (caps ''dst_port'' \<noteq> None \<longrightarrow> Option.bind (caps ''dst_port'') parse_u16 \<noteq> None))"

lemma check_ip_matched: "check_ip i g caps = Matched \<longleftrightarrow> Option.bind (caps g) parse_ipv4 \<noteq> None"
  by (auto simp: check_ip_def sample_error_def split: option.split)

lemma check_port_matched:
  "check_port i g caps = Matched \<longleftrightarrow> (caps g \<noteq> None \<longrightarrow> Option.bind (caps g) parse_u16 \<noteq> None)"
  by (auto simp: check_port_def sample_error_def split: option.split)

lemma first_failure_matched: "first_failure vs = Matched \<longleftrightarrow> list_all (\<lambda>v. v = Matched) vs"
  by (induction vs) (auto split: verdict.split)

lemma check_sample_matched: "check_sample re (i, s) = Matched \<longleftrightarrow> accepted re s"
  by (auto simp: check_sample_def accepted_def Let_def first_failure_matched check_ip_matched check_port_matched
      sample_error_def split: option.split simp del: first_failure.simps)

lemma filter_all: "length (filter P xs) = length xs \<longleftrightarrow> list_all P xs"
  by (metis Ball_set_list_all filter_True length_filter_less order_less_irrefl)

lemma report_passed: "vr_passed (report_of vs) \<longleftrightarrow> list_all (\<lambda>v. v = Matched) vs"
  by (auto simp: report_of_def Let_def filter_all verdict_errors_def list_all_iff)

lemma report_total: "vr_total_samples (report_of vs) = length vs"
  by (simp add: report_of_def Let_def)

lemma checks_matched:
  "list_all (\<lambda>v. v = Matched) (map (check_sample re) (enumerate n samples)) \<longleftrightarrow> list_all (accepted re) samples"
  by (induction samples arbitrary: n) (simp_all add: check_sample_matched)

lemma validate_parser_eq:
  "ol_compile L (pd_regex_pattern d) = Some re \<Longrightarrow>
     \<exists>rep. validate_parser L d samples = Ok rep \<and> vr_total_samples rep = length samples \<and>
       (vr_passed rep \<longleftrightarrow> list_all (accepted re) samples)"
  unfolding validate_parser_def
  by (rule exI [of _ "report_of (map (check_sample re) (enumerate 0 samples))"])
    (simp add: report_passed report_total checks_matched)

text \<open>
  Validation passes exactly when every sample, trimmed, is a non-blank line the pattern matches with valid
  addresses and ports; so a definition with a blank line among its samples is always refused.
\<close>
theorem validation_passes_iff:
  assumes "ol_compile L (pd_regex_pattern d) = Some re"
  shows "\<exists>rep. validate_parser L d samples = Ok rep \<and> vr_total_samples rep = length samples \<and>
    (vr_passed rep \<longleftrightarrow> list_all (accepted re) samples) \<and>
    (list_ex (\<lambda>s. trim s = []) samples \<longrightarrow> \<not> vr_passed rep)"
  using validate_parser_eq [OF assms, of samples] by (auto simp: list_all_iff list_ex_iff accepted_def)

theorem validation_passes_iff_witness:
  "(\<exists>rep. validate_parser test_onboarder_libs
      \<lparr>pd_vendor = [], pd_device_model = [], pd_regex_pattern = ''x'', pd_action_mappings = [], pd_sample_logs = [],
       pd_confidence_score = Finite 1, pd_created_at = 0\<rparr> (sample_lines @ [[]]) = Ok rep \<and>
     \<not> vr_passed rep)"
proof -
  let ?d = "\<lparr>pd_vendor = [], pd_device_model = [], pd_regex_pattern = ''x'', pd_action_mappings = [], pd_sample_logs = [],
       pd_confidence_score = Finite 1, pd_created_at = 0\<rparr>"
  obtain re where re: "ol_compile test_onboarder_libs (pd_regex_pattern ?d) = Some re"
    by (simp add: test_onboarder_libs_def kv_engine_def)
  have "list_ex (\<lambda>s. trim s = []) (sample_lines @ [[]])" by code_simp
  then show ?thesis using validation_passes_iff [OF re, of "sample_lines @ [[]]"] by blast
qed

subsection \<open>Events of a definition\<close>

lemma dyn_disposition_known:
  "\<forall>v \<in> snd ` set (pd_action_mappings d). v \<in> dispositions \<Longrightarrow> dyn_disposition d a \<in> dispositions"
proof -
  assume m: "\<forall>v \<in> snd ` set (pd_action_mappings d). v \<in> dispositions"
  have "default_disposition a \<in> dispositions" unfolding default_disposition_def by (intro if_mem) simp_all
  then show ?thesis using m
    by (cases "map_of (pd_action_mappings d) a") (force simp: dyn_disposition_def dest: map_of_SomeD)+
qed

lemma dyn_activity_known: "dyn_activity a n \<in> activities"
  unfolding dyn_activity_def by (intro if_mem) simp_all

definition dyn_base ::
  "onboarder_libs \<Rightarrow> int \<Rightarrow> string \<Rightarrow> parser_definition \<Rightarrow> (string \<Rightarrow> string option) \<Rightarrow> string \<Rightarrow> network_activity" where
  "dyn_base L t i d caps raw =
     (let a = dyn_raw_action caps; n = dyn_disposition d a
      in network_activity_new (dyn_activity a n) t n
        (endpoint_new (caps ''src_ip'') (Option.bind (caps ''src_port'') parse_u16) (caps ''interface'')
          (caps ''src_zone''))
        (endpoint_new (caps ''dst_ip'') (Option.bind (caps ''dst_port'') parse_u16) None (caps ''dst_zone''))
        (dyn_connection (caps ''protocol'')) None
        (metadata_new (product_new (pd_vendor d) (pd_device_model d) None) raw
          (pl_hex (ol_core L) (pl_sha256 (ol_core L) (bytes_of raw))) i t))"

lemma dyn_event_base: "dyn_event L t i d re caps raw = with_unmapped (dyn_base L t i d caps raw) (dyn_unmapped (rx_names re) caps)"
  by (simp add: dyn_event_def dyn_base_def Let_def with_unmapped_def)

lemma dyn_event_fields [simp]:
  "na_src_endpoint (dyn_event L t i d re caps raw) =
     endpoint_new (caps ''src_ip'') (Option.bind (caps ''src_port'') parse_u16) (caps ''interface'') (caps ''src_zone'')"
  "na_dst_endpoint (dyn_event L t i d re caps raw) =
     endpoint_new (caps ''dst_ip'') (Option.bind (caps ''dst_port'') parse_u16) None (caps ''dst_zone'')"
  "na_disposition (dyn_event L t i d re caps raw) = dyn_disposition d (dyn_raw_action caps)"
  "md_raw_data (na_metadata (dyn_event L t i d re caps raw)) = raw"
  "md_raw_hash (na_metadata (dyn_event L t i d re caps raw)) = compute_sha256 (ol_core L) raw"
  by (simp_all add: dyn_event_base dyn_base_def Let_def compute_sha256_def) (simp add: metadata_new_def)

lemma dyn_event_ok:
  "\<forall>v \<in> snd ` set (pd_action_mappings d). v \<in> dispositions \<Longrightarrow> event_ok (dyn_event L t i d re caps raw)"
  by (simp add: dyn_event_base dyn_base_def Let_def event_ok_new dyn_disposition_known dyn_activity_known)

lemma endpoint_new_sel [simp]:
  "ep_ip (endpoint_new a b c e) = a" "ep_port (endpoint_new a b c e) = b"
  "ep_interface (endpoint_new a b c e) = c" "ep_zone (endpoint_new a b c e) = e"
  by (simp_all add: endpoint_new_def)

lemma infer_action_mappings_known: "\<forall>v \<in> snd ` set infer_action_mappings. v \<in> dispositions"
  unfolding infer_action_mappings_def by simp

lemma definition_parse_okD:
  "definition_parse L t i d raw = Ok ev \<Longrightarrow> \<exists>re caps. ol_compile L (pd_regex_pattern d) = Some re \<and>
     rx_captures re raw = Some caps \<and> ev = dyn_event L t i d re caps raw"
  by (auto simp: definition_parse_def ok_iff)

lemma generate_parser_okD:
  assumes "generate_parser L now vendor model samples = Some (Ok (d, report))"
  shows "\<exists>re. ol_compile L (pd_regex_pattern d) = Some re \<and> list_all (accepted re) samples \<and> vr_passed report \<and>
    3 \<le> length samples \<and> pd_action_mappings d = infer_action_mappings \<and> pd_vendor d = vendor \<and>
    pd_sample_logs d = samples"
proof -
  let ?d = "\<lambda>p. \<lparr>pd_vendor = vendor, pd_device_model = model, pd_regex_pattern = p,
    pd_action_mappings = infer_action_mappings, pd_sample_logs = samples,
    pd_confidence_score = Finite 1, pd_created_at = now\<rparr>"
  obtain p where p: "d = ?d p" "validate_parser L (?d p) samples = Ok report" "vr_passed report" "3 \<le> length samples"
    using assms by (auto simp: generate_parser_def ok_iff Let_def split: if_splits)
  then obtain re where "ol_compile L p = Some re" by (auto simp: validate_parser_def ok_iff)
  then show ?thesis using p validate_parser_eq [of L "?d p" re samples] by auto
qed

text \<open>
  C28. A definition the onboarder hands out parses every one of its samples, trimmed, into a conforming event with the raw line
  and its digest, both addresses valid IPv4, under the name of the vendor.
\<close>
theorem onboarded_parser_accepts_samples:
  assumes "generate_parser L now vendor model samples = Some (Ok (d, report))" "s \<in> set samples"
  shows "\<exists>ev. definition_parse L t i d (trim s) = Ok ev \<and> traceable (ol_core L) (trim s) ev \<and>
    Option.bind (ep_ip (na_src_endpoint ev)) parse_ipv4 \<noteq> None \<and>
    Option.bind (ep_ip (na_dst_endpoint ev)) parse_ipv4 \<noteq> None \<and>
    pr_vendor_name (md_product (na_metadata ev)) = vendor"
proof -
  obtain re where re: "ol_compile L (pd_regex_pattern d) = Some re" "accepted re s"
    "pd_action_mappings d = infer_action_mappings" "pd_vendor d = vendor"
    using generate_parser_okD [OF assms(1)] assms(2) by (auto simp: list_all_iff)
  then obtain caps where caps: "rx_captures re (trim s) = Some caps"
    "Option.bind (caps ''src_ip'') parse_ipv4 \<noteq> None" "Option.bind (caps ''dst_ip'') parse_ipv4 \<noteq> None"
    by (auto simp: accepted_def split: option.splits)
  have "event_ok (dyn_event L t i d re caps (trim s))"
    by (rule dyn_event_ok) (simp add: re infer_action_mappings_known)
  moreover have "pr_vendor_name (md_product (na_metadata (dyn_event L t i d re caps (trim s)))) = vendor"
    using re by (simp add: dyn_event_base dyn_base_def Let_def)
  moreover have "definition_parse L t i d (trim s) = Ok (dyn_event L t i d re caps (trim s))"
    using re caps by (simp add: definition_parse_def)
  ultimately show ?thesis using caps by (simp add: traceable_def)
qed

lemma sample_run: "\<exists>d rep. generate_parser test_onboarder_libs 0 ''Acme'' ''X1'' sample_lines = Some (Ok (d, rep))"
proof -
  have "case generate_parser test_onboarder_libs 0 ''Acme'' ''X1'' sample_lines of Some (Inr (d, rep)) \<Rightarrow> True | _ \<Rightarrow> False"
    by code_simp
  then show ?thesis by (auto split: option.splits sum.splits)
qed

theorem onboarded_parser_accepts_samples_witness:
  "\<exists>d rep ev. generate_parser test_onboarder_libs 0 ''Acme'' ''X1'' sample_lines = Some (Ok (d, rep)) \<and>
     definition_parse test_onboarder_libs 7 ''id-1'' d (trim ''src=10.0.0.1 dst=10.0.0.9'') = Ok ev \<and>
     traceable test_parser_libs (trim ''src=10.0.0.1 dst=10.0.0.9'') ev"
proof -
  obtain d rep where d: "generate_parser test_onboarder_libs 0 ''Acme'' ''X1'' sample_lines = Some (Ok (d, rep))"
    using sample_run by blast
  have "''src=10.0.0.1 dst=10.0.0.9'' \<in> set sample_lines" by (simp add: sample_lines_def)
  from onboarded_parser_accepts_samples [OF d this, of 7 "''id-1''"] d show ?thesis
    by (auto simp: test_onboarder_libs_def)
qed

lemma dyn_unmapped_fold:
  "map_of (foldl (\<lambda>m name. if name \<notin> set mapped_groups
      then (case caps name of Some v \<Rightarrow> hm_insert name v m | None \<Rightarrow> m) else m) m names) n =
     (if n \<in> set names \<and> n \<notin> set mapped_groups \<and> caps n \<noteq> None then caps n else map_of m n)"
  by (induction names arbitrary: m) (auto split: option.splits)

lemma unmapped_of: "map_of (unwrap_or [] (na_unmapped (with_unmapped (dyn_base L t i d caps raw) u))) n = map_of u n"
  by (simp add: with_unmapped_def dyn_base_def Let_def network_activity_new_def)

text \<open>
  Whatever a dynamic parser returns keeps the line, its digest and every matched group of the pattern: the addresses,
  interface and zones as they were captured, a port when it is a 16-bit number, and each group without a field of
  its own under its name among the unmapped fields, where nothing else is.
\<close>
theorem dynamic_parser_keeps_groups:
  assumes "definition_parse L t i d raw = Ok ev"
  shows "\<exists>re caps. ol_compile L (pd_regex_pattern d) = Some re \<and> rx_captures re raw = Some caps \<and>
    md_raw_data (na_metadata ev) = raw \<and> md_raw_hash (na_metadata ev) = compute_sha256 (ol_core L) raw \<and>
    na_src_endpoint ev = endpoint_new (caps ''src_ip'') (Option.bind (caps ''src_port'') parse_u16)
      (caps ''interface'') (caps ''src_zone'') \<and>
    na_dst_endpoint ev = endpoint_new (caps ''dst_ip'') (Option.bind (caps ''dst_port'') parse_u16) None
      (caps ''dst_zone'') \<and>
    (\<forall>n. map_of (unwrap_or [] (na_unmapped ev)) n =
       (if n \<in> set (rx_names re) \<and> n \<notin> set mapped_groups then caps n else None))"
proof -
  obtain re caps where c: "ol_compile L (pd_regex_pattern d) = Some re" "rx_captures re raw = Some caps"
    "ev = dyn_event L t i d re caps raw"
    using definition_parse_okD [OF assms] by blast
  have "map_of (unwrap_or [] (na_unmapped ev)) n =
      (if n \<in> set (rx_names re) \<and> n \<notin> set mapped_groups then caps n else None)" for n
    unfolding c(3) dyn_event_base unmapped_of using dyn_unmapped_fold [of caps "[]" "rx_names re" n]
    by (simp add: dyn_unmapped_def)
  then show ?thesis using c by auto
qed

theorem dynamic_parser_keeps_groups_witness:
  "\<exists>d rep ev. definition_parse test_onboarder_libs 7 ''id-1'' d ''src=10.0.0.1 dst=10.0.0.9 rule=12'' = Ok ev \<and>
     generate_parser test_onboarder_libs 0 ''Acme'' ''X1'' sample_lines = Some (Ok (d, rep)) \<and>
     map_of (unwrap_or [] (na_unmapped ev)) ''rule'' = Some ''12''"
proof -
  obtain d rep where d: "generate_parser test_onboarder_libs 0 ''Acme'' ''X1'' sample_lines = Some (Ok (d, rep))"
    using sample_run by blast
  let ?s = "''src=10.0.0.1 dst=10.0.0.9 rule=12''"
  obtain ev where ev: "definition_parse test_onboarder_libs 7 ''id-1'' d ?s = Ok ev"
    by (simp add: definition_parse_def test_onboarder_libs_def kv_engine_def)
  have v: "value_after ''rule='' ?s = Some ''12''" by code_simp
  have "map_of (unwrap_or [] (na_unmapped ev)) ''rule'' = Some ''12''"
    using dynamic_parser_keeps_groups [OF ev]
    by (auto simp: test_onboarder_libs_def kv_engine_def mapped_groups_def v)
  then show ?thesis using d ev by blast
qed

subsection \<open>The registry\<close>

lemma map_of_register:
  "map_of (register L d reg) k = (if k = ol_lowercase L (pd_vendor d) then Some d else map_of reg k)"
  by (simp add: register_def)

text \<open>
  After any sequence of registrations a vendor name, in any spelling with the same lower case, is parsed with the
  last definition registered for it, and an unknown vendor is an error.
\<close>
theorem registry_last_wins:
  "registry_parse L t i (foldl (\<lambda>reg d. register L d reg) registry_new ds) vendor raw =
     (case find (\<lambda>d. ol_lowercase L (pd_vendor d) = ol_lowercase L vendor) (rev ds) of
        Some d \<Rightarrow> definition_parse L t i d raw
      | None \<Rightarrow> Err (Not_Registered vendor))"
proof -
  have "map_of (foldl (\<lambda>reg d. register L d reg) registry_new ds) k =
      find (\<lambda>d. ol_lowercase L (pd_vendor d) = k) (rev ds)" for k
    by (induction ds rule: rev_induct) (auto simp: registry_new_def map_of_register)
  then show ?thesis by (simp add: registry_parse_def ok_or_def split: option.split)
qed

subsection \<open>Positional patterns\<close>

definition address_column :: "column_regexes \<Rightarrow> string list \<Rightarrow> bool" where
  "address_column co col \<longleftrightarrow> \<not> list_all (\<lambda>t. t = hd col) col \<and>
     \<not> list_all (matches (co_ip_port co)) col \<and> list_all (matches (co_ip co)) col"

lemma column_parts_append:
  "\<exists>c'. column_parts L co c (xs @ ys) = column_parts L co c xs @ column_parts L co c' ys \<and> fst c \<le> fst c'"
proof (induction xs arbitrary: c)
  case (Cons x xs)
  obtain p c1 where p: "column_part L co c x = (p, c1)" by (cases "column_part L co c x") auto
  then have "fst c \<le> fst c1" by (cases c) (auto simp: column_part_def Let_def split: if_splits)
  then show ?case using Cons [of c1] p by (auto intro: order_trans)
qed auto

lemma column_parts_address:
  "address_column co col \<Longrightarrow> column_parts L co c (col # cols) =
     ip_group (if fst c = 0 then ''src_ip'' else ''dst_ip'') # column_parts L co (Suc (fst c), snd c) cols"
  by (cases c) (simp add: column_part_def address_column_def Let_def)

lemma join_append_Cons:
  "join sep (xs @ y # ys) = (if xs = [] then [] else join sep xs @ sep) @ y @ (if ys = [] then [] else sep @ join sep ys)"
  by (induction xs rule: induct_list012) (cases ys; simp)+

lemma join_two: "\<exists>u v w. join sep (xs @ g # ys @ h # zs) = u @ g @ v @ h @ w"
proof -
  have "join sep (xs @ g # ys @ h # zs) = (if xs = [] then [] else join sep xs @ sep) @ g @
      (sep @ (if ys = [] then [] else join sep ys @ sep)) @ h @ (if zs = [] then [] else sep @ join sep zs)"
    using join_append_Cons [of sep xs g "ys @ h # zs"] join_append_Cons [of sep ys h zs] by simp
  then show ?thesis by blast
qed

text \<open>
  With three address columns that vary, the positional pattern contains the group \<open>dst_ip\<close> twice.
\<close>
theorem third_address_column_repeats_group:
  assumes "compile_columns L = Some co"
    and "columns (map split_whitespace samples) = as @ a # bs @ b # cs @ c # ds"
    and "address_column co a" "address_column co b" "address_column co c"
  shows "\<exists>p u v w. synthesize_positional_regex L samples = Some (Ok p) \<and>
    p = u @ ip_group ''dst_ip'' @ v @ ip_group ''dst_ip'' @ w"
proof -
  obtain c1 where c1: "column_parts L co (0, 0) (as @ a # bs @ b # cs @ c # ds) =
      column_parts L co (0, 0) as @ column_parts L co c1 (a # bs @ b # cs @ c # ds)"
    using column_parts_append by blast
  obtain c2 where c2: "column_parts L co (Suc (fst c1), snd c1) (bs @ b # cs @ c # ds) =
      column_parts L co (Suc (fst c1), snd c1) bs @ column_parts L co c2 (b # cs @ c # ds)" "0 < fst c2"
    using column_parts_append [of L co "(Suc (fst c1), snd c1)" bs] by fastforce
  obtain c3 where c3: "column_parts L co (Suc (fst c2), snd c2) (cs @ c # ds) =
      column_parts L co (Suc (fst c2), snd c2) cs @ column_parts L co c3 (c # ds)" "0 < fst c3"
    using column_parts_append [of L co "(Suc (fst c2), snd c2)" cs] by fastforce
  let ?x = "column_parts L co (0, 0) as @ ip_group (if fst c1 = 0 then ''src_ip'' else ''dst_ip'') #
      column_parts L co (Suc (fst c1), snd c1) bs"
    and ?y = "column_parts L co (Suc (fst c2), snd c2) cs" and ?z = "column_parts L co (Suc (fst c3), snd c3) ds"
  have "column_parts L co (0, 0) (as @ a # bs @ b # cs @ c # ds) =
      ?x @ ip_group ''dst_ip'' # ?y @ ip_group ''dst_ip'' # ?z"
    using c2(2) c3(2)
    by (simp add: c1 c2(1) c3(1) column_parts_address assms(3-5) del: column_parts.simps)
  moreover have "\<exists>u v w. join (regex ''~s+'') (?x @ ip_group ''dst_ip'' # ?y @ ip_group ''dst_ip'' # ?z) =
      u @ ip_group ''dst_ip'' @ v @ ip_group ''dst_ip'' @ w"
    by (rule join_two)
  moreover have "synthesize_positional_regex L samples = Some (Ok (''^'' @
      join (regex ''~s+'') (column_parts L co (0, 0) (as @ a # bs @ b # cs @ c # ds)) @ ''(?:.*)$''))"
    using assms(1,2) by (simp add: synthesize_positional_regex_def Let_def)
  ultimately show ?thesis by (metis append.assoc)
qed

definition address_engine :: "string \<Rightarrow> compiled_regex option" where
  "address_engine p = Some
     \<lparr>rx_captures = (\<lambda>s. None), rx_names = [],
      rx_find = (\<lambda>s. if p = column_patterns ! 1 \<and> parse_ipv4 s \<noteq> None then Some 0 else None)\<rparr>"

theorem third_address_column_repeats_group_witness:
  "\<exists>p u v w. synthesize_positional_regex (test_onboarder_libs\<lparr>ol_compile := address_engine\<rparr>)
       [''10.0.0.1 10.0.1.1 10.0.2.1'', ''10.0.0.2 10.0.1.2 10.0.2.2''] = Some (Ok p) \<and>
     p = u @ ip_group ''dst_ip'' @ v @ ip_group ''dst_ip'' @ w"
proof -
  let ?L = "test_onboarder_libs\<lparr>ol_compile := address_engine\<rparr>"
  let ?cols = "[[''10.0.0.1'', ''10.0.0.2''], [''10.0.1.1'', ''10.0.1.2''], [''10.0.2.1'', ''10.0.2.2'']]"
  have "case compile_columns ?L of None \<Rightarrow> False | Some co \<Rightarrow> list_all (address_column co) ?cols" by code_simp
  then obtain co where co: "compile_columns ?L = Some co" "list_all (address_column co) ?cols"
    by (auto split: option.splits)
  have "columns (map split_whitespace [''10.0.0.1 10.0.1.1 10.0.2.1'', ''10.0.0.2 10.0.1.2 10.0.2.2'']) =
      [] @ [''10.0.0.1'', ''10.0.0.2''] # [] @ [''10.0.1.1'', ''10.0.1.2''] # [] @ [''10.0.2.1'', ''10.0.2.2''] # []"
    by code_simp
  from third_address_column_repeats_group [OF co(1) this] co(2) show ?thesis by simp
qed

end
