(* ===== verification/Yaml_Properties.thy ===== *)
theory Yaml_Properties
  imports Onboarder_Properties
begin

text \<open>
  The YAML form of a parser definition, read back: everything comes back as it was, except that a double quote in
  the pattern or in a sample comes back with a backslash in front of it, because only the writer escapes quotes.
\<close>

subsection \<open>Escapes\<close>

lemma replace_one: "replace_str [x] r s = concat (map (\<lambda>c. if c = x then r else [c]) s)"
  by (induction s) auto

lemma escape_quotes_map: "escape_quotes s = concat (map (\<lambda>c. if c = dquote then [backslash, c] else [c]) s)"
  unfolding escape_quotes_def replace_one by (rule arg_cong [where f = concat]) simp

lemma dquote_neq [simp]: "dquote \<noteq> backslash" "backslash \<noteq> dquote" "dquote \<noteq> newline" "newline \<noteq> dquote"
  "backslash \<noteq> newline" "newline \<noteq> backslash"
  by (simp_all add: dquote_def backslash_def newline_def)

lemma escape_quotes_simps [simp]:
  "escape_quotes [] = []"
  "escape_quotes (c # s) = (if c = dquote then [backslash, c] else [c]) @ escape_quotes s"
  by (simp_all add: escape_quotes_map)

lemma escape_backslashes_simps [simp]:
  "escape_backslashes [] = []"
  "escape_backslashes (c # s) = (if c = backslash then [backslash, c] else [c]) @ escape_backslashes s"
  by (simp_all add: escape_backslashes_def replace_one)

lemma unescape_pattern:
  "replace_str [backslash, backslash] [backslash] (escape_quotes (escape_backslashes r)) = escape_quotes r"
  by (induction r) auto

lemma escape_quotes_plain: "dquote \<notin> set s \<Longrightarrow> escape_quotes s = s"
  by (induction s) auto

lemma newline_escape [simp]:
  "newline \<in> set (escape_quotes s) \<longleftrightarrow> newline \<in> set s" "newline \<in> set (escape_backslashes s) \<longleftrightarrow> newline \<in> set s"
  by (induction s) auto

lemma escape_Nil_iff [simp]: "escape_quotes s = [] \<longleftrightarrow> s = []" "escape_backslashes s = [] \<longleftrightarrow> s = []"
  by (cases s; simp)+

lemma last_escape [simp]: "s \<noteq> [] \<Longrightarrow> last (escape_quotes s) = last s" "s \<noteq> [] \<Longrightarrow> last (escape_backslashes s) = last s"
  by (induction s) auto

definition unquoted_ends :: "string \<Rightarrow> bool" where
  "unquoted_ends s \<longleftrightarrow> s = [] \<or> (hd s \<noteq> dquote \<and> last s \<noteq> dquote)"

lemma unquoted_escape: "s = [] \<or> last s \<noteq> dquote \<Longrightarrow> unquoted_ends (escape_quotes s)"
  by (cases s) (auto simp: unquoted_ends_def)

lemma trim_quotes_quoted: "unquoted_ends s \<Longrightarrow> trim_quotes (quoted s) = s"
proof -
  have rev_drop: "rev (dropWhile (\<lambda>c. c = dquote) (rev (s @ [dquote]))) = s" if "s = [] \<or> last s \<noteq> dquote"
    using that by (cases s rule: rev_cases) auto
  show "unquoted_ends s \<Longrightarrow> trim_quotes (quoted s) = s"
    using rev_drop by (cases s) (auto simp: trim_quotes_def trim_matches_def quoted_def unquoted_ends_def)
qed

subsection \<open>White space and colons\<close>

lemma solid_literals [simp]: "solid dquote" "solid CHR ''v''" "solid CHR ''d''" "solid CHR ''c''" "solid CHR ''r''"
  "solid CHR ''-''" "solid CHR '':''"
  by (simp_all add: solid_def ws_encodings_def dquote_def)

lemma trim_space: "trim (CHR '' '' # s) = trim s"
proof -
  have "ws_len (CHR '' '' # s) = 1" by (simp add: ws_len_def ws_encodings_def)
  then show ?thesis by (simp add: trim_def trim_start_def)
qed

lemma split_once_append: "c \<notin> set k \<Longrightarrow> split_once c (k @ c # v) = Some (k, v)"
proof -
  assume "c \<notin> set k"
  then have "find_idx (\<lambda>d. d = c) (k @ c # v) = Some (length k)" by (intro find_idx_append) auto
  then show ?thesis by (simp add: split_once_def)
qed

lemma lines_of_lines:
  assumes "\<forall>l \<in> set ls. newline \<notin> set l \<and> \<not> ends_cr l"
  shows "str_lines (concat (map (\<lambda>line. line @ [newline]) ls)) = ls"
proof -
  have "split_char (\<lambda>c. c = newline) (concat (map (\<lambda>line. line @ [newline]) ls)) = ls @ [[]]"
    using assms
  proof (induction ls)
    case (Cons l ls)
    then show ?case
      using split_char_append_sep [of l "\<lambda>c. c = newline" newline "concat (map (\<lambda>line. line @ [newline]) ls)"] by auto
  qed simp
  moreover have "map chomp_cr ls = ls" using assms by (intro map_idI) (simp add: chomp_cr_def)
  ultimately show ?thesis by (simp add: str_lines_def Let_def butlast_append)
qed

subsection \<open>Reading one line\<close>

definition yaml_key :: "string \<Rightarrow> bool" where
  "yaml_key k \<longleftrightarrow> k \<noteq> [] \<and> solid (hd k) \<and> hd k \<noteq> CHR ''#'' \<and> CHR '':'' \<notin> set k \<and> newline \<notin> set k \<and> trim k = k"

text \<open>A line \<open>key: value\<close>, whatever stands in front, when neither end of the value is white space.\<close>

lemma key_line:
  assumes "yaml_key k" "v \<noteq> []" "solid (hd v)" "solid (last v)"
  defines "line \<equiv> k @ '': '' @ v"
  shows "trim line = line" "\<not> starts_with line ''#''" "line \<noteq> ''action_mappings:''" "line \<noteq> ''sample_logs:''"
    "split_once (CHR '':'') line = Some (k, CHR '' '' # v)" "trim (CHR '' '' # v) = v" "line \<noteq> []"
proof -
  obtain c k' where k: "k = c # k'" "c \<noteq> CHR ''#''" using assms(1) by (cases k) (auto simp: yaml_key_def)
  show "trim line = line" using assms by (intro trim_solid) (auto simp: yaml_key_def)
  show "\<not> starts_with line ''#''" using k by (simp add: line_def)
  have "CHR '' '' \<in> set line" by (simp add: line_def)
  then show "line \<noteq> ''action_mappings:''" "line \<noteq> ''sample_logs:''" by auto
  show "split_once (CHR '':'') line = Some (k, CHR '' '' # v)"
    using assms(1) split_once_append [of "CHR '':''" k "CHR '' '' # v"] by (simp add: line_def yaml_key_def)
  show "trim (CHR '' '' # v) = v" using assms(2-4) by (simp add: trim_space trim_solid)
  show "line \<noteq> []" by (simp add: line_def)
qed

lemma yaml_line_property:
  assumes "yaml_key k" "v \<noteq> []" "solid (hd v)" "solid (last v)" "\<not> ys_in_actions st" "\<not> ys_in_samples st"
  shows "yaml_line now st (k @ '': '' @ v) = st\<lparr>ys_def := yaml_property now k (trim_quotes v) (ys_def st)\<rparr>"
  using key_line [OF assms(1-4)] assms(1,5,6)
  by (simp add: yaml_line_def yaml_actions_def yaml_samples_def yaml_top_def yaml_key_def del: append_Cons)

lemma quoted_ends: "quoted s \<noteq> []" "hd (quoted s) = dquote" "last (quoted s) = dquote"
  by (simp_all add: quoted_def)

lemma yaml_line_action:
  assumes "yaml_key k" "unquoted_ends v" "ys_in_actions st"
  shows "yaml_line now st (yaml_action (k, v)) = st\<lparr>ys_def := (ys_def st)\<lparr>pd_action_mappings :=
    hm_insert k v (pd_action_mappings (ys_def st))\<rparr>\<rparr>"
proof -
  have kl: "trim (k @ '': '' @ quoted v) = k @ '': '' @ quoted v"
    "\<not> starts_with (k @ '': '' @ quoted v) ''#''" "k @ '': '' @ quoted v \<noteq> ''action_mappings:''"
    "k @ '': '' @ quoted v \<noteq> ''sample_logs:''"
    "split_once (CHR '':'') (k @ '': '' @ quoted v) = Some (k, CHR '' '' # quoted v)"
    "trim (CHR '' '' # quoted v) = quoted v" "k @ '': '' @ quoted v \<noteq> []"
    using key_line [of k "quoted v"] assms(1) by (simp_all add: quoted_ends)
  have "trim (yaml_action (k, v)) = k @ '': '' @ quoted v"
    using kl(1) by (simp add: yaml_action_def trim_space)
  then show ?thesis
    using kl assms trim_quotes_quoted [OF assms(2)]
    by (simp add: yaml_line_def yaml_actions_def yaml_key_def del: append_Cons)
qed

lemma yaml_line_sample:
  assumes "s = [] \<or> last s \<noteq> dquote" "ys_in_samples st" "\<not> ys_in_actions st"
  shows "yaml_line now st (yaml_sample s) = st\<lparr>ys_def := (ys_def st)\<lparr>pd_sample_logs :=
    pd_sample_logs (ys_def st) @ [escape_quotes s]\<rparr>\<rparr>"
proof -
  let ?l = "CHR ''-'' # CHR '' '' # quoted (escape_quotes s)"
  have "trim ?l = ?l" by (rule trim_solid) (simp_all add: quoted_ends)
  then have "trim (yaml_sample s) = ?l" by (simp add: yaml_sample_def trim_space)
  moreover have "strip_prefix ?l ''- '' = Some (quoted (escape_quotes s))"
    using strip_prefix_append [of "''- ''"] by simp
  moreover have "trim_quotes (quoted (escape_quotes s)) = escape_quotes s"
    by (intro trim_quotes_quoted unquoted_escape assms(1))
  ultimately show ?thesis using assms(2,3) by (simp add: yaml_line_def yaml_actions_def yaml_samples_def)
qed

lemma yaml_line_sections:
  "yaml_line now st ''action_mappings:'' = st\<lparr>ys_in_actions := True, ys_in_samples := False\<rparr>"
  "yaml_line now st ''sample_logs:'' = st\<lparr>ys_in_samples := True, ys_in_actions := False\<rparr>"
proof -
  have "trim ''action_mappings:'' = ''action_mappings:''" "trim ''sample_logs:'' = ''sample_logs:''" by code_simp+
  then show "yaml_line now st ''action_mappings:'' = st\<lparr>ys_in_actions := True, ys_in_samples := False\<rparr>"
    "yaml_line now st ''sample_logs:'' = st\<lparr>ys_in_samples := True, ys_in_actions := False\<rparr>"
    by (simp_all add: yaml_line_def)
qed

subsection \<open>Reading the whole text\<close>

lemma hm_insert_new: "k \<notin> fst ` set m \<Longrightarrow> hm_insert k v m = m @ [(k, v)]"
  by (induction k v m rule: hm_insert.induct) auto

lemma yaml_lines_actions:
  assumes "\<forall>(k, v) \<in> set kvs. yaml_key k \<and> unquoted_ends v" "ys_in_actions st"
    "distinct (map fst (pd_action_mappings (ys_def st) @ kvs))"
  shows "foldl (yaml_line now) st (map yaml_action kvs) =
    st\<lparr>ys_def := (ys_def st)\<lparr>pd_action_mappings := pd_action_mappings (ys_def st) @ kvs\<rparr>\<rparr>"
  using assms
proof (induction kvs arbitrary: st)
  case (Cons e kvs)
  obtain k v where e: "e = (k, v)" by (cases e)
  then have "hm_insert k v (pd_action_mappings (ys_def st)) = pd_action_mappings (ys_def st) @ [(k, v)]"
    using Cons.prems(3) by (intro hm_insert_new) auto
  then show ?case using Cons.prems e by (simp add: yaml_line_action Cons.IH)
qed simp

lemma yaml_lines_samples:
  assumes "\<forall>s \<in> set ss. s = [] \<or> last s \<noteq> dquote" "ys_in_samples st" "\<not> ys_in_actions st"
  shows "foldl (yaml_line now) st (map yaml_sample ss) =
    st\<lparr>ys_def := (ys_def st)\<lparr>pd_sample_logs := pd_sample_logs (ys_def st) @ map escape_quotes ss\<rparr>\<rparr>"
  using assms by (induction ss arbitrary: st) (simp_all add: yaml_line_sample)

text \<open>
  The definitions the writer is meant for: no line breaks, no double quote at the ends of a value or at the end of the pattern or
  of a sample, plain action names, a confidence in hundredths and an \<open>i64\<close> timestamp.
\<close>

definition yaml_safe :: "parser_definition \<Rightarrow> bool" where
  "yaml_safe d \<longleftrightarrow>
     (\<forall>s \<in> {pd_vendor d, pd_device_model d}. newline \<notin> set s \<and> unquoted_ends s) \<and>
     pd_regex_pattern d \<noteq> [] \<and> newline \<notin> set (pd_regex_pattern d) \<and> last (pd_regex_pattern d) \<noteq> dquote \<and>
     hm_ok (pd_action_mappings d) \<and>
     (\<forall>(k, v) \<in> set (pd_action_mappings d). yaml_key k \<and> newline \<notin> set v \<and> unquoted_ends v) \<and>
     (\<forall>s \<in> set (pd_sample_logs d). newline \<notin> set s \<and> (s = [] \<or> last s \<noteq> dquote)) \<and>
     (case pd_confidence_score d of
        Finite r \<Rightarrow> 0 \<le> r \<and> of_int \<lfloor>100 * r\<rfloor> = 100 * r | Infinite n \<Rightarrow> False | Not_a_number \<Rightarrow> False) \<and>
     - (2 ^ 63) \<le> pd_created_at d \<and> pd_created_at d < 2 ^ 63"

lemma trim_quotes_id: "unquoted_ends s \<Longrightarrow> trim_quotes s = s"
proof (cases s rule: rev_cases)
  case (snoc t c)
  assume "unquoted_ends s"
  then have "dropWhile (\<lambda>c. c = dquote) s = s" "c \<noteq> dquote"
    by (cases s; simp add: snoc unquoted_ends_def hd_append split: if_splits)+
  then show ?thesis by (simp add: trim_quotes_def trim_matches_def snoc)
qed (simp add: trim_quotes_def trim_matches_def)

definition number_text :: "string \<Rightarrow> bool" where
  "number_text s \<longleftrightarrow> s \<noteq> [] \<and> (is_ascii_digit (hd s) \<or> hd s = CHR ''-'') \<and> is_ascii_digit (last s) \<and>
     newline \<notin> set s"

lemma number_text_line:
  "number_text s \<Longrightarrow> s \<noteq> [] \<and> solid (hd s) \<and> solid (last s) \<and> trim_quotes s = s"
proof -
  assume s: "number_text s"
  have "\<not> is_ascii_digit dquote" "dquote \<noteq> CHR ''-''" by (simp_all add: dquote_def is_ascii_digit_def)
  then have "unquoted_ends s" using s by (auto simp: number_text_def unquoted_ends_def)
  then show ?thesis using s by (auto simp: number_text_def solid_digit trim_quotes_id)
qed

lemma digits_text: "list_all is_ascii_digit s \<Longrightarrow> c \<in> set s \<Longrightarrow> is_ascii_digit c"
  by (simp add: list_all_iff)

lemma newline_no_digit: "\<not> is_ascii_digit newline"
  by (simp add: newline_def is_ascii_digit_def)

lemma number_text_nat: "number_text (show_nat n)"
proof -
  have "is_ascii_digit c" if "c \<in> set (show_nat n)" for c using that by (rule digits_text [OF show_nat_props(2)])
  then show ?thesis
    using show_nat_props(1) [of n] newline_no_digit by (auto simp: number_text_def hd_in_set last_in_set)
qed

lemma number_text_int: "number_text (show_int i)"
  using number_text_nat [of "nat i"] number_text_nat [of "nat (- i)"]
  by (auto simp: show_int_def number_text_def newline_def)

lemma number_text_fixed: "number_text (show_f64_2 (Finite (of_nat n / 100)))"
proof -
  let ?p = "pad_zeros 2 (show_nat (n mod 100))"
  have p: "length ?p = 2" "list_all is_ascii_digit ?p" using show_nat_two [of "n mod 100"] by simp_all
  then have "?p \<noteq> []" "last ?p \<in> set ?p" by (metis length_0_conv zero_neq_numeral) (metis p(1) last_in_set length_0_conv zero_neq_numeral)
  moreover have "show_f64_2 (Finite (of_nat n / 100)) = show_nat (n div 100) @ CHR ''.'' # ?p"
    by (simp add: show_fixed2_def)
  moreover have "CHR ''.'' \<noteq> newline" by (simp add: newline_def)
  ultimately show ?thesis
    using number_text_nat [of "n div 100"] p digits_text [OF p(2)] newline_no_digit
    by (auto simp: number_text_def)
qed

lemma yaml_keys: "yaml_key ''vendor''" "yaml_key ''device_model''" "yaml_key ''confidence_score''"
  "yaml_key ''created_at''" "yaml_key ''regex_pattern''"
  by code_simp+

definition whole_line :: "string \<Rightarrow> bool" where
  "whole_line l \<longleftrightarrow> newline \<notin> set l \<and> \<not> ends_cr l"

lemma ends_cr_iff: "ends_cr s \<longleftrightarrow> s \<noteq> [] \<and> last s = carriage_return"
  by (cases s) auto

lemma whole_line_quoted: "newline \<notin> set k \<Longrightarrow> newline \<notin> set v \<Longrightarrow> whole_line (k @ quoted v)"
  by (auto simp: whole_line_def quoted_def ends_cr_iff dquote_def carriage_return_def newline_def)

lemma whole_line_number: "newline \<notin> set k \<Longrightarrow> number_text v \<Longrightarrow> whole_line (k @ v)"
  by (auto simp: whole_line_def number_text_def ends_cr_iff carriage_return_def is_ascii_digit_def)

definition restored :: "parser_definition \<Rightarrow> parser_definition" where
  "restored d = d\<lparr>pd_regex_pattern := escape_quotes (pd_regex_pattern d),
     pd_sample_logs := map escape_quotes (pd_sample_logs d)\<rparr>"

lemma confidence_hundredths:
  assumes "0 \<le> r" "of_int \<lfloor>100 * r\<rfloor> = 100 * r"
  shows "\<exists>n. r = of_nat n / (100 :: rat)"
proof -
  have "0 \<le> \<lfloor>100 * r\<rfloor>" using assms(1) by simp
  then have "of_nat (nat \<lfloor>100 * r\<rfloor>) = 100 * r" using assms(2) by (metis of_int_of_nat_eq int_nat_eq)
  then have "r = of_nat (nat \<lfloor>100 * r\<rfloor>) / 100" by linarith
  then show ?thesis by blast
qed

lemma newline_literals: "newline = CHR 0x0A"
  by (simp add: newline_def)

lemma yaml_header_read:
  assumes "yaml_safe d"
  shows "foldl (yaml_line now) (yaml_start now) (yaml_header d) = (yaml_start now)\<lparr>ys_def :=
    (restored d)\<lparr>pd_action_mappings := [], pd_sample_logs := []\<rparr>\<rparr>"
proof -
  let ?e = "escape_quotes (escape_backslashes (pd_regex_pattern d))"
  obtain r where r: "pd_confidence_score d = Finite r" "0 \<le> r" "of_int \<lfloor>100 * r\<rfloor> = 100 * r"
    using assms by (auto simp: yaml_safe_def split: float_val.splits)
  then obtain n where n: "pd_confidence_score d = Finite (of_nat n / 100)" using confidence_hundredths [of r] by auto
  note c = number_text_line [OF number_text_fixed [of n]]
  note t = number_text_line [OF number_text_int [of "pd_created_at d"]]
  have q: "trim_quotes (quoted (pd_vendor d)) = pd_vendor d"
    "trim_quotes (quoted (pd_device_model d)) = pd_device_model d" "trim_quotes (quoted ?e) = ?e"
    using assms by (auto simp: yaml_safe_def trim_quotes_quoted unquoted_escape)
  have ts: "parse_i64 (show_int (pd_created_at d)) = Some (pd_created_at d)"
    using assms by (intro parse_i64_show) (simp_all add: yaml_safe_def)
  note line = yaml_keys [THEN yaml_line_property [where now = now], unfolded append_Cons append_Nil]
  show ?thesis
    unfolding yaml_header_def n foldl_Cons foldl_Nil
    using c t
    by (simp add: line quoted_ends q yaml_start_def yaml_property_def parse_f64_show ts unescape_pattern
        restored_def n del: show_f64_2.simps)
qed

lemma yaml_whole_lines:
  assumes "yaml_safe d"
  shows "\<forall>l \<in> set (yaml_header d @ [''action_mappings:''] @ map yaml_action (pd_action_mappings d) @
        [''sample_logs:''] @ map yaml_sample (pd_sample_logs d)). whole_line l"
proof -
  obtain r where r: "pd_confidence_score d = Finite r" "0 \<le> r" "of_int \<lfloor>100 * r\<rfloor> = 100 * r"
    using assms by (auto simp: yaml_safe_def split: float_val.splits)
  have "number_text (show_f64_2 (pd_confidence_score d))"
    using confidence_hundredths [OF r(2,3)] number_text_fixed by (metis r(1))
  then have c: "whole_line (''confidence_score: '' @ show_f64_2 (pd_confidence_score d))"
    by (rule whole_line_number [rotated]) (simp add: newline_def)
  have t: "whole_line (''created_at: '' @ show_int (pd_created_at d))"
    by (rule whole_line_number) (simp_all add: newline_def number_text_int)
  have lit: "newline \<notin> set ''vendor: ''" "newline \<notin> set ''device_model: ''" "newline \<notin> set ''regex_pattern: ''"
    "newline \<notin> set ''  - ''" by (simp_all add: newline_def)
  have nl: "newline \<notin> set (pd_vendor d)" "newline \<notin> set (pd_device_model d)"
    "newline \<notin> set (escape_quotes (escape_backslashes (pd_regex_pattern d)))"
    using assms by (simp_all add: yaml_safe_def)
  note q = whole_line_quoted [OF lit(1) nl(1)] whole_line_quoted [OF lit(2) nl(2)] whole_line_quoted [OF lit(3) nl(3)]
  have s: "whole_line (yaml_sample s)" if "s \<in> set (pd_sample_logs d)" for s
    unfolding yaml_sample_def by (rule whole_line_quoted) (use assms that lit in \<open>auto simp: yaml_safe_def\<close>)
  have a: "whole_line (yaml_action e)" if "e \<in> set (pd_action_mappings d)" for e
  proof -
    obtain k v where e: "e = (k, v)" by (cases e)
    then have "newline \<notin> set k" "newline \<notin> set v" using assms that by (auto simp: yaml_safe_def yaml_key_def)
    then show ?thesis
      using whole_line_quoted [of "''  '' @ k @ '': ''" v] by (simp add: e yaml_action_def newline_literals)
  qed
  have "whole_line ''action_mappings:''" "whole_line ''sample_logs:''" by code_simp+
  then show ?thesis using c t q s a by (auto simp: yaml_header_def)
qed

text \<open>
  C30. A definition written to YAML and read back is the definition it was, with a backslash before every double quote of
  the pattern and of the samples; without double quotes there it is the same definition.
\<close>
theorem yaml_roundtrip:
  assumes "to_yaml d = Ok yaml" "yaml_safe d" "ol_json_read L yaml = None"
  shows "from_yaml L now yaml = Ok (restored d) \<and>
    (dquote \<notin> set (pd_regex_pattern d) \<and> list_all (\<lambda>s. dquote \<notin> set s) (pd_sample_logs d) \<longrightarrow> restored d = d)"
proof -
  let ?ls = "yaml_header d @ [''action_mappings:''] @ map yaml_action (pd_action_mappings d) @
        [''sample_logs:''] @ map yaml_sample (pd_sample_logs d)"
  let ?s1 = "(yaml_start now)\<lparr>ys_def := (restored d)\<lparr>pd_action_mappings := [], pd_sample_logs := []\<rparr>\<rparr>"
  have "\<forall>l \<in> set ?ls. newline \<notin> set l \<and> \<not> ends_cr l" using yaml_whole_lines [OF assms(2)] by (simp add: whole_line_def)
  then have lines: "str_lines yaml = ?ls" using assms(1) lines_of_lines [of ?ls] by (simp add: to_yaml_def)
  have a: "\<forall>(k, v) \<in> set (pd_action_mappings d). yaml_key k \<and> unquoted_ends v"
    and k: "distinct (map fst (pd_action_mappings d))"
    and s: "\<forall>s \<in> set (pd_sample_logs d). s = [] \<or> last s \<noteq> dquote"
    using assms(2) by (auto simp: yaml_safe_def hm_ok_def)
  have "ys_def (foldl (yaml_line now) (yaml_start now) ?ls) = restored d"
    unfolding foldl_append foldl_Cons foldl_Nil yaml_header_read [OF assms(2)]
    using a k s
    by (simp add: yaml_line_sections yaml_lines_actions yaml_lines_samples restored_def)
  moreover have "pd_regex_pattern (restored d) \<noteq> []" using assms(2) by (simp add: restored_def yaml_safe_def)
  moreover have "restored d = d" if "dquote \<notin> set (pd_regex_pattern d)" "list_all (\<lambda>s. dquote \<notin> set s) (pd_sample_logs d)"
    using that by (simp add: restored_def escape_quotes_plain list_all_iff map_idI)
  ultimately show ?thesis using assms(3) by (simp add: from_yaml_def lines)
qed

definition quoted_definition :: parser_definition where
  "quoted_definition =
     \<lparr>pd_vendor = ''Acme'', pd_device_model = ''X1'', pd_regex_pattern = ''act=\"(?P<action>[a-z]+)\" .*$'',
      pd_action_mappings = [(''deny'', BLOCKED)], pd_sample_logs = [''act=\"deny\" x''],
      pd_confidence_score = Finite 1, pd_created_at = 1700000000000\<rparr>"

theorem yaml_roundtrip_witness:
  "\<exists>yaml. to_yaml quoted_definition = Ok yaml \<and>
     from_yaml test_onboarder_libs 0 yaml = Ok (restored quoted_definition) \<and>
     restored quoted_definition \<noteq> quoted_definition"
proof -
  have safe: "yaml_safe quoted_definition" by code_simp
  obtain yaml where y: "to_yaml quoted_definition = Ok yaml" by (simp add: to_yaml_def)
  have j: "ol_json_read test_onboarder_libs yaml = None" by (simp add: test_onboarder_libs_def)
  have "pd_regex_pattern (restored quoted_definition) \<noteq> pd_regex_pattern quoted_definition" by code_simp
  then show ?thesis using yaml_roundtrip [OF y safe j, of 0] y by metis
qed

end
