(* ===== verification/Pipeline.thy ===== *)
theory Pipeline
  imports Universal_Parser Drain_Correct Laya Onboarder Step_System
begin

text \<open>
  The three-tier pipeline of \<open>ulpf-ai/src/pipeline.rs\<close>: the signature cache, the template miner behind it, and a
  bounded channel to the triage worker. A call of \<open>process\<close> is one step and the worker takes two, receiving a task and
  finishing it; the steps interleave in any order. A call gives its event, or none when it panics, and the state it
  leaves, which keeps the effects before a panic. The channel is crossbeam's: a send that would block is refused,
  and a channel of capacity 0 hands a task to a waiting receiver only.
\<close>

record triage_task =
  tk_cluster_id :: nat
  tk_template :: string
  tk_sample_log :: string
  tk_timestamp_ms :: int

record pipeline_stats =
  ps_total_events :: u64
  ps_tier1_lru_hits :: u64
  ps_tier2_drain_hits :: u64
  ps_tier3_laya_dispatches :: u64
  ps_tier3_laya_onboarded :: u64
  ps_lru_hit_ratio :: rat
  ps_lru_stats :: lru_stats

text \<open>\<open>tp_worker\<close> is the task the worker is busy with, none while it waits in \<open>recv\<close>.\<close>

record pipeline =
  tp_cache :: signature_cache
  tp_drain :: drain_miner
  tp_registry :: registry
  tp_capacity :: nat
  tp_queue :: "triage_task list"
  tp_worker :: "triage_task option"
  tp_total_events :: u64
  tp_tier2_drain_hits :: u64
  tp_tier3_laya_dispatches :: u64
  tp_tier3_laya_onboarded :: u64

record pipeline_libs =
  xl_parser :: parser_libs
  xl_masker :: masker_libs
  xl_onboarder :: onboarder_libs
  xl_engine :: laya_engine

text \<open>The clock readings and ids of one call; a second parse after a failed one reads them anew.\<close>

record call_env =
  ce_parse :: parse_env
  ce_retry :: parse_env
  ce_drain :: drain_env
  ce_timestamp_ms :: int

definition with_ring_buffer_capacity :: "nat \<Rightarrow> pipeline option" where
  "with_ring_buffer_capacity capacity =
     map_option (\<lambda>cache. \<lparr>tp_cache = cache, tp_drain = drain_new default_drain_config, tp_registry = registry_new,
       tp_capacity = capacity, tp_queue = [], tp_worker = None, tp_total_events = 0, tp_tier2_drain_hits = 0,
       tp_tier3_laya_dispatches = 0, tp_tier3_laya_onboarded = 0\<rparr>) cache_new"

definition pipeline_new :: "pipeline option" where
  "pipeline_new = with_ring_buffer_capacity 10000"

subsection \<open>The channel\<close>

definition try_send :: "triage_task \<Rightarrow> pipeline \<Rightarrow> pipeline" where
  "try_send task st =
     (if tp_capacity st = 0 then (if tp_worker st = None then st\<lparr>tp_worker := Some task\<rparr> else st)
      else if length (tp_queue st) < tp_capacity st then st\<lparr>tp_queue := tp_queue st @ [task]\<rparr>
      else st)"

subsection \<open>Processing a line\<close>

definition tier_parse :: "pipeline_libs \<Rightarrow> call_env \<Rightarrow> string \<Rightarrow> vendor_format \<Rightarrow> network_activity option" where
  "tier_parse X E raw format =
     (case parse_with_format (xl_parser X) (ce_parse E) raw format of
        None \<Rightarrow> None
      | Some (Inr activity) \<Rightarrow> Some activity
      | Some (Inl e) \<Rightarrow> parse_lossless (xl_parser X) (ce_retry E) raw)"

definition promote ::
  "pipeline_libs \<Rightarrow> call_env \<Rightarrow> string \<Rightarrow> u64 \<Rightarrow> pipeline \<Rightarrow> network_activity option \<times> pipeline" where
  "promote X E raw sig_hash st0 =
     (let st = st0\<lparr>tp_tier2_drain_hits := tp_tier2_drain_hits st0 + 1\<rparr>;
          format = classify (pl_ac (xl_parser X)) raw
      in case (if format \<noteq> Unknown then cache_insert sig_hash format (tp_cache st) else Some (tp_cache st)) of
           None \<Rightarrow> (None, st)
         | Some cache \<Rightarrow> (tier_parse X E raw format, st\<lparr>tp_cache := cache\<rparr>))"

definition dispatch ::
  "pipeline_libs \<Rightarrow> call_env \<Rightarrow> string \<Rightarrow> cluster_result \<Rightarrow> pipeline \<Rightarrow> network_activity option \<times> pipeline" where
  "dispatch X E raw res st =
     (let st1 = try_send \<lparr>tk_cluster_id = cr_cluster_id res, tk_template = cr_template res, tk_sample_log = raw,
              tk_timestamp_ms = ce_timestamp_ms E\<rparr> st
      in (parse_lossless (xl_parser X) (ce_parse E) raw,
          st1\<lparr>tp_tier3_laya_dispatches := tp_tier3_laya_dispatches st1 + 1\<rparr>))"

definition process ::
  "pipeline_libs \<Rightarrow> call_env \<Rightarrow> string \<Rightarrow> pipeline \<Rightarrow> network_activity option \<times> pipeline" where
  "process X E raw st0 =
     (let st = st0\<lparr>tp_total_events := tp_total_events st0 + 1\<rparr> in
      case compute_signature_hash raw of
        None \<Rightarrow> (None, st)
      | Some sig_hash \<Rightarrow>
          (case cache_get sig_hash (tp_cache st) of
             None \<Rightarrow> (None, st)
           | Some (Some format, cache) \<Rightarrow> (tier_parse X E raw format, st\<lparr>tp_cache := cache\<rparr>)
           | Some (None, cache) \<Rightarrow>
               let st1 = st\<lparr>tp_cache := cache\<rparr> in
               (case add_log (xl_masker X) (ce_drain E) raw (tp_drain st1) of
                  None \<Rightarrow> (None, st1)
                | Some (res, miner) \<Rightarrow>
                    let st2 = st1\<lparr>tp_drain := miner\<rparr> in
                    if \<not> cr_is_new res then promote X E raw sig_hash st2 else dispatch X E raw res st2)))"

definition stats :: "pipeline \<Rightarrow> pipeline_stats" where
  "stats st =
     (let lru = cache_stats (tp_cache st)
      in \<lparr>ps_total_events = tp_total_events st, ps_tier1_lru_hits = ls_hits lru,
          ps_tier2_drain_hits = tp_tier2_drain_hits st, ps_tier3_laya_dispatches = tp_tier3_laya_dispatches st,
          ps_tier3_laya_onboarded = tp_tier3_laya_onboarded st, ps_lru_hit_ratio = ls_hit_ratio lru,
          ps_lru_stats = lru\<rparr>)"

subsection \<open>The worker\<close>

definition worker_recv :: "pipeline \<Rightarrow> (triage_task \<times> pipeline) option" where
  "worker_recv st =
     (if tp_worker st \<noteq> None then None
      else case tp_queue st of
        [] \<Rightarrow> None
      | task # rest \<Rightarrow> Some (task, st\<lparr>tp_worker := Some task, tp_queue := rest\<rparr>))"

text \<open>
  The body of the loop. The action and the threat score are computed and not used. The result \<open>None\<close> would be a
  panic of the worker thread.
\<close>

definition triage :: "pipeline_libs \<Rightarrow> int \<Rightarrow> triage_task \<Rightarrow> pipeline \<Rightarrow> pipeline option" where
  "triage X now task st =
     (let vendor_choice = classify_vendor (xl_engine X) (tk_sample_log task) in
      if 0.85 \<le> ly_probability vendor_choice then
        (case generate_parser (xl_onboarder X) now (ly_label vendor_choice)
                (''cluster-'' @ show_nat (tk_cluster_id task)) [tk_sample_log task] of
           None \<Rightarrow> None
         | Some (Inl e) \<Rightarrow> Some st
         | Some (Inr (parser_def, report)) \<Rightarrow>
             if vr_passed report
             then Some (st\<lparr>tp_registry := register (xl_onboarder X) parser_def (tp_registry st),
                           tp_tier3_laya_onboarded := tp_tier3_laya_onboarded st + 1\<rparr>)
             else Some st)
      else Some st)"

definition worker_finish :: "pipeline_libs \<Rightarrow> int \<Rightarrow> pipeline \<Rightarrow> (triage_task \<times> pipeline) option" where
  "worker_finish X now st =
     (case tp_worker st of
        None \<Rightarrow> None
      | Some task \<Rightarrow> map_option (\<lambda>st'. (task, st'\<lparr>tp_worker := None\<rparr>)) (triage X now task st))"

subsection \<open>Steps\<close>

datatype pipeline_label =
    Processed string "network_activity option"
  | Received triage_task
  | Triaged triage_task

inductive pipeline_step :: "pipeline_libs \<Rightarrow> pipeline \<Rightarrow> pipeline_label \<Rightarrow> pipeline \<Rightarrow> bool"
  for X :: pipeline_libs where
  step_process: "process X E raw st = (ev, st') \<Longrightarrow> pipeline_step X st (Processed raw ev) st'"
| step_recv: "worker_recv st = Some (task, st') \<Longrightarrow> pipeline_step X st (Received task) st'"
| step_triage: "worker_finish X now st = Some (task, st') \<Longrightarrow> pipeline_step X st (Triaged task) st'"

inductive_cases pipeline_stepE: "pipeline_step X st l st'"

definition pipeline_init :: "nat \<Rightarrow> pipeline \<Rightarrow> bool" where
  "pipeline_init capacity st \<longleftrightarrow> with_ring_buffer_capacity capacity = Some st"

abbreviation pipeline_reach :: "pipeline_libs \<Rightarrow> nat \<Rightarrow> pipeline_label list \<Rightarrow> pipeline \<Rightarrow> bool" where
  "pipeline_reach X capacity \<equiv> reach (pipeline_init capacity) (pipeline_step X)"

end
