(* ===== verification/Pipeline_Properties.thy ===== *)
theory Pipeline_Properties
  imports Pipeline Onboarder_Properties
begin

text \<open>
  Invariants of the reachable states of the pipeline: every line gets a traceable event, the event the plain lossless
  parser gives when no signature is shared across formats; the tiers account for every line; the channel stays within its
  capacity and no cluster is triaged twice; and the worker never onboards a parser.
\<close>

subsection \<open>One call\<close>

definition counted :: "pipeline \<Rightarrow> pipeline" where
  "counted st = st\<lparr>tp_total_events := tp_total_events st + 1\<rparr>"

definition pipeline_ok :: "pipeline \<Rightarrow> bool" where
  "pipeline_ok st \<longleftrightarrow> cache_ok (tp_cache st) \<and> (\<exists>hist. general.miner_ok (tp_drain st) hist)"

lemma cache_promote:
  assumes "cache_ok c"
  shows "\<exists>c'. (if b then cache_insert k f c else Some c) = Some c' \<and> cache_ok c' \<and> lc_hits c' = lc_hits c \<and>
    lc_misses c' = lc_misses c"
proof (cases b)
  case True
  show ?thesis by (rule cache_insert_props [OF assms, of k f]) (use True in auto)
qed (use assms in auto)

lemma process_cases:
  assumes ok: "pipeline_ok st" and p: "process X E raw st = (ev, st')"
  obtains (panic) "compute_signature_hash raw = None" "ev = None" "st' = counted st"
  | (tier1) k f c where "compute_signature_hash raw = Some k" "cached_format (xl_parser X) raw (tp_cache st) = Some (f, c)"
      "c = (tp_cache st)\<lparr>lc_hits := lc_hits (tp_cache st) + 1\<rparr>" "ev = tier_parse X E raw f"
      "st' = (counted st)\<lparr>tp_cache := c\<rparr>"
  | (tier2) k f c res m where "compute_signature_hash raw = Some k"
      "cached_format (xl_parser X) raw (tp_cache st) = Some (f, c)" "cache_ok c"
      "lc_hits c = lc_hits (tp_cache st)" "lc_misses c = lc_misses (tp_cache st) + 1"
      "add_log (xl_masker X) (ce_drain E) raw (tp_drain st) = Some (res, m)" "\<not> cr_is_new res"
      "ev = tier_parse X E raw f"
      "st' = (counted st)\<lparr>tp_cache := c, tp_drain := m, tp_tier2_drain_hits := tp_tier2_drain_hits st + 1\<rparr>"
  | (tier3) k c res m where "compute_signature_hash raw = Some k"
      "c = (tp_cache st)\<lparr>lc_misses := lc_misses (tp_cache st) + 1\<rparr>"
      "add_log (xl_masker X) (ce_drain E) raw (tp_drain st) = Some (res, m)" "cr_is_new res"
      "ev = parse_lossless (xl_parser X) (ce_parse E) raw"
      "(ev, st') = dispatch X E raw res ((counted st)\<lparr>tp_cache := c, tp_drain := m\<rparr>)"
proof (cases "compute_signature_hash raw")
  case None
  then show thesis using p panic by (simp add: process_def Let_def counted_def)
next
  case (Some k)
  have cok: "cache_ok (tp_cache st)" using ok by (simp add: pipeline_ok_def)
  note get = cache_get_eq [OF cok, of k]
  show thesis
  proof (cases "cache_peek (tp_cache st) k")
    case (Some f)
    then show thesis
      using p \<open>compute_signature_hash raw = Some k\<close> get
      by (intro tier1 [of k f]) (auto simp: process_def Let_def counted_def cached_format_def)
  next
    case None
    let ?c1 = "(tp_cache st)\<lparr>lc_misses := lc_misses (tp_cache st) + 1\<rparr>"
    obtain hist where "general.miner_ok (tp_drain st) hist" using ok by (auto simp: pipeline_ok_def)
    then obtain res m where res: "add_log (xl_masker X) (ce_drain E) raw (tp_drain st) = Some (res, m)"
      using general.add_log_ok [of "tp_drain st" hist "xl_masker X" raw] by (force simp: list_all_iff)
    have pr: "process X E raw st = (if \<not> cr_is_new res
        then promote X E raw k ((counted st)\<lparr>tp_cache := ?c1, tp_drain := m\<rparr>)
        else dispatch X E raw res ((counted st)\<lparr>tp_cache := ?c1, tp_drain := m\<rparr>))"
      using \<open>compute_signature_hash raw = Some k\<close> get None res by (simp add: process_def Let_def counted_def)
    show thesis
    proof (cases "cr_is_new res")
      case True
      then show thesis
        using p pr \<open>compute_signature_hash raw = Some k\<close> res by (intro tier3 [of k ?c1 res m]) (auto simp: dispatch_def Let_def)
    next
      case False
      let ?f = "classify (pl_ac (xl_parser X)) raw"
      have ok1: "cache_ok ?c1" using cok by simp
      obtain c where c: "(if ?f \<noteq> Unknown then cache_insert k ?f ?c1 else Some ?c1) = Some c" "cache_ok c"
        "lc_hits c = lc_hits ?c1" "lc_misses c = lc_misses ?c1"
        using cache_promote [OF ok1, of "?f \<noteq> Unknown" k ?f] by blast
      then have "cached_format (xl_parser X) raw (tp_cache st) = Some (?f, c)"
        using \<open>compute_signature_hash raw = Some k\<close> get None by (auto simp: cached_format_def Let_def split: if_splits)
      moreover have "(ev, st') = promote X E raw k ((counted st)\<lparr>tp_cache := ?c1, tp_drain := m\<rparr>)"
        using p pr False by simp
      ultimately show thesis
        using c False \<open>compute_signature_hash raw = Some k\<close> res
        by (intro tier2 [of k ?f c res m]) (auto simp: promote_def Let_def counted_def split: if_splits)
    qed
  qed
qed

lemma dispatch_simps [simp]:
  "tp_cache (try_send t st) = tp_cache st" "tp_drain (try_send t st) = tp_drain st"
  "tp_registry (try_send t st) = tp_registry st" "tp_capacity (try_send t st) = tp_capacity st"
  "tp_total_events (try_send t st) = tp_total_events st"
  "tp_tier2_drain_hits (try_send t st) = tp_tier2_drain_hits st"
  "tp_tier3_laya_dispatches (try_send t st) = tp_tier3_laya_dispatches st"
  "tp_tier3_laya_onboarded (try_send t st) = tp_tier3_laya_onboarded st"
  by (simp_all add: try_send_def)

lemma counted_simps [simp]:
  "tp_cache (counted st) = tp_cache st" "tp_drain (counted st) = tp_drain st"
  "tp_registry (counted st) = tp_registry st" "tp_capacity (counted st) = tp_capacity st"
  "tp_queue (counted st) = tp_queue st" "tp_worker (counted st) = tp_worker st"
  "tp_total_events (counted st) = tp_total_events st + 1"
  "tp_tier2_drain_hits (counted st) = tp_tier2_drain_hits st"
  "tp_tier3_laya_dispatches (counted st) = tp_tier3_laya_dispatches st"
  "tp_tier3_laya_onboarded (counted st) = tp_tier3_laya_onboarded st"
  by (simp_all add: counted_def)

lemma add_log_keeps:
  assumes "general.miner_ok m hist" "add_log L E raw m = Some (r, m')"
  shows "\<exists>hist'. general.miner_ok m' hist'"
  using general.add_log_ok [OF assms(1), of L raw E] assms(2) by (auto simp: list_all_iff)

lemma add_log_next:
  "add_log L E raw m = Some (r, m') \<Longrightarrow>
     (if cr_is_new r then cr_cluster_id r = dm_next_cluster_id m \<and> dm_next_cluster_id m' = Suc (dm_next_cluster_id m)
      else dm_next_cluster_id m' = dm_next_cluster_id m)"
  by (auto simp: add_log_def add_tokens_def Let_def split: if_splits prod.splits option.splits)

lemma triage_noop: "triage X now task st = Some st"
  by (simp add: triage_def Let_def generate_parser_def)

lemma worker_finish_eq:
  "worker_finish X now st = Some (task, st') \<longleftrightarrow> tp_worker st = Some task \<and> st' = st\<lparr>tp_worker := None\<rparr>"
  by (auto simp: worker_finish_def triage_noop split: option.split)

lemma worker_recv_eq:
  "worker_recv st = Some (task, st') \<longleftrightarrow> tp_worker st = None \<and>
     (\<exists>rest. tp_queue st = task # rest \<and> st' = st\<lparr>tp_worker := Some task, tp_queue := rest\<rparr>)"
  by (auto simp: worker_recv_def split: list.split)

lemma pipeline_ok_process: "pipeline_ok st \<Longrightarrow> process X E raw st = (ev, st') \<Longrightarrow> pipeline_ok st'"
proof -
  assume ok: "pipeline_ok st" and p: "process X E raw st = (ev, st')"
  obtain hist where h: "general.miner_ok (tp_drain st) hist" "cache_ok (tp_cache st)"
    using ok by (auto simp: pipeline_ok_def)
  from ok p show "pipeline_ok st'"
    by (cases rule: process_cases)
      (use h add_log_keeps [OF h(1)] in \<open>auto simp: pipeline_ok_def dispatch_def Let_def\<close>)
qed

lemma pipeline_ok_step: "pipeline_ok st \<Longrightarrow> pipeline_step X st l st' \<Longrightarrow> pipeline_ok st'"
  by (erule pipeline_stepE)
    (auto simp: worker_recv_eq worker_finish_eq pipeline_ok_process, simp_all add: pipeline_ok_def)

lemma pipeline_ok_init: "pipeline_init n st \<Longrightarrow> pipeline_ok st"
  using cache_with_capacity_ok [of 16 512] general.miner_ok_new [of default_drain_config]
  by (force simp: pipeline_init_def with_ring_buffer_capacity_def pipeline_ok_def cache_new_def)

subsection \<open>Every line becomes an event\<close>

lemma parse_lossless_ascii: "ascii_str raw \<Longrightarrow> parse_lossless L E raw \<noteq> None"
  using parse_with_format_ascii [of raw L E "classify (pl_ac L) raw"]
  by (auto simp: parse_lossless_def parse_is_with_format)

lemma tier_parse_event: "tier_parse X E raw f = Some a \<Longrightarrow> traceable (xl_parser X) raw a"
  using parse_with_format_traceable parse_lossless_traceable
  by (auto simp: tier_parse_def split: option.splits sum.splits)

lemma tier_parse_ascii: "ascii_str raw \<Longrightarrow> tier_parse X E raw f \<noteq> None"
  using parse_with_format_ascii [of raw "xl_parser X" "ce_parse E" f] parse_lossless_ascii
  by (auto simp: tier_parse_def split: option.split sum.split)

lemma signature_ascii: "ascii_str raw \<Longrightarrow> compute_signature_hash raw \<noteq> None"
  using signature_ascii_total [of raw] by (auto simp: ascii_str_def)

lemma process_event:
  assumes "pipeline_ok st" "process X E raw st = (ev, st')"
  shows "(\<forall>a. ev = Some a \<longrightarrow> traceable (xl_parser X) raw a) \<and> (ascii_str raw \<longrightarrow> ev \<noteq> None)"
  using assms
proof (cases rule: process_cases)
  case panic
  then show ?thesis using signature_ascii [of raw] by auto
next
  case tier3
  then show ?thesis using parse_lossless_traceable parse_lossless_ascii by auto
qed (use tier_parse_event tier_parse_ascii in auto)

definition events_sound :: "pipeline_libs \<Rightarrow> pipeline_label list \<Rightarrow> pipeline \<Rightarrow> bool" where
  "events_sound X hist st \<longleftrightarrow> pipeline_ok st \<and>
     (\<forall>raw a. Processed raw (Some a) \<in> set hist \<longrightarrow> traceable (xl_parser X) raw a) \<and>
     (\<forall>raw. Processed raw None \<in> set hist \<longrightarrow> \<not> ascii_str raw)"

interpretation events: invariant_of "pipeline_init n" "pipeline_step X" "events_sound X" for n X
proof
  show "events_sound X [] st" if "pipeline_init n st" for st
    using pipeline_ok_init [OF that] by (simp add: events_sound_def)
next
  fix hist st l st'
  assume inv: "events_sound X hist st" and step: "pipeline_step X st l st'"
  then have ok: "pipeline_ok st" "pipeline_ok st'" using pipeline_ok_step by (auto simp: events_sound_def)
  from step show "events_sound X (hist @ [l]) st'"
  proof cases
    case (step_process E raw ev)
    then show ?thesis
      using inv ok process_event [OF ok(1) step_process(2)] by (auto simp: events_sound_def)
  qed (use inv ok in \<open>auto simp: events_sound_def\<close>)
qed

text \<open>
  Whatever the interleaving of calls and worker steps, every event the pipeline returned is a conforming event that
  holds the raw line and its digest, and no call on ASCII text ever panicked.
\<close>
theorem pipeline_never_drops_lines:
  assumes "pipeline_reach X capacity hist st"
  shows "(\<forall>raw a. Processed raw (Some a) \<in> set hist \<longrightarrow> traceable (xl_parser X) raw a) \<and>
    (\<forall>raw. Processed raw None \<in> set hist \<longrightarrow> \<not> ascii_str raw)"
  using events.reach_inv [OF assms] by (simp add: events_sound_def)

definition test_pipeline_libs :: pipeline_libs where
  "test_pipeline_libs =
     \<lparr>xl_parser = test_parser_libs, xl_masker = \<lparr>ml_replace = (\<lambda>p r s. s), ml_matches = (\<lambda>p s. ([], s))\<rparr>,
      xl_onboarder = test_onboarder_libs, xl_engine = laya_new action_token_priors\<rparr>"

lemma one_call: "\<exists>ev st. pipeline_reach X (Suc n) [Processed raw ev] st"
proof -
  have "is_power_of_two 16" by code_simp
  then obtain st0 where "pipeline_init (Suc n) st0"
    by (auto simp: pipeline_init_def with_ring_buffer_capacity_def cache_new_def cache_with_capacity_def)
  then have "pipeline_reach X (Suc n) [] st0" by (rule reach_init)
  moreover obtain ev st where "process X undefined raw st0 = (ev, st)" by (cases "process X undefined raw st0")
  ultimately have "pipeline_reach X (Suc n) ([] @ [Processed raw ev]) st" by (blast intro: reach_step step_process)
  then show ?thesis by auto
qed

theorem pipeline_never_drops_lines_witness:
  "\<exists>a st. pipeline_reach test_pipeline_libs 4 [Processed ''hello'' (Some a)] st \<and>
     traceable test_parser_libs ''hello'' a"
proof -
  obtain ev st where r: "pipeline_reach test_pipeline_libs 4 [Processed ''hello'' ev] st"
    using one_call [of 3 test_pipeline_libs "''hello''"] by auto
  have "ascii_str ''hello''" by (simp add: ascii_str_def)
  then show ?thesis using pipeline_never_drops_lines [OF r] r
    by (cases ev) (auto simp: test_pipeline_libs_def)
qed

subsection \<open>The tiers are transparent\<close>

fun processed_line :: "pipeline_label \<Rightarrow> string option" where
  "processed_line (Processed raw ev) = Some raw"
| "processed_line (Received t) = None"
| "processed_line (Triaged t) = None"

definition processed_lines :: "pipeline_label list \<Rightarrow> string list" where
  "processed_lines hist = List.map_filter processed_line hist"

lemma processed_lines_snoc [simp]:
  "processed_lines [] = []"
  "processed_lines (hist @ [l]) = processed_lines hist @ (case processed_line l of None \<Rightarrow> [] | Some raw \<Rightarrow> [raw])"
  by (auto simp: processed_lines_def map_filter_def split: option.split)

definition plain_event :: "parser_libs \<Rightarrow> string \<Rightarrow> network_activity \<Rightarrow> bool" where
  "plain_event L raw a \<longleftrightarrow> (\<exists>E. parse_lossless L E raw = Some a)"

definition tiers_coherent :: "pipeline_libs \<Rightarrow> string set \<Rightarrow> pipeline_label list \<Rightarrow> pipeline \<Rightarrow> bool" where
  "tiers_coherent X S hist st \<longleftrightarrow> pipeline_ok st \<and>
     (set (processed_lines hist) \<subseteq> S \<longrightarrow> separated (xl_parser X) S \<longrightarrow> coherent (xl_parser X) S (tp_cache st) \<and>
       (\<forall>raw a. Processed raw (Some a) \<in> set hist \<longrightarrow> plain_event (xl_parser X) raw a))"

lemma tier_parse_plain:
  "tier_parse X E raw (classify (pl_ac (xl_parser X)) raw) = Some a \<Longrightarrow> plain_event (xl_parser X) raw a"
  by (auto simp: tier_parse_def plain_event_def parse_lossless_def parse_is_with_format or_unparsed_def
      split: option.splits sum.splits)

lemma coherent_hits [simp]: "coherent L S (c\<lparr>lc_misses := n\<rparr>) = coherent L S c"
  by (simp add: coherent_def)

lemma process_coherent:
  assumes "pipeline_ok st" "coherent (xl_parser X) S (tp_cache st)" "separated (xl_parser X) S" "raw \<in> S"
    and "process X E raw st = (ev, st')"
  shows "coherent (xl_parser X) S (tp_cache st') \<and> (\<forall>a. ev = Some a \<longrightarrow> plain_event (xl_parser X) raw a)"
  using assms(1,5)
proof (cases rule: process_cases)
  case (tier1 k f c)
  then show ?thesis using cached_format_coherent [OF assms(2-4) tier1(1)] tier_parse_plain by auto
next
  case (tier2 k f c res m)
  then show ?thesis using cached_format_coherent [OF assms(2-4) tier2(1)] tier_parse_plain by auto
next
  case (tier3 k c res m)
  then show ?thesis using assms(2) by (auto simp: dispatch_def Let_def plain_event_def)
qed (use assms(2) in auto)

interpretation tiers: invariant_of "pipeline_init n" "pipeline_step X" "tiers_coherent X S" for n X S
proof
  show "tiers_coherent X S [] st" if "pipeline_init n st" for st
    using pipeline_ok_init [OF that] cache_with_capacity_ok [of 16 512] that
    by (auto simp: tiers_coherent_def coherent_def pipeline_init_def with_ring_buffer_capacity_def cache_new_def)
next
  fix hist st l st'
  assume inv: "tiers_coherent X S hist st" and step: "pipeline_step X st l st'"
  then have ok: "pipeline_ok st" "pipeline_ok st'" using pipeline_ok_step by (auto simp: tiers_coherent_def)
  from step show "tiers_coherent X S (hist @ [l]) st'"
  proof cases
    case (step_process E raw ev)
    then show ?thesis
      using inv ok process_coherent [OF ok(1) _ _ _ step_process(2), of S] by (auto simp: tiers_coherent_def)
  qed (use inv ok in \<open>auto simp: tiers_coherent_def worker_recv_eq worker_finish_eq\<close>)
qed

text \<open>
  When no signature is shared across formats by the lines processed, every event is one the plain lossless parser gives
  for its line: caching, clustering and triage never change the outcome.
\<close>
theorem pipeline_refines_lossless_parser:
  assumes "pipeline_reach X capacity hist st" "separated (xl_parser X) (set (processed_lines hist))"
    and "Processed raw (Some a) \<in> set hist"
  shows "\<exists>E. parse_lossless (xl_parser X) E raw = Some a"
  using tiers.reach_inv [OF assms(1), of "set (processed_lines hist)"] assms(2,3)
  by (auto simp: tiers_coherent_def plain_event_def)

theorem pipeline_refines_lossless_parser_witness:
  "\<exists>a st E. pipeline_reach test_pipeline_libs 4 [Processed ''hello'' (Some a)] st \<and>
     parse_lossless test_parser_libs E ''hello'' = Some a"
proof -
  obtain ev st where r: "pipeline_reach test_pipeline_libs 4 [Processed ''hello'' ev] st"
    using one_call [of 3 test_pipeline_libs "''hello''"] by auto
  obtain a where a: "ev = Some a"
    using events.reach_inv [OF r] by (cases ev) (auto simp: events_sound_def ascii_str_def)
  have "separated (xl_parser test_pipeline_libs) (set (processed_lines [Processed ''hello'' ev]))"
    by (simp add: separated_def processed_lines_def map_filter_def)
  from pipeline_refines_lossless_parser [OF r this, of "''hello''" a] a r show ?thesis
    by (auto simp: test_pipeline_libs_def)
qed

subsection \<open>Counters\<close>

definition panics :: "pipeline_label list \<Rightarrow> nat" where
  "panics hist = length (filter (\<lambda>raw. compute_signature_hash raw = None) (processed_lines hist))"

definition counters_exact :: "pipeline_label list \<Rightarrow> pipeline \<Rightarrow> bool" where
  "counters_exact hist st \<longleftrightarrow> pipeline_ok st \<and>
     tp_total_events st = of_nat (length (processed_lines hist)) \<and>
     lc_hits (tp_cache st) + lc_misses (tp_cache st) + of_nat (panics hist) = tp_total_events st \<and>
     lc_misses (tp_cache st) = tp_tier2_drain_hits st + tp_tier3_laya_dispatches st \<and>
     tp_tier3_laya_onboarded st = 0 \<and> tp_registry st = registry_new"

lemma panics_snoc [simp]:
  "panics [] = 0"
  "panics (hist @ [Processed raw ev]) = panics hist + (if compute_signature_hash raw = None then 1 else 0)"
  "panics (hist @ [Received t]) = panics hist" "panics (hist @ [Triaged t]) = panics hist"
  by (simp_all add: panics_def)

interpretation counters: invariant_of "pipeline_init n" "pipeline_step X" counters_exact for n X
proof
  show "counters_exact [] st" if "pipeline_init n st" for st
    using pipeline_ok_init [OF that] that
    by (auto simp: counters_exact_def pipeline_init_def with_ring_buffer_capacity_def cache_new_def
        cache_with_capacity_def split: if_splits)
next
  fix hist st l st'
  assume inv: "counters_exact hist st" and step: "pipeline_step X st l st'"
  then have ok: "pipeline_ok st" "pipeline_ok st'" using pipeline_ok_step by (auto simp: counters_exact_def)
  from step show "counters_exact (hist @ [l]) st'"
  proof cases
    case (step_process E raw ev)
    from ok(1) step_process(2) show ?thesis
      by (cases rule: process_cases)
        (use inv ok step_process(1) in \<open>auto simp: counters_exact_def dispatch_def Let_def algebra_simps\<close>)
  qed (use inv ok in \<open>auto simp: counters_exact_def worker_recv_eq worker_finish_eq\<close>)
qed

text \<open>
  The counters account for every line: in every reachable state the lines processed are those that hit the cache,
  those of a known template, those dispatched to triage, and those whose signature panicked, modulo \<open>2\<^sup>6\<^sup>4\<close>.
\<close>
theorem pipeline_counters_exact:
  assumes "pipeline_reach X capacity hist st"
  shows "ps_total_events (stats st) = of_nat (length (processed_lines hist)) \<and>
    ps_tier1_lru_hits (stats st) + ps_tier2_drain_hits (stats st) + ps_tier3_laya_dispatches (stats st) +
      of_nat (panics hist) = ps_total_events (stats st)"
  using counters.reach_inv [OF assms]
  by (auto simp: counters_exact_def stats_def Let_def cache_stats_def add.assoc)

theorem pipeline_counters_exact_witness:
  "\<exists>ev st. pipeline_reach test_pipeline_libs 4 [Processed ''hello'' ev] st \<and> ps_total_events (stats st) = 1"
proof -
  obtain ev st where r: "pipeline_reach test_pipeline_libs 4 [Processed ''hello'' ev] st"
    using one_call [of 3 test_pipeline_libs "''hello''"] by auto
  from pipeline_counters_exact [OF r] r show ?thesis by (auto simp: processed_lines_def map_filter_def)
qed

text \<open>
  The worker never onboards anything: in every reachable state the registry is empty and the counter is zero,
  because the onboarder is always asked with one sample and refuses fewer than three.
\<close>
theorem pipeline_never_onboards:
  assumes "pipeline_reach X capacity hist st"
  shows "registry_is_empty (tp_registry st) \<and> ps_tier3_laya_onboarded (stats st) = 0"
  using counters.reach_inv [OF assms]
  by (simp add: counters_exact_def stats_def Let_def registry_is_empty_def registry_new_def)

subsection \<open>Triage\<close>

definition triaged :: "pipeline_label list \<Rightarrow> triage_task list" where
  "triaged hist = List.map_filter (\<lambda>l. case l of Triaged t \<Rightarrow> Some t | _ \<Rightarrow> None) hist"

lemma triaged_snoc [simp]:
  "triaged [] = []" "triaged (hist @ [Processed raw ev]) = triaged hist"
  "triaged (hist @ [Received t]) = triaged hist" "triaged (hist @ [Triaged t]) = triaged hist @ [t]"
  by (simp_all add: triaged_def map_filter_def)

definition in_triage :: "pipeline \<Rightarrow> triage_task list" where
  "in_triage st = (case tp_worker st of None \<Rightarrow> [] | Some t \<Rightarrow> [t]) @ tp_queue st"

definition triage_sound :: "nat \<Rightarrow> pipeline_label list \<Rightarrow> pipeline \<Rightarrow> bool" where
  "triage_sound n hist st \<longleftrightarrow> pipeline_ok st \<and> tp_capacity st = n \<and> length (tp_queue st) \<le> n \<and>
     distinct (map tk_cluster_id (triaged hist @ in_triage st)) \<and>
     (\<forall>t \<in> set (triaged hist @ in_triage st). tk_cluster_id t < dm_next_cluster_id (tp_drain st) \<and>
        tk_sample_log t \<in> set (processed_lines hist))"

lemma try_send_in_triage:
  assumes "length (tp_queue st) \<le> tp_capacity st"
  shows "in_triage (try_send t st) \<in> {in_triage st, in_triage st @ [t]} \<and>
    length (tp_queue (try_send t st)) \<le> tp_capacity st"
  using assms by (auto simp: try_send_def in_triage_def split: option.split)

interpretation triages: invariant_of "pipeline_init n" "pipeline_step X" "triage_sound n" for n X
proof
  show "triage_sound n [] st" if "pipeline_init n st" for st
    using pipeline_ok_init [OF that] that
    by (auto simp: triage_sound_def in_triage_def pipeline_init_def with_ring_buffer_capacity_def)
next
  fix hist st l st'
  assume inv: "triage_sound n hist st" and step: "pipeline_step X st l st'"
  then have ok: "pipeline_ok st" "pipeline_ok st'" using pipeline_ok_step by (auto simp: triage_sound_def)
  from step show "triage_sound n (hist @ [l]) st'"
  proof cases
    case (step_process E raw ev)
    from ok(1) step_process(2) show ?thesis
    proof (cases rule: process_cases)
      case (tier2 k f c res m)
      then show ?thesis
        using inv ok step_process(1) add_log_next [OF tier2(6)] by (auto simp: triage_sound_def in_triage_def)
    next
      case (tier3 k c res m)
      let ?st = "(counted st)\<lparr>tp_cache := c, tp_drain := m\<rparr>"
      let ?t = "\<lparr>tk_cluster_id = cr_cluster_id res, tk_template = cr_template res, tk_sample_log = raw,
        tk_timestamp_ms = ce_timestamp_ms E\<rparr>"
      have "in_triage ?st = in_triage st" "length (tp_queue ?st) \<le> tp_capacity ?st"
        using inv by (simp_all add: in_triage_def triage_sound_def)
      then have send: "in_triage (try_send ?t ?st) = in_triage st \<or> in_triage (try_send ?t ?st) = in_triage st @ [?t]"
        "length (tp_queue (try_send ?t ?st)) \<le> tp_capacity st"
        using try_send_in_triage [of ?st ?t] by simp_all
      have st': "in_triage st' = in_triage (try_send ?t ?st)" "tp_queue st' = tp_queue (try_send ?t ?st)"
        "tp_drain st' = m" "tp_capacity st' = tp_capacity st"
        using tier3(6) by (simp_all add: dispatch_def Let_def in_triage_def)
      have id: "cr_cluster_id res = dm_next_cluster_id (tp_drain st)"
        "dm_next_cluster_id m = Suc (dm_next_cluster_id (tp_drain st))"
        using add_log_next [OF tier3(3)] tier3(4) by simp_all
      from send(1) show ?thesis
        by (rule disjE) (use inv ok send(2) st' id step_process(1) in \<open>auto simp: triage_sound_def less_Suc_eq\<close>)
    qed (use inv ok step_process(1) in \<open>auto simp: triage_sound_def in_triage_def\<close>)
  qed (use inv ok in \<open>auto simp: triage_sound_def worker_recv_eq worker_finish_eq in_triage_def\<close>)
qed

text \<open>
  The channel never holds more tasks than its capacity; every task comes from a processed line, and no cluster is
  dispatched twice, counting the tasks queued, the one the worker has, and those it finished.
\<close>
theorem triage_once_per_cluster:
  assumes "pipeline_reach X capacity hist st"
  shows "length (tp_queue st) \<le> capacity \<and>
    distinct (map tk_cluster_id (triaged hist @ in_triage st)) \<and>
    (\<forall>t \<in> set (triaged hist @ in_triage st). tk_sample_log t \<in> set (processed_lines hist))"
  using triages.reach_inv [OF assms] by (auto simp: triage_sound_def)

theorem triage_once_per_cluster_witness:
  "\<exists>ev st. pipeline_reach test_pipeline_libs 4 [Processed ''hello'' ev] st \<and> length (tp_queue st) \<le> 4 \<and>
     distinct (map tk_cluster_id (in_triage st))"
proof -
  obtain ev st where r: "pipeline_reach test_pipeline_libs 4 [Processed ''hello'' ev] st"
    using one_call [of 3 test_pipeline_libs "''hello''"] by auto
  have "triaged [Processed ''hello'' ev] = []" by (simp add: triaged_def map_filter_def)
  then show ?thesis using triage_once_per_cluster [OF r] r by auto
qed

theorem pipeline_never_onboards_witness:
  "\<exists>ev st. pipeline_reach test_pipeline_libs 4 [Processed ''hello'' ev] st \<and> registry_is_empty (tp_registry st)"
proof -
  obtain ev st where r: "pipeline_reach test_pipeline_libs 4 [Processed ''hello'' ev] st"
    using one_call [of 3 test_pipeline_libs "''hello''"] by auto
  from pipeline_never_onboards [OF r] r show ?thesis by auto
qed

text \<open>The worker on its own: receive and finish, until nothing is queued.\<close>

lemma worker_finishes:
  "pipeline_reach X n hist st \<Longrightarrow> tp_worker st = Some t \<Longrightarrow>
     pipeline_reach X n (hist @ [Triaged t]) (st\<lparr>tp_worker := None\<rparr>)"
  by (rule reach_step, assumption) (rule step_triage [where now = 0], simp add: worker_finish_eq)

lemma worker_receives:
  "pipeline_reach X n hist st \<Longrightarrow> tp_worker st = None \<Longrightarrow> tp_queue st = t # ts \<Longrightarrow>
     pipeline_reach X n (hist @ [Received t]) (st\<lparr>tp_worker := Some t, tp_queue := ts\<rparr>)"
  by (rule reach_step, assumption) (rule step_recv, simp add: worker_recv_eq)

definition worker_only :: "pipeline_label list \<Rightarrow> bool" where
  "worker_only ls \<longleftrightarrow> processed_lines ls = []"

lemma worker_only_simps [simp]:
  "worker_only []" "worker_only (Received t # ls) = worker_only ls" "worker_only (Triaged t # ls) = worker_only ls"
  by (simp_all add: worker_only_def processed_lines_def map_filter_def)

lemma triaged_Cons [simp]: "triaged (Received t # ls) = triaged ls" "triaged (Triaged t # ls) = t # triaged ls"
  by (simp_all add: triaged_def map_filter_def)

lemma idle_worker_drains:
  assumes "pipeline_reach X n hist st" "tp_worker st = None"
  shows "\<exists>ls st'. pipeline_reach X n (hist @ ls) st' \<and> worker_only ls \<and> triaged ls = tp_queue st \<and> in_triage st' = []"
  using assms
proof (induction "tp_queue st" arbitrary: hist st)
  case Nil
  then show ?case by (intro exI [of _ "[]"] exI [of _ st]) (simp add: in_triage_def)
next
  case (Cons t ts)
  let ?st = "st\<lparr>tp_queue := ts, tp_worker := None\<rparr>"
  have r: "pipeline_reach X n (hist @ [Received t, Triaged t]) ?st"
    using worker_finishes [OF worker_receives [OF Cons.prems Cons.hyps(2) [symmetric]], of t] Cons.prems(2) by simp
  then obtain ls st' where "pipeline_reach X n ((hist @ [Received t, Triaged t]) @ ls) st'" "worker_only ls"
    "triaged ls = ts" "in_triage st' = []"
    using Cons.hyps(1) [OF _ r] by auto
  then show ?case using Cons.hyps(2) by (intro exI [of _ "Received t # Triaged t # ls"] exI [of _ st']) auto
qed

text \<open>
  The worker always gets through its work: from every reachable state it can, without any further call, triage every
  task in the order of the channel, and then nothing is left.
\<close>
theorem triage_completes:
  assumes "pipeline_reach X capacity hist st"
  shows "\<exists>ls st'. pipeline_reach X capacity (hist @ ls) st' \<and> processed_lines ls = [] \<and>
    triaged ls = in_triage st \<and> in_triage st' = []"
proof (cases "tp_worker st")
  case None
  then show ?thesis using idle_worker_drains [OF assms] by (simp add: in_triage_def worker_only_def)
next
  case (Some t)
  obtain ls st' where "pipeline_reach X capacity ((hist @ [Triaged t]) @ ls) st'" "worker_only ls"
    "triaged ls = tp_queue st" "in_triage st' = []"
    using idle_worker_drains [OF worker_finishes [OF assms Some]] by auto
  then show ?thesis using Some
    by (intro exI [of _ "Triaged t # ls"] exI [of _ st']) (auto simp: in_triage_def simp flip: worker_only_def)
qed

theorem triage_completes_witness:
  "\<exists>ev ls st'. pipeline_reach test_pipeline_libs 4 ([Processed ''hello'' ev] @ ls) st' \<and> in_triage st' = []"
proof -
  obtain ev st where r: "pipeline_reach test_pipeline_libs 4 [Processed ''hello'' ev] st"
    using one_call [of 3 test_pipeline_libs "''hello''"] by auto
  from triage_completes [OF r] show ?thesis by blast
qed

end
