(* ===== verification/Pipeline_Threads.thy ===== *)
theory Pipeline_Threads
  imports Pipeline_Properties
begin

text \<open>
  Concurrent calls of \<open>TieredPipeline::process\<close>. The pipeline is shared by reference between threads, so a call is split
  here into the steps between which another thread may run: each access to a counter, to a shard of the cache under its
  lock, to the miner under its mutex and to the channel is one step, and the parse at the end, which touches nothing
  shared, is one. A lookup and its hit or miss counter are one step, as are an insertion and its eviction counter: both
  happen under the shard's lock. A call that no other disturbs does what \<open>process\<close> does; any number of calls and the
  worker may otherwise interleave in any order. No lock is ever poisoned: with a pipeline that meets its invariant, a
  call panics outside the locks only.
\<close>

subsection \<open>The steps of a call\<close>

datatype call_stage =
    Entered
  | Tallied
  | Missed u64
  | Clustered u64 cluster_result
  | Known u64
  | Dispatched
  | Routed vendor_format
  | Unrouted
  | Returned "network_activity option"

definition lookup_step :: "string \<Rightarrow> pipeline \<Rightarrow> call_stage \<times> pipeline" where
  "lookup_step raw st =
     (case compute_signature_hash raw of
        None \<Rightarrow> (Returned None, st)
      | Some sig_hash \<Rightarrow>
          (case cache_get sig_hash (tp_cache st) of
             None \<Rightarrow> (Returned None, st)
           | Some (Some format, cache) \<Rightarrow> (Routed format, st\<lparr>tp_cache := cache\<rparr>)
           | Some (None, cache) \<Rightarrow> (Missed sig_hash, st\<lparr>tp_cache := cache\<rparr>)))"

definition mine_step :: "pipeline_libs \<Rightarrow> call_env \<Rightarrow> string \<Rightarrow> u64 \<Rightarrow> pipeline \<Rightarrow> call_stage \<times> pipeline" where
  "mine_step X E raw sig_hash st =
     (case add_log (xl_masker X) (ce_drain E) raw (tp_drain st) of
        None \<Rightarrow> (Returned None, st)
      | Some (res, miner) \<Rightarrow> (Clustered sig_hash res, st\<lparr>tp_drain := miner\<rparr>))"

definition cluster_step ::
  "call_env \<Rightarrow> string \<Rightarrow> u64 \<Rightarrow> cluster_result \<Rightarrow> pipeline \<Rightarrow> call_stage \<times> pipeline" where
  "cluster_step E raw sig_hash res st =
     (if \<not> cr_is_new res
      then (Known sig_hash, st\<lparr>tp_tier2_drain_hits := tp_tier2_drain_hits st + 1\<rparr>)
      else (Dispatched, try_send \<lparr>tk_cluster_id = cr_cluster_id res, tk_template = cr_template res, tk_sample_log = raw,
              tk_timestamp_ms = ce_timestamp_ms E\<rparr> st))"

definition promote_step :: "pipeline_libs \<Rightarrow> string \<Rightarrow> u64 \<Rightarrow> pipeline \<Rightarrow> call_stage \<times> pipeline" where
  "promote_step X raw sig_hash st =
     (let format = classify (pl_ac (xl_parser X)) raw in
      if format \<noteq> Unknown
      then (case cache_insert sig_hash format (tp_cache st) of
              None \<Rightarrow> (Returned None, st)
            | Some cache \<Rightarrow> (Routed format, st\<lparr>tp_cache := cache\<rparr>))
      else (Routed format, st))"

fun call_step ::
  "pipeline_libs \<Rightarrow> call_env \<Rightarrow> string \<Rightarrow> call_stage \<Rightarrow> pipeline \<Rightarrow> call_stage \<times> pipeline" where
  "call_step X E raw Entered st = (Tallied, st\<lparr>tp_total_events := tp_total_events st + 1\<rparr>)"
| "call_step X E raw Tallied st = lookup_step raw st"
| "call_step X E raw (Missed sig_hash) st = mine_step X E raw sig_hash st"
| "call_step X E raw (Clustered sig_hash res) st = cluster_step E raw sig_hash res st"
| "call_step X E raw (Known sig_hash) st = promote_step X raw sig_hash st"
| "call_step X E raw Dispatched st = (Unrouted, st\<lparr>tp_tier3_laya_dispatches := tp_tier3_laya_dispatches st + 1\<rparr>)"
| "call_step X E raw (Routed format) st = (Returned (tier_parse X E raw format), st)"
| "call_step X E raw Unrouted st = (Returned (parse_lossless (xl_parser X) (ce_parse E) raw), st)"
| "call_step X E raw (Returned ev) st = (Returned ev, st)"

lemmas call_step_defs = lookup_step_def mine_step_def cluster_step_def promote_step_def

definition run_call ::
  "pipeline_libs \<Rightarrow> call_env \<Rightarrow> string \<Rightarrow> call_stage \<times> pipeline \<Rightarrow> call_stage \<times> pipeline" where
  "run_call X E raw = (\<lambda>(stage, st). call_step X E raw stage st)"

text \<open>
  The steps of a call are \<open>process\<close>: taken one after the other with nothing between them, six of them from the entry
  end in the event and the state of the call, on every branch and after every panic.
\<close>
lemma process_is_its_steps:
  "(run_call X E raw ^^ 6) (Entered, st) = (case process X E raw st of (ev, st') \<Rightarrow> (Returned ev, st'))"
  by (simp add: numeral_nat run_call_def process_def Let_def call_step_defs promote_def dispatch_def
      split: option.split prod.split)

subsection \<open>Calls in flight\<close>

record call =
  ca_raw :: string
  ca_stage :: call_stage

record threads =
  tt_pipeline :: pipeline
  tt_calls :: "call list"

datatype thread_label =
    Called string
  | Advanced nat
  | Taken triage_task
  | Finished triage_task

fun returned :: "call_stage \<Rightarrow> bool" where
  "returned (Returned ev) = True"
| "returned _ = False"

inductive threads_step :: "pipeline_libs \<Rightarrow> threads \<Rightarrow> thread_label \<Rightarrow> threads \<Rightarrow> bool"
  for X :: pipeline_libs where
  thread_enters:
    "threads_step X s (Called raw) (s\<lparr>tt_calls := tt_calls s @ [\<lparr>ca_raw = raw, ca_stage = Entered\<rparr>]\<rparr>)"
| thread_advances:
    "i < length (tt_calls s) \<Longrightarrow> tt_calls s ! i = c \<Longrightarrow> \<not> returned (ca_stage c) \<Longrightarrow>
     call_step X E (ca_raw c) (ca_stage c) (tt_pipeline s) = (stage, st) \<Longrightarrow>
     threads_step X s (Advanced i) \<lparr>tt_pipeline = st, tt_calls = (tt_calls s)[i := c\<lparr>ca_stage := stage\<rparr>]\<rparr>"
| worker_takes:
    "worker_recv (tt_pipeline s) = Some (task, st) \<Longrightarrow> threads_step X s (Taken task) (s\<lparr>tt_pipeline := st\<rparr>)"
| worker_ends:
    "worker_finish X now (tt_pipeline s) = Some (task, st) \<Longrightarrow>
     threads_step X s (Finished task) (s\<lparr>tt_pipeline := st\<rparr>)"

inductive_cases threads_stepE: "threads_step X s l s'"

definition threads_init :: "nat \<Rightarrow> threads \<Rightarrow> bool" where
  "threads_init capacity s \<longleftrightarrow> pipeline_init capacity (tt_pipeline s) \<and> tt_calls s = []"

abbreviation threads_reach :: "pipeline_libs \<Rightarrow> nat \<Rightarrow> thread_label list \<Rightarrow> threads \<Rightarrow> bool" where
  "threads_reach X capacity \<equiv> reach (threads_init capacity) (threads_step X)"

end
