(* ===== verification/Pipeline_Threads_Properties.thy ===== *)
theory Pipeline_Threads_Properties
  imports Pipeline_Threads "HOL-Library.Multiset"
begin

text \<open>
  Concurrent calls of the pipeline in any interleaving: every returned event is the plain parser's for its line, the
  counters are exact up to the calls in flight, no cluster is triaged twice, every call returns after at most six steps
  of its own, and without new calls everything comes to rest.
\<close>

subsection \<open>One step of a call\<close>

lemma lookup_cases:
  assumes "cache_ok (tp_cache st)"
  obtains (panic) "compute_signature_hash raw = None" "lookup_step raw st = (Returned None, st)"
  | (hit) k f where "compute_signature_hash raw = Some k" "cache_peek (tp_cache st) k = Some f"
      "lookup_step raw st = (Routed f, st\<lparr>tp_cache := (tp_cache st)\<lparr>lc_hits := lc_hits (tp_cache st) + 1\<rparr>\<rparr>)"
  | (miss) k where "compute_signature_hash raw = Some k" "cache_peek (tp_cache st) k = None"
      "lookup_step raw st = (Missed k, st\<lparr>tp_cache := (tp_cache st)\<lparr>lc_misses := lc_misses (tp_cache st) + 1\<rparr>\<rparr>)"
proof (cases "compute_signature_hash raw")
  case (Some k)
  then show thesis using cache_get_eq [OF assms, of k] hit [of k] miss [of k]
    by (cases "cache_peek (tp_cache st) k") (auto simp: lookup_step_def)
qed (use panic in \<open>simp add: lookup_step_def\<close>)

lemma mine_cases:
  assumes "pipeline_ok st"
  obtains res m where "mine_step X E raw k st = (Clustered k res, st\<lparr>tp_drain := m\<rparr>)"
    "pipeline_ok (st\<lparr>tp_drain := m\<rparr>)"
    "if cr_is_new res
     then cr_cluster_id res = dm_next_cluster_id (tp_drain st) \<and>
       dm_next_cluster_id m = Suc (dm_next_cluster_id (tp_drain st))
     else dm_next_cluster_id m = dm_next_cluster_id (tp_drain st)"
proof -
  obtain hist where h: "general.miner_ok (tp_drain st) hist" using assms by (auto simp: pipeline_ok_def)
  then obtain res m where res: "add_log (xl_masker X) (ce_drain E) raw (tp_drain st) = Some (res, m)"
    using general.add_log_ok [of "tp_drain st" hist "xl_masker X" raw] by (force simp: list_all_iff)
  then have "pipeline_ok (st\<lparr>tp_drain := m\<rparr>)" using assms add_log_keeps [OF h res] by (simp add: pipeline_ok_def)
  then show thesis using that [of res m] res add_log_next [OF res] by (simp add: mine_step_def)
qed

lemma promote_cases:
  assumes "pipeline_ok st"
  obtains c where "promote_step X raw k st = (Routed (classify (pl_ac (xl_parser X)) raw), st\<lparr>tp_cache := c\<rparr>)"
    "cache_ok c" "lc_hits c = lc_hits (tp_cache st)" "lc_misses c = lc_misses (tp_cache st)"
    "\<And>l f. cache_peek c l = Some f \<Longrightarrow>
       cache_peek (tp_cache st) l = Some f \<or> l = k \<and> f = classify (pl_ac (xl_parser X)) raw"
proof (cases "classify (pl_ac (xl_parser X)) raw = Unknown")
  case True
  then show thesis using that [of "tp_cache st"] assms by (simp add: promote_step_def pipeline_ok_def)
next
  case False
  have "cache_ok (tp_cache st)" using assms by (simp add: pipeline_ok_def)
  then show thesis
  proof (rule cache_insert_props [of _ k "classify (pl_ac (xl_parser X)) raw"])
    fix c
    assume c: "cache_insert k (classify (pl_ac (xl_parser X)) raw) (tp_cache st) = Some c" "cache_ok c"
      "cache_peek c k = Some (classify (pl_ac (xl_parser X)) raw)"
      "\<And>l w. l \<noteq> k \<Longrightarrow> cache_peek c l = Some w \<Longrightarrow> cache_peek (tp_cache st) l = Some w"
      "lc_hits c = lc_hits (tp_cache st)" "lc_misses c = lc_misses (tp_cache st)"
    have "cache_peek (tp_cache st) l = Some f \<or> l = k \<and> f = classify (pl_ac (xl_parser X)) raw"
      if "cache_peek c l = Some f" for l f using c(3,4) that by (cases "l = k") auto
    then show thesis using that [of c] c False by (auto simp: promote_step_def Let_def)
  qed
qed

lemma call_step_ok:
  assumes "pipeline_ok st" "call_step X E raw stage st = (stage', st')" shows "pipeline_ok st'"
proof -
  have c: "cache_ok (tp_cache st)" using assms(1) by (simp add: pipeline_ok_def)
  show ?thesis
  proof (cases stage)
    case Tallied
    with c show ?thesis using assms
      by (cases rule: lookup_cases [of st raw]) (auto simp: pipeline_ok_def)
  next
    case (Missed k)
    with assms show ?thesis by (cases rule: mine_cases [OF assms(1), of X E raw k]) auto
  next
    case (Known k)
    with assms show ?thesis by (cases rule: promote_cases [OF assms(1), of X raw k]) (auto simp: pipeline_ok_def)
  qed (use assms in \<open>auto simp: pipeline_ok_def cluster_step_def split: if_splits\<close>)
qed

subsection \<open>Every call returns its line's event\<close>

text \<open>What holds of a call at each stage; \<open>P\<close> says that no signature is shared across formats.\<close>

fun stage_sound :: "pipeline_libs \<Rightarrow> bool \<Rightarrow> string \<Rightarrow> call_stage \<Rightarrow> bool" where
  "stage_sound X P raw Entered = True"
| "stage_sound X P raw Tallied = True"
| "stage_sound X P raw (Missed k) = (compute_signature_hash raw = Some k)"
| "stage_sound X P raw (Clustered k res) = (compute_signature_hash raw = Some k)"
| "stage_sound X P raw (Known k) = (compute_signature_hash raw = Some k)"
| "stage_sound X P raw Dispatched = (compute_signature_hash raw \<noteq> None)"
| "stage_sound X P raw (Routed f) =
     (compute_signature_hash raw \<noteq> None \<and> (P \<longrightarrow> f = classify (pl_ac (xl_parser X)) raw))"
| "stage_sound X P raw Unrouted = (compute_signature_hash raw \<noteq> None)"
| "stage_sound X P raw (Returned ev) =
     ((\<forall>a. ev = Some a \<longrightarrow> traceable (xl_parser X) raw a \<and> (P \<longrightarrow> plain_event (xl_parser X) raw a)) \<and>
      (ascii_str raw \<longrightarrow> ev \<noteq> None))"

lemma stage_sound_mono: "stage_sound X P raw stage \<Longrightarrow> (Q \<Longrightarrow> P) \<Longrightarrow> stage_sound X Q raw stage"
  by (cases stage) auto

lemma call_step_sound:
  assumes "pipeline_ok st" "P \<Longrightarrow> coherent (xl_parser X) S (tp_cache st)" "P \<Longrightarrow> raw \<in> S"
    and "stage_sound X P raw stage" "call_step X E raw stage st = (stage', st')"
  shows "stage_sound X P raw stage'"
proof -
  have c: "cache_ok (tp_cache st)" using assms(1) by (simp add: pipeline_ok_def)
  show ?thesis
  proof (cases stage)
    case Tallied
    with c show ?thesis using assms(2,3,5) signature_ascii [of raw]
      by (cases rule: lookup_cases [of st raw]) (auto simp: coherent_def)
  next
    case (Missed k)
    with assms show ?thesis by (cases rule: mine_cases [OF assms(1), of X E raw k]) auto
  next
    case (Known k)
    with assms show ?thesis by (cases rule: promote_cases [OF assms(1), of X raw k]) auto
  next
    case (Routed f)
    then show ?thesis using assms(4,5) tier_parse_event [of X E raw f] tier_parse_ascii [of raw X E f]
      tier_parse_plain [of X E raw] by auto
  next
    case Unrouted
    then show ?thesis using assms(4,5) parse_lossless_traceable [of "xl_parser X" "ce_parse E" raw]
      parse_lossless_ascii [of raw "xl_parser X" "ce_parse E"] by (auto simp: plain_event_def)
  qed (use assms(4,5) in \<open>auto simp: cluster_step_def split: if_splits\<close>)
qed

lemma coherent_insert:
  assumes "coherent L S c" "separated L S" "raw \<in> S" "compute_signature_hash raw = Some k" "cache_ok c'"
    and "\<And>l f. cache_peek c' l = Some f \<Longrightarrow> cache_peek c l = Some f \<or> l = k \<and> f = classify (pl_ac L) raw"
  shows "coherent L S c'"
  unfolding coherent_def
proof (intro conjI ballI allI impI)
  fix q l f
  assume "q \<in> S" "compute_signature_hash q = Some l" "cache_peek c' l = Some f"
  with assms show "f = classify (pl_ac L) q" by (metis coherent_def separated_def)
qed (rule assms(5))

lemma call_step_coherent:
  assumes "pipeline_ok st" "coherent (xl_parser X) S (tp_cache st)" "separated (xl_parser X) S" "raw \<in> S"
    and "stage_sound X P raw stage" "call_step X E raw stage st = (stage', st')"
  shows "coherent (xl_parser X) S (tp_cache st')"
proof (cases stage)
  case Tallied
  have "cache_ok (tp_cache st)" using assms(1) by (simp add: pipeline_ok_def)
  then show ?thesis using Tallied assms(2,6)
    by (cases rule: lookup_cases [of st raw]) (auto simp: coherent_def)
next
  case (Missed k)
  with assms(2,6) show ?thesis by (cases rule: mine_cases [OF assms(1), of X E raw k]) auto
next
  case (Known k)
  obtain c where c: "promote_step X raw k st = (Routed (classify (pl_ac (xl_parser X)) raw), st\<lparr>tp_cache := c\<rparr>)"
    "cache_ok c" "\<And>l f. cache_peek c l = Some f \<Longrightarrow>
       cache_peek (tp_cache st) l = Some f \<or> l = k \<and> f = classify (pl_ac (xl_parser X)) raw"
    using promote_cases [OF assms(1), of X raw k] by metis
  have "compute_signature_hash raw = Some k" using assms(5) Known by simp
  from coherent_insert [OF assms(2-4) this c(2,3)] c(1) Known assms(6) show ?thesis by auto
qed (use assms in \<open>auto simp: cluster_step_def split: if_splits\<close>)

definition lines_called :: "threads \<Rightarrow> string set" where
  "lines_called s = ca_raw ` set (tt_calls s)"

definition all_separated :: "pipeline_libs \<Rightarrow> string set \<Rightarrow> threads \<Rightarrow> bool" where
  "all_separated X S s \<longleftrightarrow> lines_called s \<subseteq> S \<and> separated (xl_parser X) S"

definition threads_sound :: "pipeline_libs \<Rightarrow> string set \<Rightarrow> thread_label list \<Rightarrow> threads \<Rightarrow> bool" where
  "threads_sound X S hist s \<longleftrightarrow> pipeline_ok (tt_pipeline s) \<and>
     (all_separated X S s \<longrightarrow> coherent (xl_parser X) S (tp_cache (tt_pipeline s))) \<and>
     (\<forall>c \<in> set (tt_calls s). stage_sound X (all_separated X S s) (ca_raw c) (ca_stage c))"

lemma lines_called_simps [simp]:
  "lines_called (s\<lparr>tt_pipeline := st\<rparr>) = lines_called s"
  "lines_called (s\<lparr>tt_calls := tt_calls s @ [c]\<rparr>) = insert (ca_raw c) (lines_called s)"
  "i < length (tt_calls s) \<Longrightarrow>
     lines_called \<lparr>tt_pipeline = st, tt_calls = (tt_calls s)[i := (tt_calls s ! i)\<lparr>ca_stage := stage\<rparr>]\<rparr> = lines_called s"
proof -
  assume "i < length (tt_calls s)"
  then have "map ca_raw ((tt_calls s)[i := (tt_calls s ! i)\<lparr>ca_stage := stage\<rparr>]) = map ca_raw (tt_calls s)"
    by (simp add: map_update list_update_same_conv)
  then show "lines_called \<lparr>tt_pipeline = st, tt_calls = (tt_calls s)[i := (tt_calls s ! i)\<lparr>ca_stage := stage\<rparr>]\<rparr> =
      lines_called s" by (metis lines_called_def list.set_map select_convs(2))
qed (auto simp: lines_called_def)

interpretation sound: invariant_of "threads_init n" "threads_step X" "threads_sound X S" for n X S
proof
  show "threads_sound X S [] s" if "threads_init n s" for s
    using pipeline_ok_init [of n "tt_pipeline s"] tiers.inv_init [of n "tt_pipeline s" X S] that
    by (auto simp: threads_sound_def tiers_coherent_def threads_init_def all_separated_def)
next
  fix hist s l s'
  assume inv: "threads_sound X S hist s" and step: "threads_step X s l s'"
  from step show "threads_sound X S (hist @ [l]) s'"
  proof cases
    case (thread_enters raw)
    then show ?thesis using inv by (auto simp: threads_sound_def all_separated_def intro: stage_sound_mono)
  next
    case (thread_advances i c E stage st)
    let ?P = "all_separated X S s"
    have c: "c \<in> set (tt_calls s)" using thread_advances by auto
    then have raw: "?P \<Longrightarrow> ca_raw c \<in> S" by (auto simp: all_separated_def lines_called_def)
    have P: "all_separated X S s' = ?P" using thread_advances by (auto simp: all_separated_def)
    have ok: "pipeline_ok (tt_pipeline s)" and sound: "stage_sound X ?P (ca_raw c) (ca_stage c)"
      and coh: "?P \<Longrightarrow> coherent (xl_parser X) S (tp_cache (tt_pipeline s))"
      using inv c by (auto simp: threads_sound_def)
    have "stage_sound X ?P (ca_raw c) stage"
      by (rule call_step_sound [OF ok _ _ sound thread_advances(6)]) (use coh raw in auto)
    moreover have "coherent (xl_parser X) S (tp_cache st)" if ?P
      using call_step_coherent [OF ok coh [OF that] _ raw [OF that] sound thread_advances(6)] that
      by (simp add: all_separated_def)
    moreover have "pipeline_ok st" using call_step_ok [OF ok thread_advances(6)] .
    ultimately show ?thesis
      using inv P thread_advances(2)
      by (auto simp: threads_sound_def dest!: set_update_subset_insert [THEN subsetD])
  qed (use inv in \<open>auto simp: threads_sound_def all_separated_def worker_recv_eq worker_finish_eq pipeline_ok_def\<close>)
qed

lemma separated_result:
  assumes "threads_reach X capacity hist s" "c \<in> set (tt_calls s)" "ca_stage c = Returned ev"
  shows "(\<forall>a. ev = Some a \<longrightarrow> traceable (xl_parser X) (ca_raw c) a \<and>
      (separated (xl_parser X) (lines_called s) \<longrightarrow> plain_event (xl_parser X) (ca_raw c) a)) \<and>
    (ascii_str (ca_raw c) \<longrightarrow> ev \<noteq> None)"
  using sound.reach_inv [OF assms(1), of "lines_called s"] assms(2,3)
  by (fastforce simp: threads_sound_def all_separated_def)

text \<open>
  C11. Any number of threads may call the pipeline at once: when a call returns, its event is a conforming one that holds its
  line and digest, and it cannot have panicked on ASCII text, whatever the other calls and the worker did meanwhile, and
  whether or not signatures are shared between formats.
\<close>
theorem concurrent_calls_lossless:
  assumes "threads_reach X capacity hist s" "c \<in> set (tt_calls s)" "ca_stage c = Returned ev"
  shows "case ev of Some a \<Rightarrow> traceable (xl_parser X) (ca_raw c) a | None \<Rightarrow> \<not> ascii_str (ca_raw c)"
  using separated_result [OF assms] by (auto split: option.split)

text \<open>
  C10. When no signature is shared across formats by the lines called, concurrency is transparent: the event of every
  call, in every interleaving, is one the plain lossless parser gives for its line.
\<close>
theorem concurrent_calls_refine_parser:
  assumes "threads_reach X capacity hist s" "separated (xl_parser X) (lines_called s)"
    and "c \<in> set (tt_calls s)" "ca_stage c = Returned (Some a)"
  shows "\<exists>E. parse_lossless (xl_parser X) E (ca_raw c) = Some a"
  using separated_result [OF assms(1,3,4)] assms(2) by (auto simp: plain_event_def)

subsection \<open>Counters\<close>

text \<open>A call past its first step.\<close>

fun past_entry :: "call_stage \<Rightarrow> bool" where
  "past_entry Entered = False"
| "past_entry _ = True"

text \<open>A call that no tier has counted: it is still on its way, or its signature panicked.\<close>

fun untiered :: "string \<Rightarrow> call_stage \<Rightarrow> bool" where
  "untiered raw Entered = False"
| "untiered raw Tallied = True"
| "untiered raw (Missed k) = True"
| "untiered raw (Clustered k res) = True"
| "untiered raw Dispatched = True"
| "untiered raw _ = (compute_signature_hash raw = None)"

definition calls_where :: "(call \<Rightarrow> bool) \<Rightarrow> call list \<Rightarrow> u64" where
  "calls_where P cs = of_nat (length (filter P cs))"

lemma calls_where_simps [simp]:
  "calls_where P [] = 0" "calls_where P (cs @ [c]) = calls_where P cs + of_bool (P c)"
  by (simp_all add: calls_where_def)

lemma calls_where_update:
  "i < length cs \<Longrightarrow> calls_where P (cs[i := c]) + of_bool (P (cs ! i)) = calls_where P cs + of_bool (P c)"
proof (induction cs arbitrary: i)
  case (Cons d cs)
  then show ?case by (cases i) (auto simp: calls_where_def algebra_simps)
qed simp

definition tier_counts :: "pipeline \<Rightarrow> u64" where
  "tier_counts st = lc_hits (tp_cache st) + tp_tier2_drain_hits st + tp_tier3_laya_dispatches st"

lemma call_step_counts:
  assumes "pipeline_ok st" "stage_sound X False raw stage" "\<not> returned stage"
    "call_step X E raw stage st = (stage', st')"
  shows "tp_total_events st' + of_bool (past_entry stage) = tp_total_events st + of_bool (past_entry stage') \<and>
    tp_total_events st' - tier_counts st' + of_bool (untiered raw stage) =
      tp_total_events st - tier_counts st + of_bool (untiered raw stage')"
proof -
  have c: "cache_ok (tp_cache st)" using assms(1) by (simp add: pipeline_ok_def)
  show ?thesis
  proof (cases stage)
    case Tallied
    from c show ?thesis using Tallied assms(4)
      by (cases rule: lookup_cases [of st raw]) (auto simp: tier_counts_def algebra_simps)
  next
    case (Missed k)
    with assms show ?thesis
      by (cases rule: mine_cases [OF assms(1), of X E raw k]) (auto simp: tier_counts_def)
  next
    case (Known k)
    with assms show ?thesis
      by (cases rule: promote_cases [OF assms(1), of X raw k]) (auto simp: tier_counts_def)
  qed (use assms in \<open>auto simp: cluster_step_def tier_counts_def algebra_simps split: if_splits\<close>)
qed


definition threads_counted :: "pipeline_libs \<Rightarrow> thread_label list \<Rightarrow> threads \<Rightarrow> bool" where
  "threads_counted X hist s \<longleftrightarrow> threads_sound X {} hist s \<and>
     tp_total_events (tt_pipeline s) = calls_where (\<lambda>c. past_entry (ca_stage c)) (tt_calls s) \<and>
     tp_total_events (tt_pipeline s) - tier_counts (tt_pipeline s) =
       calls_where (\<lambda>c. untiered (ca_raw c) (ca_stage c)) (tt_calls s)"

lemma follow_update: "(x :: 'a :: ab_group_add) = y \<Longrightarrow> x' + a = x + b \<Longrightarrow> y' + a = y + b \<Longrightarrow> x' = y'"
  by (metis add_right_cancel)

lemma pipeline_init_start:
  "pipeline_init n st \<Longrightarrow> tp_total_events st = 0 \<and> lc_hits (tp_cache st) = 0 \<and> tp_tier2_drain_hits st = 0 \<and>
     tp_tier3_laya_dispatches st = 0 \<and> tp_capacity st = n \<and> tp_queue st = [] \<and>
     tp_worker st = None \<and> in_triage st = []"
  by (auto simp: pipeline_init_def with_ring_buffer_capacity_def cache_new_def cache_with_capacity_def in_triage_def
      split: if_splits)

lemma call_at:
  assumes "threads_sound X S hist s" "i < length (tt_calls s)" "tt_calls s ! i = c"
  shows "pipeline_ok (tt_pipeline s)" "stage_sound X False (ca_raw c) (ca_stage c)"
  using assms nth_mem [OF assms(2)] by (auto simp: threads_sound_def intro: stage_sound_mono)

interpretation counted: invariant_of "threads_init n" "threads_step X" "threads_counted X" for n X
proof
  show "threads_counted X [] s" if "threads_init n s" for s
    using sound.inv_init [OF that, of X "{}"] pipeline_init_start [of n "tt_pipeline s"] that
    by (simp add: threads_counted_def threads_init_def tier_counts_def)
next
  fix hist s l s'
  assume inv: "threads_counted X hist s" and step: "threads_step X s l s'"
  then have sound: "threads_sound X {} hist s" "threads_sound X {} (hist @ [l]) s'"
    using sound.inv_step [OF _ step] by (auto simp: threads_counted_def)
  from step show "threads_counted X (hist @ [l]) s'"
  proof cases
    case (thread_advances i c E stage st)
    let ?c = "c\<lparr>ca_stage := stage\<rparr>" and ?cs = "tt_calls s"
    have total: "tp_total_events (tt_pipeline s) = calls_where (\<lambda>c. past_entry (ca_stage c)) ?cs"
      and tiers: "tp_total_events (tt_pipeline s) - tier_counts (tt_pipeline s) =
        calls_where (\<lambda>c. untiered (ca_raw c) (ca_stage c)) ?cs"
      using inv unfolding threads_counted_def by blast+
    note step = call_step_counts [OF call_at [OF sound(1) thread_advances(3,4)] thread_advances(5,6)]
    have "calls_where P (?cs[i := ?c]) + of_bool (P c) = calls_where P ?cs + of_bool (P ?c)" for P
      using calls_where_update [OF thread_advances(3), of P ?c] thread_advances(4) by simp
    from this [of "\<lambda>c. past_entry (ca_stage c)"] this [of "\<lambda>c. untiered (ca_raw c) (ca_stage c)"]
    have past: "calls_where (\<lambda>c. past_entry (ca_stage c)) (?cs[i := ?c]) + of_bool (past_entry (ca_stage c)) =
        calls_where (\<lambda>c. past_entry (ca_stage c)) ?cs + of_bool (past_entry stage)"
      and untiered: "calls_where (\<lambda>c. untiered (ca_raw c) (ca_stage c)) (?cs[i := ?c]) +
          of_bool (untiered (ca_raw c) (ca_stage c)) =
        calls_where (\<lambda>c. untiered (ca_raw c) (ca_stage c)) ?cs + of_bool (untiered (ca_raw c) stage)"
      by simp_all
    have "tp_total_events st = calls_where (\<lambda>c. past_entry (ca_stage c)) (?cs[i := ?c])"
      by (rule follow_update [OF _ conjunct1 [OF step] past]) (rule total)
    moreover have "tp_total_events st - tier_counts st = calls_where (\<lambda>c. untiered (ca_raw c) (ca_stage c)) (?cs[i := ?c])"
      by (rule follow_update [OF _ conjunct2 [OF step] untiered]) (rule tiers)
    ultimately show ?thesis using sound(2) thread_advances(2) by (simp add: threads_counted_def)
  qed (use inv sound(2) in
    \<open>auto simp: threads_counted_def tier_counts_def worker_recv_eq worker_finish_eq\<close>)
qed

text \<open>
  C14. No counter loses an update to a race: in every state of every interleaving the events counted are the calls past
  their first step, and the counts of the three tiers add up to the events counted, less the calls still on their way
  to a tier and those whose signature panicked, modulo \<open>2\<^sup>6\<^sup>4\<close>.
\<close>
theorem concurrent_counters_exact:
  assumes "threads_reach X capacity hist s"
  shows "ps_total_events (stats (tt_pipeline s)) = calls_where (\<lambda>c. past_entry (ca_stage c)) (tt_calls s) \<and>
    ps_tier1_lru_hits (stats (tt_pipeline s)) + ps_tier2_drain_hits (stats (tt_pipeline s)) +
      ps_tier3_laya_dispatches (stats (tt_pipeline s)) +
      calls_where (\<lambda>c. untiered (ca_raw c) (ca_stage c)) (tt_calls s) = ps_total_events (stats (tt_pipeline s))"
proof -
  have inv: "threads_counted X hist s" by (rule counted.reach_inv [OF assms])
  have "tier_counts (tt_pipeline s) + calls_where (\<lambda>c. untiered (ca_raw c) (ca_stage c)) (tt_calls s) =
      tp_total_events (tt_pipeline s)"
    using inv unfolding threads_counted_def by (metis add.commute diff_add_cancel)
  then show ?thesis using inv
    by (simp add: threads_counted_def stats_def Let_def cache_stats_def tier_counts_def)
qed

subsection \<open>Triage\<close>

definition triage_log :: "thread_label list \<Rightarrow> triage_task list" where
  "triage_log hist = List.map_filter (\<lambda>l. case l of Finished t \<Rightarrow> Some t | _ \<Rightarrow> None) hist"

lemma triage_log_snoc [simp]:
  "triage_log [] = []"
  "triage_log (hist @ [l]) = triage_log hist @ (case l of Finished t \<Rightarrow> [t] | _ \<Rightarrow> [])"
  by (auto simp: triage_log_def map_filter_def split: thread_label.split)

definition tasks_of :: "thread_label list \<Rightarrow> threads \<Rightarrow> triage_task list" where
  "tasks_of hist s = triage_log hist @ in_triage (tt_pipeline s)"

text \<open>The cluster a call has created and not yet sent.\<close>

fun unsent :: "call_stage \<Rightarrow> nat option" where
  "unsent (Clustered k res) = (if cr_is_new res then Some (cr_cluster_id res) else None)"
| "unsent _ = None"

definition option_mset :: "'a option \<Rightarrow> 'a multiset" where
  "option_mset x = (case x of None \<Rightarrow> {#} | Some y \<Rightarrow> {#y#})"

definition unsent_clusters :: "call list \<Rightarrow> nat multiset" where
  "unsent_clusters cs = (\<Sum>c \<leftarrow> cs. option_mset (unsent (ca_stage c)))"

text \<open>Every cluster made so far is in at most one place: finished, with the worker, queued, or with the call that made it.\<close>

definition triage_once :: "pipeline_libs \<Rightarrow> nat \<Rightarrow> thread_label list \<Rightarrow> threads \<Rightarrow> bool" where
  "triage_once X n hist s \<longleftrightarrow> threads_sound X {} hist s \<and> tp_capacity (tt_pipeline s) = n \<and>
     length (tp_queue (tt_pipeline s)) \<le> n \<and> tk_sample_log ` set (tasks_of hist s) \<subseteq> lines_called s \<and>
     mset (map tk_cluster_id (tasks_of hist s)) + unsent_clusters (tt_calls s) \<subseteq>#
       mset_set {0..<dm_next_cluster_id (tp_drain (tt_pipeline s))}"

lemma sum_list_update:
  "i < length cs \<Longrightarrow> (\<Sum>c \<leftarrow> cs[i := c']. f c) + f (cs ! i) = (\<Sum>c \<leftarrow> cs. f c) + (f c' :: 'b :: comm_monoid_add)"
proof (induction cs arbitrary: i)
  case (Cons d cs)
  then show ?case by (cases i) (auto simp: ac_simps)
qed simp

lemma distinct_submset: "mset xs \<subseteq># mset_set A \<Longrightarrow> distinct xs"
proof -
  assume sub: "mset xs \<subseteq># mset_set A"
  have "count (mset xs) a \<le> 1" for a
    using mset_subset_eq_count [OF sub, of a] by (rule order_trans) (simp add: count_mset_set')
  then have "count (mset xs) a = (if a \<in> set xs then 1 else 0)" for a
    using count_mset_0_iff [of xs a] by (cases "a \<in> set xs") (auto simp: le_Suc_eq)
  then show "distinct xs" by (simp add: distinct_count_atmost_1)
qed

lemma made_Suc [simp]: "mset_set {0..<Suc n} = add_mset n (mset_set {0..<n})"
  by (simp add: atLeast0_lessThan_Suc)

abbreviation clusters_in_triage :: "pipeline \<Rightarrow> nat multiset" where
  "clusters_in_triage st \<equiv> mset (map tk_cluster_id (in_triage st))"

abbreviation clusters_made :: "pipeline \<Rightarrow> nat multiset" where
  "clusters_made st \<equiv> mset_set {0..<dm_next_cluster_id (tp_drain st)}"

text \<open>A step makes the cluster its stage then holds, and sends at most the cluster its stage held.\<close>

definition triage_step_ok :: "string \<Rightarrow> call_stage \<Rightarrow> pipeline \<Rightarrow> call_stage \<Rightarrow> pipeline \<Rightarrow> bool" where
  "triage_step_ok raw stage st stage' st' \<longleftrightarrow> tp_capacity st' = tp_capacity st \<and>
     length (tp_queue st') \<le> tp_capacity st' \<and>
     tk_sample_log ` set (in_triage st') \<subseteq> insert raw (tk_sample_log ` set (in_triage st)) \<and>
     clusters_in_triage st' \<subseteq># clusters_in_triage st + option_mset (unsent stage) \<and>
     clusters_made st' = clusters_made st + option_mset (unsent stage')"

lemma call_step_triage:
  assumes "pipeline_ok st" "length (tp_queue st) \<le> tp_capacity st" "call_step X E raw stage st = (stage', st')"
  shows "triage_step_ok raw stage st stage' st'"
proof (cases stage)
  case Tallied
  have "cache_ok (tp_cache st)" using assms(1) by (simp add: pipeline_ok_def)
  then show ?thesis using Tallied assms(2,3)
    by (cases rule: lookup_cases [of st raw]) (auto simp: triage_step_ok_def in_triage_def option_mset_def)
next
  case (Missed k)
  then show ?thesis using assms(2,3)
    by (cases rule: mine_cases [OF assms(1), of X E raw k])
      (auto simp: triage_step_ok_def in_triage_def option_mset_def split: if_splits)
next
  case (Clustered k res)
  let ?t = "\<lparr>tk_cluster_id = cr_cluster_id res, tk_template = cr_template res, tk_sample_log = raw,
    tk_timestamp_ms = ce_timestamp_ms E\<rparr>"
  show ?thesis
    using Clustered assms(2,3) try_send_in_triage [OF assms(2), of ?t]
    by (cases "cr_is_new res")
      (auto simp: cluster_step_def triage_step_ok_def option_mset_def in_triage_def [of "st\<lparr>tp_tier2_drain_hits := _\<rparr>"]
        in_triage_def [of st])
next
  case (Known k)
  then show ?thesis using assms(2,3)
    by (cases rule: promote_cases [OF assms(1), of X raw k]) (auto simp: triage_step_ok_def in_triage_def option_mset_def)
qed (use assms(2,3) in \<open>auto simp: triage_step_ok_def in_triage_def option_mset_def\<close>)

lemma submset_moved:
  assumes "M + U \<subseteq># B" "U' + x = U + y" "M' \<subseteq># M + x" shows "M' + U' \<subseteq># B + y"
proof -
  have "M' + U' \<subseteq># M + x + U'" using assms(3) by (rule subset_mset.add_right_mono)
  also have "\<dots> = M + U + y" using assms(2) by (simp add: ac_simps)
  also have "\<dots> \<subseteq># B + y" using assms(1) by (rule subset_mset.add_right_mono)
  finally show ?thesis .
qed

interpretation triage: invariant_of "threads_init n" "threads_step X" "triage_once X n" for n X
proof
  show "triage_once X n [] s" if "threads_init n s" for s
    using sound.inv_init [OF that, of X "{}"] pipeline_init_start [of n "tt_pipeline s"] that
    by (simp add: triage_once_def threads_init_def tasks_of_def unsent_clusters_def)
next
  fix hist s l s'
  assume inv: "triage_once X n hist s" and step: "threads_step X s l s'"
  then have sound: "threads_sound X {} hist s" "threads_sound X {} (hist @ [l]) s'"
    using sound.inv_step [OF _ step] by (auto simp: triage_once_def)
  from step show "triage_once X n (hist @ [l]) s'"
  proof cases
    case (thread_enters raw)
    then show ?thesis using inv sound(2)
      by (auto simp: triage_once_def tasks_of_def unsent_clusters_def option_mset_def)
  next
    case (thread_advances i c E stage st)
    let ?c = "c\<lparr>ca_stage := stage\<rparr>" and ?st = "tt_pipeline s"
    have upd: "unsent_clusters ((tt_calls s)[i := ?c]) + option_mset (unsent (ca_stage c)) =
        unsent_clusters (tt_calls s) + option_mset (unsent stage)"
      using sum_list_update [OF thread_advances(3), where c' = ?c and f = "\<lambda>c. option_mset (unsent (ca_stage c))"] thread_advances(4)
      by (simp add: unsent_clusters_def)
    have q: "length (tp_queue ?st) \<le> tp_capacity ?st" using inv by (simp add: triage_once_def)
    have ok: "triage_step_ok (ca_raw c) (ca_stage c) ?st stage st"
      by (rule call_step_triage [OF call_at(1) [OF sound(1) thread_advances(3,4)] q thread_advances(6)])
    let ?done = "mset (map tk_cluster_id (triage_log hist))"
    have "?done + clusters_in_triage ?st + unsent_clusters (tt_calls s) \<subseteq># clusters_made ?st"
      using inv by (simp add: triage_once_def tasks_of_def)
    moreover have "?done + clusters_in_triage st \<subseteq># ?done + clusters_in_triage ?st + option_mset (unsent (ca_stage c))"
      using ok by (simp add: triage_step_ok_def add.assoc)
    ultimately have "?done + clusters_in_triage st + unsent_clusters ((tt_calls s)[i := ?c]) \<subseteq>#
        clusters_made ?st + option_mset (unsent stage)"
      using upd by (rule_tac submset_moved)
    moreover have "ca_raw c \<in> lines_called s" "lines_called s' = lines_called s"
      using thread_advances(2-4) by (auto simp: lines_called_def [of s])
    moreover have "tk_sample_log ` set (in_triage st) \<subseteq> insert (ca_raw c) (tk_sample_log ` set (in_triage ?st))"
      using ok by (simp add: triage_step_ok_def)
    ultimately show ?thesis
      using inv sound(2) ok thread_advances(1,2)
      by (auto simp: triage_once_def triage_step_ok_def tasks_of_def image_Un dest!: subsetD [of "tk_sample_log ` _"])
  next
    case (worker_takes task st)
    then show ?thesis using inv sound(2) by (auto simp: triage_once_def tasks_of_def worker_recv_eq in_triage_def)
  next
    case (worker_ends now task st)
    then show ?thesis using inv sound(2) by (auto simp: triage_once_def tasks_of_def worker_finish_eq in_triage_def)
  qed
qed

text \<open>
  C20. However many calls race, the channel never holds more tasks than its capacity, every task comes from a line of a call,
  and no cluster is dispatched twice, counting the tasks queued, the one the worker has, and those it finished.
\<close>
theorem concurrent_triage_once:
  assumes "threads_reach X capacity hist s"
  shows "length (tp_queue (tt_pipeline s)) \<le> capacity \<and>
    distinct (map tk_cluster_id (triage_log hist @ in_triage (tt_pipeline s))) \<and>
    tk_sample_log ` set (triage_log hist @ in_triage (tt_pipeline s)) \<subseteq> lines_called s"
proof -
  have inv: "triage_once X capacity hist s" by (rule triage.reach_inv [OF assms])
  have "mset (map tk_cluster_id (tasks_of hist s)) \<subseteq># clusters_made (tt_pipeline s)"
    using inv subset_mset.order_trans [OF mset_subset_eq_add_left] by (auto simp: triage_once_def)
  from distinct_submset [OF this] inv show ?thesis by (simp add: triage_once_def tasks_of_def)
qed

subsection \<open>Rest\<close>

text \<open>The steps a call still has to take, and those it may cost with the worker's two for the task it sends.\<close>

fun steps_left :: "call_stage \<Rightarrow> nat" where
  "steps_left Entered = 6"
| "steps_left Tallied = 5"
| "steps_left (Missed k) = 4"
| "steps_left (Clustered k res) = 3"
| "steps_left (Known k) = 2"
| "steps_left Dispatched = 2"
| "steps_left (Routed f) = 1"
| "steps_left Unrouted = 1"
| "steps_left (Returned ev) = 0"

fun may_send :: "call_stage \<Rightarrow> bool" where
  "may_send Entered = True"
| "may_send Tallied = True"
| "may_send (Missed k) = True"
| "may_send (Clustered k res) = True"
| "may_send _ = False"

definition triage_left :: "pipeline \<Rightarrow> nat" where
  "triage_left st = 2 * length (tp_queue st) + (case tp_worker st of None \<Rightarrow> 0 | Some t \<Rightarrow> 1)"

definition calls_left :: "call list \<Rightarrow> nat" where
  "calls_left cs = (\<Sum>c \<leftarrow> cs. steps_left (ca_stage c) + 2 * of_bool (may_send (ca_stage c)))"

lemma try_send_left: "triage_left (try_send t st) \<le> triage_left st + 2"
  by (auto simp: try_send_def triage_left_def split: option.split)

lemma call_step_left:
  assumes "\<not> returned stage" "call_step X E raw stage st = (stage', st')"
  shows "steps_left stage' < steps_left stage \<and>
    steps_left stage' + 2 * of_bool (may_send stage') + triage_left st' <
      steps_left stage + 2 * of_bool (may_send stage) + triage_left st"
proof (cases stage)
  case (Clustered k res)
  have "triage_left (st\<lparr>tp_tier2_drain_hits := n\<rparr>) = triage_left st" for n by (simp add: triage_left_def)
  moreover have "triage_left (try_send t st) < 3 + triage_left st" for t using try_send_left [of t st] by simp
  ultimately show ?thesis using Clustered assms by (auto simp: cluster_step_def split: if_splits)
qed (use assms in \<open>auto simp: call_step_defs triage_left_def Let_def split: option.splits prod.splits if_splits\<close>)

definition advances :: "nat \<Rightarrow> thread_label list \<Rightarrow> nat" where
  "advances i hist = length (filter (\<lambda>l. l = Advanced i) hist)"

lemma advances_snoc [simp]:
  "advances i [] = 0" "advances i (hist @ [l]) = advances i hist + of_bool (l = Advanced i)"
  by (simp_all add: advances_def)

definition own_left :: "call list \<Rightarrow> nat \<Rightarrow> nat" where
  "own_left cs i = (if i < length cs then steps_left (ca_stage (cs ! i)) else 6)"

lemma own_left_snoc [simp]: "own_left (cs @ [\<lparr>ca_raw = raw, ca_stage = Entered\<rparr>]) = own_left cs"
  by (auto simp: own_left_def fun_eq_iff nth_append)

definition threads_bounded :: "thread_label list \<Rightarrow> threads \<Rightarrow> bool" where
  "threads_bounded hist s \<longleftrightarrow>
     length hist + calls_left (tt_calls s) + triage_left (tt_pipeline s) \<le> 9 * length (tt_calls s) \<and>
     (\<forall>i. advances i hist + own_left (tt_calls s) i \<le> 6)"

interpretation bounded: invariant_of "threads_init n" "threads_step X" threads_bounded for n X
proof
  show "threads_bounded [] s" if "threads_init n s" for s
    using that pipeline_init_start [of n "tt_pipeline s"]
    by (simp add: threads_bounded_def threads_init_def calls_left_def triage_left_def own_left_def)
next
  fix hist s l s'
  assume inv: "threads_bounded hist s" and step: "threads_step X s l s'"
  from step show "threads_bounded (hist @ [l]) s'"
  proof cases
    case (thread_enters raw)
    then show ?thesis using inv by (simp add: threads_bounded_def calls_left_def)
  next
    case (thread_advances i c E stage st)
    let ?c = "c\<lparr>ca_stage := stage\<rparr>" and ?f = "\<lambda>c. steps_left (ca_stage c) + 2 * of_bool (may_send (ca_stage c))"
    note less = call_step_left [OF thread_advances(5,6)]
    have "calls_left ((tt_calls s)[i := ?c]) + ?f c = calls_left (tt_calls s) + ?f ?c"
      using sum_list_update [OF thread_advances(3), where c' = ?c and f = ?f] thread_advances(4)
      by (simp add: calls_left_def)
    then have "length (hist @ [l]) + calls_left (tt_calls s') + triage_left (tt_pipeline s') \<le> 9 * length (tt_calls s')"
      using inv thread_advances(2) conjunct2 [OF less] by (simp add: threads_bounded_def)
    moreover have "advances j (hist @ [l]) + own_left (tt_calls s') j \<le> 6" for j
      using inv thread_advances(1-4) conjunct1 [OF less]
      by (cases "j = i") (auto simp: threads_bounded_def own_left_def dest!: spec [of _ j])
    ultimately show ?thesis by (simp add: threads_bounded_def)
  qed (use inv in \<open>auto simp: threads_bounded_def worker_recv_eq worker_finish_eq triage_left_def\<close>)
qed

text \<open>Nothing is left to do: every call has returned and no task is queued or with the worker.\<close>

definition at_rest :: "threads \<Rightarrow> bool" where
  "at_rest s \<longleftrightarrow> (\<forall>c \<in> set (tt_calls s). returned (ca_stage c)) \<and> in_triage (tt_pipeline s) = []"

lemma call_can_step:
  assumes "i < length (tt_calls s)" "\<not> returned (ca_stage (tt_calls s ! i))"
  obtains s' where "threads_step X s (Advanced i) s'" "length (tt_calls s') = length (tt_calls s)"
    "steps_left (ca_stage (tt_calls s' ! i)) < steps_left (ca_stage (tt_calls s ! i))"
    "ca_raw (tt_calls s' ! i) = ca_raw (tt_calls s ! i)"
proof -
  obtain stage st where
    step: "call_step X undefined (ca_raw (tt_calls s ! i)) (ca_stage (tt_calls s ! i)) (tt_pipeline s) = (stage, st)"
    by fastforce
  from that [OF thread_advances [OF assms(1) refl assms(2) step]] call_step_left [OF assms(2) step] assms(1)
  show thesis by simp
qed

lemma busy_can_step:
  assumes "\<not> at_rest s" obtains l s' where "threads_step X s l s'" "\<And>raw. l \<noteq> Called raw"
proof (cases "\<exists>i < length (tt_calls s). \<not> returned (ca_stage (tt_calls s ! i))")
  case True
  then show thesis using call_can_step that by (metis thread_label.distinct(1))
next
  case False
  then have "in_triage (tt_pipeline s) \<noteq> []" using assms by (auto simp: at_rest_def in_set_conv_nth)
  then show thesis
  proof (cases "tp_worker (tt_pipeline s)")
    case None
    with \<open>in_triage (tt_pipeline s) \<noteq> []\<close> obtain t ts where "tp_queue (tt_pipeline s) = t # ts"
      by (auto simp: in_triage_def neq_Nil_conv)
    then show thesis using that [OF worker_takes] None by (auto simp: worker_recv_eq)
  next
    case (Some t)
    then show thesis using that [OF worker_ends [where now = 0]] by (auto simp: worker_finish_eq)
  qed
qed

text \<open>
  C36. The pipeline is wait-free and comes to rest: a call takes at most six steps of its own, whatever the others do; a run
  has at most nine steps for each call, the worker's included, so no run without new calls goes on for ever; and
  a state where only new calls can happen has every call returned and every task triaged.
\<close>
theorem concurrent_calls_terminate:
  assumes "threads_reach X capacity hist s"
  shows "(\<forall>i. advances i hist \<le> 6) \<and> length hist \<le> 9 * length (tt_calls s) \<and>
    ((\<forall>l s'. threads_step X s l s' \<longrightarrow> (\<exists>raw. l = Called raw)) \<longrightarrow> at_rest s)"
proof -
  have inv: "threads_bounded hist s" by (rule bounded.reach_inv [OF assms])
  then have "advances i hist \<le> 6" for i using add_leD1 unfolding threads_bounded_def by blast
  moreover have "at_rest s" if "\<forall>l s'. threads_step X s l s' \<longrightarrow> (\<exists>raw. l = Called raw)"
    using busy_can_step [of s X] that by metis
  ultimately show ?thesis using inv by (auto simp: threads_bounded_def)
qed

subsection \<open>A run\<close>

lemma call_returns:
  assumes "threads_reach X n hist s" "i < length (tt_calls s)"
  shows "\<exists>hist' s' ev. threads_reach X n hist' s' \<and> length (tt_calls s') = length (tt_calls s) \<and>
    tt_calls s' ! i = \<lparr>ca_raw = ca_raw (tt_calls s ! i), ca_stage = Returned ev\<rparr>"
  using assms
proof (induction "steps_left (ca_stage (tt_calls s ! i))" arbitrary: hist s rule: less_induct)
  case less
  show ?case
  proof (cases "returned (ca_stage (tt_calls s ! i))")
    case True
    then obtain ev where "ca_stage (tt_calls s ! i) = Returned ev" by (cases "ca_stage (tt_calls s ! i)") auto
    then show ?thesis using less.prems by (intro exI [of _ hist] exI [of _ s] exI [of _ ev]) simp
  next
    case False
    with less.prems(2) obtain s1 where s1: "threads_step X s (Advanced i) s1" "length (tt_calls s1) = length (tt_calls s)"
      "steps_left (ca_stage (tt_calls s1 ! i)) < steps_left (ca_stage (tt_calls s ! i))"
      "ca_raw (tt_calls s1 ! i) = ca_raw (tt_calls s ! i)" by (rule call_can_step)
    from less.hyps [OF s1(3) reach_step [OF less.prems(1) s1(1)]] s1(2,4) less.prems(2) show ?thesis by simp
  qed
qed

lemma one_returns:
  "\<exists>hist s ev. threads_reach X (Suc n) hist s \<and> tt_calls s = [\<lparr>ca_raw = raw, ca_stage = Returned ev\<rparr>]"
proof -
  have "is_power_of_two 16" by code_simp
  then obtain st where "pipeline_init (Suc n) st"
    by (auto simp: pipeline_init_def with_ring_buffer_capacity_def cache_new_def cache_with_capacity_def)
  then have "threads_reach X (Suc n) [] \<lparr>tt_pipeline = st, tt_calls = []\<rparr>"
    by (intro reach_init) (simp add: threads_init_def)
  from reach_step [OF this thread_enters [of X _ raw]]
  have "threads_reach X (Suc n) [Called raw] \<lparr>tt_pipeline = st, tt_calls = [\<lparr>ca_raw = raw, ca_stage = Entered\<rparr>]\<rparr>"
    by simp
  from call_returns [OF this, of 0] show ?thesis by (auto simp: length_Suc_conv) blast
qed

lemma hello_returns:
  obtains hist s a where "threads_reach test_pipeline_libs 4 hist s"
    "tt_calls s = [\<lparr>ca_raw = ''hello'', ca_stage = Returned (Some a)\<rparr>]"
proof -
  obtain hist s ev where r: "threads_reach test_pipeline_libs 4 hist s"
    "tt_calls s = [\<lparr>ca_raw = ''hello'', ca_stage = Returned ev\<rparr>]"
    using one_returns [where X = test_pipeline_libs and n = 3 and raw = "''hello''"] by auto
  have "ev \<noteq> None" using separated_result [OF r(1), of _ ev] r(2) by (auto simp: ascii_str_def)
  then show thesis using that r by auto
qed

theorem concurrent_calls_lossless_witness:
  "\<exists>hist s a. threads_reach test_pipeline_libs 4 hist s \<and>
     tt_calls s = [\<lparr>ca_raw = ''hello'', ca_stage = Returned (Some a)\<rparr>] \<and> traceable test_parser_libs ''hello'' a"
proof -
  obtain hist s a where r: "threads_reach test_pipeline_libs 4 hist s"
    "tt_calls s = [\<lparr>ca_raw = ''hello'', ca_stage = Returned (Some a)\<rparr>]" by (rule hello_returns)
  from concurrent_calls_lossless [OF r(1), of _ "Some a"] r show ?thesis by (auto simp: test_pipeline_libs_def)
qed

theorem concurrent_calls_refine_parser_witness:
  "\<exists>hist s a E. threads_reach test_pipeline_libs 4 hist s \<and>
     tt_calls s = [\<lparr>ca_raw = ''hello'', ca_stage = Returned (Some a)\<rparr>] \<and>
     parse_lossless test_parser_libs E ''hello'' = Some a"
proof -
  obtain hist s a where r: "threads_reach test_pipeline_libs 4 hist s"
    "tt_calls s = [\<lparr>ca_raw = ''hello'', ca_stage = Returned (Some a)\<rparr>]" by (rule hello_returns)
  then have "separated (xl_parser test_pipeline_libs) (lines_called s)" by (simp add: separated_def lines_called_def)
  from concurrent_calls_refine_parser [OF r(1) this, of _ a] r show ?thesis by (auto simp: test_pipeline_libs_def)
qed

theorem concurrent_counters_exact_witness:
  "\<exists>hist s. threads_reach test_pipeline_libs 4 hist s \<and> ps_total_events (stats (tt_pipeline s)) = 1"
proof -
  obtain hist s a where r: "threads_reach test_pipeline_libs 4 hist s"
    "tt_calls s = [\<lparr>ca_raw = ''hello'', ca_stage = Returned (Some a)\<rparr>]" by (rule hello_returns)
  from concurrent_counters_exact [OF r(1)] r show ?thesis by (auto simp: calls_where_def)
qed

theorem concurrent_triage_once_witness:
  "\<exists>hist s. threads_reach test_pipeline_libs 4 hist s \<and> tt_calls s \<noteq> [] \<and> length (tp_queue (tt_pipeline s)) \<le> 4"
proof -
  obtain hist s a where r: "threads_reach test_pipeline_libs 4 hist s"
    "tt_calls s = [\<lparr>ca_raw = ''hello'', ca_stage = Returned (Some a)\<rparr>]" by (rule hello_returns)
  from concurrent_triage_once [OF r(1)] r show ?thesis by (intro exI [of _ hist] exI [of _ s]) auto
qed

theorem concurrent_calls_terminate_witness:
  "\<exists>hist s. threads_reach test_pipeline_libs 4 hist s \<and> length (tt_calls s) = 1 \<and> length hist \<le> 9"
proof -
  obtain hist s a where r: "threads_reach test_pipeline_libs 4 hist s"
    "tt_calls s = [\<lparr>ca_raw = ''hello'', ca_stage = Returned (Some a)\<rparr>]" by (rule hello_returns)
  from concurrent_calls_terminate [OF r(1)] r show ?thesis by (intro exI [of _ hist] exI [of _ s]) auto
qed

end
