(* ===== verification/Cli.thy ===== *)
theory Cli
  imports Tamper Universal_Parser Onboarder
begin

text \<open>
  Commands of \<open>ulpf-cli/src/main.rs\<close>: \<open>audit\<close>, \<open>verify\<close>, \<open>onboard\<close>, \<open>tamper\<close>,
  \<open>inspect\<close>, and the corpus \<open>benchmark\<close> and \<open>evaluate\<close> load. A command ends by returning what it
  shows, by \<open>exit(1)\<close>, or with an error; \<open>None\<close> is a panic, and a command that writes also gives the file
  system it leaves. What is printed is kept as data, not as text. Regular expressions are a parameter.
\<close>

datatype cli_error =
    Storage_Failed storage_error
  | Onboarding_Failed onboard_error
  | Write_Failed string
  | Line_Invalid
  | Json_Failed

datatype 'a command_end = Completed 'a | Exit_One | Returned_Err cli_error

definition exit_code :: "'a command_end \<Rightarrow> nat" where
  "exit_code r = (case r of Completed a \<Rightarrow> 0 | _ \<Rightarrow> 1)"

subsection \<open>Corpora\<close>

text \<open>A reader that stops at the first line that is not UTF-8, and keeps the lines that are not blank.\<close>

definition nonblank_lines :: "string list \<Rightarrow> string list" where
  "nonblank_lines ls = filter (\<lambda>l. l \<noteq> []) (map trim ls)"

definition readable_lines :: "string \<Rightarrow> string list" where
  "readable_lines bytes = nonblank_lines (takeWhile utf8_valid (str_lines bytes))"

definition corpus_files :: "string list" where
  "corpus_files = [''cisco_asa.log'', ''fortigate.log'', ''paloalto.log'', ''suricata.json'', ''pfsense.log'']"

definition load_corpus :: "fs \<Rightarrow> string \<Rightarrow> string list" where
  "load_corpus fs data_dir =
     concat (map (\<lambda>file. case fs (path_join data_dir file) of None \<Rightarrow> [] | Some bytes \<Rightarrow> readable_lines bytes)
       corpus_files)"

subsection \<open>Audit\<close>

record audit_row =
  au_total :: nat
  au_classified :: nat
  au_parsed :: nat
  au_missing_ips :: nat
  au_sample :: "network_activity option"

definition audit_start :: audit_row where
  "audit_start = \<lparr>au_total = 0, au_classified = 0, au_parsed = 0, au_missing_ips = 0, au_sample = None\<rparr>"

definition audit_files :: "(string \<times> string) list" where
  "audit_files =
     [(''cisco_asa.log'', ''Cisco ASA''), (''fortigate.log'', ''Fortinet FortiGate''),
      (''paloalto.log'', ''Palo Alto PAN-OS''), (''suricata.json'', ''Suricata EVE-JSON''),
      (''pfsense.log'', ''pfSense Filterlog''), (''kaggle_firewall.csv'', ''Kaggle Firewall'')]"

definition skipped :: "string \<Rightarrow> bool" where
  "skipped trimmed \<longleftrightarrow> trimmed = [] \<or> starts_with trimmed ''Source Port''"

definition missing_ip :: "network_activity \<Rightarrow> bool" where
  "missing_ip event \<longleftrightarrow> ep_ip (na_src_endpoint event) = None \<or> ep_ip (na_dst_endpoint event) = None"

definition audit_parsed :: "network_activity \<Rightarrow> audit_row \<Rightarrow> audit_row" where
  "audit_parsed event row =
     row\<lparr>au_parsed := au_parsed row + 1,
         au_missing_ips := au_missing_ips row + (if missing_ip event then 1 else 0),
         au_sample := (if au_sample row = None then Some event else au_sample row)\<rparr>"

definition audit_line :: "parser_libs \<Rightarrow> parse_env \<Rightarrow> string \<Rightarrow> audit_row \<Rightarrow> audit_row option" where
  "audit_line L E line row =
     (let trimmed = trim line in
      if skipped trimmed then Some row
      else
        let row1 = row\<lparr>au_total := au_total row + 1\<rparr>;
            row2 = (if classify (pl_ac L) trimmed \<noteq> Unknown then row1\<lparr>au_classified := au_classified row1 + 1\<rparr> else row1)
        in case parse L E trimmed of
             None \<Rightarrow> None
           | Some (Inl e) \<Rightarrow> Some row2
           | Some (Inr event) \<Rightarrow> Some (audit_parsed event row2))"

fun audit_lines ::
  "parser_libs \<Rightarrow> (nat \<Rightarrow> parse_env) \<Rightarrow> (nat \<times> string) list \<Rightarrow> audit_row \<Rightarrow> (audit_row, cli_error) comp" where
  "audit_lines L E [] row = Some (Ok row)"
| "audit_lines L E ((i, line) # lines) row =
     (if \<not> utf8_valid line then Some (Err Line_Invalid)
      else case audit_line L (E i) line row of None \<Rightarrow> None | Some row' \<Rightarrow> audit_lines L E lines row')"

definition audit_pass :: "audit_row \<Rightarrow> bool" where
  "audit_pass row \<longleftrightarrow> au_classified row = au_total row \<and> au_parsed row = au_total row \<and> au_missing_ips row = 0"

text \<open>
  The table and the verdict: a row per file, none for a file that is not there. \<open>E file i\<close> is the clock and ids for
  line \<open>i\<close> of a file.
\<close>

fun audit_each ::
  "parser_libs \<Rightarrow> (string \<Rightarrow> nat \<Rightarrow> parse_env) \<Rightarrow> fs \<Rightarrow> string \<Rightarrow> string list \<Rightarrow>
     ((string \<times> audit_row option) list \<times> bool, cli_error) comp" where
  "audit_each L E fs dir [] = Some (Ok ([], True))"
| "audit_each L E fs dir (file # files) =
     (case fs (path_join dir file) of
        None \<Rightarrow> try_bind (audit_each L E fs dir files) (\<lambda>(rows, all_passed). Some (Ok ((file, None) # rows, False)))
      | Some bytes \<Rightarrow>
          try_bind (audit_lines L (E file) (enumerate 0 (str_lines bytes)) audit_start) (\<lambda>row.
          try_bind (audit_each L E fs dir files) (\<lambda>(rows, all_passed).
            Some (Ok ((file, Some row) # rows, audit_pass row \<and> all_passed)))))"

definition run_audit ::
  "parser_libs \<Rightarrow> (string \<Rightarrow> nat \<Rightarrow> parse_env) \<Rightarrow> fs \<Rightarrow> string \<Rightarrow>
     ((string \<times> audit_row option) list \<times> bool) command_end option" where
  "run_audit L E fs dir =
     map_option (\<lambda>r. case r of Inl e \<Rightarrow> Returned_Err e | Inr t \<Rightarrow> Completed t)
       (audit_each L E fs dir (map fst audit_files))"

subsection \<open>Verify\<close>

datatype verify_shown = Unreadable verify_error | Pass_Shown tamper_report | Alarm_Shown tamper_report

definition run_verify :: "integrity_libs \<Rightarrow> string \<Rightarrow> string \<Rightarrow> fs \<Rightarrow> verify_shown command_end option" where
  "run_verify L file ledger fs =
     (if fs file = None then Some Exit_One
      else if fs ledger = None then Some Exit_One
      else case verify_block_with_ledger L file ledger fs of
             None \<Rightarrow> None
           | Some (Inl e) \<Rightarrow> Some (Completed (Unreadable e))
           | Some (Inr report) \<Rightarrow>
               Some (Completed (if rp_is_valid report then Pass_Shown report else Alarm_Shown report)))"

subsection \<open>Onboard\<close>

definition write_file :: "write_outcome \<Rightarrow> string \<Rightarrow> string \<Rightarrow> fs \<Rightarrow> bool \<times> fs" where
  "write_file io path bytes fs =
     (case io of
        NotOpened \<Rightarrow> (False, fs)
      | Partial n \<Rightarrow> (False, fs(path \<mapsto> take n bytes))
      | Written \<Rightarrow> (True, fs(path \<mapsto> bytes)))"

record onboard_args =
  oa_sample :: string
  oa_vendor :: string
  oa_model :: string
  oa_out :: string

record onboard_env =
  oe_now_ms :: int
  oe_json_io :: write_outcome
  oe_yaml_io :: write_outcome
  oe_parse_ms :: int
  oe_event_id :: string

record onboard_shown =
  os_definition :: parser_definition
  os_report :: validation_report
  os_event :: network_activity

definition onboard_samples :: "string \<Rightarrow> string list" where
  "onboard_samples bytes = take 10 (readable_lines bytes)"

definition export_path :: "onboarder_libs \<Rightarrow> onboard_args \<Rightarrow> string \<Rightarrow> string" where
  "export_path L args ext = path_join (oa_out args) (ol_lowercase L (oa_vendor args) @ ext)"

text \<open>The two exports; the JSON text is made before its file is opened, the YAML text after.\<close>

definition export_definition ::
  "onboarder_libs \<Rightarrow> onboard_env \<Rightarrow> onboard_args \<Rightarrow> parser_definition \<Rightarrow> fs \<Rightarrow> (unit, cli_error) result \<times> fs" where
  "export_definition L E args d fs =
     (let json_path = export_path L args ''.json''; yaml_path = export_path L args ''.yaml'' in
      case to_json L d of
        Inl e \<Rightarrow> (Err (Onboarding_Failed e), fs)
      | Inr json \<Rightarrow>
          let (json_ok, fs1) = write_file (oe_json_io E) json_path json fs in
          if \<not> json_ok then (Err (Write_Failed json_path), fs1)
          else case to_yaml d of
            Inl e \<Rightarrow> (Err (Onboarding_Failed e), fs1)
          | Inr yaml \<Rightarrow>
              let (yaml_ok, fs2) = write_file (oe_yaml_io E) yaml_path yaml fs1 in
              if \<not> yaml_ok then (Err (Write_Failed yaml_path), fs2) else (Ok (), fs2))"

definition run_onboard ::
  "onboarder_libs \<Rightarrow> onboard_env \<Rightarrow> onboard_args \<Rightarrow> fs \<Rightarrow> onboard_shown command_end option \<times> fs" where
  "run_onboard L E args fs =
     (case fs (oa_sample args) of
        None \<Rightarrow> (Some Exit_One, fs)
      | Some bytes \<Rightarrow>
          let samples = onboard_samples bytes in
          if length samples < 3 then (Some Exit_One, fs)
          else case generate_parser L (oe_now_ms E) (oa_vendor args) (oa_model args) samples of
            None \<Rightarrow> (None, fs)
          | Some (Inl e) \<Rightarrow> (Some (Returned_Err (Onboarding_Failed e)), fs)
          | Some (Inr (parser_def, report)) \<Rightarrow>
              (case export_definition L E args parser_def fs of
                 (Inl e, fs1) \<Rightarrow> (Some (Returned_Err e), fs1)
               | (Inr _, fs1) \<Rightarrow>
                   let registry = register L parser_def registry_new in
                   (case registry_parse L (oe_parse_ms E) (oe_event_id E) registry (oa_vendor args) (hd samples) of
                      Inl e \<Rightarrow> (Some (Returned_Err (Onboarding_Failed e)), fs1)
                    | Inr event \<Rightarrow>
                        (Some (Completed \<lparr>os_definition = parser_def, os_report = report, os_event = event\<rparr>), fs1))))"

subsection \<open>Inspect\<close>

text \<open>The fields of the normalised event are read back from the stored JSON; what is no JSON is passed over.\<close>

record ocsf_shown =
  oc_activity_id :: json
  oc_activity_name :: string
  oc_disposition :: string
  oc_source :: "(string \<times> json) option"
  oc_dest :: "(string \<times> json) option"
  oc_protocol :: "(string \<times> json) option"

record inspect_shown =
  is_event_id :: string
  is_vendor :: string
  is_leaf_index :: u32
  is_raw_hash :: string
  is_preview :: string
  is_ocsf :: "ocsf_shown option"

text \<open>The preview slices at byte 95, and panics when that is inside a character.\<close>

definition inspect_preview :: "string \<Rightarrow> string option" where
  "inspect_preview raw_log =
     (if 95 < length raw_log then map_option (\<lambda>p. p @ ''...'') (slice_to raw_log 95) else Some raw_log)"

definition json_text :: "string \<Rightarrow> json \<Rightarrow> string \<Rightarrow> string" where
  "json_text key v alt = unwrap_or alt (Option.bind (json_get key v) json_as_str)"

definition shown_pair :: "string \<Rightarrow> string \<Rightarrow> string \<Rightarrow> json \<Rightarrow> string \<times> json" where
  "shown_pair text_key alt value_key v = (json_text text_key v alt, unwrap_or JNull (json_get value_key v))"

definition inspect_ocsf :: "json \<Rightarrow> ocsf_shown" where
  "inspect_ocsf ocsf =
     \<lparr>oc_activity_id = unwrap_or JNull (json_get ''activity_id'' ocsf),
      oc_activity_name = json_text ''activity_name'' ocsf [],
      oc_disposition = json_text ''disposition'' ocsf [],
      oc_source = map_option (shown_pair ''ip'' ''N/A'' ''port'') (json_get ''src_endpoint'' ocsf),
      oc_dest = map_option (shown_pair ''ip'' ''N/A'' ''port'') (json_get ''dst_endpoint'' ocsf),
      oc_protocol = map_option (shown_pair ''protocol_name'' [] ''protocol_num'') (json_get ''connection_info'' ocsf)\<rparr>"

definition inspect_record :: "parser_libs \<Rightarrow> stored_log_record \<Rightarrow> inspect_shown option" where
  "inspect_record P rec = do {
     preview \<leftarrow> inspect_preview (sr_raw_log rec);
     Some \<lparr>is_event_id = sr_event_id rec, is_vendor = sr_vendor rec, is_leaf_index = sr_leaf_index rec,
           is_raw_hash = sr_raw_hash rec, is_preview = preview,
           is_ocsf = map_option inspect_ocsf (ok_opt (pl_json_parse P (sr_ocsf_json rec)))\<rparr>
   }"

definition run_inspect ::
  "integrity_libs \<Rightarrow> parser_libs \<Rightarrow> string \<Rightarrow> nat \<Rightarrow> fs \<Rightarrow> (nat \<times> inspect_shown list) command_end option" where
  "run_inspect L P file count fs =
     (if fs file = None then Some Exit_One
      else case read_parquet_file (il_store L) file fs of
             None \<Rightarrow> None
           | Some (Inl e) \<Rightarrow> Some (Returned_Err (Storage_Failed e))
           | Some (Inr records) \<Rightarrow>
               map_option (\<lambda>shown. Completed (length records, shown)) (map_opt (inspect_record P) (take count records)))"

subsection \<open>Tamper\<close>

text \<open>The pattern of an IPv4 address: whether it occurs, and the replacement of its first occurrence.\<close>

record ip_regex =
  ir_is_match :: "string \<Rightarrow> bool"
  ir_replace :: "string \<Rightarrow> string \<Rightarrow> string"

record tamper_args =
  ta_file :: string
  ta_leaf :: nat
  ta_ip :: string

definition tampered_text :: "ip_regex \<Rightarrow> string \<Rightarrow> string \<Rightarrow> string" where
  "tampered_text re ip original_log =
     (if ir_is_match re original_log then ir_replace re original_log ip
      else original_log @ '' [SPOOFED_IP:'' @ ip @ '']'')"

text \<open>The snippet shown at the end slices the new text at byte 90.\<close>

definition run_tamper ::
  "integrity_libs \<Rightarrow> ip_regex \<Rightarrow> write_outcome \<Rightarrow> tamper_args \<Rightarrow> fs \<Rightarrow> (string \<times> string) command_end option \<times> fs" where
  "run_tamper L re io args fs =
     (if fs (ta_file args) = None then (Some Exit_One, fs)
      else case read_parquet_file (il_store L) (ta_file args) fs of
        None \<Rightarrow> (None, fs)
      | Some (Inl e) \<Rightarrow> (Some (Returned_Err (Storage_Failed e)), fs)
      | Some (Inr records) \<Rightarrow>
          if length records \<le> ta_leaf args then (Some Exit_One, fs)
          else
            let rec = records ! ta_leaf args;
                tampered_log = tampered_text re (ta_ip args) (sr_raw_log rec);
                records' = records[ta_leaf args := rec\<lparr>sr_raw_log := tampered_log\<rparr>]
            in case write_records_to_parquet (il_store L) io (ta_file args) records' Snappy fs of
                 (Inl e, fs') \<Rightarrow> (Some (Returned_Err (Storage_Failed e)), fs')
               | (Inr _, fs') \<Rightarrow>
                   (map_option (\<lambda>snippet. Completed (sr_raw_hash rec, snippet))
                      (slice_to tampered_log (min (length tampered_log) 90)), fs'))"

end
