(* ===== verification/Cli_Properties.thy ===== *)
theory Cli_Properties
  imports Cli Onboarder_Properties Integrity_Properties
begin

text \<open>
  Properties of the commands: when the audit passes, what an injected change does to the verdict of the verifier, and what
  onboarding leaves on disk.
\<close>

subsection \<open>Audit\<close>

definition good_line :: "parser_libs \<Rightarrow> parse_env \<Rightarrow> string \<Rightarrow> bool" where
  "good_line L E line \<longleftrightarrow> utf8_valid line \<and>
     (\<not> skipped (trim line) \<longrightarrow> (\<exists>a. parse L E (trim line) = Some (Ok a) \<and> \<not> missing_ip a))"

definition audit_balanced :: "audit_row \<Rightarrow> bool" where
  "audit_balanced row \<longleftrightarrow> au_classified row \<le> au_total row \<and> au_parsed row \<le> au_total row"

lemma parse_ok_classified: "parse L E raw = Some (Ok a) \<Longrightarrow> classify (pl_ac L) raw \<noteq> Unknown"
  by (auto simp: parse_def ok_iff)

lemma audit_line_step:
  assumes "utf8_valid line" "audit_line L E line row = Some row'" "audit_balanced row"
  shows "audit_balanced row' \<and> (audit_pass row' \<longleftrightarrow> audit_pass row \<and> good_line L E line)"
proof (cases "skipped (trim line)")
  case True
  then show ?thesis using assms by (simp add: audit_line_def good_line_def)
next
  case False
  then show ?thesis
    using assms parse_ok_classified [of L E "trim line"]
    by (auto simp: audit_line_def good_line_def audit_balanced_def audit_pass_def audit_parsed_def Let_def
        split: option.splits sum.splits if_splits)
qed

lemma audit_line_panic: "audit_line L E line row = None \<Longrightarrow> \<not> good_line L E line"
  by (auto simp: audit_line_def good_line_def Let_def split: if_splits option.splits sum.splits)

lemma audit_lines_pass:
  "audit_balanced row \<Longrightarrow>
     (\<exists>row'. audit_lines L E ls row = Some (Ok row') \<and> audit_pass row') \<longleftrightarrow>
       audit_pass row \<and> (\<forall>(i, line) \<in> set ls. good_line L (E i) line)"
proof (induction L E ls row rule: audit_lines.induct)
  case (2 L E i line lines row)
  show ?case
  proof (cases "utf8_valid line")
    case False
    then show ?thesis by (simp add: good_line_def)
  next
    case True
    show ?thesis
    proof (cases "audit_line L (E i) line row")
      case None
      then show ?thesis using True audit_line_panic [OF None] by simp
    next
      case (Some row1)
      with audit_line_step [OF True Some 2(2)] 2(1) [of row1] True show ?thesis by simp
    qed
  qed
qed simp

definition good_file :: "parser_libs \<Rightarrow> (nat \<Rightarrow> parse_env) \<Rightarrow> string option \<Rightarrow> bool" where
  "good_file L E content \<longleftrightarrow>
     (\<exists>bytes. content = Some bytes \<and> (\<forall>(i, line) \<in> set (enumerate 0 (str_lines bytes)). good_line L (E i) line))"

lemma audit_start_simps [simp]: "audit_balanced audit_start" "audit_pass audit_start"
  by (simp_all add: audit_balanced_def audit_pass_def audit_start_def)

lemma audit_each_pass:
  "(\<exists>rows. audit_each L E fs dir files = Some (Ok (rows, True))) \<longleftrightarrow>
     (\<forall>file \<in> set files. good_file L (E file) (fs (path_join dir file)))"
proof (induction files)
  case (Cons f files)
  show ?case
  proof (cases "fs (path_join dir f)")
    case None
    then show ?thesis by (auto simp: good_file_def ok_iff)
  next
    case (Some bytes)
    have "(\<exists>row. audit_lines L (E f) (enumerate 0 (str_lines bytes)) audit_start = Some (Ok row) \<and> audit_pass row) \<longleftrightarrow>
        good_file L (E f) (fs (path_join dir f))"
      using audit_lines_pass [of audit_start L "E f" "enumerate 0 (str_lines bytes)"] Some
      by (simp add: good_file_def)
    then show ?thesis using Cons.IH Some by (auto simp: ok_iff)
  qed
qed simp

text \<open>
  C23. The audit ends in HEALTHY exactly when all six data sets are there, are UTF-8 throughout, and every line that is
  neither blank nor the CSV header is parsed into an event with both addresses.
\<close>
theorem audit_healthy_iff:
  "(\<exists>rows. run_audit L E fs dir = Some (Completed (rows, True))) \<longleftrightarrow>
     (\<forall>file \<in> set (map fst audit_files). good_file L (E file) (fs (path_join dir file)))"
proof -
  have "run_audit L E fs dir = Some (Completed t) \<longleftrightarrow> audit_each L E fs dir (map fst audit_files) = Some (Ok t)" for t
    by (cases "audit_each L E fs dir (map fst audit_files)"; cases "the (audit_each L E fs dir (map fst audit_files))")
      (auto simp: run_audit_def)
  then show ?thesis by (simp only: audit_each_pass)
qed

subsection \<open>Tampering\<close>

lemma run_verify_iff:
  "run_verify L file ledger fs = Some (Completed (Pass_Shown rep)) \<longleftrightarrow>
     fs file \<noteq> None \<and> fs ledger \<noteq> None \<and>
     verify_block_with_ledger L file ledger fs = Some (Ok rep) \<and> rp_is_valid rep"
  by (auto simp: run_verify_def split: option.splits sum.splits)

lemma verify_block_with_ledgerE:
  assumes "verify_block_with_ledger L file ledger fs = Some (Ok rep)"
  obtains rs es e where "read_parquet_file (il_store L) file fs = Some (Ok rs)"
    "load_ledger_entries L ledger fs = Ok es" "find (\<lambda>e. le_block_id e = target_block_id file rs) es = Some e"
    "verify_records L rs e = Some rep"
  using assms by (auto simp: verify_block_with_ledger_def Let_def split: option.splits sum.splits)

lemma target_block_id_update:
  "k < length rs \<Longrightarrow> target_block_id p (rs[k := (rs ! k)\<lparr>sr_raw_log := t\<rparr>]) = target_block_id p rs"
  by (cases rs; cases k) (auto simp: target_block_id_def)

lemma concat_enumerate_single:
  "k < length xs \<Longrightarrow> \<forall>i < length xs. i \<noteq> k \<longrightarrow> f (n + i, xs ! i) = [] \<Longrightarrow>
     concat (map f (enumerate n xs)) = f (n + k, xs ! k)"
proof (induction xs arbitrary: n k)
  case (Cons x xs)
  show ?case
  proof (cases k)
    case 0
    then have e: "\<forall>i < length xs. f (Suc n + i, xs ! i) = []" using Cons.prems(2) by force
    have "f (i, xs ! (i - Suc n)) = []" if "Suc n \<le> i" "i < length xs + Suc n" for i
      using e [rule_format, of "i - Suc n"] that by simp
    then have "\<forall>y \<in> set (enumerate (Suc n) xs). f y = []" by (auto simp: in_set_enumerate_eq)
    then show ?thesis using 0 by simp
  next
    case (Suc j)
    have "f (n, x) = []" using Cons.prems Suc by force
    moreover have "\<forall>i < length xs. i \<noteq> j \<longrightarrow> f (Suc n + i, xs ! i) = []" using Cons.prems(2) Suc by force
    ultimately show ?thesis using Cons.IH [of j "Suc n"] Cons.prems(1) Suc by simp
  qed
qed simp

text \<open>The verifier lists what is wrong with the records; when the records are those of a valid block but for one, only that one.\<close>

lemma verify_records_lists:
  assumes "verify_records L rs e = Some rep" "record_anomalies L (le_leaf_count e) rs \<noteq> []"
  shows "rp_tampered_records rep = record_anomalies L (le_leaf_count e) rs" "\<not> rp_is_valid rep"
  using assms by (auto simp: verify_records_def Let_def Option.bind_eq_Some_conv)

lemma anomalies_of_changed_row:
  assumes "verify_records L rs e = Some rep" "rp_is_valid rep" "k < length rs"
  shows "record_anomalies L (le_leaf_count e) (rs[k := r]) = row_anomalies L (k, r)"
proof -
  have "\<forall>i < length (rs[k := r]). i \<noteq> k \<longrightarrow> row_anomalies L (0 + i, rs[k := r] ! i) = []"
    using verify_records_valid_iff [OF assms(1)] assms(2) by (simp add: row_anomalies_def Let_def)
  from concat_enumerate_single [OF _ this] show ?thesis
    using verify_records_valid_iff [OF assms(1)] assms(2,3) by (simp add: record_anomalies_def count_anomaly_def)
qed

text \<open>
  C19. The demonstration works: a block that passed, changed by \<open>ulpf tamper\<close> in a way that does not collide under
  SHA-256, raises the alarm, and the report lists the changed row and nothing else: its leaf, its event, the digest stored
  when it was written, the digest computed from the tampered text, and the beginning of that text.
\<close>
theorem tampering_raises_alarm:
  assumes ok: "integrity_libs_ok L" and ledger: "ledger \<noteq> ta_file args"
    and pass: "run_verify L (ta_file args) ledger fs = Some (Completed (Pass_Shown rep))"
    and read: "read_parquet_file (il_store L) (ta_file args) fs = Some (Ok rs)"
    and tamper: "run_tamper L re io args fs = (Some (Completed shown), fs')"
    and no_collision: "il_sha256 L (bytes_of (tampered_text re (ta_ip args) (sr_raw_log (rs ! ta_leaf args)))) \<noteq>
      il_sha256 L (bytes_of (sr_raw_log (rs ! ta_leaf args)))"
  shows "\<exists>rep'. run_verify L (ta_file args) ledger fs' = Some (Completed (Alarm_Shown rep')) \<and>
    (let old = rs ! ta_leaf args; text = tampered_text re (ta_ip args) (sr_raw_log old);
         digest = il_hex_encode L (il_sha256 L (bytes_of text))
     in rp_tampered_records rep' =
          [\<lparr>tr_leaf_index = of_nat (ta_leaf args), tr_event_id = sr_event_id old, tr_stored_raw_hash = sr_raw_hash old,
            tr_calculated_raw_hash = digest, tr_raw_log_preview = preview_log text,
            tr_reason = DigestMismatch (sr_raw_hash old) digest\<rparr>] \<and>
        sr_raw_hash old = il_hex_encode L (il_sha256 L (bytes_of (sr_raw_log old))))"
proof -
  let ?k = "ta_leaf args" and ?p = "ta_file args"
  let ?t = "tampered_text re (ta_ip args) (sr_raw_log (rs ! ?k))"
  let ?rec = "(rs ! ?k)\<lparr>sr_raw_log := ?t\<rparr>"
  let ?rs = "rs[?k := ?rec]"
  obtain u where k: "?k < length rs" and w: "write_records_to_parquet (il_store L) io ?p ?rs Snappy fs = (Ok u, fs')"
    using tamper read
    by (auto simp: run_tamper_def Let_def not_le split: if_splits prod.splits sum.splits)
  have st: "store_libs_ok (il_store L)" by (rule integrity_libs_okD(1) [OF ok])
  have new: "read_parquet_file (il_store L) ?p fs' = Some (Ok ?rs)"
    using parquet.load_store [of "il_store L" "(io, Snappy)" ?p ?rs fs u fs'] st w by simp
  have same: "fs' ledger = fs ledger"
    using parquet.store_frame [of "il_store L" "(io, Snappy)" ?p ?rs fs "Ok u" fs' ledger] w ledger by simp
  obtain es e where v: "load_ledger_entries L ledger fs = Ok es"
    "find (\<lambda>e. le_block_id e = target_block_id ?p rs) es = Some e" "verify_records L rs e = Some rep" "rp_is_valid rep"
    "fs ledger \<noteq> None"
    using pass read unfolding run_verify_iff by (auto elim!: verify_block_with_ledgerE)
  have old: "sr_leaf_index (rs ! ?k) = of_nat ?k" "sr_raw_hash (rs ! ?k) = raw_digest L (rs ! ?k)"
    using verify_records_valid_iff [OF v(3)] v(4) k by blast+
  have "raw_digest L ?rec \<noteq> sr_raw_hash ?rec"
    using no_collision integrity_libs_okD(3) [OF ok] old(2) by (auto simp: raw_digest_def dest: injD)
  then have row: "row_anomalies L (?k, ?rec) = [\<lparr>tr_leaf_index = of_nat ?k, tr_event_id = sr_event_id (rs ! ?k),
      tr_stored_raw_hash = sr_raw_hash (rs ! ?k), tr_calculated_raw_hash = raw_digest L ?rec,
      tr_raw_log_preview = preview_log ?t, tr_reason = DigestMismatch (sr_raw_hash (rs ! ?k)) (raw_digest L ?rec)\<rparr>]"
    using old(1) by (simp add: row_anomalies_def Let_def)
  obtain rep' where rep': "verify_records L ?rs e = Some rep'" using verify_records_total by blast
  note changed = anomalies_of_changed_row [OF v(3,4) k, of ?rec]
  have listed: "rp_tampered_records rep' = row_anomalies L (?k, ?rec)" "\<not> rp_is_valid rep'"
    using verify_records_lists [OF rep'] changed row by simp_all
  have "load_ledger_entries L ledger fs' = Ok es" using v(1) same by (simp add: load_ledger_entries_def)
  moreover have "target_block_id ?p ?rs = target_block_id ?p rs" by (rule target_block_id_update [OF k])
  ultimately have "verify_block_with_ledger L ?p ledger fs' = Some (Ok rep')"
    using new v(2) rep' by (simp add: verify_block_with_ledger_def Let_def)
  moreover have "fs' ?p \<noteq> None" using new by (cases "fs' ?p") (simp_all add: read_parquet_file_def)
  moreover have "fs' ledger \<noteq> None" using same v(5) by simp
  ultimately have "run_verify L ?p ledger fs' = Some (Completed (Alarm_Shown rep'))"
    using listed(2) by (simp add: run_verify_def)
  then show ?thesis using listed(1) old(2) unfolding row by (simp add: Let_def raw_digest_def)
qed

text \<open>The exit code does not tell: whenever both files exist, \<open>ulpf verify\<close> ends with code 0, whatever it found.\<close>
theorem verify_exit_ignores_alarm:
  assumes "fs file \<noteq> None" "fs ledger \<noteq> None" "run_verify L file ledger fs = Some r"
  shows "exit_code r = 0"
  using assms by (auto simp: run_verify_def exit_code_def split: option.splits sum.splits)

subsection \<open>Onboarding\<close>

lemma write_file_ok: "write_file io p bytes fs = (True, fs') \<Longrightarrow> fs' = fs(p \<mapsto> bytes)"
  by (simp add: write_file_def split: write_outcome.splits)

lemma export_paths: "export_path L args ''.json'' \<noteq> export_path L args ''.yaml''"
  by (simp add: export_path_def)

lemma export_definition_okD:
  assumes "export_definition L E args d fs = (Ok u, fs')"
  obtains json yaml where "to_json L d = Ok json" "to_yaml d = Ok yaml"
    "fs' = fs(export_path L args ''.json'' \<mapsto> json, export_path L args ''.yaml'' \<mapsto> yaml)"
  using assms that by (auto simp: export_definition_def Let_def split: sum.splits prod.splits if_splits dest!: write_file_ok)

text \<open>
  C29. What a successful onboarding leaves: the JSON and the YAML of the definition it shows, in two files, and no other change;
  the definition carries the vendor asked for, its samples are the first ten lines of the sample file that are not blank,
  trimmed (up to the first line that is not UTF-8), at least three of them, it passed validation, and it parses the first of these lines
  into the event shown.
\<close>
theorem onboarding_exports_definition:
  assumes "run_onboard L E args fs = (Some (Completed shown), fs')"
  shows "\<exists>json yaml bytes. to_json L (os_definition shown) = Ok json \<and> to_yaml (os_definition shown) = Ok yaml \<and>
    fs' = fs(export_path L args ''.json'' \<mapsto> json, export_path L args ''.yaml'' \<mapsto> yaml) \<and>
    vr_passed (os_report shown) \<and> pd_vendor (os_definition shown) = oa_vendor args \<and>
    fs (oa_sample args) = Some bytes \<and>
    pd_sample_logs (os_definition shown) = take 10 (nonblank_lines (takeWhile utf8_valid (str_lines bytes))) \<and>
    3 \<le> length (pd_sample_logs (os_definition shown)) \<and>
    definition_parse L (oe_parse_ms E) (oe_event_id E) (os_definition shown) (hd (pd_sample_logs (os_definition shown))) =
      Ok (os_event shown)"
proof -
  obtain bytes d rep ev u where sample: "fs (oa_sample args) = Some bytes" and run: "generate_parser L (oe_now_ms E) (oa_vendor args) (oa_model args) (onboard_samples bytes) =
      Some (Ok (d, rep))" "export_definition L E args d fs = (Ok u, fs')" "\<not> length (onboard_samples bytes) < 3"
    "registry_parse L (oe_parse_ms E) (oe_event_id E) (register L d registry_new) (oa_vendor args)
      (hd (onboard_samples bytes)) = Ok ev"
    "shown = \<lparr>os_definition = d, os_report = rep, os_event = ev\<rparr>"
    using assms
    by (auto simp: run_onboard_def Let_def split: option.splits sum.splits prod.splits if_splits)
  have gen: "vr_passed rep" "pd_vendor d = oa_vendor args" "pd_sample_logs d = onboard_samples bytes"
    using generate_parser_okD [OF run(1)] by auto
  obtain json yaml where exp: "to_json L d = Ok json" "to_yaml d = Ok yaml"
    "fs' = fs(export_path L args ''.json'' \<mapsto> json, export_path L args ''.yaml'' \<mapsto> yaml)"
    by (rule export_definition_okD [OF run(2)])
  have "definition_parse L (oe_parse_ms E) (oe_event_id E) d (hd (onboard_samples bytes)) = Ok ev"
    using run(4) gen(2) by (simp add: registry_parse_def register_def registry_new_def ok_iff)
  moreover have "onboard_samples bytes = take 10 (nonblank_lines (takeWhile utf8_valid (str_lines bytes)))"
    by (simp only: onboard_samples_def readable_lines_def)
  ultimately show ?thesis using exp gen run(3,5) sample by auto
qed

subsection \<open>Runs\<close>

text \<open>A store that knows two blocks: the flushed one, and the same after an address was injected into its first record.\<close>

definition spoofed_log :: string where
  "spoofed_log = ''a [SPOOFED_IP:6.6.6.6]''"

definition spoofed_records :: "stored_log_record list" where
  "spoofed_records = test_records[0 := (test_records ! 0)\<lparr>sr_raw_log := spoofed_log\<rparr>]"

definition duo_store :: store_libs where
  "duo_store = (test_store test_records)\<lparr>
     sl_pq_encode := (\<lambda>c b. if b = records_batch test_records then Some ''PAR1''
       else if b = records_batch spoofed_records then Some ''PAR2'' else None),
     sl_pq_decode := (\<lambda>s. if s = ''PAR1'' then Some [records_batch test_records]
       else if s = ''PAR2'' then Some [records_batch spoofed_records] else None)\<rparr>"

definition duo_libs :: integrity_libs where
  "duo_libs = TL\<lparr>il_store := duo_store\<rparr>"

definition no_ip :: ip_regex where
  "no_ip = \<lparr>ir_is_match = (\<lambda>s. False), ir_replace = (\<lambda>s r. s)\<rparr>"

definition duo_args :: tamper_args where
  "duo_args = \<lparr>ta_file = ''b'', ta_leaf = 0, ta_ip = ''6.6.6.6''\<rparr>"

definition duo_fs :: fs where
  "duo_fs = [''b'' \<mapsto> ''PAR1'', ''l'' \<mapsto> ''{e}'' @ [newline]]"

lemma concat_records_batch: "concat_columns log_schema [records_batch rs] = record_columns rs"
  using record_columns_append [of rs "[]"]
  by (simp add: concat_columns_def records_batch_def log_schema_def record_columns_def)

lemma batch_ok_records: "batch_ok log_schema (records_batch rs)"
  by (simp add: batch_ok_def well_matched_records records_batch_def)

lemma rb_simps: "rb_schema (records_batch rs) = log_schema" "rb_columns (records_batch rs) = record_columns rs"
  by (simp_all add: records_batch_def)

lemma store_libs_ok_duo: "store_libs_ok duo_store"
proof -
  have new: "sl_try_new duo_store = sl_try_new (test_store test_records)" by (simp add: duo_store_def)
  have enc: "\<exists>rs. b = records_batch rs \<and> sl_pq_decode duo_store bytes = Some [records_batch rs]"
    if "sl_pq_encode duo_store c b = Some bytes" for c b bytes
    using that by (auto simp: duo_store_def split: if_splits)
  show ?thesis using store_libs_ok_test [of test_records] unfolding store_libs_ok_def new
    by (auto dest!: enc simp: rb_simps batch_ok_records concat_records_batch)
qed

lemma integrity_libs_ok_duo: "integrity_libs_ok duo_libs"
  using integrity_libs_ok_test [of test_records test_entry] store_libs_ok_duo
  by (simp add: integrity_libs_ok_def duo_libs_def)

lemma duo_write:
  "rs = test_records \<or> rs = spoofed_records \<Longrightarrow>
     \<exists>bytes. write_records_to_parquet duo_store Written p rs Snappy fs = (Ok (), fs(p \<mapsto> bytes))"
  using records_to_batch_ok [OF store_libs_ok_duo, of rs]
  by (auto simp: write_records_to_parquet_def write_parquet_file_def duo_store_def records_batch_def)

lemma duo_read: "read_parquet_file duo_store ''b'' duo_fs = Some (Ok test_records)"
proof -
  have "read_batches [records_batch test_records] = Some (Ok test_records)"
    using read_batches_concat [of "[records_batch test_records]"] batch_ok_records concat_records_batch
      record_columns_inject by auto
  then show ?thesis by (simp add: read_parquet_file_def duo_fs_def duo_store_def)
qed

lemma duo_pass: "\<exists>rep. run_verify duo_libs ''b'' ''l'' duo_fs = Some (Completed (Pass_Shown rep))"
proof -
  have "str_lines (''{e}'' @ [newline]) = [''{e}'']" "utf8_valid ''{e}''" "trim ''{e}'' = ''{e}''" by code_simp+
  then have lines: "load_ledger_entries duo_libs ''l'' duo_fs = Ok [test_entry]"
    by (simp add: load_ledger_entries_def duo_fs_def duo_libs_def test_libs_def)
  obtain rep where rep: "verify_records duo_libs test_records test_entry = Some rep" using verify_records_total by blast
  have "block_matches TL test_entry test_records"
    using new_entry_matches [of TL test_env full_batcher] by (simp only: new_entry_test flush_records_test)
  then have valid: "rp_is_valid rep"
    using verify_records_valid_iff [OF rep] by (simp add: block_matches_def raw_digest_def duo_libs_def to_hex_def)
  have "target_block_id ''b'' test_records = le_block_id test_entry"
    by (simp add: target_block_id_def test_records_def test_record_def test_entry_def)
  then have "verify_block_with_ledger duo_libs ''b'' ''l'' duo_fs = Some (Ok rep)"
    using duo_read lines rep by (simp add: verify_block_with_ledger_def duo_libs_def Let_def)
  then show ?thesis using valid by (auto simp: run_verify_iff duo_fs_def)
qed

lemma duo_tamper:
  "\<exists>shown fs'. run_tamper duo_libs no_ip Written duo_args duo_fs = (Some (Completed shown), fs')"
proof -
  have spoof: "tampered_text no_ip ''6.6.6.6'' (sr_raw_log (test_records ! 0)) = spoofed_log"
    by (simp add: tampered_text_def no_ip_def test_records_def test_record_def spoofed_log_def)
  have "length spoofed_log \<le> 90" by code_simp
  then have snippet: "slice_to spoofed_log (min (length spoofed_log) 90) = Some spoofed_log" by (simp add: slice_to_def)
  have "0 < length test_records" by (simp add: test_records_def)
  moreover obtain bytes where
    "write_records_to_parquet duo_store Written ''b'' spoofed_records Snappy duo_fs = (Ok (), duo_fs(''b'' \<mapsto> bytes))"
    using duo_write by blast
  moreover have "duo_fs ''b'' \<noteq> None" by (simp add: duo_fs_def)
  ultimately show ?thesis
    using duo_read spoof snippet
    by (simp add: run_tamper_def duo_args_def duo_libs_def Let_def flip: spoofed_records_def)
qed

theorem tampering_raises_alarm_witness:
  "\<exists>rep shown fs' rep'. run_verify duo_libs ''b'' ''l'' duo_fs = Some (Completed (Pass_Shown rep)) \<and>
     run_tamper duo_libs no_ip Written duo_args duo_fs = (Some (Completed shown), fs') \<and>
     run_verify duo_libs ''b'' ''l'' fs' = Some (Completed (Alarm_Shown rep')) \<and>
     map tr_stored_raw_hash (rp_tampered_records rep') = [sr_raw_hash (test_records ! 0)] \<and>
     map tr_calculated_raw_hash (rp_tampered_records rep') =
       [il_hex_encode duo_libs (il_sha256 duo_libs (bytes_of ''a [SPOOFED_IP:6.6.6.6]''))]"
proof -
  obtain rep where pass: "run_verify duo_libs (ta_file duo_args) ''l'' duo_fs = Some (Completed (Pass_Shown rep))"
    using duo_pass by (auto simp: duo_args_def)
  obtain shown fs' where t: "run_tamper duo_libs no_ip Written duo_args duo_fs = (Some (Completed shown), fs')"
    using duo_tamper by blast
  have read: "read_parquet_file (il_store duo_libs) (ta_file duo_args) duo_fs = Some (Ok test_records)"
    using duo_read by (simp add: duo_libs_def duo_args_def)
  have "test_digest (bytes_of ''a [SPOOFED_IP:6.6.6.6]'') \<noteq> test_digest (bytes_of ''a'')" by code_simp
  then have "il_sha256 duo_libs (bytes_of (tampered_text no_ip (ta_ip duo_args) (sr_raw_log (test_records ! ta_leaf duo_args)))) \<noteq>
      il_sha256 duo_libs (bytes_of (sr_raw_log (test_records ! ta_leaf duo_args)))"
    by (simp add: duo_libs_def tampered_text_def no_ip_def duo_args_def test_records_def test_record_def)
  moreover have "tampered_text no_ip (ta_ip duo_args) (sr_raw_log (test_records ! ta_leaf duo_args)) = ''a [SPOOFED_IP:6.6.6.6]''"
    by (simp add: tampered_text_def no_ip_def duo_args_def test_records_def test_record_def)
  moreover have "ta_leaf duo_args = 0" "ta_file duo_args = ''b''" by (simp_all add: duo_args_def)
  ultimately show ?thesis using tampering_raises_alarm [OF integrity_libs_ok_duo _ pass read t] pass t
    by (fastforce simp: Let_def)
qed

theorem verify_exit_ignores_alarm_witness:
  "\<exists>r. run_verify duo_libs ''b'' ''l'' duo_fs = Some r \<and> exit_code r = 0"
proof -
  obtain r where r: "run_verify duo_libs ''b'' ''l'' duo_fs = Some r" using duo_pass by blast
  have "duo_fs ''b'' \<noteq> None" "duo_fs ''l'' \<noteq> None" by (simp_all add: duo_fs_def)
  from verify_exit_ignores_alarm [OF this r] r show ?thesis by blast
qed

definition json_libs :: onboarder_libs where
  "json_libs = test_onboarder_libs\<lparr>ol_json_show := (\<lambda>d. Some ''{}'')\<rparr>"

definition onboard_trial_args :: onboard_args where
  "onboard_trial_args = \<lparr>oa_sample = ''s'', oa_vendor = ''Acme'', oa_model = ''X1'', oa_out = ''o''\<rparr>"

definition onboard_trial_env :: onboard_env where
  "onboard_trial_env = \<lparr>oe_now_ms = 0, oe_json_io = Written, oe_yaml_io = Written, oe_parse_ms = 7, oe_event_id = ''id-1''\<rparr>"

definition onboard_trial_fs :: fs where
  "onboard_trial_fs = [''s'' \<mapsto> concat (map (\<lambda>l. l @ [newline]) sample_lines)]"

theorem onboarding_exports_definition_witness:
  "\<exists>shown fs'. run_onboard json_libs onboard_trial_env onboard_trial_args onboard_trial_fs = (Some (Completed shown), fs') \<and>
     pd_vendor (os_definition shown) = ''Acme'' \<and> fs' ''o/acme.json'' = Some ''{}''"
proof -
  have "case fst (run_onboard json_libs onboard_trial_env onboard_trial_args onboard_trial_fs) of
      Some (Completed shown) \<Rightarrow> True | _ \<Rightarrow> False"
    by code_simp
  then obtain shown fs' where r:
    "run_onboard json_libs onboard_trial_env onboard_trial_args onboard_trial_fs = (Some (Completed shown), fs')"
    by (cases "run_onboard json_libs onboard_trial_env onboard_trial_args onboard_trial_fs")
      (auto split: option.splits command_end.splits)
  have "export_path json_libs onboard_trial_args ''.json'' = ''o/acme.json''"
    "export_path json_libs onboard_trial_args ''.yaml'' = ''o/acme.yaml''" by code_simp+
  with onboarding_exports_definition [OF r] r show ?thesis
    by (auto simp: to_json_def json_libs_def onboard_trial_args_def ok_iff)
qed

theorem audit_healthy_iff_witness:
  "\<exists>rows. run_audit test_parser_libs (\<lambda>file i. Parser_Properties.test_env)
     (\<lambda>p. Some ''devname=fw srcip=10.0.0.1 dstip=10.0.0.2'') ''d'' = Some (Completed (rows, True))"
proof -
  have "case parse test_parser_libs Parser_Properties.test_env (trim ''devname=fw srcip=10.0.0.1 dstip=10.0.0.2'') of
      Some (Inr a) \<Rightarrow> \<not> missing_ip a | _ \<Rightarrow> False" by code_simp
  moreover have "utf8_valid ''devname=fw srcip=10.0.0.1 dstip=10.0.0.2''"
    "str_lines ''devname=fw srcip=10.0.0.1 dstip=10.0.0.2'' = [''devname=fw srcip=10.0.0.1 dstip=10.0.0.2'']"
    by code_simp+
  ultimately have "good_file test_parser_libs (\<lambda>i. Parser_Properties.test_env) (Some ''devname=fw srcip=10.0.0.1 dstip=10.0.0.2'')"
    by (auto simp: good_file_def good_line_def split: option.splits sum.splits)
  then show ?thesis unfolding audit_healthy_iff by simp
qed

subsection \<open>Inspect\<close>

lemma inspect_record_none:
  "inspect_record P rec = None \<longleftrightarrow> 95 < length (sr_raw_log rec) \<and> \<not> is_char_boundary (sr_raw_log rec) 95"
  by (simp add: inspect_record_def inspect_preview_def slice_to_def)

lemma map_opt_none: "map_opt f xs = None \<longleftrightarrow> (\<exists>x \<in> set xs. f x = None)"
  by (induction xs) (auto split: option.split)

text \<open>
  \<open>inspect\<close> on a readable block shows the records asked for, each with what the block stores of it, unless the text
  of one of them is longer than 95 bytes with a character across byte 95: then it panics.
\<close>
theorem inspect_panics_iff:
  assumes "fs file \<noteq> None" "read_parquet_file (il_store L) file fs = Some (Ok records)"
  shows "(run_inspect L P file count fs = None \<longleftrightarrow>
      (\<exists>rec \<in> set (take count records). 95 < length (sr_raw_log rec) \<and> \<not> is_char_boundary (sr_raw_log rec) 95)) \<and>
    (\<forall>n shown. run_inspect L P file count fs = Some (Completed (n, shown)) \<longrightarrow> n = length records \<and>
       map is_event_id shown = map sr_event_id (take count records) \<and>
       map is_raw_hash shown = map sr_raw_hash (take count records))"
proof -
  have shown: "map is_event_id shown = map sr_event_id rs \<and> map is_raw_hash shown = map sr_raw_hash rs"
    if "map_opt (inspect_record P) rs = Some shown" for rs shown
    using that by (induction rs arbitrary: shown)
      (auto simp: inspect_record_def Option.bind_eq_Some_conv split: option.splits)
  show ?thesis using assms shown by (auto simp: run_inspect_def map_opt_none inspect_record_none)
qed

end
