(* ===== verification/Ingest.thy ===== *)
theory Ingest
  imports Cli Drain_Correct Step_System
begin

text \<open>
  The ingestion engine of \<open>run_ingest\<close> in \<open>ulpf-cli/src/main.rs\<close>. The UDP task and one task per TCP
  connection count each non-blank line and send it to a bounded channel; the main loop takes the lines one by one,
  normalises, mines and batches them, and counts what it sees. Task switches are steps of a relation: a sender may be
  suspended between counting a line and the channel taking it. The main loop ends the program when a push fails or a
  call panics. Clock readings, ids and the outcomes of writes are the environment of a line; serde is a parameter.
\<close>

record ingest_args =
  ia_udp :: string
  ia_tcp :: string
  ia_proto :: "string option"
  ia_bind :: "string option"
  ia_parquet_dir :: string
  ia_ledger :: string
  ia_batch_size :: nat
  ia_batch_timeout :: u64
  ia_reuse_port :: bool

definition default_ingest_args :: ingest_args where
  "default_ingest_args =
     \<lparr>ia_udp = ''0.0.0.0:5140'', ia_tcp = ''0.0.0.0:5140'', ia_proto = None, ia_bind = None,
      ia_parquet_dir = ''data/parquet'', ia_ledger = ''data/ledger.jsonl'', ia_batch_size = 1000,
      ia_batch_timeout = 2000, ia_reuse_port = True\<rparr>"

definition udp_bind_str :: "ingest_args \<Rightarrow> string" where
  "udp_bind_str args = unwrap_or (ia_udp args) (ia_bind args)"

definition tcp_bind_str :: "ingest_args \<Rightarrow> string" where
  "tcp_bind_str args = unwrap_or (ia_tcp args) (ia_bind args)"

definition enable_udp :: "ingest_args \<Rightarrow> bool" where
  "enable_udp args \<longleftrightarrow> map_option to_ascii_lowercase (ia_proto args) \<noteq> Some ''tcp''"

definition enable_tcp :: "ingest_args \<Rightarrow> bool" where
  "enable_tcp args \<longleftrightarrow> map_option to_ascii_lowercase (ia_proto args) \<noteq> Some ''udp''"

definition ingest_batcher_config :: "ingest_args \<Rightarrow> batcher_config" where
  "ingest_batcher_config args =
     \<lparr>bc_max_batch_size = ia_batch_size args, bc_max_batch_duration_ms = ia_batch_timeout args,
      bc_storage_dir = ia_parquet_dir args, bc_ledger_path = ia_ledger args, bc_compression = Snappy\<rparr>"

subsection \<open>State\<close>

text \<open>
  A sender is the UDP task or the task of a TCP connection: the lines it still has to send, and the line it has
  counted and is sending.
\<close>

record sender =
  sd_lines :: "string list"
  sd_sending :: "string option"

definition idle_sender :: sender where
  "idle_sender = \<lparr>sd_lines = [], sd_sending = None\<rparr>"

datatype engine_status = Running | Stopped batch_error | Panicked

text \<open>The first sender is the UDP task.\<close>

record ingest_engine =
  ie_senders :: "sender list"
  ie_queue :: "string list"
  ie_batcher :: batcher
  ie_fs :: fs
  ie_miner :: drain_miner
  ie_total_ingested :: u64
  ie_parsed_ok :: u64
  ie_fallback_unparsed :: u64
  ie_missing_ips :: u64
  ie_total_blocks :: u64
  ie_total_anomalies :: u64
  ie_warnings :: "string list"
  ie_status :: engine_status

record ingest_libs =
  gl_parser :: parser_libs
  gl_masker :: masker_libs
  gl_integrity :: integrity_libs
  gl_event_ser :: "network_activity \<Rightarrow> string option"

record line_env =
  ne_parse :: parse_env
  ne_drain :: drain_env
  ne_push :: push_env

definition channel_capacity :: nat where
  "channel_capacity = 50000"

definition ingest_start :: "ingest_libs \<Rightarrow> ingest_args \<Rightarrow> fs \<Rightarrow> (ingest_engine, batch_error) result" where
  "ingest_start X args fs =
     res_bind (batcher_new (gl_integrity X) (ingest_batcher_config args) fs)
       (\<lambda>b. Ok \<lparr>ie_senders = [idle_sender], ie_queue = [], ie_batcher = b, ie_fs = fs,
          ie_miner = drain_new default_drain_config, ie_total_ingested = 0, ie_parsed_ok = 0,
          ie_fallback_unparsed = 0, ie_missing_ips = 0, ie_total_blocks = 0, ie_total_anomalies = 0,
          ie_warnings = [], ie_status = Running\<rparr>)"

subsection \<open>Receiving\<close>

definition datagram_lines :: "string \<Rightarrow> string list" where
  "datagram_lines datagram =
     (let raw_str = take 65535 datagram in if utf8_valid raw_str then nonblank_lines (str_lines raw_str) else [])"

text \<open>The reader of a connection stops at the first line that is not UTF-8.\<close>

definition stream_lines :: "string \<Rightarrow> string list" where
  "stream_lines stream = readable_lines stream"

definition udp_receive :: "string \<Rightarrow> ingest_engine \<Rightarrow> ingest_engine option" where
  "udp_receive datagram st =
     (case ie_senders st of
        [] \<Rightarrow> None
      | udp # conns \<Rightarrow>
          if udp = idle_sender
          then Some (st\<lparr>ie_senders := udp\<lparr>sd_lines := datagram_lines datagram\<rparr> # conns\<rparr>) else None)"

definition tcp_accept :: "string \<Rightarrow> ingest_engine \<Rightarrow> ingest_engine" where
  "tcp_accept stream st =
     st\<lparr>ie_senders := ie_senders st @ [\<lparr>sd_lines = stream_lines stream, sd_sending = None\<rparr>]\<rparr>"

definition count_line :: "nat \<Rightarrow> ingest_engine \<Rightarrow> ingest_engine option" where
  "count_line i st =
     (case nth_opt (ie_senders st) i of
        None \<Rightarrow> None
      | Some s \<Rightarrow>
          (case (sd_sending s, sd_lines s) of
             (None, l # ls) \<Rightarrow>
               Some (st\<lparr>ie_senders := (ie_senders st)[i := \<lparr>sd_lines = ls, sd_sending = Some l\<rparr>],
                        ie_total_ingested := ie_total_ingested st + 1\<rparr>)
           | _ \<Rightarrow> None))"

definition send_line :: "nat \<Rightarrow> ingest_engine \<Rightarrow> (string \<times> ingest_engine) option" where
  "send_line i st =
     (case nth_opt (ie_senders st) i of
        None \<Rightarrow> None
      | Some s \<Rightarrow>
          (case sd_sending s of
             Some l \<Rightarrow>
               if length (ie_queue st) < channel_capacity
               then Some (l, st\<lparr>ie_senders := (ie_senders st)[i := s\<lparr>sd_sending := None\<rparr>],
                                ie_queue := ie_queue st @ [l]\<rparr>)
               else None
           | None \<Rightarrow> None))"

subsection \<open>The main loop\<close>

definition count_event :: "network_activity \<Rightarrow> ingest_engine \<Rightarrow> ingest_engine" where
  "count_event event st =
     (let st1 = (if pr_vendor_name (md_product (na_metadata event)) = ''Unknown''
                 then st\<lparr>ie_fallback_unparsed := ie_fallback_unparsed st + 1\<rparr>
                 else st\<lparr>ie_parsed_ok := ie_parsed_ok st + 1\<rparr>)
      in if missing_ip event then st1\<lparr>ie_missing_ips := ie_missing_ips st1 + 1\<rparr> else st1)"

definition count_alert :: "anomaly_alert option \<Rightarrow> ingest_engine \<Rightarrow> ingest_engine" where
  "count_alert anomaly st =
     (case anomaly of
        None \<Rightarrow> st
      | Some alert \<Rightarrow>
          let st1 = st\<lparr>ie_total_anomalies := ie_total_anomalies st + 1\<rparr> in
          if aa_severity alert = High \<or> aa_severity alert = Critical
          then st1\<lparr>ie_warnings := ie_warnings st1 @ [aa_message alert]\<rparr> else st1)"

definition incoming_event :: "ingest_libs \<Rightarrow> network_activity \<Rightarrow> string \<Rightarrow> incoming_log" where
  "incoming_event X event raw_log =
     with_ocsf
       (with_event_id
         (with_timestamp (new_incoming_log (pr_vendor_name (md_product (na_metadata event))) raw_log) (na_time event))
         (md_event_id (na_metadata event)))
       (unwrap_or ''{}'' (gl_event_ser X event))"

definition batch_line :: "ingest_libs \<Rightarrow> push_env \<Rightarrow> incoming_log \<Rightarrow> ingest_engine \<Rightarrow> ingest_engine" where
  "batch_line X E incoming st =
     (case push (gl_integrity X) E incoming (ie_batcher st, ie_fs st) of
        None \<Rightarrow> st\<lparr>ie_status := Panicked\<rparr>
      | Some (r, b, fs) \<Rightarrow>
          let st1 = st\<lparr>ie_batcher := b, ie_fs := fs\<rparr> in
          (case r of
             Inl e \<Rightarrow> st1\<lparr>ie_status := Stopped e\<rparr>
           | Inr None \<Rightarrow> st1
           | Inr (Some flush_res) \<Rightarrow> st1\<lparr>ie_total_blocks := ie_total_blocks st1 + 1\<rparr>))"

definition ingest_line :: "ingest_libs \<Rightarrow> line_env \<Rightarrow> string \<Rightarrow> ingest_engine \<Rightarrow> ingest_engine" where
  "ingest_line X E raw_log st =
     (case parse_lossless (gl_parser X) (ne_parse E) raw_log of
        None \<Rightarrow> st\<lparr>ie_status := Panicked\<rparr>
      | Some event \<Rightarrow>
          let st1 = count_event event st in
          (case add_log (gl_masker X) (ne_drain E) raw_log (ie_miner st1) of
             None \<Rightarrow> st1\<lparr>ie_status := Panicked\<rparr>
           | Some (res, miner) \<Rightarrow>
               batch_line X (ne_push E) (incoming_event X event raw_log)
                 (count_alert (cr_anomaly res) (st1\<lparr>ie_miner := miner\<rparr>))))"

definition take_line :: "ingest_libs \<Rightarrow> line_env \<Rightarrow> ingest_engine \<Rightarrow> (string \<times> ingest_engine) option" where
  "take_line X E st =
     (case ie_queue st of
        [] \<Rightarrow> None
      | raw_log # rest \<Rightarrow> Some (raw_log, ingest_line X E raw_log (st\<lparr>ie_queue := rest\<rparr>)))"

subsection \<open>Steps\<close>

datatype ingest_label =
    Datagram string
  | Accepted string
  | Counted nat
  | Sent nat string
  | Ingested line_env string

inductive ingest_step :: "ingest_libs \<Rightarrow> ingest_args \<Rightarrow> ingest_engine \<Rightarrow> ingest_label \<Rightarrow> ingest_engine \<Rightarrow> bool"
  for X :: ingest_libs and args :: ingest_args where
  step_datagram: "ie_status st = Running \<Longrightarrow> enable_udp args \<Longrightarrow> udp_receive d st = Some st' \<Longrightarrow>
    ingest_step X args st (Datagram d) st'"
| step_accept: "ie_status st = Running \<Longrightarrow> enable_tcp args \<Longrightarrow>
    ingest_step X args st (Accepted s) (tcp_accept s st)"
| step_count: "ie_status st = Running \<Longrightarrow> count_line i st = Some st' \<Longrightarrow> ingest_step X args st (Counted i) st'"
| step_send: "ie_status st = Running \<Longrightarrow> send_line i st = Some (l, st') \<Longrightarrow> ingest_step X args st (Sent i l) st'"
| step_ingest: "ie_status st = Running \<Longrightarrow> take_line X E st = Some (l, st') \<Longrightarrow>
    ingest_step X args st (Ingested E l) st'"

inductive_cases ingest_stepE: "ingest_step X args st l st'"

definition ingest_init :: "ingest_libs \<Rightarrow> ingest_args \<Rightarrow> fs \<Rightarrow> ingest_engine \<Rightarrow> bool" where
  "ingest_init X args fs st \<longleftrightarrow> ingest_start X args fs = Ok st"

abbreviation ingest_reach ::
  "ingest_libs \<Rightarrow> ingest_args \<Rightarrow> fs \<Rightarrow> ingest_label list \<Rightarrow> ingest_engine \<Rightarrow> bool" where
  "ingest_reach X args fs \<equiv> reach (ingest_init X args fs) (ingest_step X args)"

end
