(* ===== verification/Socket.thy ===== *)
theory Socket
  imports Universal_Parser Log_Sink
begin

text \<open>
  The syslog receivers of \<open>ulpf-core/src/ingest/socket.rs\<close>: the UDP receive loop with its select between a
  datagram and a timer, the TCP connection reader, and the parsing stage. A receiver's state is its current batch, the
  batches the channel accepted and the instant of the last flush; \<open>sends\<close> tells for each send whether the
  channel was still open (the k-th send is the one after k accepted batches), and a step that returns
  \<open>None\<close> ended the task. Sockets and the channel themselves are operating system and tokio. Instants and durations
  are natural numbers of milliseconds.
\<close>

record ingest_config =
  ic_bind_addr :: string
  ic_reuse_port :: bool
  ic_batch_size :: nat
  ic_batch_timeout :: nat
  ic_buffer_capacity :: nat

definition default_ingest_config :: ingest_config where
  "default_ingest_config =
     \<lparr>ic_bind_addr = ''0.0.0.0:514'', ic_reuse_port = True, ic_batch_size = 1000, ic_batch_timeout = 50, ic_buffer_capacity = 65536\<rparr>"

record receiver =
  rc_batch :: "string list"
  rc_sent :: "string list list"
  rc_last_flush :: nat

definition receiver_new :: "nat \<Rightarrow> receiver" where
  "receiver_new now = \<lparr>rc_batch = [], rc_sent = [], rc_last_flush = now\<rparr>"

definition send_batch :: "(nat \<Rightarrow> bool) \<Rightarrow> nat \<Rightarrow> receiver \<Rightarrow> receiver option" where
  "send_batch sends now s =
     (if sends (length (rc_sent s))
      then Some \<lparr>rc_batch = [], rc_sent = rc_sent s @ [rc_batch s], rc_last_flush = now\<rparr>
      else None)"

subsection \<open>The UDP loop\<close>

definition udp_push_line ::
  "ingest_config \<Rightarrow> (nat \<Rightarrow> bool) \<Rightarrow> nat \<Rightarrow> string \<Rightarrow> receiver \<Rightarrow> receiver option" where
  "udp_push_line cfg sends now line s =
     (let trimmed = trim line in
      if trimmed \<noteq> [] then
        let s1 = s\<lparr>rc_batch := rc_batch s @ [trimmed]\<rparr> in
        if ic_batch_size cfg \<le> length (rc_batch s1) then send_batch sends now s1 else Some s1
      else Some s)"

fun udp_push_lines ::
  "ingest_config \<Rightarrow> (nat \<Rightarrow> bool) \<Rightarrow> nat \<Rightarrow> string list \<Rightarrow> receiver \<Rightarrow> receiver option" where
  "udp_push_lines cfg sends now [] s = Some s"
| "udp_push_lines cfg sends now (l # ls) s =
     Option.bind (udp_push_line cfg sends now l s) (udp_push_lines cfg sends now ls)"

definition udp_payload :: "ingest_config \<Rightarrow> string \<Rightarrow> string" where
  "udp_payload cfg datagram = take (ic_buffer_capacity cfg) datagram"

definition udp_recv ::
  "ingest_config \<Rightarrow> (nat \<Rightarrow> bool) \<Rightarrow> nat \<Rightarrow> string \<Rightarrow> receiver \<Rightarrow> receiver option" where
  "udp_recv cfg sends now datagram s =
     (let payload = udp_payload cfg datagram in
      if utf8_valid payload then udp_push_lines cfg sends now (str_lines payload) s else Some s)"

definition udp_timer :: "ingest_config \<Rightarrow> (nat \<Rightarrow> bool) \<Rightarrow> nat \<Rightarrow> receiver \<Rightarrow> receiver option" where
  "udp_timer cfg sends now s =
     (if rc_batch s \<noteq> [] \<and> ic_batch_timeout cfg \<le> now - rc_last_flush s
      then send_batch sends now s
      else Some s)"

text \<open>
  The loop over the datagrams that arrive, each with its instant: every iteration starts a new timer, which fires
  when no datagram came before it ran out. The steps themselves take no time here, and a tie goes to the timer. After
  the last datagram the timer runs out once more.
\<close>

function udp_loop ::
  "ingest_config \<Rightarrow> (nat \<Rightarrow> bool) \<Rightarrow> nat \<Rightarrow> (nat \<times> string) list \<Rightarrow> receiver \<Rightarrow> receiver option" where
  "udp_loop cfg sends now [] s = udp_timer cfg sends (now + ic_batch_timeout cfg) s"
| "udp_loop cfg sends now ((arr, datagram) # arrivals) s =
     (if now < now + ic_batch_timeout cfg \<and> now + ic_batch_timeout cfg \<le> arr
      then Option.bind (udp_timer cfg sends (now + ic_batch_timeout cfg) s)
             (udp_loop cfg sends (now + ic_batch_timeout cfg) ((arr, datagram) # arrivals))
      else Option.bind (udp_recv cfg sends (max now arr) datagram s)
             (udp_loop cfg sends (max now arr) arrivals))"
  by pat_completeness auto
termination
  by (relation "(\<lambda>(cfg, sends, now, arrivals, s). length arrivals) <*mlex*>
        measure (\<lambda>(cfg, sends, now, arrivals, s). (case arrivals of [] \<Rightarrow> 0 | a # as \<Rightarrow> fst a) - now)")
    (auto intro: wf_mlex mlex_leq mlex_less)

declare udp_loop.simps(2) [simp del]

text \<open>The lines a datagram carries.\<close>

definition udp_lines :: "ingest_config \<Rightarrow> string \<Rightarrow> string list" where
  "udp_lines cfg datagram =
     (let payload = udp_payload cfg datagram in
      if utf8_valid payload then filter (\<lambda>l. l \<noteq> []) (map trim (str_lines payload)) else [])"

lemma send_batch_conserves:
  "send_batch sends now s = Some s' \<Longrightarrow>
     concat (rc_sent s') @ rc_batch s' = concat (rc_sent s) @ rc_batch s \<and> rc_batch s' = []"
  by (auto simp: send_batch_def split: if_splits)

lemma udp_push_line_conserves:
  "udp_push_line cfg sends now l s = Some s' \<Longrightarrow>
     concat (rc_sent s') @ rc_batch s' =
       concat (rc_sent s) @ rc_batch s @ filter (\<lambda>l. l \<noteq> []) [trim l]"
  using send_batch_conserves [of sends now "s\<lparr>rc_batch := rc_batch s @ [trim l]\<rparr>" s']
  by (auto simp: udp_push_line_def Let_def split: if_splits)

lemma udp_push_lines_conserves:
  "udp_push_lines cfg sends now ls s = Some s' \<Longrightarrow>
     concat (rc_sent s') @ rc_batch s' =
       concat (rc_sent s) @ rc_batch s @ filter (\<lambda>l. l \<noteq> []) (map trim ls)"
proof (induction ls arbitrary: s)
  case (Cons l ls)
  then obtain s1 where "udp_push_line cfg sends now l s = Some s1" "udp_push_lines cfg sends now ls s1 = Some s'"
    by (auto simp: Option.bind_eq_Some_conv)
  with Cons.IH udp_push_line_conserves [OF this(1)] show ?case by auto
qed simp

lemma udp_recv_conserves:
  "udp_recv cfg sends now d s = Some s' \<Longrightarrow>
     concat (rc_sent s') @ rc_batch s' = concat (rc_sent s) @ rc_batch s @ udp_lines cfg d"
  using udp_push_lines_conserves
  by (auto simp: udp_recv_def udp_lines_def Let_def split: if_splits)

lemma udp_timer_conserves:
  "udp_timer cfg sends now s = Some s' \<Longrightarrow>
     concat (rc_sent s') @ rc_batch s' = concat (rc_sent s) @ rc_batch s"
  using send_batch_conserves [of sends now s s'] by (auto simp: udp_timer_def split: if_splits)

text \<open>An event of the select: the timer ran out, or a datagram was received.\<close>

definition udp_event ::
  "ingest_config \<Rightarrow> (nat \<Rightarrow> bool) \<Rightarrow> nat \<Rightarrow> string option \<Rightarrow> receiver \<Rightarrow> receiver option" where
  "udp_event cfg sends now ev s =
     (case ev of None \<Rightarrow> udp_timer cfg sends now s | Some d \<Rightarrow> udp_recv cfg sends now d s)"

interpretation udp: log_sink "\<lambda>n s. True" "udp_event cfg sends" "\<lambda>s. concat (rc_sent s)" rc_batch
  "\<lambda>ev. case ev of None \<Rightarrow> [] | Some d \<Rightarrow> udp_lines cfg d" for cfg sends
  by unfold_locales
    (auto simp: udp_event_def udp_timer_conserves udp_recv_conserves split: option.splits)

subsection \<open>The TCP connection reader\<close>

definition tcp_line ::
  "ingest_config \<Rightarrow> (nat \<Rightarrow> bool) \<Rightarrow> nat \<Rightarrow> string \<Rightarrow> receiver \<Rightarrow> receiver option" where
  "tcp_line cfg sends now line s =
     (let trimmed = trim line in
      if trimmed \<noteq> [] then
        let s1 = s\<lparr>rc_batch := rc_batch s @ [trimmed]\<rparr> in
        if ic_batch_size cfg \<le> length (rc_batch s1) \<or> ic_batch_timeout cfg \<le> now - rc_last_flush s
        then send_batch sends now s1 else Some s1
      else Some s)"

text \<open>
  The reader ends at the end of the stream, at a line that is not UTF-8, or when the channel closed; what is left in
  the batch is sent, unless the channel was closed (the batch that failed is gone then).
\<close>

fun tcp_connection ::
  "ingest_config \<Rightarrow> (nat \<Rightarrow> bool) \<Rightarrow> (nat \<times> string) list \<Rightarrow> receiver \<Rightarrow> string list list" where
  "tcp_connection cfg sends [] s =
     (if rc_batch s \<noteq> [] then
        (case send_batch sends (rc_last_flush s) s of Some s' \<Rightarrow> rc_sent s' | None \<Rightarrow> rc_sent s)
      else rc_sent s)"
| "tcp_connection cfg sends ((now, line) # arrivals) s =
     (if utf8_valid line then
        (case tcp_line cfg sends now line s of
           Some s' \<Rightarrow> tcp_connection cfg sends arrivals s'
         | None \<Rightarrow> rc_sent s)
      else tcp_connection cfg sends [] s)"

definition tcp_lines :: "string \<Rightarrow> string list" where
  "tcp_lines line = filter (\<lambda>l. l \<noteq> []) [trim line]"

lemma tcp_line_conserves:
  "tcp_line cfg sends now l s = Some s' \<Longrightarrow>
     concat (rc_sent s') @ rc_batch s' = concat (rc_sent s) @ rc_batch s @ tcp_lines l"
  using send_batch_conserves [of sends now "s\<lparr>rc_batch := rc_batch s @ [trim l]\<rparr>" s']
  by (auto simp: tcp_line_def tcp_lines_def Let_def split: if_splits)

interpretation tcp: log_sink "\<lambda>n s. True" "tcp_line cfg sends" "\<lambda>s. concat (rc_sent s)" rc_batch tcp_lines
  for cfg sends
  by unfold_locales (auto simp: tcp_line_conserves)

subsection \<open>The parsing stage\<close>

fun run_parsed ::
  "parser_libs \<Rightarrow> (nat \<Rightarrow> bool) \<Rightarrow> (parse_env \<times> string) list list \<Rightarrow> network_activity list list \<Rightarrow>
     network_activity list list option" where
  "run_parsed L sends [] out = Some out"
| "run_parsed L sends (raw_batch # batches) out =
     (case map_opt (\<lambda>(E, raw_line). parse_lossless L E raw_line) raw_batch of
        None \<Rightarrow> None
      | Some parsed_batch \<Rightarrow>
          if sends (length out) then run_parsed L sends batches (out @ [parsed_batch]) else Some out)"

lemma run_parsed_open:
  "\<forall>k. sends k \<Longrightarrow> \<forall>b \<in> set batches. \<forall>(E, raw) \<in> set b. parse_lossless L E raw \<noteq> None \<Longrightarrow>
     run_parsed L sends batches out =
       Some (out @ map (map (\<lambda>(E, raw). the (parse_lossless L E raw))) batches)"
proof (induction batches arbitrary: out)
  case (Cons b batches)
  have "map_opt (\<lambda>(E, raw). parse_lossless L E raw) (map id b) =
      Some (map (\<lambda>(E, raw). the (parse_lossless L E raw)) b)"
    using Cons.prems(2) by (intro map_opt_map) auto
  then show ?case using Cons by simp
qed simp

subsection \<open>Timing\<close>

definition receiver_ok :: "ingest_config \<Rightarrow> nat \<Rightarrow> receiver \<Rightarrow> bool" where
  "receiver_ok cfg now s \<longleftrightarrow> rc_last_flush s \<le> now \<and> length (rc_batch s) < max 1 (ic_batch_size cfg)"

lemma udp_push_line_ok:
  "receiver_ok cfg now s \<Longrightarrow> udp_push_line cfg sends now l s = Some s' \<Longrightarrow> receiver_ok cfg now s'"
  by (auto simp: receiver_ok_def udp_push_line_def send_batch_def Let_def split: if_splits)

lemma udp_push_lines_ok:
  "receiver_ok cfg now s \<Longrightarrow> udp_push_lines cfg sends now ls s = Some s' \<Longrightarrow> receiver_ok cfg now s'"
  by (induction ls arbitrary: s) (auto simp: Option.bind_eq_Some_conv dest: udp_push_line_ok)

lemma udp_recv_ok:
  "receiver_ok cfg now s \<Longrightarrow> udp_recv cfg sends now d s = Some s' \<Longrightarrow> receiver_ok cfg now s'"
  by (auto simp: udp_recv_def Let_def split: if_splits dest: udp_push_lines_ok)

lemma receiver_ok_later: "receiver_ok cfg now s \<Longrightarrow> now \<le> now' \<Longrightarrow> receiver_ok cfg now' s"
  by (simp add: receiver_ok_def)

text \<open>The timer's condition on the last flush always holds: it has run for the whole timeout since then.\<close>

lemma udp_timer_flushes:
  "receiver_ok cfg now s \<Longrightarrow> udp_timer cfg sends (now + ic_batch_timeout cfg) s = Some s' \<Longrightarrow>
     rc_batch s' = [] \<and> receiver_ok cfg (now + ic_batch_timeout cfg) s'"
  by (auto simp: udp_timer_def receiver_ok_def send_batch_def split: if_splits)

lemma sends_total: "\<forall>k. sends k \<Longrightarrow> send_batch sends now s \<noteq> None"
  by (simp add: send_batch_def)

lemma udp_push_lines_total: "\<forall>k. sends k \<Longrightarrow> udp_push_lines cfg sends now ls s \<noteq> None"
  by (induction ls arbitrary: s) (auto simp: udp_push_line_def send_batch_def Let_def)

lemma udp_steps_total:
  "\<forall>k. sends k \<Longrightarrow> udp_recv cfg sends now d s \<noteq> None" "\<forall>k. sends k \<Longrightarrow> udp_timer cfg sends now s \<noteq> None"
  using udp_push_lines_total by (simp_all add: udp_recv_def udp_timer_def send_batch_def Let_def)

lemma udp_loop_delivers:
  "\<forall>k. sends k \<Longrightarrow> receiver_ok cfg now s \<Longrightarrow>
     \<exists>s'. udp_loop cfg sends now arrivals s = Some s' \<and> rc_batch s' = [] \<and>
       concat (rc_sent s') = concat (rc_sent s) @ rc_batch s @ concat (map (udp_lines cfg \<circ> snd) arrivals)"
proof (induction cfg sends now arrivals s rule: udp_loop.induct)
  case (1 cfg sends now s)
  obtain s' where s': "udp_timer cfg sends (now + ic_batch_timeout cfg) s = Some s'"
    using udp_steps_total(2) [OF 1(1)] by blast
  show ?case using udp_timer_flushes [OF 1(2) s'] udp_timer_conserves [OF s'] s' by simp
next
  case (2 cfg sends now arr d arrivals s)
  let ?fire = "now < now + ic_batch_timeout cfg \<and> now + ic_batch_timeout cfg \<le> arr"
  show ?case
  proof (cases ?fire)
    case True
    obtain s1 where s1: "udp_timer cfg sends (now + ic_batch_timeout cfg) s = Some s1"
      using udp_steps_total(2) [OF 2(3)] by blast
    from 2(1) [OF True s1 2(3)] udp_timer_flushes [OF 2(4) s1] udp_timer_conserves [OF s1] s1 True
    show ?thesis by (auto simp: udp_loop.simps(2))
  next
    case False
    obtain s1 where s1: "udp_recv cfg sends (max now arr) d s = Some s1"
      using udp_steps_total(1) [OF 2(3)] by blast
    have "receiver_ok cfg (max now arr) s1"
      using udp_recv_ok [OF receiver_ok_later [OF 2(4)] s1] by simp
    from 2(2) [OF False s1 2(3) this] udp_recv_conserves [OF s1] s1 False
    show ?thesis by (auto simp: udp_loop.simps(2))
  qed
qed

end
