(* ===== verification/Socket_Setup.thy ===== *)
theory Socket_Setup
  imports Socket "HOL-Library.Multiset"
begin

text \<open>
  What \<open>ulpf-core/src/ingest/socket.rs\<close> does around the receive loops: opening the UDP socket and the TCP listener,
  the accept loop, and the pool of UDP workers that share a port. The operating system is a parameter that gives the
  outcome of each call, which may depend on the options set so far; a socket is the options it has, and remembers which
  of them were set when it was bound. Tasks that feed one channel interleave.
\<close>

subsection \<open>Opening sockets\<close>

datatype socket_addr =
    V4 u32 u16
  | V6 "128 word" u16 u32 u32

datatype domain = Domain_Ipv4 | Domain_Ipv6

datatype socket_type = Type_Dgram | Type_Stream

record socket =
  so_domain :: domain
  so_type :: socket_type
  so_reuse_address :: bool
  so_reuse_port :: bool
  so_nonblocking :: bool
  so_bound :: "(socket_addr \<times> bool) option"
  so_backlog :: "32 word option"

text \<open>The calls, in the vocabulary of socket2; \<open>Register\<close> hands the descriptor to the runtime.\<close>

datatype socket_call =
    New_Socket
  | Set_Reuse_Address
  | Set_Reuse_Port
  | Set_Nonblocking
  | Bind_To socket_addr
  | Listen "32 word"
  | Register

record 'e socket_os =
  sy_outcome :: "socket \<Rightarrow> socket_call \<Rightarrow> 'e option"
  sy_has_reuse_port :: bool

definition sys_call ::
  "'e socket_os \<Rightarrow> socket_call \<Rightarrow> (socket \<Rightarrow> socket) \<Rightarrow> socket \<Rightarrow> (socket, 'e) result" where
  "sys_call S call effect s = (case sy_outcome S s call of Some e \<Rightarrow> Err e | None \<Rightarrow> Ok (effect s))"

fun domain_of :: "socket_addr \<Rightarrow> domain" where
  "domain_of (V4 ip port) = Domain_Ipv4"
| "domain_of (V6 ip port flowinfo scope_id) = Domain_Ipv6"

definition fresh_socket :: "domain \<Rightarrow> socket_type \<Rightarrow> socket" where
  "fresh_socket d t = \<lparr>so_domain = d, so_type = t, so_reuse_address = False, so_reuse_port = False,
     so_nonblocking = False, so_bound = None, so_backlog = None\<rparr>"

text \<open>The steps both functions share, up to the bound socket.\<close>

definition open_socket ::
  "'e socket_os \<Rightarrow> socket_type \<Rightarrow> socket_addr \<Rightarrow> bool \<Rightarrow> (socket, 'e) result" where
  "open_socket S t addr reuse_port =
     res_bind (sys_call S New_Socket id (fresh_socket (domain_of addr) t)) (\<lambda>s.
     res_bind (sys_call S Set_Reuse_Address (\<lambda>s. s\<lparr>so_reuse_address := True\<rparr>) s) (\<lambda>s.
     res_bind (if sy_has_reuse_port S \<and> reuse_port
               then sys_call S Set_Reuse_Port (\<lambda>s. s\<lparr>so_reuse_port := True\<rparr>) s else Ok s) (\<lambda>s.
     res_bind (sys_call S Set_Nonblocking (\<lambda>s. s\<lparr>so_nonblocking := True\<rparr>) s) (\<lambda>s.
     sys_call S (Bind_To addr) (\<lambda>s. s\<lparr>so_bound := Some (addr, so_reuse_port s)\<rparr>) s))))"

definition create_udp_socket :: "'e socket_os \<Rightarrow> socket_addr \<Rightarrow> bool \<Rightarrow> (socket, 'e) result" where
  "create_udp_socket S addr reuse_port =
     res_bind (open_socket S Type_Dgram addr reuse_port) (sys_call S Register id)"

definition create_tcp_listener ::
  "'e socket_os \<Rightarrow> socket_addr \<Rightarrow> bool \<Rightarrow> 32 word \<Rightarrow> (socket, 'e) result" where
  "create_tcp_listener S addr reuse_port backlog =
     res_bind (open_socket S Type_Stream addr reuse_port) (\<lambda>s.
     res_bind (sys_call S (Listen backlog) (\<lambda>s. s\<lparr>so_backlog := Some backlog\<rparr>) s) (sys_call S Register id))"

subsection \<open>Tasks that feed one channel\<close>

inductive interleaves :: "'a list list \<Rightarrow> 'a list \<Rightarrow> bool" where
  interleaves_done: "\<forall>xs \<in> set xss. xs = [] \<Longrightarrow> interleaves xss []"
| interleaves_next: "i < length xss \<Longrightarrow> xss ! i = x # xs \<Longrightarrow> interleaves (xss[i := xs]) out \<Longrightarrow>
     interleaves xss (x # out)"

subsection \<open>The accept loop\<close>

text \<open>
  What \<open>accept\<close> returned: an error, which is logged, or a stream, with the outcomes of the sends of its task, the
  instant it was accepted and its lines as they arrive.
\<close>

datatype 'e accept_result =
    Accept_Failed 'e
  | Stream_Accepted "nat \<Rightarrow> bool" nat "(nat \<times> string) list"

fun tcp_accept_loop :: "ingest_config \<Rightarrow> 'e accept_result list \<Rightarrow> string list list list" where
  "tcp_accept_loop cfg [] = []"
| "tcp_accept_loop cfg (Accept_Failed e # accepts) = tcp_accept_loop cfg accepts"
| "tcp_accept_loop cfg (Stream_Accepted sends now lines # accepts) =
     tcp_connection cfg sends lines (receiver_new now) # tcp_accept_loop cfg accepts"

subsection \<open>The pool of UDP workers\<close>

text \<open>
  The loop of \<open>spawn_udp_worker_pool\<close>: each worker binds a socket of its own, and a bind that fails ends the function.
  The second component are the sockets of the tasks spawned; dropping a handle detaches its task, it does not stop it.
\<close>

fun spawn_workers ::
  "(nat \<Rightarrow> 'e socket_os) \<Rightarrow> socket_addr \<Rightarrow> bool \<Rightarrow> nat list \<Rightarrow> socket list \<Rightarrow> (socket list, 'e) result \<times> socket list" where
  "spawn_workers S addr reuse_port [] handles = (Ok handles, handles)"
| "spawn_workers S addr reuse_port (w # ws) handles =
     (case create_udp_socket (S w) addr reuse_port of
        Inl e \<Rightarrow> (Err e, handles)
      | Inr s \<Rightarrow> spawn_workers S addr reuse_port ws (handles @ [s]))"

definition spawn_udp_worker_pool ::
  "(nat \<Rightarrow> 'e socket_os) \<Rightarrow> socket_addr \<Rightarrow> bool \<Rightarrow> nat \<Rightarrow> (socket list, 'e) result \<times> socket list" where
  "spawn_udp_worker_pool S addr reuse_port num_workers =
     spawn_workers S addr reuse_port [0..<num_workers] []"

text \<open>
  One worker: the receive loop feeds the parsing stage over a channel that stays open while the stage runs; the
  environment of a parse is given by the positions of its batch and its line.
\<close>

definition with_envs :: "(nat \<Rightarrow> nat \<Rightarrow> parse_env) \<Rightarrow> string list list \<Rightarrow> (parse_env \<times> string) list list" where
  "with_envs E batches = map (\<lambda>(i, b). map (\<lambda>(j, l). (E i j, l)) (enumerate 0 b)) (enumerate 0 batches)"

definition pool_worker ::
  "ingest_config \<Rightarrow> parser_libs \<Rightarrow> (nat \<Rightarrow> bool) \<Rightarrow> (nat \<Rightarrow> nat \<Rightarrow> parse_env) \<Rightarrow> nat \<Rightarrow> (nat \<times> string) list \<Rightarrow>
     network_activity list list option" where
  "pool_worker cfg L sends E now arrivals =
     Option.bind (udp_loop cfg (\<lambda>k. True) now arrivals (receiver_new now))
       (\<lambda>s. run_parsed L sends (with_envs E (rc_sent s)) [])"

end
