(* ===== verification/Ingest_Setup.thy ===== *)
theory Ingest_Setup
  imports Ingest Socket_Setup Rust_Float
begin

text \<open>
  \<open>run_ingest\<close> of \<open>ulpf-cli/src/main.rs\<close> around its tasks: what it does before the engine runs (directories,
  addresses, listeners, the batcher with its ledger), in the order of the code, and the task that shows the live counters
  every second. Creating a directory, reading an address and the operating system's sockets are arguments.
\<close>

subsection \<open>Paths\<close>

text \<open>
  \<open>Path::parent\<close> on a path as its components, the last first: empty components and single dots are passed over, except
  in front, where they are the root and the current directory.
\<close>

fun trim_comps :: "string list \<Rightarrow> string list" where
  "trim_comps (c # d # cs) = (if c = [] \<or> c = ''.'' then trim_comps (d # cs) else c # d # cs)"
| "trim_comps cs = cs"

definition path_parent :: "string \<Rightarrow> string option" where
  "path_parent p =
     (case trim_comps (rev (split_char (\<lambda>c. c = CHR ''/'') p)) of
        [] \<Rightarrow> None
      | [c] \<Rightarrow> if c = [] then None else Some []
      | c # cs \<Rightarrow> let dir = trim_comps cs in Some (if dir = [[]] then ''/'' else join ''/'' (rev dir)))"

subsection \<open>Before the engine runs\<close>

record 'e ingest_os =
  iu_create_dir :: "string \<Rightarrow> 'e option"
  iu_parse_addr :: "string \<Rightarrow> socket_addr option"
  iu_udp :: "'e socket_os"
  iu_tcp :: "'e socket_os"

datatype 'e setup_error =
    Setup_Io 'e
  | Invalid_Udp_Address
  | Invalid_Tcp_Address
  | Setup_Batch batch_error

record ingest_setup =
  su_udp :: "socket option"
  su_tcp :: "socket option"
  su_engine :: ingest_engine

definition create_dir_all :: "'e ingest_os \<Rightarrow> string \<Rightarrow> (unit, 'e setup_error) result" where
  "create_dir_all S dir = (case iu_create_dir S dir of None \<Rightarrow> Ok () | Some e \<Rightarrow> Err (Setup_Io e))"

definition io_result :: "('a, 'e) result \<Rightarrow> ('a, 'e setup_error) result" where
  "io_result r = (case r of Inl e \<Rightarrow> Err (Setup_Io e) | Inr x \<Rightarrow> Ok x)"

definition make_directories :: "'e ingest_os \<Rightarrow> ingest_args \<Rightarrow> (unit, 'e setup_error) result" where
  "make_directories S args =
     res_bind (create_dir_all S (ia_parquet_dir args)) (\<lambda>u.
     case path_parent (ia_ledger args) of None \<Rightarrow> Ok () | Some parent \<Rightarrow> create_dir_all S parent)"

definition open_udp :: "'e ingest_os \<Rightarrow> ingest_args \<Rightarrow> (socket option, 'e setup_error) result" where
  "open_udp S args =
     (if enable_udp args
      then res_bind (ok_or Invalid_Udp_Address (iu_parse_addr S (udp_bind_str args))) (\<lambda>addr.
           res_bind (io_result (create_udp_socket (iu_udp S) addr (ia_reuse_port args))) (\<lambda>s. Ok (Some s)))
      else Ok None)"

definition open_tcp :: "'e ingest_os \<Rightarrow> ingest_args \<Rightarrow> (socket option, 'e setup_error) result" where
  "open_tcp S args =
     (if enable_tcp args
      then res_bind (ok_or Invalid_Tcp_Address (iu_parse_addr S (tcp_bind_str args))) (\<lambda>addr.
           res_bind (io_result (create_tcp_listener (iu_tcp S) addr (ia_reuse_port args) 1024)) (\<lambda>s. Ok (Some s)))
      else Ok None)"

definition run_ingest_setup ::
  "ingest_libs \<Rightarrow> 'e ingest_os \<Rightarrow> ingest_args \<Rightarrow> fs \<Rightarrow> (ingest_setup, 'e setup_error) result" where
  "run_ingest_setup X S args fs =
     res_bind (make_directories S args) (\<lambda>u.
     res_bind (open_udp S args) (\<lambda>udp.
     res_bind (open_tcp S args) (\<lambda>tcp.
     case ingest_start X args fs of
       Inl e \<Rightarrow> Err (Setup_Batch e)
     | Inr engine \<Rightarrow> Ok \<lparr>su_udp = udp, su_tcp = tcp, su_engine = engine\<rparr>)))"

subsection \<open>The live report\<close>

record live_counters =
  lv_total :: u64
  lv_ok :: u64
  lv_fallback :: u64
  lv_missing :: u64
  lv_blocks :: u64
  lv_anomalies :: u64

text \<open>The six loads, one after the other: the engine may run on between two of them.\<close>

definition load_counters ::
  "ingest_engine \<Rightarrow> ingest_engine \<Rightarrow> ingest_engine \<Rightarrow> ingest_engine \<Rightarrow> ingest_engine \<Rightarrow> ingest_engine \<Rightarrow> live_counters" where
  "load_counters s1 s2 s3 s4 s5 s6 =
     \<lparr>lv_total = ie_total_ingested s1, lv_ok = ie_parsed_ok s2, lv_fallback = ie_fallback_unparsed s3,
      lv_missing = ie_missing_ips s4, lv_blocks = ie_total_blocks s5, lv_anomalies = ie_total_anomalies s6\<rparr>"

record live_line =
  ll_diff :: u64
  ll_eps :: rat
  ll_ok_pct :: rat
  ll_counters :: live_counters

record live_reporter =
  lr_last_count :: u64
  lr_shown :: "live_line list"

definition live_start :: live_reporter where
  "live_start = \<lparr>lr_last_count = 0, lr_shown = []\<rparr>"

definition live_line_of :: "rat \<Rightarrow> u64 \<Rightarrow> live_counters \<Rightarrow> live_line" where
  "live_line_of elapsed last_count c =
     (let diff = saturating_sub (lv_total c) last_count in
      \<lparr>ll_diff = diff,
       ll_eps = (if 0 < elapsed then of_nat (unat diff) / elapsed else 0),
       ll_ok_pct = (if 0 < lv_total c then of_nat (unat (lv_ok c)) / of_nat (unat (lv_total c)) * 100 else 100),
       ll_counters = c\<rparr>)"

definition live_tick :: "rat \<times> live_counters \<Rightarrow> live_reporter \<Rightarrow> live_reporter" where
  "live_tick = (\<lambda>(elapsed, c) r.
     \<lparr>lr_last_count = lv_total c, lr_shown = lr_shown r @ [live_line_of elapsed (lr_last_count r) c]\<rparr>)"

end
