(* ===== verification/Socket_Properties.thy ===== *)
theory Socket_Properties
  imports Socket Parser_Properties
begin

text \<open>
  Properties of the receivers: delivery in order, from the datagram to the normalised event, and the timer that steady
  traffic starves.
\<close>

text \<open>
  With an open channel the UDP receiver ends at rest: over any arrivals it returns no error, and one
  timeout after the last datagram its batch is empty and the batches it sent hold exactly the non-blank trimmed lines of
  the datagrams that are UTF-8, in order, without loss or duplication.
\<close>
theorem udp_delivers_all_lines:
  assumes "\<forall>k. sends k"
  shows "\<exists>s. udp_loop cfg sends start arrivals (receiver_new start) = Some s \<and> rc_batch s = [] \<and>
    concat (rc_sent s) = concat (map (udp_lines cfg \<circ> snd) arrivals)"
  using udp_loop_delivers [OF assms, of cfg start "receiver_new start" arrivals]
  by (simp add: receiver_ok_def receiver_new_def)

theorem udp_delivers_all_lines_witness:
  "\<exists>s. udp_loop default_ingest_config (\<lambda>k. True) 0 [(3, ''a''), (200, ''b'')] (receiver_new 0) = Some s \<and>
    rc_batch s = [] \<and>
    concat (rc_sent s) = concat (map (udp_lines default_ingest_config \<circ> snd) [(3 :: nat, ''a''), (200, ''b'')])"
  by (rule udp_delivers_all_lines) simp

subsection \<open>From lines to events\<close>

lemma run_parsed_ascii:
  assumes "\<forall>k. sends k" "\<forall>b \<in> set batches. \<forall>ev \<in> set b. ascii_str (snd ev)"
  shows "\<exists>out. run_parsed L sends batches [] = Some out \<and> list_all2 (list_all2 (\<lambda>ev a. traceable L (snd ev) a)) batches out"
proof -
  have ok: "parse_lossless L E raw = Some (the (parse_lossless L E raw)) \<and>
      traceable L raw (the (parse_lossless L E raw))"
    if "b \<in> set batches" "(E, raw) \<in> set b" for b E raw
  proof -
    have "ascii_str raw" using assms(2) that by fastforce
    then have "parse_with_format L E raw (classify (pl_ac L) raw) \<noteq> None" by (rule parse_with_format_ascii)
    then obtain a where "parse_lossless L E raw = Some a"
      by (auto simp: parse_lossless_def parse_is_with_format)
    then show ?thesis using parse_lossless_traceable by simp
  qed
  then have "run_parsed L sends batches [] =
      Some ([] @ map (map (\<lambda>(E, raw). the (parse_lossless L E raw))) batches)"
    by (intro run_parsed_open [OF assms(1)]) fastforce
  then show ?thesis using ok
    by (auto simp: list_all2_map2 list_all2_same split: prod.splits)
qed

text \<open>
  The parsing stage drops nothing: on ASCII lines and an open channel it forwards, for every batch of
  lines, a batch of the same length whose events are conforming and carry the raw line and its digest, in order.
\<close>
theorem run_parsed_conserves:
  assumes "\<forall>k. sends k" "\<forall>b \<in> set batches. \<forall>ev \<in> set b. ascii_str (snd ev)"
  shows "\<exists>out. run_parsed L sends batches [] = Some out \<and>
    map (map (\<lambda>a. md_raw_data (na_metadata a))) out = map (map snd) batches \<and>
    (\<forall>es \<in> set out. \<forall>a \<in> set es. event_ok a)"
proof -
  obtain out where out: "run_parsed L sends batches [] = Some out"
    "list_all2 (list_all2 (\<lambda>ev a. traceable L (snd ev) a)) batches out"
    using run_parsed_ascii [OF assms] by blast
  have inner: "map (\<lambda>a. md_raw_data (na_metadata a)) es = map snd b \<and> (\<forall>a \<in> set es. event_ok a)"
    if "list_all2 (\<lambda>ev a. traceable L (snd ev) a) b es" for b es
    using that by (induction b es rule: list_all2_induct) (auto simp: traceable_def)
  from out(2) have "map (map (\<lambda>a. md_raw_data (na_metadata a))) out = map (map snd) batches \<and>
    (\<forall>es \<in> set out. \<forall>a \<in> set es. event_ok a)"
    by (induction batches out rule: list_all2_induct) (use inner in auto)
  then show ?thesis using out(1) by blast
qed

theorem run_parsed_conserves_witness:
  "\<exists>out. run_parsed test_parser_libs (\<lambda>k. True) [[(test_env, ''%ASA-6-1: x''), (test_env, ''?'')]] [] = Some out \<and>
    map (map (\<lambda>a. md_raw_data (na_metadata a))) out =
      map (map snd) [[(test_env, ''%ASA-6-1: x''), (test_env, ''?'')]] \<and>
    (\<forall>es \<in> set out. \<forall>a \<in> set es. event_ok a)"
  by (rule run_parsed_conserves) (simp_all add: ascii_str_def)

subsection \<open>Steady traffic\<close>

definition steady :: "ingest_config \<Rightarrow> nat \<Rightarrow> (nat \<times> string) list \<Rightarrow> bool" where
  "steady cfg start arrivals \<longleftrightarrow>
     list_all2 (\<lambda>prev next. prev \<le> next \<and> next < prev + ic_batch_timeout cfg)
       (butlast (start # map fst arrivals)) (map fst arrivals)"

lemma steady_simps [simp]:
  "steady cfg start []"
  "steady cfg start ((arr, d) # arrivals) \<longleftrightarrow>
     start \<le> arr \<and> arr < start + ic_batch_timeout cfg \<and> steady cfg arr arrivals"
  by (auto simp: steady_def)

lemma udp_push_lines_small:
  "length (rc_batch s) + length (filter (\<lambda>l. l \<noteq> []) (map trim ls)) < ic_batch_size cfg \<Longrightarrow>
     udp_push_lines cfg sends now ls s =
       Some (s\<lparr>rc_batch := rc_batch s @ filter (\<lambda>l. l \<noteq> []) (map trim ls)\<rparr>)"
proof (induction ls arbitrary: s)
  case (Cons l ls)
  show ?case
  proof (cases "trim l = []")
    case True
    then show ?thesis using Cons by (simp add: udp_push_line_def)
  next
    case False
    then have "udp_push_line cfg sends now l s = Some (s\<lparr>rc_batch := rc_batch s @ [trim l]\<rparr>)"
      using Cons.prems by (simp add: udp_push_line_def Let_def)
    then show ?thesis using Cons False by simp
  qed
qed simp

lemma udp_recv_small:
  "length (rc_batch s) + length (udp_lines cfg d) < ic_batch_size cfg \<Longrightarrow>
     udp_recv cfg sends now d s = Some (s\<lparr>rc_batch := rc_batch s @ udp_lines cfg d\<rparr>)"
  using udp_push_lines_small [of s "str_lines (udp_payload cfg d)" cfg sends now]
  by (cases "utf8_valid (udp_payload cfg d)")
    (simp_all add: udp_recv_def udp_lines_def Let_def del: filter_map length_filter_map)

lemma udp_loop_steady:
  "steady cfg now arrivals \<Longrightarrow>
     length (rc_batch s) + length (concat (map (udp_lines cfg \<circ> snd) arrivals)) < ic_batch_size cfg \<Longrightarrow>
     udp_loop cfg sends now arrivals s =
       udp_timer cfg sends (last (now # map fst arrivals) + ic_batch_timeout cfg)
         (s\<lparr>rc_batch := rc_batch s @ concat (map (udp_lines cfg \<circ> snd) arrivals)\<rparr>)"
proof (induction arrivals arbitrary: now s)
  case (Cons ev arrivals)
  obtain arr d where ev: "ev = (arr, d)" by force
  let ?s = "s\<lparr>rc_batch := rc_batch s @ udp_lines cfg d\<rparr>"
  have "udp_recv cfg sends arr d s = Some ?s" using Cons.prems ev by (intro udp_recv_small) simp
  moreover have "max now arr = arr" using Cons.prems ev by simp
  ultimately have "udp_loop cfg sends now (ev # arrivals) s = udp_loop cfg sends arr arrivals ?s"
    using Cons.prems ev by (simp add: udp_loop.simps(2))
  then show ?case using Cons.IH [of arr ?s] Cons.prems ev by simp
qed simp

text \<open>
  Steady traffic starves the batch timeout: while datagrams keep arriving less than a timeout apart
  and their lines do not fill a batch, nothing is sent, however long that lasts; only the timer after the last of them
  flushes, so the oldest line may wait arbitrarily longer than the configured timeout.
\<close>
theorem udp_timeout_starved:
  assumes "steady cfg start arrivals"
    and "length (concat (map (udp_lines cfg \<circ> snd) arrivals)) < ic_batch_size cfg"
  shows "udp_loop cfg sends start arrivals (receiver_new start) =
    udp_timer cfg sends (last (start # map fst arrivals) + ic_batch_timeout cfg)
      \<lparr>rc_batch = concat (map (udp_lines cfg \<circ> snd) arrivals), rc_sent = [], rc_last_flush = start\<rparr>"
  using udp_loop_steady [OF assms(1), of "receiver_new start" sends] assms(2)
  by (simp add: receiver_new_def)

theorem udp_timeout_starved_witness:
  "udp_loop default_ingest_config (\<lambda>k. True) 0 (map (\<lambda>i. (40 * i, ''x'')) [1 :: nat, 2, 3, 4]) (receiver_new 0) =
    udp_timer default_ingest_config (\<lambda>k. True)
      (last (0 # map fst (map (\<lambda>i. (40 * i, ''x'')) [1 :: nat, 2, 3, 4])) + ic_batch_timeout default_ingest_config)
      \<lparr>rc_batch = concat (map (udp_lines default_ingest_config \<circ> snd) (map (\<lambda>i. (40 * i, ''x'')) [1 :: nat, 2, 3, 4])),
       rc_sent = [], rc_last_flush = 0\<rparr>"
proof (rule udp_timeout_starved)
  have "udp_payload default_ingest_config ''x'' = ''x''" by (simp add: udp_payload_def default_ingest_config_def)
  moreover have "utf8_valid ''x''" "filter (\<lambda>l. l \<noteq> []) (map trim (str_lines ''x'')) = [''x'']" by code_simp+
  ultimately have "udp_lines default_ingest_config ''x'' = [''x'']" by (simp only: udp_lines_def Let_def if_True)
  then show "length (concat (map (udp_lines default_ingest_config \<circ> snd) (map (\<lambda>i. (40 * i, ''x'')) [1 :: nat, 2, 3, 4])))
      < ic_batch_size default_ingest_config"
    by (simp add: default_ingest_config_def)
qed (simp add: default_ingest_config_def)

text \<open>
  A TCP connection delivers what it read: with an open channel the batches sent for a connection
  hold exactly the non-blank trimmed lines up to the first line that is not UTF-8, in order.
\<close>
theorem tcp_connection_delivers:
  assumes "\<forall>k. sends k"
  shows "concat (tcp_connection cfg sends arrivals (receiver_new start)) =
    concat (map tcp_lines (takeWhile utf8_valid (map snd arrivals)))"
proof -
  have fin: "concat (tcp_connection cfg sends [] s) = concat (rc_sent s) @ rc_batch s" for s
    using assms by (simp add: send_batch_def)
  have "concat (tcp_connection cfg sends arrivals s) =
      concat (rc_sent s) @ rc_batch s @ concat (map tcp_lines (takeWhile utf8_valid (map snd arrivals)))" for s
  proof (induction arrivals arbitrary: s)
    case Nil
    show ?case using fin [of s] by (simp del: tcp_connection.simps)
  next
    case (Cons ev arrivals)
    obtain now l where ev: "ev = (now, l)" by force
    have "tcp_line cfg sends now l s \<noteq> None"
      using assms by (simp add: tcp_line_def send_batch_def Let_def)
    then obtain s' where s': "tcp_line cfg sends now l s = Some s'" by blast
    show ?case using Cons.IH [of s'] ev s' tcp_line_conserves [OF s'] fin [of s]
      by (cases "utf8_valid l") (auto simp del: tcp_connection.simps(1))
  qed
  then show ?thesis by (simp add: receiver_new_def)
qed

theorem tcp_connection_delivers_witness:
  "concat (tcp_connection default_ingest_config (\<lambda>k. True) [(0, '' a ''), (1, ''b'')] (receiver_new 0)) =
    concat (map tcp_lines (takeWhile utf8_valid (map snd [(0 :: nat, '' a ''), (1, ''b'')])))"
  by (rule tcp_connection_delivers) simp

end
