(* ===== verification/Socket_Setup_Properties.thy ===== *)
theory Socket_Setup_Properties
  imports Socket_Setup Socket_Properties "HOL-Library.Sublist"
begin

text \<open>
  Properties of opening sockets and of the tasks around the receivers: the options are in place before the bind, the pool
  delivers every line of every worker once, and a pool that fails to open leaves its first workers running.
\<close>

subsection \<open>Opening sockets\<close>

lemma sys_call_ok: "sys_call S call effect s = Ok s' \<longleftrightarrow> sy_outcome S s call = None \<and> s' = effect s"
  by (auto simp: sys_call_def split: option.splits)

definition ready_socket :: "'e socket_os \<Rightarrow> socket_type \<Rightarrow> socket_addr \<Rightarrow> bool \<Rightarrow> socket \<Rightarrow> bool" where
  "ready_socket S t addr reuse_port s \<longleftrightarrow> so_domain s = domain_of addr \<and> so_type s = t \<and> so_reuse_address s \<and>
     so_nonblocking s \<and> so_bound s = Some (addr, sy_has_reuse_port S \<and> reuse_port)"

lemma open_socket_ready:
  "open_socket S t addr reuse_port = Ok s \<Longrightarrow> ready_socket S t addr reuse_port s \<and> so_backlog s = None"
  by (auto simp: open_socket_def res_bind_def sys_call_ok ready_socket_def fresh_socket_def split: sum.splits if_splits)

lemma create_udp_socket_ready:
  "create_udp_socket S addr reuse_port = Ok s \<Longrightarrow> ready_socket S Type_Dgram addr reuse_port s"
  by (auto simp: create_udp_socket_def res_bind_def sys_call_ok dest: open_socket_ready split: sum.splits)

lemma create_tcp_listener_ready:
  "create_tcp_listener S addr reuse_port backlog = Ok s \<Longrightarrow>
     ready_socket S Type_Stream addr reuse_port s \<and> so_backlog s = Some backlog"
  by (auto simp: create_tcp_listener_def res_bind_def sys_call_ok ready_socket_def dest!: open_socket_ready
      split: sum.splits)

subsection \<open>Interleaving\<close>

lemma sum_mset_update:
  "i < length xss \<Longrightarrow> (\<Sum>xs \<leftarrow> xss[i := ys]. mset xs) + mset (xss ! i) = (\<Sum>xs \<leftarrow> xss. mset xs) + mset ys"
proof (induction xss arbitrary: i)
  case (Cons xs xss)
  then show ?case by (cases i) (auto simp: ac_simps)
qed simp

lemma interleaves_mset: "interleaves xss out \<Longrightarrow> mset out = (\<Sum>xs \<leftarrow> xss. mset xs)"
proof (induction rule: interleaves.induct)
  case (interleaves_done xss)
  then show ?case by (induction xss) auto
next
  case (interleaves_next i xss x xs out)
  then show ?case using sum_mset_update [OF interleaves_next.hyps(1), of xs] by simp
qed

lemma interleaves_exists: "\<exists>out. interleaves xss out"
proof (induction "sum_list (map length xss)" arbitrary: xss rule: less_induct)
  case less
  show ?case
  proof (cases "\<forall>xs \<in> set xss. xs = []")
    case False
    then obtain i x xs where i: "i < length xss" "xss ! i = x # xs" by (auto simp: in_set_conv_nth neq_Nil_conv)
    have "sum_list (map length (xss[i := xs])) < sum_list (map length xss)"
      using i by (induction xss arbitrary: i) (auto simp: nth_Cons split: nat.splits)
    from less [OF this] i show ?thesis by (blast intro: interleaves_next)
  qed (blast intro: interleaves_done)
qed

lemma interleaves_concat: "interleaves xss out \<Longrightarrow> mset (concat out) = (\<Sum>xs \<leftarrow> xss. mset (concat xs))"
proof -
  assume "interleaves xss out"
  then have "mset out = mset (concat xss)" by (simp add: interleaves_mset mset_concat)
  then have "mset (concat out) = mset (concat (concat xss))" by (metis mset_concat mset_map sum_mset_sum_list)
  also have "\<dots> = (\<Sum>xs \<leftarrow> xss. mset (concat xs))" by (induction xss) auto
  finally show ?thesis .
qed

lemma interleaves_subseq: "interleaves xss out \<Longrightarrow> i < length xss \<Longrightarrow> subseq (xss ! i) out"
proof (induction arbitrary: i rule: interleaves.induct)
  case (interleaves_next j xss x xs out)
  with interleaves_next.IH [of i] show ?case by (cases "i = j") (auto simp: subseq_Cons')
qed auto

subsection \<open>The pool\<close>

lemma with_envs_lines [simp]: "map (map snd) (with_envs E batches) = batches"
  by (rule nth_equalityI) (auto simp: with_envs_def nth_enumerate_eq intro!: nth_equalityI)

definition raw_lines :: "network_activity list list \<Rightarrow> string list" where
  "raw_lines batches = map (\<lambda>a. md_raw_data (na_metadata a)) (concat batches)"

lemma raw_lines_traceable:
  "list_all2 (list_all2 (\<lambda>ev a. traceable L (snd ev) a)) evs out \<Longrightarrow> raw_lines out = concat (map (map snd) evs)"
proof (induction rule: list_all2_induct)
  case (Cons b evs es out)
  have "map (\<lambda>a. md_raw_data (na_metadata a)) es = map snd b"
    using Cons.hyps(1) by (induction rule: list_all2_induct) (auto simp: traceable_def)
  then show ?case using Cons.IH by (simp add: raw_lines_def)
qed (simp add: raw_lines_def)

lemma lines_of_batches:
  "\<forall>l \<in> set (concat (map (map snd) bs)). P l \<Longrightarrow> \<forall>b \<in> set bs. \<forall>ev \<in> set b. P (snd ev)"
  by fastforce

lemma pool_worker_delivers:
  assumes "\<forall>k. sends k" "\<forall>d \<in> snd ` set arrivals. \<forall>l \<in> set (udp_lines cfg d). ascii_str l"
  shows "\<exists>out. pool_worker cfg L sends E now arrivals = Some out \<and>
    raw_lines out = concat (map (udp_lines cfg \<circ> snd) arrivals) \<and> (\<forall>es \<in> set out. \<forall>a \<in> set es. event_ok a)"
proof -
  have ok: "receiver_ok cfg now (receiver_new now)" by (simp add: receiver_ok_def receiver_new_def)
  obtain s where s: "udp_loop cfg (\<lambda>k. True) now arrivals (receiver_new now) = Some s"
    "concat (rc_sent s) = concat (map (udp_lines cfg \<circ> snd) arrivals)"
    using udp_loop_delivers [OF _ ok, of "\<lambda>k. True" arrivals] by (auto simp: receiver_new_def)
  have lines: "concat (map (map snd) (with_envs E (rc_sent s))) = concat (rc_sent s)" by simp
  have "\<forall>l \<in> set (concat (rc_sent s)). ascii_str l" using assms(2) unfolding s(2) by auto
  then have "\<forall>b \<in> set (with_envs E (rc_sent s)). \<forall>ev \<in> set b. ascii_str (snd ev)"
    unfolding lines [symmetric] by (rule lines_of_batches)
  from run_parsed_ascii [OF assms(1) this, of L] obtain out where out:
    "run_parsed L sends (with_envs E (rc_sent s)) [] = Some out"
    "list_all2 (list_all2 (\<lambda>ev a. traceable L (snd ev) a)) (with_envs E (rc_sent s)) out" by blast
  have "\<forall>es \<in> set out. \<forall>a \<in> set es. event_ok a"
    using out(2) by (fastforce simp: list_all2_conv_all_nth in_set_conv_nth traceable_def)
  then show ?thesis using s out raw_lines_traceable [OF out(2)] by (auto simp: pool_worker_def)
qed

definition pool_outputs ::
  "ingest_config \<Rightarrow> parser_libs \<Rightarrow> (nat \<Rightarrow> nat \<Rightarrow> bool) \<Rightarrow> (nat \<Rightarrow> nat \<Rightarrow> nat \<Rightarrow> parse_env) \<Rightarrow> (nat \<Rightarrow> nat) \<Rightarrow>
     (nat \<Rightarrow> (nat \<times> string) list) \<Rightarrow> nat \<Rightarrow> network_activity list list list option" where
  "pool_outputs cfg L sends E start arrivals n =
     map_opt (\<lambda>w. pool_worker cfg L (sends w) (E w) (start w) (arrivals w)) [0..<n]"

text \<open>
  C35. However the kernel distributes the datagrams among the workers of a pool, and however their batches interleave in the
  channel: on ASCII lines, with the channel open, the events that come out hold exactly the non-blank trimmed lines of the
  datagrams, each once, all events conform, and the batches of one worker stay in order.
\<close>
theorem worker_pool_delivers:
  assumes "\<forall>w k. sends w k" "\<forall>w < n. \<forall>d \<in> snd ` set (arrivals w). \<forall>l \<in> set (udp_lines cfg d). ascii_str l"
  shows "\<exists>outs. pool_outputs cfg L sends E start arrivals n = Some outs \<and> length outs = n \<and>
    (\<forall>out. interleaves outs out \<longrightarrow> (\<forall>w < n. subseq (outs ! w) out) \<and> (\<forall>es \<in> set out. \<forall>a \<in> set es. event_ok a) \<and>
       mset (raw_lines out) = (\<Sum>w \<leftarrow> [0..<n]. mset (concat (map (udp_lines cfg \<circ> snd) (arrivals w)))))"
proof -
  let ?w = "\<lambda>w. pool_worker cfg L (sends w) (E w) (start w) (arrivals w)"
  have w: "?w w = Some (the (?w w)) \<and> raw_lines (the (?w w)) = concat (map (udp_lines cfg \<circ> snd) (arrivals w)) \<and>
      (\<forall>es \<in> set (the (?w w)). \<forall>a \<in> set es. event_ok a)" if "w < n" for w
  proof -
    have "\<forall>k. sends w k" "\<forall>d \<in> snd ` set (arrivals w). \<forall>l \<in> set (udp_lines cfg d). ascii_str l"
      using assms that by auto
    from pool_worker_delivers [OF this] show ?thesis by (metis option.sel)
  qed
  define outs where "outs = map (\<lambda>w. the (?w w)) [0..<n]"
  have "pool_outputs cfg L sends E start arrivals n = map_opt ?w (map id [0..<n])" by (simp add: pool_outputs_def)
  also have "\<dots> = Some outs" unfolding outs_def using w by (intro map_opt_map) auto
  finally have outs: "pool_outputs cfg L sends E start arrivals n = Some outs" .
  have "mset (raw_lines out) = (\<Sum>w \<leftarrow> [0..<n]. mset (concat (map (udp_lines cfg \<circ> snd) (arrivals w)))) \<and>
      (\<forall>es \<in> set out. \<forall>a \<in> set es. event_ok a)" if "interleaves outs out" for out
  proof
    have "mset (raw_lines out) = image_mset (\<lambda>a. md_raw_data (na_metadata a)) (\<Sum>xs \<leftarrow> outs. mset (concat xs))"
      using interleaves_concat [OF that] by (simp add: raw_lines_def)
    also have "\<dots> = (\<Sum>xs \<leftarrow> outs. mset (raw_lines xs))" by (induction outs) (auto simp: raw_lines_def)
    also have "\<dots> = (\<Sum>w \<leftarrow> [0..<n]. mset (concat (map (udp_lines cfg \<circ> snd) (arrivals w))))"
      unfolding outs_def map_map o_def using w by (intro arg_cong [where f = sum_list] map_cong) (auto simp: o_def)
    finally show "mset (raw_lines out) = (\<Sum>w \<leftarrow> [0..<n]. mset (concat (map (udp_lines cfg \<circ> snd) (arrivals w))))" .
    have "set out = (\<Union>xs \<in> set outs. set xs)"
      using arg_cong [OF interleaves_mset [OF that], of set_mset] by (auto simp: set_mset_sum_list)
    then show "\<forall>es \<in> set out. \<forall>a \<in> set es. event_ok a" using w by (fastforce simp: outs_def)
  qed
  moreover have "length outs = n" by (simp add: outs_def)
  ultimately show ?thesis using outs interleaves_subseq by blast
qed

theorem worker_pool_delivers_witness:
  "\<exists>outs out. pool_outputs default_ingest_config test_parser_libs (\<lambda>w k. True) (\<lambda>w i j. test_env) (\<lambda>w. 0)
      (\<lambda>w. [(3, ''a'')]) 2 = Some outs \<and> interleaves outs out \<and> size (mset (raw_lines out)) = 2"
proof -
  have "udp_payload default_ingest_config ''a'' = ''a''" by (simp add: udp_payload_def default_ingest_config_def)
  moreover have "utf8_valid ''a''" "filter (\<lambda>l. l \<noteq> []) (map trim (str_lines ''a'')) = [''a'']" by code_simp+
  ultimately have l: "udp_lines default_ingest_config ''a'' = [''a'']" by (simp only: udp_lines_def Let_def if_True)
  have "\<forall>w < (2 :: nat). \<forall>d \<in> snd ` set [(3 :: nat, ''a'')]. \<forall>l \<in> set (udp_lines default_ingest_config d). ascii_str l"
    using l by (simp add: ascii_str_def)
  from worker_pool_delivers [OF _ this, where sends = "\<lambda>w k. True" and L = test_parser_libs and E = "\<lambda>w i j. test_env"
      and start = "\<lambda>w. 0"] obtain outs where
    outs: "pool_outputs default_ingest_config test_parser_libs (\<lambda>w k. True) (\<lambda>w i j. test_env) (\<lambda>w. 0) (\<lambda>w. [(3, ''a'')]) 2 =
        Some outs"
      "\<And>out. interleaves outs out \<Longrightarrow> mset (raw_lines out) =
        (\<Sum>w \<leftarrow> [0..<2]. mset (concat (map (udp_lines default_ingest_config \<circ> snd) [(3 :: nat, ''a'')])))" by auto
  obtain out where "interleaves outs out" using interleaves_exists by blast
  then have "mset (raw_lines out) = {#''a'', ''a''#}" using outs(2) l by (simp add: numeral_2_eq_2)
  then have "size (mset (raw_lines out)) = 2" by simp
  with outs(1) \<open>interleaves outs out\<close> show ?thesis by blast
qed

subsection \<open>Opening the pool\<close>

definition opens :: "(nat \<Rightarrow> 'e socket_os) \<Rightarrow> socket_addr \<Rightarrow> bool \<Rightarrow> nat \<Rightarrow> bool" where
  "opens S addr reuse_port w = is_ok (create_udp_socket (S w) addr reuse_port)"

lemma spawn_workers_eq:
  "spawn_workers S addr reuse_port ws handles =
     (let first = takeWhile (opens S addr reuse_port) ws;
          running = handles @ map (\<lambda>w. projr (create_udp_socket (S w) addr reuse_port)) first
      in (if length first < length ws then Err (projl (create_udp_socket (S (ws ! length first)) addr reuse_port))
          else Ok running, running))"
  by (induction ws arbitrary: handles) (auto simp: opens_def is_ok_def Let_def split: sum.split)

text \<open>
  A pool opens completely or reports the first failure; but then the workers before it have been spawned and, their
  handles dropped, keep running on their sockets.
\<close>
theorem failed_pool_keeps_workers:
  assumes "spawn_udp_worker_pool S addr reuse_port n = (r, running)"
  shows "(case r of
      Inr handles \<Rightarrow> handles = running \<and> length running = n
    | Inl e \<Rightarrow> length running < n \<and> create_udp_socket (S (length running)) addr reuse_port = Err e) \<and>
    (\<forall>w < length running. ready_socket (S w) Type_Dgram addr reuse_port (running ! w))"
proof -
  let ?first = "takeWhile (opens S addr reuse_port) [0..<n]"
  have r: "running = map (\<lambda>w. projr (create_udp_socket (S w) addr reuse_port)) ?first"
    "r = (if length ?first < n then Err (projl (create_udp_socket (S ([0..<n] ! length ?first)) addr reuse_port)) else Ok running)"
    using assms by (auto simp: spawn_udp_worker_pool_def spawn_workers_eq Let_def)
  have le: "length ?first \<le> n" using length_takeWhile_le [of _ "[0..<n]"] by simp
  have "opens S addr reuse_port w \<and> ?first ! w = w" if "w < length ?first" for w
    using that le nth_mem [OF that] by (auto simp: takeWhile_nth dest!: set_takeWhileD)
  then have "ready_socket (S w) Type_Dgram addr reuse_port (running ! w)" if "w < length running" for w
    using that create_udp_socket_ready [of "S w" addr reuse_port]
    by (fastforce simp: r(1) opens_def is_ok_def split: sum.splits)
  moreover have "create_udp_socket (S (length running)) addr reuse_port =
      Err (projl (create_udp_socket (S (length running)) addr reuse_port))" if "length ?first < n"
    using nth_length_takeWhile [of "opens S addr reuse_port" "[0..<n]"] that
    by (auto simp: r(1) opens_def is_ok_def split: sum.splits)
  ultimately show ?thesis using le r by (auto simp del: r(1))
qed

subsection \<open>The accept loop\<close>

fun accepted_lines :: "'e accept_result list \<Rightarrow> string list list" where
  "accepted_lines [] = []"
| "accepted_lines (Accept_Failed e # accepts) = accepted_lines accepts"
| "accepted_lines (Stream_Accepted sends now lines # accepts) =
     concat (map tcp_lines (takeWhile utf8_valid (map snd lines))) # accepted_lines accepts"

text \<open>An accept that fails costs nothing: each stream that was accepted delivers the lines it read, in order.\<close>

lemma tcp_accept_delivers:
  "\<forall>sends now lines. Stream_Accepted sends now lines \<in> set accepts \<longrightarrow> (\<forall>k. sends k) \<Longrightarrow>
     map concat (tcp_accept_loop cfg accepts) = accepted_lines accepts"
  by (induction cfg accepts rule: tcp_accept_loop.induct) (auto simp: tcp_connection_delivers)

end
