(* ===== verification/Ingest_Properties.thy ===== *)
theory Ingest_Properties
  imports Ingest Pipeline_Properties Integrity_Properties Drain_Properties
begin

text \<open>
  Invariants of the reachable states of the ingestion engine, by \<open>invariant_of\<close>: every line is where its
  source's order puts it, in a stored block, the batch, the channel or its sender; the counters are exact; the engine does
  not panic on ASCII lines; every block on disk verifies.
\<close>

subsection \<open>Histories\<close>

fun arrived_at :: "nat \<Rightarrow> ingest_label list \<Rightarrow> nat \<Rightarrow> string list" where
  "arrived_at i [] k = []"
| "arrived_at i (Datagram d # ls) k = (if i = 0 then datagram_lines d else []) @ arrived_at i ls k"
| "arrived_at i (Accepted s # ls) k = (if i = k then stream_lines s else []) @ arrived_at i ls (Suc k)"
| "arrived_at i (Counted j # ls) k = arrived_at i ls k"
| "arrived_at i (Sent j l # ls) k = arrived_at i ls k"
| "arrived_at i (Ingested E l # ls) k = arrived_at i ls k"

text \<open>
  The lines that arrived at sender \<open>i\<close>: those of the datagrams for the UDP task, sender 0, and those of the
  \<open>i\<close>-th accepted connection for the others.
\<close>

definition arrived :: "nat \<Rightarrow> ingest_label list \<Rightarrow> string list" where
  "arrived i ls = arrived_at i ls 1"

definition accepts :: "ingest_label list \<Rightarrow> nat" where
  "accepts ls = length (filter (\<lambda>l. case l of Accepted s \<Rightarrow> True | _ \<Rightarrow> False) ls)"

definition sent_lines :: "ingest_label list \<Rightarrow> string list" where
  "sent_lines ls = List.map_filter (\<lambda>l. case l of Sent i w \<Rightarrow> Some w | _ \<Rightarrow> None) ls"

definition sent_by :: "nat \<Rightarrow> ingest_label list \<Rightarrow> string list" where
  "sent_by i ls = List.map_filter (\<lambda>l. case l of Sent j w \<Rightarrow> if i = j then Some w else None | _ \<Rightarrow> None) ls"

definition ingested :: "ingest_label list \<Rightarrow> (line_env \<times> string) list" where
  "ingested ls = List.map_filter (\<lambda>l. case l of Ingested E w \<Rightarrow> Some (E, w) | _ \<Rightarrow> None) ls"

definition sending_list :: "sender \<Rightarrow> string list" where
  "sending_list s = (case sd_sending s of None \<Rightarrow> [] | Some l \<Rightarrow> [l])"

lemma arrived_at_snoc:
  "arrived_at i (ls @ [l]) k = arrived_at i ls k @ arrived_at i [l] (k + accepts ls)"
  by (induction i ls k rule: arrived_at.induct) (simp_all add: accepts_def)

lemma arrived_snoc [simp]: "arrived i (ls @ [l]) = arrived i ls @ arrived_at i [l] (Suc (accepts ls))"
  by (simp add: arrived_def arrived_at_snoc)

lemma history_Nil [simp]:
  "arrived i [] = []" "accepts [] = 0" "sent_lines [] = []" "sent_by i [] = []" "ingested [] = []"
  by (simp_all add: arrived_def accepts_def sent_lines_def sent_by_def ingested_def map_filter_simps)

lemma map_filter_snoc: "List.map_filter f (xs @ [x]) = List.map_filter f xs @ (case f x of None \<Rightarrow> [] | Some y \<Rightarrow> [y])"
  by (induction xs) (auto simp: map_filter_simps split: option.splits)

lemma history_snoc [simp]:
  "accepts (ls @ [l]) = accepts ls + (case l of Accepted s \<Rightarrow> 1 | _ \<Rightarrow> 0)"
  "sent_lines (ls @ [l]) = sent_lines ls @ (case l of Sent i w \<Rightarrow> [w] | _ \<Rightarrow> [])"
  "sent_by i (ls @ [l]) = sent_by i ls @ (case l of Sent j w \<Rightarrow> if i = j then [w] else [] | _ \<Rightarrow> [])"
  "ingested (ls @ [l]) = ingested ls @ (case l of Ingested E w \<Rightarrow> [(E, w)] | _ \<Rightarrow> [])"
  by (cases l; simp add: accepts_def sent_lines_def sent_by_def ingested_def map_filter_snoc)+

lemma arrived_none: "accepts ls < i \<Longrightarrow> arrived i ls = []"
proof -
  have "k + accepts ls \<le> i \<Longrightarrow> 0 < k \<Longrightarrow> arrived_at i ls k = []" for k
    by (induction i ls k rule: arrived_at.induct) (auto simp: accepts_def)
  from this [of 1] show "accepts ls < i \<Longrightarrow> arrived i ls = []" by (simp add: arrived_def)
qed

lemma sent_none:
  "(\<And>j w. Sent j w \<in> set ls \<Longrightarrow> j \<noteq> i) \<Longrightarrow> sent_by i ls = []"
proof (induction ls rule: rev_induct)
  case (snoc l ls)
  then show ?case by (cases l) auto
qed simp

subsection \<open>What a line does\<close>

lemma count_event_simps [simp]:
  "ie_senders (count_event e st) = ie_senders st" "ie_queue (count_event e st) = ie_queue st"
  "ie_batcher (count_event e st) = ie_batcher st" "ie_fs (count_event e st) = ie_fs st"
  "ie_miner (count_event e st) = ie_miner st" "ie_total_ingested (count_event e st) = ie_total_ingested st"
  "ie_total_blocks (count_event e st) = ie_total_blocks st" "ie_status (count_event e st) = ie_status st"
  by (simp_all add: count_event_def Let_def)

lemma count_alert_simps [simp]:
  "ie_senders (count_alert a st) = ie_senders st" "ie_queue (count_alert a st) = ie_queue st"
  "ie_batcher (count_alert a st) = ie_batcher st" "ie_fs (count_alert a st) = ie_fs st"
  "ie_miner (count_alert a st) = ie_miner st" "ie_total_ingested (count_alert a st) = ie_total_ingested st"
  "ie_parsed_ok (count_alert a st) = ie_parsed_ok st"
  "ie_fallback_unparsed (count_alert a st) = ie_fallback_unparsed st"
  "ie_missing_ips (count_alert a st) = ie_missing_ips st"
  "ie_total_blocks (count_alert a st) = ie_total_blocks st" "ie_status (count_alert a st) = ie_status st"
  by (simp_all add: count_alert_def Let_def split: option.split)

lemma batch_line_simps [simp]:
  "ie_senders (batch_line X E l st) = ie_senders st" "ie_queue (batch_line X E l st) = ie_queue st"
  "ie_miner (batch_line X E l st) = ie_miner st" "ie_total_ingested (batch_line X E l st) = ie_total_ingested st"
  "ie_parsed_ok (batch_line X E l st) = ie_parsed_ok st"
  "ie_fallback_unparsed (batch_line X E l st) = ie_fallback_unparsed st"
  "ie_missing_ips (batch_line X E l st) = ie_missing_ips st"
  by (simp_all add: batch_line_def Let_def split: option.split sum.split prod.split)

lemma ingest_line_frame [simp]:
  "ie_senders (ingest_line X E raw st) = ie_senders st" "ie_queue (ingest_line X E raw st) = ie_queue st"
  "ie_total_ingested (ingest_line X E raw st) = ie_total_ingested st"
  by (simp_all add: ingest_line_def Let_def split: option.split prod.split)

lemma incoming_event_raw [simp]: "il_raw_log (incoming_event X a raw) = raw"
  by (simp add: incoming_event_def with_ocsf_def with_event_id_def with_timestamp_def new_incoming_log_def)

lemma batch_line_total: "ie_status st = Running \<Longrightarrow> ie_status (batch_line X E l st) \<noteq> Panicked"
  using push_total [of "gl_integrity X" E l "(ie_batcher st, ie_fs st)"]
  by (auto simp: batch_line_def Let_def split: option.split sum.split prod.split)

text \<open>The batch is a log sink: what stays of the engine's state through a line that does not stop it.\<close>

lemma batch_line_sink:
  assumes "durable (gl_integrity X) (Suc n) (ie_batcher st, ie_fs st)" "ie_status (batch_line X E l st) = Running"
  defines "st' \<equiv> batch_line X E l st"
  shows "durable (gl_integrity X) n (ie_batcher st', ie_fs st') \<and>
    stored_logs (gl_integrity X) (ie_batcher st', ie_fs st') @ pending_logs (ie_batcher st', ie_fs st') =
      stored_logs (gl_integrity X) (ie_batcher st, ie_fs st) @ pending_logs (ie_batcher st, ie_fs st) @ [il_raw_log l] \<and>
    ba_config (ie_batcher st') = ba_config (ie_batcher st)"
proof -
  obtain r b fs where p: "push (gl_integrity X) E l (ie_batcher st, ie_fs st) = Some (Ok r, b, fs)"
    and st': "ie_batcher st' = b" "ie_fs st' = fs"
    using assms(2) by (auto simp: st'_def batch_line_def Let_def split: option.splits sum.splits)
  have ok: "push_ok (gl_integrity X) E l (ie_batcher st, ie_fs st) = Some (ie_batcher st', ie_fs st')"
    using p st' by (simp add: push_ok_def)
  have "batcher_inv (ie_batcher st)" using assms(1) by (simp add: durable_def)
  with push_preserves_inv [OF _ p] st' push_ok_step [OF assms(1) ok] show ?thesis by simp
qed

subsection \<open>The invariant\<close>

definition fallback_lines :: "parser_libs \<Rightarrow> (line_env \<times> string) list \<Rightarrow> (line_env \<times> string) list" where
  "fallback_lines L evs = filter (\<lambda>(E, raw). \<exists>e. parse L (ne_parse E) raw = Some (Err e)) evs"

definition senders_ok :: "ingest_label list \<Rightarrow> ingest_engine \<Rightarrow> bool" where
  "senders_ok ls st \<longleftrightarrow> length (ie_senders st) = Suc (accepts ls) \<and>
     (\<forall>j w. Sent j w \<in> set ls \<longrightarrow> j \<le> accepts ls) \<and>
     (\<forall>i s. nth_opt (ie_senders st) i = Some s \<longrightarrow> sent_by i ls @ sending_list s @ sd_lines s = arrived i ls) \<and>
     ie_total_ingested st = of_nat (length (sent_lines ls) + length (concat (map sending_list (ie_senders st)))) \<and>
     length (ie_queue st) \<le> channel_capacity"

lemma sending_list_simps [simp]:
  "sd_sending s = None \<Longrightarrow> sending_list s = []" "sd_sending s = Some l \<Longrightarrow> sending_list s = [l]"
  by (simp_all add: sending_list_def)

lemma senders_update:
  "nth_opt ss i = Some s \<Longrightarrow>
     length (concat (map sending_list (ss[i := s']))) + length (sending_list s) =
       length (concat (map sending_list ss)) + length (sending_list s')"
proof (induction ss arbitrary: i)
  case (Cons t ss)
  then show ?case by (cases i) auto
qed simp

lemma nth_opt_update: "nth_opt (xs[i := x]) j = (if i = j \<and> i < length xs then Some x else nth_opt xs j)"
  by (simp add: nth_opt_def nth_list_update)

lemma nth_opt_append: "nth_opt (xs @ ys) j = (if j < length xs then nth_opt xs j else nth_opt ys (j - length xs))"
  by (auto simp: nth_opt_def nth_append)

lemma senders_ok_init: "ingest_init X args fs st \<Longrightarrow> senders_ok [] st"
  by (auto simp: ingest_init_def ingest_start_def senders_ok_def ok_iff idle_sender_def sending_list_def nth_opt_def)

lemma senders_okD:
  "senders_ok ls st \<Longrightarrow> nth_opt (ie_senders st) i = Some s \<Longrightarrow>
     sent_by i ls @ sending_list s @ sd_lines s = arrived i ls"
  "senders_ok ls st \<Longrightarrow> nth_opt (ie_senders st) i = Some s \<Longrightarrow> i \<le> accepts ls"
  by (auto simp: senders_ok_def nth_opt_eq_Some_iff)

lemma senders_ok_datagram:
  "senders_ok ls st \<Longrightarrow> udp_receive d st = Some st' \<Longrightarrow> senders_ok (ls @ [Datagram d]) st'"
proof -
  assume ok: "senders_ok ls st" and "udp_receive d st = Some st'"
  then obtain conns where c: "ie_senders st = idle_sender # conns"
    "st' = st\<lparr>ie_senders := idle_sender\<lparr>sd_lines := datagram_lines d\<rparr> # conns\<rparr>"
    by (auto simp: udp_receive_def split: list.splits if_splits)
  have "sent_by i (ls @ [Datagram d]) @ sending_list t @ sd_lines t = arrived i (ls @ [Datagram d])"
    if "nth_opt (idle_sender\<lparr>sd_lines := datagram_lines d\<rparr> # conns) i = Some t" for i t
    using that senders_okD(1) [OF ok, of i] c(1) by (cases i) (auto simp: idle_sender_def)
  then show ?thesis using ok c by (auto simp: senders_ok_def idle_sender_def sending_list_def)
qed

lemma senders_ok_accept: "senders_ok ls st \<Longrightarrow> senders_ok (ls @ [Accepted s]) (tcp_accept s st)"
proof -
  assume ok: "senders_ok ls st"
  let ?new = "\<lparr>sd_lines = stream_lines s, sd_sending = None\<rparr>"
  have len: "length (ie_senders st) = Suc (accepts ls)" using ok by (simp add: senders_ok_def)
  have "sent_by i (ls @ [Accepted s]) @ sending_list t @ sd_lines t = arrived i (ls @ [Accepted s])"
    if "nth_opt (ie_senders st @ [?new]) i = Some t" for i t
  proof (cases "i = Suc (accepts ls)")
    case True
    then have "t = ?new" using that len by (simp add: nth_opt_append)
    moreover have "sent_by i ls = []" using ok True by (intro sent_none) (auto simp: senders_ok_def)
    ultimately show ?thesis using True by (simp add: arrived_none)
  next
    case False
    then have "nth_opt (ie_senders st) i = Some t" using that len
      by (auto simp: nth_opt_eq_Some_iff nth_append)
    then show ?thesis using ok False by (simp add: senders_ok_def)
  qed
  then show ?thesis using ok by (auto simp: senders_ok_def tcp_accept_def)
qed

lemma senders_ok_count:
  assumes ok: "senders_ok ls st" and "count_line i st = Some st'"
  shows "senders_ok (ls @ [Counted i]) st'"
proof -
  obtain s l r where s: "nth_opt (ie_senders st) i = Some s" "sd_sending s = None" "sd_lines s = l # r"
    and st': "st' = st\<lparr>ie_senders := (ie_senders st)[i := \<lparr>sd_lines = r, sd_sending = Some l\<rparr>],
      ie_total_ingested := ie_total_ingested st + 1\<rparr>"
    using assms(2) by (auto simp: count_line_def split: option.splits list.splits)
  show ?thesis
    using ok senders_okD(1) [OF ok s(1)] s senders_update [OF s(1), of "\<lparr>sd_lines = r, sd_sending = Some l\<rparr>"]
    by (simp add: senders_ok_def st' nth_opt_update)
qed

lemma senders_ok_send:
  assumes ok: "senders_ok ls st" and "send_line i st = Some (l, st')"
  shows "senders_ok (ls @ [Sent i l]) st'"
proof -
  obtain s where s: "nth_opt (ie_senders st) i = Some s" "sd_sending s = Some l" "length (ie_queue st) < channel_capacity"
    and st': "st' = st\<lparr>ie_senders := (ie_senders st)[i := s\<lparr>sd_sending := None\<rparr>], ie_queue := ie_queue st @ [l]\<rparr>"
    using assms(2) by (auto simp: send_line_def split: option.splits if_splits)
  let ?old = "length (concat (map sending_list (ie_senders st)))"
  let ?new = "length (concat (map sending_list ((ie_senders st)[i := s\<lparr>sd_sending := None\<rparr>])))"
  have n: "?old = Suc ?new" using senders_update [OF s(1), of "s\<lparr>sd_sending := None\<rparr>"] s(2) by simp
  have lines: "sent_by j (ls @ [Sent i l]) @ sending_list t @ sd_lines t = arrived j (ls @ [Sent i l])"
    if "nth_opt ((ie_senders st)[i := s\<lparr>sd_sending := None\<rparr>]) j = Some t" for j t
    using that senders_okD(1) [OF ok s(1)] senders_okD(1) [OF ok, of j t] s(2)
      nth_opt_eq_Some_iff [of "ie_senders st" i s, THEN iffD1, OF s(1)]
    by (cases "i = j") (auto simp: nth_opt_update)
  have "ie_total_ingested st = of_nat (length (sent_lines ls) + ?old)" using ok by (simp only: senders_ok_def)
  then have "ie_total_ingested st = of_nat (length (sent_lines (ls @ [Sent i l])) + ?new)" by (simp add: n)
  then show ?thesis
    using ok s(3) lines senders_okD(2) [OF ok s(1)]
    by (auto simp: senders_ok_def st' simp del: of_nat_add history_snoc(2))
qed

lemma senders_ok_ingest:
  "senders_ok ls st \<Longrightarrow> take_line X E st = Some (l, st') \<Longrightarrow> senders_ok (ls @ [Ingested E l]) st'"
  by (auto simp: senders_ok_def take_line_def split: list.splits)

lemma senders_ok_step: "senders_ok ls st \<Longrightarrow> ingest_step X args st l st' \<Longrightarrow> senders_ok (ls @ [l]) st'"
  by (erule ingest_stepE)
    (simp_all add: senders_ok_datagram senders_ok_accept senders_ok_count senders_ok_send senders_ok_ingest)

interpretation senders: invariant_of "ingest_init X args fs" "ingest_step X args" senders_ok for X args fs
  by unfold_locales (blast intro: senders_ok_init senders_ok_step)+

subsection \<open>Conservation\<close>

text \<open>The file system an engine starts on: what it writes to is as \<open>durable\<close> has it, with room for \<open>n\<close> blocks.\<close>

definition ingest_disk :: "ingest_libs \<Rightarrow> ingest_args \<Rightarrow> fs \<Rightarrow> nat \<Rightarrow> bool" where
  "ingest_disk X args fs n \<longleftrightarrow>
     (\<exists>st. ba_config st = ingest_batcher_config args \<and> disk_ok (gl_integrity X) n st fs)"

definition engine_disk :: "ingest_engine \<Rightarrow> batcher \<times> fs" where
  "engine_disk st = (ie_batcher st, ie_fs st)"

definition conserves :: "ingest_libs \<Rightarrow> ingest_args \<Rightarrow> fs \<Rightarrow> nat \<Rightarrow> ingest_label list \<Rightarrow> ingest_engine \<Rightarrow> bool" where
  "conserves X args fs N ls st \<longleftrightarrow> (ie_status st = Running \<longrightarrow> length (ingested ls) \<le> N \<longrightarrow>
     durable (gl_integrity X) (N - length (ingested ls)) (engine_disk st) \<and>
     ba_config (ie_batcher st) = ingest_batcher_config args \<and>
     (\<exists>b0. batcher_new (gl_integrity X) (ingest_batcher_config args) fs = Ok b0 \<and>
        stored_logs (gl_integrity X) (engine_disk st) @ pending_logs (engine_disk st) @ ie_queue st =
          stored_logs (gl_integrity X) (b0, fs) @ sent_lines ls) \<and>
     map snd (ingested ls) @ ie_queue st = sent_lines ls)"

lemma conserves_init:
  assumes "ingest_disk X args fs N" "ingest_init X args fs st"
  shows "conserves X args fs N [] st"
proof -
  obtain b where b: "batcher_new (gl_integrity X) (ingest_batcher_config args) fs = Ok b"
    "ie_batcher st = b" "ie_fs st = fs" "ie_queue st = []"
    using assms(2) by (auto simp: ingest_init_def ingest_start_def ok_iff)
  obtain st0 where st0: "ba_config st0 = ingest_batcher_config args" "disk_ok (gl_integrity X) N st0 fs"
    using assms(1) by (auto simp: ingest_disk_def)
  obtain b' where "batcher_new (gl_integrity X) (ba_config st0) fs = Ok b'" "ba_config b' = ba_config st0"
    "ba_buffer b' = []" "durable (gl_integrity X) N (b', fs)"
    using batcher_new_durable [OF st0(2)] by blast
  then show ?thesis using b st0(1) by (auto simp: conserves_def engine_disk_def pending_logs_def)
qed

lemma ingest_line_sink:
  assumes "ie_status st = Running" "ie_status (ingest_line X E raw st) = Running"
    and "durable (gl_integrity X) (Suc n) (engine_disk st)"
  defines "st' \<equiv> ingest_line X E raw st"
  shows "durable (gl_integrity X) n (engine_disk st') \<and>
    stored_logs (gl_integrity X) (engine_disk st') @ pending_logs (engine_disk st') =
      stored_logs (gl_integrity X) (engine_disk st) @ pending_logs (engine_disk st) @ [raw] \<and>
    ba_config (ie_batcher st') = ba_config (ie_batcher st)"
proof -
  obtain event res miner where ev: "parse_lossless (gl_parser X) (ne_parse E) raw = Some event"
    "add_log (gl_masker X) (ne_drain E) raw (ie_miner st) = Some (res, miner)"
    using assms(1,2) by (auto simp: ingest_line_def Let_def split: option.splits)
  let ?st2 = "count_alert (cr_anomaly res) ((count_event event st)\<lparr>ie_miner := miner\<rparr>)"
  have st': "st' = batch_line X (ne_push E) (incoming_event X event raw) ?st2"
    using ev by (simp add: st'_def ingest_line_def)
  have "durable (gl_integrity X) (Suc n) (ie_batcher ?st2, ie_fs ?st2)" using assms(3) by (simp add: engine_disk_def)
  moreover have "ie_status (batch_line X (ne_push E) (incoming_event X event raw) ?st2) = Running"
    using assms(2) by (simp add: st' flip: st'_def)
  ultimately show ?thesis
    using batch_line_sink [of X n ?st2 "ne_push E" "incoming_event X event raw"] by (simp add: st' engine_disk_def)
qed

lemma conserves_step:
  assumes c: "conserves X args fs N ls st" and step: "ingest_step X args st l st'"
  shows "conserves X args fs N (ls @ [l]) st'"
  using step
proof (cases rule: ingest_step.cases)
  case (step_datagram d)
  then show ?thesis using c
    by (auto simp: conserves_def engine_disk_def udp_receive_def split: list.splits if_splits)
next
  case (step_accept s)
  then show ?thesis using c by (auto simp: conserves_def engine_disk_def tcp_accept_def)
next
  case (step_count i)
  then show ?thesis using c
    by (auto simp: conserves_def engine_disk_def count_line_def split: option.splits list.splits)
next
  case (step_send i w)
  then show ?thesis using c
    by (auto simp: conserves_def engine_disk_def send_line_def split: option.splits if_splits)
next
  case (step_ingest E raw)
  then obtain rest where q: "ie_queue st = raw # rest" "st' = ingest_line X E raw (st\<lparr>ie_queue := rest\<rparr>)"
    by (auto simp: take_line_def split: list.splits)
  let ?st = "st\<lparr>ie_queue := rest\<rparr>"
  show ?thesis unfolding conserves_def
  proof (intro impI)
    assume run: "ie_status st' = Running" and n: "length (ingested (ls @ [l])) \<le> N"
    let ?n = "N - length (ingested (ls @ [l]))"
    have le: "length (ingested ls) \<le> N" "N - length (ingested ls) = Suc ?n" using n step_ingest(1) by auto
    then have old: "durable (gl_integrity X) (Suc ?n) (engine_disk st)" "ba_config (ie_batcher st) = ingest_batcher_config args"
      "\<exists>b0. batcher_new (gl_integrity X) (ingest_batcher_config args) fs = Ok b0 \<and>
        stored_logs (gl_integrity X) (engine_disk st) @ pending_logs (engine_disk st) @ ie_queue st =
          stored_logs (gl_integrity X) (b0, fs) @ sent_lines ls"
      "map snd (ingested ls) @ ie_queue st = sent_lines ls"
      using c step_ingest by (simp_all add: conserves_def)
    have "ie_status ?st = Running" "ie_status (ingest_line X E raw ?st) = Running"
      "durable (gl_integrity X) (Suc ?n) (engine_disk ?st)"
      using step_ingest run old(1) by (simp_all add: q(2) engine_disk_def)
    note new = ingest_line_sink [OF this]
    have same: "engine_disk ?st = engine_disk st" by (simp add: engine_disk_def)
    have frame: "ie_queue st' = rest" by (simp add: q(2))
    have moved: "stored_logs (gl_integrity X) (engine_disk st') @ pending_logs (engine_disk st') @ rest =
        stored_logs (gl_integrity X) (engine_disk st) @ pending_logs (engine_disk st) @ raw # rest"
      using new unfolding same q(2) by (metis append_Cons append_Nil append_assoc)
    obtain b0 where b0: "batcher_new (gl_integrity X) (ingest_batcher_config args) fs = Ok b0"
      "stored_logs (gl_integrity X) (engine_disk st) @ pending_logs (engine_disk st) @ raw # rest =
        stored_logs (gl_integrity X) (b0, fs) @ sent_lines ls"
      using old(3) q(1) by auto
    have sent: "sent_lines (ls @ [l]) = sent_lines ls" "map snd (ingested (ls @ [l])) = map snd (ingested ls) @ [raw]"
      using step_ingest(1) by simp_all
    show "durable (gl_integrity X) ?n (engine_disk st') \<and>
      ba_config (ie_batcher st') = ingest_batcher_config args \<and>
      (\<exists>b0. batcher_new (gl_integrity X) (ingest_batcher_config args) fs = Ok b0 \<and>
        stored_logs (gl_integrity X) (engine_disk st') @ pending_logs (engine_disk st') @ ie_queue st' =
          stored_logs (gl_integrity X) (b0, fs) @ sent_lines (ls @ [l])) \<and>
      map snd (ingested (ls @ [l])) @ ie_queue st' = sent_lines (ls @ [l])"
    proof (intro conjI exI)
      show "stored_logs (gl_integrity X) (engine_disk st') @ pending_logs (engine_disk st') @ ie_queue st' =
          stored_logs (gl_integrity X) (b0, fs) @ sent_lines (ls @ [l])"
        unfolding frame moved sent by (rule b0(2))
      show "map snd (ingested (ls @ [l])) @ ie_queue st' = sent_lines (ls @ [l])"
        unfolding frame sent using old(4) q(1) by simp
    qed (use new old(2) b0(1) in \<open>simp_all add: q(2)\<close>)
  qed
qed

text \<open>The invariant holds on a suitable disk only, so the disk is part of it.\<close>

interpretation conservation: invariant_of "ingest_init X args fs" "ingest_step X args"
    "\<lambda>ls st. ingest_disk X args fs N \<longrightarrow> conserves X args fs N ls st" for X args fs N
  by unfold_locales (blast intro: conserves_init conserves_step)+

text \<open>
  C7. While the engine runs, no line is lost, duplicated or reordered: the lines in the stored blocks, the batch and
  the channel are those the disk held at the start and then the lines sent, in order; and what each source sent, is sending and still
  has to send are the lines that arrived at it.
\<close>
theorem ingest_conserves_lines:
  assumes "ingest_reach X args fs ls st" "ie_status st = Running" "ingest_disk X args fs (length (ingested ls))"
  shows "(\<exists>b0. batcher_new (gl_integrity X) (ingest_batcher_config args) fs = Ok b0 \<and>
      stored_logs (gl_integrity X) (ie_batcher st, ie_fs st) @ pending_logs (ie_batcher st, ie_fs st) @ ie_queue st =
        stored_logs (gl_integrity X) (b0, fs) @ sent_lines ls) \<and>
    (\<forall>i s. nth_opt (ie_senders st) i = Some s \<longrightarrow> sent_by i ls @ sending_list s @ sd_lines s = arrived i ls)"
  using conservation.reach_inv [OF assms(1), of "length (ingested ls)"] senders.reach_inv [OF assms(1)] assms(2,3)
  by (auto simp: conserves_def engine_disk_def senders_ok_def)

subsection \<open>Counters and panics\<close>

definition counts_ok :: "parser_libs \<Rightarrow> nat \<Rightarrow> ingest_label list \<Rightarrow> ingest_engine \<Rightarrow> bool" where
  "counts_ok L blocks ls st \<longleftrightarrow> (\<exists>hist. general.miner_ok (ie_miner st) hist) \<and>
     ((\<forall>ev \<in> set (ingested ls). ascii_str (snd ev)) \<longrightarrow> ie_status st \<noteq> Panicked) \<and>
     (ie_status st \<noteq> Panicked \<longrightarrow>
        ie_fallback_unparsed st = of_nat (length (fallback_lines L (ingested ls))) \<and>
        ie_parsed_ok st + ie_fallback_unparsed st = of_nat (length (ingested ls)) \<and>
        of_nat blocks + ie_total_blocks st = of_nat (length (ba_ledger (ie_batcher st))))"

lemma counts_okD:
  assumes "counts_ok L n ls st" "ie_status st \<noteq> Panicked"
  shows "ie_fallback_unparsed st = of_nat (length (fallback_lines L (ingested ls)))"
    "ie_parsed_ok st + ie_fallback_unparsed st = of_nat (length (ingested ls))"
    "of_nat n + ie_total_blocks st = of_nat (length (ba_ledger (ie_batcher st)))"
  using assms unfolding counts_ok_def by blast+

lemma extract_vendor_known:
  "parse L E raw = Some (Ok a) \<Longrightarrow> pr_vendor_name (md_product (na_metadata a)) \<noteq> ''Unknown''"
  using extract_vendor [of "classify (pl_ac L) raw" L "en_now_ms E" raw]
  by (cases "classify (pl_ac L) raw") (auto simp: parse_def ok_iff stamp_def)

lemma lossless_vendor:
  assumes "parse_lossless L E raw = Some a"
  shows "pr_vendor_name (md_product (na_metadata a)) = ''Unknown'' \<longleftrightarrow> (\<exists>e. parse L E raw = Some (Err e))"
proof -
  obtain r where r: "parse L E raw = Some r" "a = or_unparsed L E raw r"
    using assms by (auto simp: parse_lossless_def)
  show ?thesis
  proof (cases r)
    case (Inl e)
    then show ?thesis using r by (simp add: or_unparsed_def unparsed_event_def with_unmapped_def
          network_activity_new_def metadata_new_def product_new_def)
  next
    case (Inr b)
    then show ?thesis using r extract_vendor_known [of L E raw b] by (simp add: or_unparsed_def)
  qed
qed

lemma write_block_err_ledger:
  "write_block L env b n rs t st fs = (Err e, st', fs') \<Longrightarrow> ba_ledger st' = ba_ledger st"
  by (auto simp: write_block_def Let_def split: prod.splits sum.splits)

lemma flush_err_ledger:
  assumes "flush L env (st, fs) = Some (Err e, st', fs')" "ba_buffer st \<noteq> []"
  shows "ba_ledger st' = ba_ledger st"
  using flush_eq [OF assms(2), of L env fs] assms(1) write_block_err_ledger [of L env _ _ _ _ "drained st" fs e st' fs']
  by auto

lemma flush_ok_ledger:
  assumes "flush L env (st, fs) = Some (Ok r, st', fs')" "ba_buffer st \<noteq> []"
  shows "length (ba_ledger st') = Suc (length (ba_ledger st)) \<and> r \<noteq> None"
  by (rule flush_okE [OF assms]) simp

lemma push_ledger:
  assumes "push L env item (st, fs) = Some (r, st', fs')"
  shows "length (ba_ledger st') = length (ba_ledger st) +
    (case r of Inl e \<Rightarrow> 0 | Inr None \<Rightarrow> 0 | Inr (Some b) \<Rightarrow> 1)"
proof -
  let ?st1 = "if ba_buffer st = [] then st\<lparr>ba_first_item_time := Some (pe_enter env)\<rparr> else st"
  let ?st2 = "?st1\<lparr>ba_buffer := ba_buffer ?st1 @ [item]\<rparr>"
  show ?thesis
  proof (cases "should_flush (pe_check env) ?st2")
    case False
    then show ?thesis using assms by (auto simp: push_def Let_def)
  next
    case True
    then have f: "flush L (pe_flush env) (?st2, fs) = Some (r, st', fs')" using assms by (simp add: push_def Let_def)
    have ne: "ba_buffer ?st2 \<noteq> []" by simp
    show ?thesis
    proof (cases r)
      case (Inl e)
      from flush_err_ledger [OF f [unfolded this] ne] show ?thesis using Inl by simp
    next
      case (Inr b)
      from flush_ok_ledger [OF f [unfolded this] ne] show ?thesis using Inr by auto
    qed
  qed
qed

lemma batch_line_blocks:
  "ie_status (batch_line X E l st) \<noteq> Panicked \<Longrightarrow>
     of_nat (length (ba_ledger (ie_batcher (batch_line X E l st)))) + ie_total_blocks st =
       ie_total_blocks (batch_line X E l st) + of_nat (length (ba_ledger (ie_batcher st)))"
  by (auto simp: batch_line_def Let_def push_ledger split: option.split sum.split prod.split)

lemma counts_ok_ingest:
  assumes ok: "counts_ok (gl_parser X) n ls st" and run: "ie_status st = Running"
  shows "counts_ok (gl_parser X) n (ls @ [Ingested E raw]) (ingest_line X E raw st)"
proof (cases "parse_lossless (gl_parser X) (ne_parse E) raw")
  case None
  then have "\<not> ascii_str raw" using parse_lossless_ascii by fastforce
  then show ?thesis using None ok by (simp add: counts_ok_def ingest_line_def)
next
  case (Some event)
  obtain hist where h: "general.miner_ok (ie_miner st) hist" using ok by (auto simp: counts_ok_def)
  then obtain res miner where m: "add_log (gl_masker X) (ne_drain E) raw (ie_miner st) = Some (res, miner)"
    using general.add_log_ok [of "ie_miner st" hist "gl_masker X" raw] by (force simp: list_all_iff)
  let ?st2 = "count_alert (cr_anomaly res) ((count_event event st)\<lparr>ie_miner := miner\<rparr>)"
  have line: "ingest_line X E raw st = batch_line X (ne_push E) (incoming_event X event raw) ?st2"
    using Some m by (simp add: ingest_line_def)
  have fb: "ie_fallback_unparsed (count_event event st) = ie_fallback_unparsed st +
      of_nat (length (fallback_lines (gl_parser X) [(E, raw)]))"
    "ie_parsed_ok (count_event event st) + ie_fallback_unparsed (count_event event st) =
      ie_parsed_ok st + ie_fallback_unparsed st + 1"
    using lossless_vendor [OF Some] by (auto simp: count_event_def Let_def fallback_lines_def)
  have safe: "ie_status (ingest_line X E raw st) \<noteq> Panicked"
    unfolding line by (rule batch_line_total) (simp add: run)
  let ?st' = "ingest_line X E raw st"
  have "of_nat n + ie_total_blocks st = (of_nat (length (ba_ledger (ie_batcher st))) :: u64)"
    using ok run by (simp add: counts_ok_def)
  moreover have "of_nat (length (ba_ledger (ie_batcher ?st'))) + ie_total_blocks st =
      ie_total_blocks ?st' + of_nat (length (ba_ledger (ie_batcher st)))"
    using batch_line_blocks [of X "ne_push E" "incoming_event X event raw" ?st2] safe by (simp add: line)
  ultimately have "of_nat (length (ba_ledger (ie_batcher ?st'))) + ie_total_blocks st =
      of_nat n + ie_total_blocks ?st' + ie_total_blocks st"
    by (metis (no_types, lifting) add.assoc add.commute)
  then have blocks: "of_nat n + ie_total_blocks ?st' = of_nat (length (ba_ledger (ie_batcher ?st')))" by simp
  have "\<exists>hist. general.miner_ok miner hist" by (rule add_log_keeps [OF h m])
  then have "\<exists>hist. general.miner_ok (ie_miner ?st') hist" by (simp add: line)
  moreover have "ie_fallback_unparsed ?st' = of_nat (length (fallback_lines (gl_parser X) (ingested ls @ [(E, raw)])))"
    using ok run fb by (simp add: counts_ok_def line fallback_lines_def)
  moreover have "ie_parsed_ok ?st' + ie_fallback_unparsed ?st' = of_nat (length (ingested ls @ [(E, raw)]))"
  proof -
    have "ie_parsed_ok ?st' + ie_fallback_unparsed ?st' = ie_parsed_ok st + ie_fallback_unparsed st + 1"
      unfolding line batch_line_simps count_alert_simps using fb(2) by simp
    moreover have "ie_parsed_ok st + ie_fallback_unparsed st = of_nat (length (ingested ls))"
      using counts_okD(2) [OF ok] run by simp
    ultimately show ?thesis by simp
  qed
  ultimately show ?thesis using blocks safe by (simp add: counts_ok_def)
qed

lemma counts_ok_frame:
  assumes "counts_ok L n ls st" "ingested (ls @ [l]) = ingested ls"
    and "ie_miner st' = ie_miner st" "ie_status st' = ie_status st" "ie_batcher st' = ie_batcher st"
    and "ie_fallback_unparsed st' = ie_fallback_unparsed st" "ie_parsed_ok st' = ie_parsed_ok st"
    and "ie_total_blocks st' = ie_total_blocks st"
  shows "counts_ok L n (ls @ [l]) st'"
  using assms(1) unfolding counts_ok_def assms(2-8) .

lemma sender_steps_frame:
  "udp_receive d st = Some st' \<Longrightarrow> \<exists>ss. st' = st\<lparr>ie_senders := ss\<rparr>"
  "count_line i st = Some st' \<Longrightarrow> \<exists>ss n. st' = st\<lparr>ie_senders := ss, ie_total_ingested := n\<rparr>"
  "send_line i st = Some (l, st') \<Longrightarrow> \<exists>ss q. st' = st\<lparr>ie_senders := ss, ie_queue := q\<rparr>"
  by (auto simp: udp_receive_def count_line_def send_line_def split: list.splits option.splits if_splits)

lemma counts_ok_step:
  assumes ok: "counts_ok (gl_parser X) n ls st" and step: "ingest_step X args st l st'"
  shows "counts_ok (gl_parser X) n (ls @ [l]) st'"
  using step
proof (cases rule: ingest_step.cases)
  case (step_ingest E raw)
  then obtain rest where q: "st' = ingest_line X E raw (st\<lparr>ie_queue := rest\<rparr>)"
    by (auto simp: take_line_def split: list.splits)
  have "counts_ok (gl_parser X) n ls (st\<lparr>ie_queue := rest\<rparr>) = counts_ok (gl_parser X) n ls st"
    by (simp add: counts_ok_def)
  then have "counts_ok (gl_parser X) n ls (st\<lparr>ie_queue := rest\<rparr>)" using ok by blast
  then show ?thesis unfolding q step_ingest(1) by (rule counts_ok_ingest) (simp add: step_ingest)
qed (rule counts_ok_frame [OF ok]; force dest: sender_steps_frame simp: tcp_accept_def)+

lemma counts_ok_init:
  assumes "ingest_init X args fs st"
  shows "\<exists>b0. batcher_new (gl_integrity X) (ingest_batcher_config args) fs = Ok b0 \<and>
    counts_ok (gl_parser X) (length (ba_ledger b0)) [] st"
  using assms general.miner_ok_new [of default_drain_config]
  by (auto simp: ingest_init_def ingest_start_def ok_iff counts_ok_def fallback_lines_def)

interpretation counts: invariant_of "ingest_init X args fs" "ingest_step X args"
    "\<lambda>ls st. \<exists>b0. batcher_new (gl_integrity X) (ingest_batcher_config args) fs = Ok b0 \<and>
       counts_ok (gl_parser X) (length (ba_ledger b0)) ls st" for X args fs
  by unfold_locales (blast intro: counts_ok_init counts_ok_step)+

text \<open>
  C21. The live counters are exact while the engine runs: what was ingested is sent or being sent, the lines
  the main loop took are parsed or fallback, a line counts as fallback exactly when parsing it failed, and the blocks counted are
  those the ledger gained.
\<close>
theorem ingest_counters_exact:
  assumes "ingest_reach X args fs ls st" "ie_status st = Running"
  shows "ie_total_ingested st = of_nat (length (sent_lines ls) + length (concat (map sending_list (ie_senders st)))) \<and>
    ie_parsed_ok st + ie_fallback_unparsed st = of_nat (length (ingested ls)) \<and>
    ie_fallback_unparsed st = of_nat (length (fallback_lines (gl_parser X) (ingested ls))) \<and>
    (\<exists>b0. batcher_new (gl_integrity X) (ingest_batcher_config args) fs = Ok b0 \<and>
      of_nat (length (ba_ledger b0)) + ie_total_blocks st = of_nat (length (ba_ledger (ie_batcher st))))"
proof -
  obtain b0 where b0: "batcher_new (gl_integrity X) (ingest_batcher_config args) fs = Ok b0"
    "counts_ok (gl_parser X) (length (ba_ledger b0)) ls st"
    using counts.reach_inv [OF assms(1)] by blast
  have "ie_total_ingested st = of_nat (length (sent_lines ls) + length (concat (map sending_list (ie_senders st))))"
    using senders.reach_inv [OF assms(1)] unfolding senders_ok_def by blast
  then show ?thesis using counts_okD [OF b0(2)] assms(2) b0(1) by auto
qed

text \<open>
  On ASCII lines the engine never panics, and a failed write is the only thing that ends it; the channel stays within
  its capacity.
\<close>
theorem ingest_survives_ascii:
  assumes "ingest_reach X args fs ls st" "\<forall>ev \<in> set (ingested ls). ascii_str (snd ev)"
  shows "(ie_status st = Running \<or> (\<exists>e. ie_status st = Stopped e)) \<and> length (ie_queue st) \<le> channel_capacity"
proof -
  have "ie_status st \<noteq> Panicked" using counts.reach_inv [OF assms(1)] assms(2) unfolding counts_ok_def by blast
  then show ?thesis using senders.reach_inv [OF assms(1)] by (cases "ie_status st") (auto simp: senders_ok_def)
qed

subsection \<open>Blocks on disk\<close>

lemma durable_ledger:
  assumes "disk_ok L n st fs" "e \<in> set (ba_ledger st)"
  shows "load_ledger_entries L (bc_ledger_path (ba_config st)) fs = Ok (ba_ledger st)"
  using assms by (auto simp: disk_ok_def ledger_file_def split: option.splits)

lemma find_block_id:
  "sorted_wrt (<) (map le_block_id es) \<Longrightarrow> e \<in> set es \<Longrightarrow> find (\<lambda>x. le_block_id x = le_block_id e) es = Some e"
  by (induction es) (auto simp: order.strict_iff_not)

text \<open>Every entry of a ledger that is as \<open>disk_ok\<close> has it names a block that verifies.\<close>

lemma disk_entry_verifies:
  assumes disk: "disk_ok L n st fs" and e: "e \<in> set (ba_ledger st)" "le_leaf_count e \<noteq> 0"
  shows "\<exists>rep. verify_block_with_ledger L (block_path (ba_config st) (le_parquet_file e))
      (bc_ledger_path (ba_config st)) fs = Some (Ok rep) \<and> rp_is_valid rep \<and> rp_block_id rep = le_block_id e"
proof -
  obtain rs where rs: "read_parquet_file (il_store L) (block_path (ba_config st) (le_parquet_file e)) fs = Some (Ok rs)"
    "block_matches L e rs" using disk e(1) by (auto simp: disk_ok_def entry_ok_def)
  then have "rs \<noteq> []" "sr_block_id (hd rs) = le_block_id e"
    using e(2) by (cases rs; force simp: block_matches_def)+
  then have target: "target_block_id p rs = le_block_id e" for p by (cases rs) (auto simp: target_block_id_def)
  have "find (\<lambda>x. le_block_id x = le_block_id e) (ba_ledger st) = Some e"
    using disk e(1) by (intro find_block_id) (auto simp: disk_ok_def)
  moreover obtain rep where rep: "verify_records L rs e = Some rep" using verify_records_total by blast
  moreover have "rp_is_valid rep"
    using verify_records_valid_iff [OF rep] rs(2) by (simp add: block_matches_def raw_digest_def)
  ultimately show ?thesis
    using rs(1) durable_ledger [OF disk e(1)] target verify_records_root [OF rep]
    by (simp add: verify_block_with_ledger_def Let_def)
qed

text \<open>
  C8. Whatever the interleaving, every block the running engine has anchored verifies against its ledger: the
  verifier finds the entry of each block on disk and reports it valid.
\<close>
theorem ingested_blocks_verify:
  assumes "ingest_reach X args fs ls st" "ie_status st = Running" "ingest_disk X args fs (length (ingested ls))"
    and "e \<in> set (ba_ledger (ie_batcher st))" "le_leaf_count e \<noteq> 0"
  shows "\<exists>rep. verify_block_with_ledger (gl_integrity X) (path_join (ia_parquet_dir args) (le_parquet_file e))
      (ia_ledger args) (ie_fs st) = Some (Ok rep) \<and> rp_is_valid rep \<and> rp_block_id rep = le_block_id e"
proof -
  have "disk_ok (gl_integrity X) 0 (ie_batcher st) (ie_fs st)" "ba_config (ie_batcher st) = ingest_batcher_config args"
    using conservation.reach_inv [OF assms(1), of "length (ingested ls)"] assms(2,3)
    by (auto simp: conserves_def engine_disk_def durable_def)
  from disk_entry_verifies [OF this(1) assms(4,5)] this(2) show ?thesis
    by (simp add: block_path_def ingest_batcher_config_def)
qed

subsection \<open>A silent engine\<close>

text \<open>
  The main loop looks at the clock only when a line comes: while none does, whatever else happens and however long it
  takes, the batch stays in memory, past any configured timeout.
\<close>
theorem silent_engine_keeps_batch:
  assumes "reach (\<lambda>s. s = st) (ingest_step X args) ls st'" "ingested ls = []"
  shows "ie_batcher st' = ie_batcher st \<and> ie_fs st' = ie_fs st"
  using assms
proof (induction rule: reach.induct)
  case (reach_step ls s l s')
  from reach_step.hyps(2) have "ie_batcher s' = ie_batcher s \<and> ie_fs s' = ie_fs s"
    by (cases rule: ingest_step.cases)
      (use reach_step.prems in \<open>force dest: sender_steps_frame simp: tcp_accept_def\<close>)+
  then show ?case using reach_step by simp
qed simp

subsection \<open>A run\<close>

text \<open>The engine on a disk with one anchored block takes one line.\<close>

definition trial_libs :: ingest_libs where
  "trial_libs = \<lparr>gl_parser = test_parser_libs, gl_masker = plain_libs, gl_integrity = TL, gl_event_ser = (\<lambda>a. None)\<rparr>"

definition trial_args :: ingest_args where
  "trial_args = default_ingest_args\<lparr>ia_parquet_dir := ''data'', ia_ledger := ''ledger.jsonl'', ia_batch_size := 2\<rparr>"

definition trial_line_env :: line_env where
  "trial_line_env = \<lparr>ne_parse = Parser_Properties.test_env, ne_drain = drain_env0, ne_push = test_push_env\<rparr>"

definition trial_labels :: "ingest_label list" where
  "trial_labels = [Datagram ''a'', Counted 0, Sent 0 ''a'', Ingested trial_line_env ''a'']"

lemma trial_simps:
  "gl_parser trial_libs = test_parser_libs" "gl_masker trial_libs = plain_libs" "gl_integrity trial_libs = TL"
  "ne_parse trial_line_env = Parser_Properties.test_env" "ne_drain trial_line_env = drain_env0"
  "ne_push trial_line_env = test_push_env"
  by (simp_all add: trial_libs_def trial_line_env_def)

lemma trial_config: "ingest_batcher_config trial_args = test_config"
  by (simp add: ingest_batcher_config_def trial_args_def default_ingest_args_def test_config_def)

lemma flushed_config: "ba_config flushed_batcher = test_config"
  using flush_test flush_state by fastforce

lemma trial_disk: "n \<le> 4 \<Longrightarrow> ingest_disk trial_libs trial_args flushed_fs n"
  using disk_ok_flushed flushed_config
  by (auto simp: ingest_disk_def trial_config trial_libs_def disk_ok_def intro!: exI [of _ flushed_batcher])

lemma trial_start:
  "\<exists>st. ingest_reach trial_libs trial_args flushed_fs [] st \<and> ie_status st = Running \<and>
     ie_senders st = [idle_sender] \<and> ie_queue st = [] \<and> ba_buffer (ie_batcher st) = [] \<and>
     ba_config (ie_batcher st) = test_config \<and> ba_ledger (ie_batcher st) = ba_ledger flushed_batcher \<and>
     ie_fs st = flushed_fs \<and> ie_miner st = drain_new default_drain_config"
proof -
  obtain b where b: "batcher_new TL test_config flushed_fs = Ok b" "ba_ledger b = ba_ledger flushed_batcher"
    "ba_config b = test_config" "ba_buffer b = []"
    using batcher_new_durable [OF disk_ok_flushed] flushed_config by auto
  then show ?thesis
    by (intro exI conjI, intro reach_init, unfold ingest_init_def, simp add: ingest_start_def trial_config trial_libs_def)
      simp_all
qed

lemma trial_push:
  assumes "ba_buffer b = []" "ba_config b = test_config"
  shows "\<exists>b'. push TL test_push_env item (b, fs) = Some (Ok None, b', fs)"
proof -
  let ?b = "b\<lparr>ba_first_item_time := Some 0, ba_buffer := [item]\<rparr>"
  have "\<not> should_flush 1 ?b"
    using assms(2) by (simp add: should_flush_def pending_duration_def max_duration_ns_def test_config_def)
  then show ?thesis using assms(1) by (simp add: push_def test_push_env_def Let_def)
qed

lemma trial_sent:
  "\<exists>st. ingest_reach trial_libs trial_args flushed_fs [Datagram ''a'', Counted 0, Sent 0 ''a''] st \<and>
     ie_status st = Running \<and> ie_queue st = [''a''] \<and> ba_buffer (ie_batcher st) = [] \<and>
     ba_config (ie_batcher st) = test_config \<and> ie_miner st = drain_new default_drain_config"
proof -
  obtain st where st: "ingest_reach trial_libs trial_args flushed_fs [] st" "ie_status st = Running"
    "ie_senders st = [idle_sender]" "ie_queue st = []" "ba_buffer (ie_batcher st) = []"
    "ba_config (ie_batcher st) = test_config" "ie_miner st = drain_new default_drain_config"
    using trial_start by blast
  have "utf8_valid ''a''" "nonblank_lines (str_lines ''a'') = [''a'']" by code_simp+
  then have l: "datagram_lines ''a'' = [''a'']" by (simp add: datagram_lines_def)
  let ?st1 = "st\<lparr>ie_senders := [\<lparr>sd_lines = [''a''], sd_sending = None\<rparr>]\<rparr>"
  let ?st2 = "st\<lparr>ie_senders := [\<lparr>sd_lines = [], sd_sending = Some ''a''\<rparr>], ie_total_ingested := ie_total_ingested st + 1\<rparr>"
  let ?st3 = "?st2\<lparr>ie_senders := [idle_sender], ie_queue := [''a'']\<rparr>"
  have "enable_udp trial_args" by (simp add: enable_udp_def trial_args_def default_ingest_args_def)
  moreover have "udp_receive ''a'' st = Some ?st1" using st(3) l by (simp add: udp_receive_def idle_sender_def)
  ultimately have "ingest_step trial_libs trial_args st (Datagram ''a'') ?st1" using st(2) by (intro step_datagram)
  moreover have "ingest_step trial_libs trial_args ?st1 (Counted 0) ?st2"
    by (rule step_count) (use st(2) in \<open>simp_all add: count_line_def\<close>)
  moreover have "ingest_step trial_libs trial_args ?st2 (Sent 0 ''a'') ?st3"
    by (rule step_send) (use st(2,4) in \<open>simp_all add: send_line_def channel_capacity_def idle_sender_def\<close>)
  ultimately have "ingest_reach trial_libs trial_args flushed_fs ((([] @ [Datagram ''a'']) @ [Counted 0]) @ [Sent 0 ''a'']) ?st3"
    using st(1) by (intro reach_step)
  then show ?thesis using st by (intro exI [of _ ?st3]) simp
qed

lemma trial_ingest:
  assumes "ie_status st = Running" "ba_buffer (ie_batcher st) = []" "ba_config (ie_batcher st) = test_config"
    "ie_miner st = drain_new default_drain_config"
  shows "ie_status (ingest_line trial_libs trial_line_env ''a'' st) = Running"
proof -
  obtain event where event: "parse_lossless test_parser_libs Parser_Properties.test_env ''a'' = Some event"
    using parse_lossless_ascii [of "''a''"] by (auto simp: ascii_str_def)
  obtain res miner where m: "add_log plain_libs drain_env0 ''a'' (drain_new default_drain_config) = Some (res, miner)"
    using general.add_log_ok [OF general.miner_ok_new [of default_drain_config], of plain_libs "''a''" drain_env0]
    by (auto simp: list_all_iff)
  let ?st = "count_alert (cr_anomaly res) ((count_event event st)\<lparr>ie_miner := miner\<rparr>)"
  have line: "ingest_line trial_libs trial_line_env ''a'' st =
      batch_line trial_libs test_push_env (incoming_event trial_libs event ''a'') ?st"
    unfolding ingest_line_def trial_simps event option.case Let_def count_event_simps assms(4) m by simp
  obtain b where b: "push TL test_push_env (incoming_event trial_libs event ''a'') (ie_batcher ?st, ie_fs ?st) =
      Some (Ok None, b, ie_fs ?st)"
    using trial_push [of "ie_batcher ?st"] assms(2,3) by auto
  show ?thesis unfolding line batch_line_def trial_simps b using assms(1) by simp
qed

lemma trial_run:
  "\<exists>st. ingest_reach trial_libs trial_args flushed_fs trial_labels st \<and> ie_status st = Running"
proof -
  obtain st where st: "ingest_reach trial_libs trial_args flushed_fs [Datagram ''a'', Counted 0, Sent 0 ''a''] st"
    "ie_status st = Running" "ie_queue st = [''a'']" "ba_buffer (ie_batcher st) = []"
    "ba_config (ie_batcher st) = test_config" "ie_miner st = drain_new default_drain_config"
    using trial_sent by blast
  let ?st = "st\<lparr>ie_queue := []\<rparr>"
  have "ingest_step trial_libs trial_args st (Ingested trial_line_env ''a'')
      (ingest_line trial_libs trial_line_env ''a'' ?st)"
    by (rule step_ingest [OF st(2)]) (simp add: take_line_def st(3))
  then have "ingest_reach trial_libs trial_args flushed_fs
      ([Datagram ''a'', Counted 0, Sent 0 ''a''] @ [Ingested trial_line_env ''a''])
      (ingest_line trial_libs trial_line_env ''a'' ?st)"
    by (rule reach_step [OF st(1)])
  moreover have "ie_status (ingest_line trial_libs trial_line_env ''a'' ?st) = Running"
    by (rule trial_ingest) (use st in simp_all)
  ultimately show ?thesis unfolding trial_labels_def append.simps by blast
qed

theorem ingest_conserves_lines_witness:
  "\<exists>st b0. ingest_reach trial_libs trial_args flushed_fs trial_labels st \<and>
     batcher_new TL test_config flushed_fs = Ok b0 \<and>
     stored_logs TL (ie_batcher st, ie_fs st) @ pending_logs (ie_batcher st, ie_fs st) @ ie_queue st =
       stored_logs TL (b0, flushed_fs) @ [''a'']"
proof -
  obtain st where st: "ingest_reach trial_libs trial_args flushed_fs trial_labels st" "ie_status st = Running"
    using trial_run by blast
  have "sent_lines trial_labels = [''a'']" "length (ingested trial_labels) = 1"
    by (simp_all add: trial_labels_def sent_lines_def ingested_def map_filter_simps)
  with ingest_conserves_lines [OF st trial_disk] st(1) show ?thesis by (auto simp: trial_config trial_simps)
qed

theorem ingest_counters_exact_witness:
  "\<exists>st. ingest_reach trial_libs trial_args flushed_fs trial_labels st \<and>
     ie_parsed_ok st + ie_fallback_unparsed st = 1"
proof -
  obtain st where st: "ingest_reach trial_libs trial_args flushed_fs trial_labels st" "ie_status st = Running"
    using trial_run by blast
  have "length (ingested trial_labels) = 1"
    by (simp add: trial_labels_def ingested_def map_filter_simps)
  with ingest_counters_exact [OF st] st(1) show ?thesis by auto
qed

theorem ingest_survives_ascii_witness:
  "\<exists>st. ingest_reach trial_libs trial_args flushed_fs trial_labels st \<and>
     (ie_status st = Running \<or> (\<exists>e. ie_status st = Stopped e)) \<and> length (ie_queue st) \<le> channel_capacity"
proof -
  obtain st where st: "ingest_reach trial_libs trial_args flushed_fs trial_labels st"
    using trial_run by blast
  have "\<forall>ev \<in> set (ingested trial_labels). ascii_str (snd ev)"
    by (simp add: trial_labels_def ingested_def map_filter_simps ascii_str_def)
  from ingest_survives_ascii [OF st this] st show ?thesis by blast
qed

theorem ingested_blocks_verify_witness:
  "\<exists>st rep. ingest_reach trial_libs trial_args flushed_fs [] st \<and>
     verify_block_with_ledger TL (path_join ''data'' (le_parquet_file test_entry)) ''ledger.jsonl'' (ie_fs st) =
       Some (Ok rep) \<and> rp_is_valid rep \<and> rp_block_id rep = le_block_id test_entry"
proof -
  obtain st where st: "ingest_reach trial_libs trial_args flushed_fs [] st" "ie_status st = Running"
    "ba_ledger (ie_batcher st) = ba_ledger flushed_batcher"
    using trial_start by blast
  have e: "test_entry \<in> set (ba_ledger (ie_batcher st))" "le_leaf_count test_entry \<noteq> 0"
    using st(3) by (simp_all add: flushed_batcher_def test_entry_def)
  have a: "ia_parquet_dir trial_args = ''data''" "ia_ledger trial_args = ''ledger.jsonl''"
    by (simp_all add: trial_args_def)
  from ingested_blocks_verify [OF st(1,2) trial_disk e] st(1) show ?thesis by (auto simp: a trial_simps)
qed

theorem silent_engine_keeps_batch_witness:
  "\<exists>st st'. ingest_reach trial_libs trial_args flushed_fs [] st \<and>
     reach (\<lambda>s. s = st) (ingest_step trial_libs trial_args) [Accepted ''a''] st' \<and>
     ie_batcher st' = ie_batcher st \<and> ie_fs st' = ie_fs st"
proof -
  obtain st where st: "ingest_reach trial_libs trial_args flushed_fs [] st" "ie_status st = Running"
    using trial_start by blast
  have "enable_tcp trial_args" by (simp add: enable_tcp_def trial_args_def default_ingest_args_def)
  with st(2) have "ingest_step trial_libs trial_args st (Accepted ''a'') (tcp_accept ''a'' st)"
    by (rule step_accept)
  then have r: "reach (\<lambda>s. s = st) (ingest_step trial_libs trial_args) ([] @ [Accepted ''a'']) (tcp_accept ''a'' st)"
    by (intro reach_step reach_init) simp
  have "ingested ([] @ [Accepted ''a'']) = []" by (simp add: ingested_def map_filter_simps)
  from silent_engine_keeps_batch [OF r this] r st(1) show ?thesis by (metis append_Nil)
qed

end
