(* ===== verification/Ingest_Setup_Properties.thy ===== *)
theory Ingest_Setup_Properties
  imports Ingest_Setup Socket_Setup_Properties Ingest_Properties
begin

text \<open>
  Properties of the start of \<open>ulpf ingest\<close> and of its live report: at least one listener opens, with the options and
  the address of the arguments, before the ledger is read; the differences the report shows add up to the lines counted,
  and its percentage is one when its counters are read at once.
\<close>

subsection \<open>Paths\<close>

lemma parent_examples:
  "path_parent ''data/ledger.jsonl'' = Some ''data''" "path_parent ''ledger.jsonl'' = Some []"
  "path_parent ''/ledger.jsonl'' = Some ''/''" "path_parent ''/'' = None" "path_parent [] = None"
  "path_parent ''./a/./b/'' = Some ''./a''"
  by code_simp+

subsection \<open>Setup\<close>

lemma some_listener: "enable_udp args \<or> enable_tcp args"
  by (cases "map_option to_ascii_lowercase (ia_proto args)") (auto simp: enable_udp_def enable_tcp_def)

lemma open_udp_ready:
  "open_udp S args = Ok u \<Longrightarrow>
     (case u of
        None \<Rightarrow> \<not> enable_udp args
      | Some s \<Rightarrow> enable_udp args \<and> (\<exists>addr. iu_parse_addr S (udp_bind_str args) = Some addr \<and>
          ready_socket (iu_udp S) Type_Dgram addr (ia_reuse_port args) s))"
  by (auto simp: open_udp_def res_bind_def ok_or_def io_result_def dest: create_udp_socket_ready
      split: if_splits sum.splits option.splits)

lemma open_tcp_ready:
  "open_tcp S args = Ok u \<Longrightarrow>
     (case u of
        None \<Rightarrow> \<not> enable_tcp args
      | Some s \<Rightarrow> enable_tcp args \<and> (\<exists>addr. iu_parse_addr S (tcp_bind_str args) = Some addr \<and>
          ready_socket (iu_tcp S) Type_Stream addr (ia_reuse_port args) s \<and> so_backlog s = Some 1024))"
  by (auto simp: open_tcp_def res_bind_def ok_or_def io_result_def dest: create_tcp_listener_ready
      split: if_splits sum.splits option.splits)

text \<open>
  The listeners the arguments ask for: each protocol unless the other one is asked for alone, at the address that is common
  to both or its own, with the socket options of the code, a backlog of 1024 over TCP, and the port shared exactly when
  that was asked for and the system can.
\<close>

definition asked_udp :: "'e ingest_os \<Rightarrow> ingest_args \<Rightarrow> socket option \<Rightarrow> bool" where
  "asked_udp S args udp \<longleftrightarrow>
     (case udp of
        None \<Rightarrow> map_option to_ascii_lowercase (ia_proto args) = Some ''tcp''
      | Some s \<Rightarrow> map_option to_ascii_lowercase (ia_proto args) \<noteq> Some ''tcp'' \<and>
          (\<exists>addr. iu_parse_addr S (unwrap_or (ia_udp args) (ia_bind args)) = Some addr \<and>
             ready_socket (iu_udp S) Type_Dgram addr (ia_reuse_port args) s))"

definition asked_tcp :: "'e ingest_os \<Rightarrow> ingest_args \<Rightarrow> socket option \<Rightarrow> bool" where
  "asked_tcp S args tcp \<longleftrightarrow>
     (case tcp of
        None \<Rightarrow> map_option to_ascii_lowercase (ia_proto args) = Some ''udp''
      | Some s \<Rightarrow> map_option to_ascii_lowercase (ia_proto args) \<noteq> Some ''udp'' \<and>
          (\<exists>addr. iu_parse_addr S (unwrap_or (ia_tcp args) (ia_bind args)) = Some addr \<and>
             ready_socket (iu_tcp S) Type_Stream addr (ia_reuse_port args) s \<and> so_backlog s = Some 1024))"

lemma open_asked:
  "open_udp S args = Ok u \<Longrightarrow> asked_udp S args u" "open_tcp S args = Ok t \<Longrightarrow> asked_tcp S args t"
  using open_udp_ready [of S args u] open_tcp_ready [of S args t]
  by (auto simp: asked_udp_def asked_tcp_def enable_udp_def enable_tcp_def udp_bind_str_def tcp_bind_str_def split: option.splits)

lemma asked_one: "asked_udp S args u \<Longrightarrow> asked_tcp S args t \<Longrightarrow> u \<noteq> None \<or> t \<noteq> None"
  by (cases u; cases t) (auto simp: asked_udp_def asked_tcp_def)

lemma setup_stages:
  "run_ingest_setup X S args fs = Ok st \<Longrightarrow> make_directories S args = Ok () \<and> open_udp S args = Ok (su_udp st) \<and>
     open_tcp S args = Ok (su_tcp st) \<and> ingest_start X args fs = Ok (su_engine st)"
  "run_ingest_setup X S args fs = Err (Setup_Batch b) \<Longrightarrow>
     ingest_start X args fs = Err b \<and> (\<exists>u t. open_udp S args = Ok u \<and> open_tcp S args = Ok t)"
  by (auto simp: run_ingest_setup_def make_directories_def create_dir_all_def res_bind_def open_udp_def open_tcp_def
      io_result_def ok_or_def split: sum.splits option.splits if_splits)

text \<open>
  C27. A start of \<open>ulpf ingest\<close> that succeeds has its directories, an engine in its initial state, and at least one
  listener: each protocol is open unless the arguments ask for the other one alone, bound to the address that the
  arguments give for it, non-blocking, with a backlog of 1024 over TCP, and the port shared exactly when that was asked for
  and the system can. The ledger is read last: when it is what fails, these listeners are open already.
\<close>
theorem ingest_setup_ready:
  assumes "run_ingest_setup X S args fs = r"
  shows "case r of
      Inr st \<Rightarrow> ingest_reach X args fs [] (su_engine st) \<and> (su_udp st \<noteq> None \<or> su_tcp st \<noteq> None) \<and>
        asked_udp S args (su_udp st) \<and> asked_tcp S args (su_tcp st) \<and> iu_create_dir S (ia_parquet_dir args) = None \<and>
        (\<forall>parent. path_parent (ia_ledger args) = Some parent \<longrightarrow> iu_create_dir S parent = None)
    | Inl e \<Rightarrow> (\<forall>b. e = Setup_Batch b \<longrightarrow> batcher_new (gl_integrity X) (ingest_batcher_config args) fs = Err b \<and>
        (\<exists>u t. (u \<noteq> None \<or> t \<noteq> None) \<and> open_udp S args = Ok u \<and> asked_udp S args u \<and>
          open_tcp S args = Ok t \<and> asked_tcp S args t))"
proof (cases r)
  case (Inl e)
  have "batcher_new (gl_integrity X) (ingest_batcher_config args) fs = Err b" if "ingest_start X args fs = Err b" for b
    using that by (auto simp: ingest_start_def res_bind_def split: sum.splits)
  then show ?thesis using assms Inl setup_stages(2) [of X S args fs] open_asked asked_one by (fastforce split del: if_split)
next
  case (Inr st)
  note st = setup_stages(1) [OF assms [unfolded Inr]]
  then have "ingest_reach X args fs [] (su_engine st)" by (intro reach_init) (simp add: ingest_init_def)
  moreover have "asked_udp S args (su_udp st)" "asked_tcp S args (su_tcp st)" using st open_asked by blast+
  moreover have "iu_create_dir S (ia_parquet_dir args) = None"
    "\<forall>parent. path_parent (ia_ledger args) = Some parent \<longrightarrow> iu_create_dir S parent = None"
    using st by (auto simp: make_directories_def create_dir_all_def res_bind_def split: option.splits sum.splits)
  ultimately show ?thesis using asked_one [of S args "su_udp st" "su_tcp st"] Inr by auto
qed

subsection \<open>The live report\<close>

definition fifo_ok :: "ingest_label list \<Rightarrow> ingest_engine \<Rightarrow> bool" where
  "fifo_ok ls st \<longleftrightarrow> map snd (ingested ls) @ ie_queue st = sent_lines ls"

interpretation fifo: invariant_of "ingest_init X args fs" "ingest_step X args" fifo_ok for X args fs
proof
  show "fifo_ok [] st" if "ingest_init X args fs st" for st
    using that by (auto simp: fifo_ok_def ingest_init_def ingest_start_def res_bind_def split: sum.splits)
next
  fix ls st l st'
  assume "fifo_ok ls st" and step: "ingest_step X args st l st'"
  from step this show "fifo_ok (ls @ [l]) st'"
    by cases (auto simp: fifo_ok_def udp_receive_def tcp_accept_def count_line_def send_line_def take_line_def
        split: list.splits option.splits if_splits)
qed

lemma live_run_diffs:
  "sorted (map unat (lr_last_count r # map (lv_total \<circ> snd) readings)) \<Longrightarrow>
     (\<Sum>l \<leftarrow> lr_shown (fold live_tick readings r). unat (ll_diff l)) + unat (lr_last_count r) =
       (\<Sum>l \<leftarrow> lr_shown r. unat (ll_diff l)) + unat (last (lr_last_count r # map (lv_total \<circ> snd) readings))"
proof (induction readings arbitrary: r)
  case (Cons rd readings)
  obtain elapsed c where rd: "rd = (elapsed, c)" by force
  have le: "lr_last_count r \<le> lv_total c" using Cons.prems rd by (simp add: word_le_nat_alt)
  have tick: "lr_last_count (live_tick rd r) = lv_total c"
    "lr_shown (live_tick rd r) = lr_shown r @ [live_line_of elapsed (lr_last_count r) c]"
    by (simp_all add: live_tick_def rd)
  have "unat (ll_diff (live_line_of elapsed (lr_last_count r) c)) + unat (lr_last_count r) = unat (lv_total c)"
    using le by (simp add: live_line_of_def saturating_sub_def Let_def unat_sub word_le_nat_alt)
  moreover have "sorted (map unat (lr_last_count (live_tick rd r) # map (lv_total \<circ> snd) readings))"
    using Cons.prems rd tick by (simp add: o_def)
  note Cons.IH [OF this]
  ultimately show ?case using tick rd by (cases "readings = []") simp_all
qed simp

lemma ok_within_total:
  assumes "ingest_reach X args fs ls st" "ie_status st = Running"
    and "length (sent_lines ls) + length (concat (map sending_list (ie_senders st))) < 2 ^ 64"
  shows "ie_parsed_ok st \<le> ie_total_ingested st"
proof -
  let ?F = "length (fallback_lines (gl_parser X) (ingested ls))" and ?I = "length (ingested ls)"
    and ?T = "length (sent_lines ls) + length (concat (map sending_list (ie_senders st)))"
  obtain n where "counts_ok (gl_parser X) n ls st" using counts.reach_inv [OF assms(1)] by blast
  from counts_okD [OF this] assms(2) have c: "ie_fallback_unparsed st = of_nat ?F"
    "ie_parsed_ok st + ie_fallback_unparsed st = of_nat ?I" by auto
  have t: "ie_total_ingested st = of_nat ?T" using senders.reach_inv [OF assms(1)] unfolding senders_ok_def by blast
  have F: "?F \<le> ?I" by (simp add: fallback_lines_def)
  have "map snd (ingested ls) @ ie_queue st = sent_lines ls" using fifo.reach_inv [OF assms(1)] by (simp add: fifo_ok_def)
  then have I: "?I \<le> ?T" by (metis le_add1 length_append length_map trans_le_add1)
  have "ie_parsed_ok st = of_nat (?I - ?F)" using c F by (simp add: of_nat_diff algebra_simps)
  moreover have "?I - ?F \<le> ?T" using I by simp
  ultimately show ?thesis unfolding t word_le_nat_alt using assms(3)
    by (simp add: unat_of_nat take_bit_nat_eq_self del: of_nat_add of_nat_diff)
qed

lemma shown_last: "readings \<noteq> [] \<Longrightarrow> lr_shown (fold live_tick readings r) \<noteq> [] \<and>
    ll_counters (last (lr_shown (fold live_tick readings r))) = snd (last readings) \<and>
    (\<exists>elapsed prev. last (lr_shown (fold live_tick readings r)) = live_line_of elapsed prev (snd (last readings)))"
proof (induction readings rule: rev_induct)
  case (snoc rd readings)
  then show ?case by (cases rd) (auto simp: live_tick_def live_line_of_def Let_def)
qed simp

lemma share_bounds:
  "a \<le> b \<Longrightarrow> 0 < b \<Longrightarrow> 0 \<le> (of_nat a / of_nat b * 100 :: rat) \<and> (of_nat a / of_nat b * 100 :: rat) \<le> 100"
  by (simp add: divide_le_eq)

lemma pct_bounds:
  assumes "lv_ok c \<le> lv_total c"
  shows "0 \<le> ll_ok_pct (live_line_of e p c) \<and> ll_ok_pct (live_line_of e p c) \<le> 100"
proof (cases "0 < lv_total c")
  case True
  then have "0 < unat (lv_total c)" by (simp add: unat_gt_0)
  from share_bounds [OF assms [unfolded word_le_nat_alt] this] True show ?thesis
    by (simp only: live_line_of_def Let_def live_line.simps if_True)
qed (simp add: live_line_of_def Let_def)

text \<open>
  What the live report shows is what happened: the differences of successive seconds add up to the lines counted, and when
  the counters of a line are read at one moment, before the 64 bits are exhausted, the share parsed is a percentage.
\<close>
theorem live_report_exact:
  assumes "ingest_reach X args fs ls st" "ie_status st = Running"
    and "length (sent_lines ls) + length (concat (map sending_list (ie_senders st))) < 2 ^ 64"
    and "sorted (map (\<lambda>rd. unat (lv_total (snd rd))) readings)"
    and "readings \<noteq> []" "snd (last readings) = load_counters st st st st st st"
  shows "(\<Sum>l \<leftarrow> lr_shown (fold live_tick readings live_start). unat (ll_diff l)) =
      length (sent_lines ls) + length (concat (map sending_list (ie_senders st))) \<and>
    0 \<le> ll_ok_pct (last (lr_shown (fold live_tick readings live_start))) \<and>
    ll_ok_pct (last (lr_shown (fold live_tick readings live_start))) \<le> 100"
proof -
  let ?T = "length (sent_lines ls) + length (concat (map sending_list (ie_senders st)))"
  have "lv_ok (snd (last readings)) \<le> lv_total (snd (last readings))"
    using ok_within_total [OF assms(1-3)] assms(6) by (simp add: load_counters_def)
  then have pct: "0 \<le> ll_ok_pct (last (lr_shown (fold live_tick readings live_start))) \<and>
      ll_ok_pct (last (lr_shown (fold live_tick readings live_start))) \<le> 100"
    using shown_last [OF assms(5), of live_start] pct_bounds by metis
  have "ie_total_ingested st = of_nat ?T" using senders.reach_inv [OF assms(1)] unfolding senders_ok_def by blast
  then have "unat (lv_total (snd (last readings))) = ?T"
    using assms(3,6) by (simp add: load_counters_def unat_of_nat take_bit_nat_eq_self del: of_nat_add)
  moreover have "last (lr_last_count live_start # map (lv_total \<circ> snd) readings) = lv_total (snd (last readings))"
    using assms(5) by (simp add: last_map)
  moreover have "sorted (map unat (lr_last_count live_start # map (lv_total \<circ> snd) readings))"
    using assms(4) by (simp add: live_start_def o_def)
  ultimately show ?thesis using live_run_diffs [of live_start readings] pct by (simp add: live_start_def)
qed

theorem live_report_exact_witness:
  "\<exists>st. ingest_reach trial_libs trial_args flushed_fs [] st \<and>
     ll_ok_pct (last (lr_shown (fold live_tick [(1, load_counters st st st st st st)] live_start))) \<le> 100"
proof -
  obtain st where st: "ingest_reach trial_libs trial_args flushed_fs [] st" "ie_status st = Running"
    "ie_senders st = [idle_sender]" using trial_start by blast
  have "length (sent_lines []) + length (concat (map sending_list (ie_senders st))) < 2 ^ 64"
    by (simp add: st(3) sent_lines_def map_filter_simps idle_sender_def)
  from live_report_exact [OF st(1,2) this, of "[(1, load_counters st st st st st st)]"] st(1) show ?thesis by auto
qed

definition willing_os :: "unit socket_os" where
  "willing_os = \<lparr>sy_outcome = (\<lambda>s c. None), sy_has_reuse_port = True\<rparr>"

definition willing_ingest_os :: "unit ingest_os" where
  "willing_ingest_os = \<lparr>iu_create_dir = (\<lambda>d. None), iu_parse_addr = (\<lambda>a. Some (V4 0 5140)), iu_udp = willing_os,
     iu_tcp = willing_os\<rparr>"

lemma willing_sockets:
  "\<exists>s. create_udp_socket willing_os addr b = Ok s" "\<exists>s. create_tcp_listener willing_os addr b n = Ok s"
  by (simp_all add: create_udp_socket_def create_tcp_listener_def open_socket_def res_bind_def sys_call_def willing_os_def)

theorem ingest_setup_ready_witness:
  "\<exists>st. run_ingest_setup trial_libs willing_ingest_os trial_args flushed_fs = Ok st \<and>
     (\<exists>s. su_tcp st = Some s \<and> so_bound s = Some (V4 0 5140, True) \<and> so_backlog s = Some 1024)"
proof -
  obtain u t where "open_udp willing_ingest_os trial_args = Ok u" "open_tcp willing_ingest_os trial_args = Ok t"
    using willing_sockets(1) [of "V4 0 5140" "ia_reuse_port trial_args"]
      willing_sockets(2) [of "V4 0 5140" "ia_reuse_port trial_args" 1024]
    by (force simp: open_udp_def open_tcp_def willing_ingest_os_def ok_or_def res_bind_def io_result_def)
  moreover have "make_directories willing_ingest_os trial_args = Ok ()"
    by (simp add: make_directories_def create_dir_all_def willing_ingest_os_def res_bind_def split: option.split)
  moreover obtain e where "ingest_start trial_libs trial_args flushed_fs = Ok e"
    using trial_start by (metis append_is_Nil_conv ingest_init_def not_Cons_self2 reach.cases)
  ultimately obtain st where r: "run_ingest_setup trial_libs willing_ingest_os trial_args flushed_fs = Ok st"
    by (auto simp: run_ingest_setup_def res_bind_def)
  have "ia_proto trial_args = None" "ia_reuse_port trial_args" by (simp_all add: trial_args_def default_ingest_args_def)
  with ingest_setup_ready [OF r] have "\<exists>s. su_tcp st = Some s \<and> so_bound s = Some (V4 0 5140, True) \<and> so_backlog s = Some 1024"
    by (auto simp: asked_tcp_def ready_socket_def willing_ingest_os_def willing_os_def split: option.splits)
  with r show ?thesis by blast
qed

end
