(* ===== verification/Evaluator.thy ===== *)
theory Evaluator
  imports Pipeline
begin

text \<open>
  The evaluator of \<open>ulpf-ai/src/evaluator.rs\<close> without its two report renderers: the ground truth of a line, the
  accuracy audit, the latency distribution, the counters of the benchmark workers, and the report. Percentages and
  latencies are exact rationals, a quotient by zero is what \<open>f64\<close> makes of it, and the standard deviation is a
  real. Measured times, the parser under test and the clustering under test are arguments. \<open>None\<close> is a panic.
\<close>

subsection \<open>Numbers\<close>

definition f64_div :: "rat \<Rightarrow> rat \<Rightarrow> float_val" where
  "f64_div x y = (if y \<noteq> 0 then Finite (x / y) else if x = 0 then Not_a_number else Infinite (x < 0))"

definition percent :: "nat \<Rightarrow> nat \<Rightarrow> float_val" where
  "percent x n = (case f64_div (of_nat x) (of_nat n) of Finite r \<Rightarrow> Finite (r * 100) | v \<Rightarrow> v)"

definition clamp_rat :: "rat \<Rightarrow> rat \<Rightarrow> rat \<Rightarrow> rat" where
  "clamp_rat lo hi x = (if x < lo then lo else if hi < x then hi else x)"

definition calc_diff :: "rat \<Rightarrow> rat \<Rightarrow> rat" where
  "calc_diff baseline tiered =
     (if 0 < baseline then clamp_rat (- 999) (999 / 10) ((baseline - tiered) / baseline * 100) else 0)"

subsection \<open>Ground truth\<close>

type_synonym ground_truth = "string \<times> string \<times> string option"

text \<open>Without a colon the tag is cut at 15 bytes, and a shorter or split text panics.\<close>

definition asa_tag :: "string \<Rightarrow> string option" where
  "asa_tag raw =
     (case find_str raw ''%ASA-'' of
        None \<Rightarrow> Some ''%ASA''
      | Some pos \<Rightarrow> do {
          rest \<leftarrow> slice_from raw pos;
          let end = unwrap_or 15 (find_idx (\<lambda>c. c = CHR '':'') rest) in
          map_option trim (slice raw pos (pos + end))
        })"

definition asa_action :: "string \<Rightarrow> string option" where
  "asa_action raw =
     (if contains raw ''Built'' \<or> contains raw ''permit'' then Some ''Allowed''
      else if contains raw ''Deny'' \<or> contains raw ''drop'' then Some ''Dropped''
      else if contains raw ''Teardown'' then Some ''Allowed''
      else None)"

definition fortinet_action :: "string \<Rightarrow> string option" where
  "fortinet_action raw =
     (if contains raw ''action=\"accept\"'' \<or> contains raw ''action=accept'' then Some ''Allowed''
      else if contains raw ''action=\"deny\"'' \<or> contains raw ''action=deny'' \<or> contains raw ''action=\"drop\"''
        then Some ''Dropped''
      else None)"

definition panos_action :: "string \<Rightarrow> string option" where
  "panos_action raw =
     (if contains raw '',allow,'' then Some ''Allowed''
      else if contains raw '',deny,'' \<or> contains raw '',drop,'' then Some ''Dropped''
      else None)"

definition pfsense_action :: "string \<Rightarrow> string option" where
  "pfsense_action raw =
     (if contains raw '',pass,'' then Some ''Allowed''
      else if contains raw '',block,'' then Some ''Blocked''
      else None)"

definition extract_ground_truth :: "string \<Rightarrow> ground_truth option" where
  "extract_ground_truth raw =
     (if contains raw ''%ASA-'' then map_option (\<lambda>tag. (''Cisco'', tag, asa_action raw)) (asa_tag raw)
      else if contains raw ''devname='' \<or> contains raw ''type=\"traffic\"'' \<or> contains raw ''logid='' then
        Some (''Fortinet'', ''fortigate_traffic'', fortinet_action raw)
      else if contains raw '',TRAFFIC,'' \<or> contains raw '',THREAT,'' then
        Some (''Palo Alto'', ''panos_traffic'', panos_action raw)
      else if starts_with raw ''{'' \<or> contains raw ''\"event_type\"'' then
        Some (''Suricata'', (if contains raw ''\"alert\"'' then ''suricata_alert'' else ''suricata_flow''),
          Some (if contains raw ''\"alert\"'' then ''Blocked'' else ''Allowed''))
      else if contains raw ''filterlog['' \<or> contains raw ''filterlog:'' then
        Some (''pfSense'', ''pfsense_filterlog'', pfsense_action raw)
      else Some (''Unknown'', ''unknown_template'', None))"

subsection \<open>The accuracy audit\<close>

record accuracy_audit =
  ac_total_audited :: nat
  ac_vendor_classification :: float_val
  ac_grouping :: float_val
  ac_template :: float_val
  ac_field_f1 :: float_val
  ac_src_ip :: float_val
  ac_dst_ip :: float_val
  ac_src_port :: float_val
  ac_dst_port :: float_val
  ac_protocol :: float_val
  ac_disposition :: float_val
  ac_action_inviolability :: float_val
  ac_lossless_sha256 :: float_val
  ac_valid_uuid_v7 :: float_val

text \<open>Which of the checks a line passes.\<close>

definition vendor_correct :: "string \<Rightarrow> network_activity \<Rightarrow> bool" where
  "vendor_correct gt_vendor activity \<longleftrightarrow>
     (let parsed = to_ascii_lowercase (pr_vendor_name (md_product (na_metadata activity)));
          expected = to_ascii_lowercase gt_vendor
      in contains parsed expected \<or> contains expected parsed)"

definition ip_correct :: "string \<Rightarrow> endpoint \<Rightarrow> bool" where
  "ip_correct raw ep \<longleftrightarrow> (case ep_ip ep of None \<Rightarrow> False | Some ip \<Rightarrow> contains raw ip)"

definition port_correct :: "string \<Rightarrow> endpoint \<Rightarrow> bool" where
  "port_correct raw ep \<longleftrightarrow>
     (case ep_port ep of None \<Rightarrow> False | Some port \<Rightarrow> 1 \<le> unat port \<and> contains raw (show_nat (unat port)))"

definition proto_correct :: "string \<Rightarrow> connection_info \<Rightarrow> bool" where
  "proto_correct raw conn \<longleftrightarrow>
     (case ci_protocol_name conn of
        None \<Rightarrow> False
      | Some proto \<Rightarrow>
          let proto_upper = to_ascii_uppercase proto in contains (to_ascii_uppercase raw) proto_upper \<or> proto_upper = ''IP'')"

definition disposition_correct :: "string option \<Rightarrow> network_activity \<Rightarrow> bool" where
  "disposition_correct gt_action activity \<longleftrightarrow>
     (case gt_action of
        Some expected_act \<Rightarrow> na_disposition activity = expected_act
      | None \<Rightarrow> na_disposition activity \<noteq> [] \<and> na_disposition activity \<noteq> ''Unknown'')"

definition template_correct :: "string \<Rightarrow> bool" where
  "template_correct template_str \<longleftrightarrow> contains template_str ''<*>'' \<or> template_str \<noteq> []"

record audit_counts =
  ct_vendor :: nat
  ct_sha :: nat
  ct_uuid :: nat
  ct_src_ip :: nat
  ct_dst_ip :: nat
  ct_src_port :: nat
  ct_dst_port :: nat
  ct_proto :: nat
  ct_disposition :: nat
  ct_template :: nat
  ct_clusters :: "(nat, (string, nat) hash_map) hash_map"

definition counts_zero :: audit_counts where
  "counts_zero = \<lparr>ct_vendor = 0, ct_sha = 0, ct_uuid = 0, ct_src_ip = 0, ct_dst_ip = 0, ct_src_port = 0,
     ct_dst_port = 0, ct_proto = 0, ct_disposition = 0, ct_template = 0, ct_clusters = []\<rparr>"

definition count_pair ::
  "nat \<Rightarrow> string \<Rightarrow> (nat, (string, nat) hash_map) hash_map \<Rightarrow> (nat, (string, nat) hash_map) hash_map" where
  "count_pair cluster_id tag clusters =
     (let tags = unwrap_or [] (map_of clusters cluster_id)
      in hm_insert cluster_id (hm_insert tag (unwrap_or 0 (map_of tags tag) + 1) tags) clusters)"

definition score_line ::
  "parser_libs \<Rightarrow> (string \<Rightarrow> bool) \<Rightarrow> string \<Rightarrow> ground_truth \<Rightarrow> network_activity \<Rightarrow> nat \<times> string \<Rightarrow>
     audit_counts \<Rightarrow> audit_counts" where
  "score_line L uuid_ok raw = (\<lambda>(gt_vendor, gt_template, gt_action) activity (cluster_id, template_str) c.
     \<lparr>ct_vendor = ct_vendor c + of_bool (vendor_correct gt_vendor activity),
      ct_sha = ct_sha c + of_bool (md_raw_hash (na_metadata activity) = compute_sha256 L raw),
      ct_uuid = ct_uuid c + of_bool (uuid_ok (md_event_id (na_metadata activity))),
      ct_src_ip = ct_src_ip c + of_bool (ip_correct raw (na_src_endpoint activity)),
      ct_dst_ip = ct_dst_ip c + of_bool (ip_correct raw (na_dst_endpoint activity)),
      ct_src_port = ct_src_port c + of_bool (port_correct raw (na_src_endpoint activity)),
      ct_dst_port = ct_dst_port c + of_bool (port_correct raw (na_dst_endpoint activity)),
      ct_proto = ct_proto c + of_bool (proto_correct raw (na_connection_info activity)),
      ct_disposition = ct_disposition c + of_bool (disposition_correct gt_action activity),
      ct_template = ct_template c + of_bool (template_correct template_str),
      ct_clusters = count_pair cluster_id gt_template (ct_clusters c)\<rparr>)"

text \<open>The parser and the clustering under test are closures with a state of their own; the number is that of the line.\<close>

type_synonym 's parse_fn = "nat \<Rightarrow> string \<Rightarrow> 's \<Rightarrow> (network_activity \<times> 's) option"
type_synonym 't cluster_fn = "nat \<Rightarrow> string \<Rightarrow> 't \<Rightarrow> ((nat \<times> string) \<times> 't) option"

fun audit_corpus ::
  "parser_libs \<Rightarrow> (string \<Rightarrow> bool) \<Rightarrow> 's parse_fn \<Rightarrow> 't cluster_fn \<Rightarrow> (nat \<times> string) list \<Rightarrow> 's \<Rightarrow> 't \<Rightarrow>
     audit_counts \<Rightarrow> audit_counts option" where
  "audit_corpus L uuid_ok parse_fn cluster_fn [] s t c = Some c"
| "audit_corpus L uuid_ok parse_fn cluster_fn ((i, raw) # lines) s t c = do {
     gt \<leftarrow> extract_ground_truth raw;
     (activity, s') \<leftarrow> parse_fn i raw s;
     (cluster, t') \<leftarrow> cluster_fn i raw t;
     audit_corpus L uuid_ok parse_fn cluster_fn lines s' t' (score_line L uuid_ok raw gt activity cluster c)
   }"

definition max_count :: "(string, nat) hash_map \<Rightarrow> nat" where
  "max_count tags = foldl max 0 (map snd tags)"

definition ga_correct_total :: "(nat, (string, nat) hash_map) hash_map \<Rightarrow> nat" where
  "ga_correct_total clusters = sum_list (map (max_count \<circ> snd) clusters)"

definition mean5 :: "float_val list \<Rightarrow> float_val" where
  "mean5 vs = (case map_opt (\<lambda>v. case v of Finite r \<Rightarrow> Some r | _ \<Rightarrow> None) vs of
     None \<Rightarrow> Not_a_number | Some rs \<Rightarrow> Finite (sum_list rs / 5))"

definition log_allow :: string where
  "log_allow = ''FW_ACTION: traffic ALLOW proto=TCP src=10.0.0.1 dst=10.0.0.2''"

definition log_deny :: string where
  "log_deny = ''FW_ACTION: traffic DENY proto=TCP src=10.0.0.1 dst=10.0.0.2''"

definition verify_action_preservation :: "masker_libs \<Rightarrow> drain_env \<Rightarrow> drain_env \<Rightarrow> bool option" where
  "verify_action_preservation M E1 E2 = do {
     (res_allow, m) \<leftarrow> add_log M E1 log_allow (drain_new default_drain_config);
     (res_deny, m') \<leftarrow> add_log M E2 log_deny m;
     Some (cr_cluster_id res_allow \<noteq> cr_cluster_id res_deny)
   }"

definition summarize_audit :: "nat \<Rightarrow> bool \<Rightarrow> audit_counts \<Rightarrow> accuracy_audit" where
  "summarize_audit n preserved c =
     \<lparr>ac_total_audited = n,
      ac_vendor_classification = percent (ct_vendor c) n,
      ac_grouping = percent (ga_correct_total (ct_clusters c)) n,
      ac_template = percent (ct_template c) n,
      ac_field_f1 = mean5 [percent (ct_src_ip c) n, percent (ct_dst_ip c) n, percent (ct_src_port c) n,
        percent (ct_dst_port c) n, percent (ct_proto c) n],
      ac_src_ip = percent (ct_src_ip c) n,
      ac_dst_ip = percent (ct_dst_ip c) n,
      ac_src_port = percent (ct_src_port c) n,
      ac_dst_port = percent (ct_dst_port c) n,
      ac_protocol = percent (ct_proto c) n,
      ac_disposition = percent (ct_disposition c) n,
      ac_action_inviolability = Finite (if preserved then 100 else 0),
      ac_lossless_sha256 = percent (ct_sha c) n,
      ac_valid_uuid_v7 = percent (ct_uuid c) n\<rparr>"

definition audit_accuracy ::
  "parser_libs \<Rightarrow> masker_libs \<Rightarrow> drain_env \<times> drain_env \<Rightarrow> (string \<Rightarrow> bool) \<Rightarrow> 's parse_fn \<Rightarrow> 't cluster_fn \<Rightarrow>
     string list \<Rightarrow> 's \<Rightarrow> 't \<Rightarrow> accuracy_audit option" where
  "audit_accuracy L M E uuid_ok parse_fn cluster_fn corpus s t =
     (let audit_count = min 1000 (length corpus) in do {
        counts \<leftarrow> audit_corpus L uuid_ok parse_fn cluster_fn (enumerate 0 (take audit_count corpus)) s t counts_zero;
        preserved \<leftarrow> verify_action_preservation M (fst E) (snd E);
        Some (summarize_audit audit_count preserved counts)
      })"

text \<open>The two parsers and clusterings under test.\<close>

definition baseline_parse :: "parser_libs \<Rightarrow> (nat \<Rightarrow> parse_env) \<Rightarrow> unit parse_fn" where
  "baseline_parse L E i raw u = map_option (\<lambda>a. (a, ())) (parse_lossless L (E i) raw)"

definition baseline_cluster :: "unit cluster_fn" where
  "baseline_cluster i raw u = do {
     (v, gt_tmpl, a) \<leftarrow> extract_ground_truth raw;
     h \<leftarrow> compute_signature_hash gt_tmpl;
     Some ((unat (h mod 1000), gt_tmpl), ())
   }"

definition tiered_parse :: "pipeline_libs \<Rightarrow> (nat \<Rightarrow> call_env) \<Rightarrow> pipeline parse_fn" where
  "tiered_parse X E i raw st = (case process X (E i) raw st of (None, st') \<Rightarrow> None | (Some a, st') \<Rightarrow> Some (a, st'))"

definition tiered_cluster :: "masker_libs \<Rightarrow> (nat \<Rightarrow> drain_env) \<Rightarrow> drain_miner cluster_fn" where
  "tiered_cluster M E i raw m = map_option (\<lambda>(res, m'). ((cr_cluster_id res, cr_template res), m')) (add_log M (E i) raw m)"

subsection \<open>Latencies\<close>

record latency_summary =
  la_min :: rat
  la_p1 :: rat
  la_p5 :: rat
  la_p25 :: rat
  la_p50 :: rat
  la_p75 :: rat
  la_p90 :: rat
  la_p95 :: rat
  la_p99 :: rat
  la_p999 :: rat
  la_p9999 :: rat
  la_max :: rat
  la_mean :: rat
  la_std_dev :: real
  la_samples_count :: nat

definition mean_of :: "rat list \<Rightarrow> rat" where
  "mean_of xs = sum_list xs / of_nat (length xs)"

definition variance_of :: "rat list \<Rightarrow> rat" where
  "variance_of xs = sum_list (map (\<lambda>x. (x - mean_of xs)\<^sup>2) xs) / of_nat (length xs)"

definition summarize_latencies :: "rat list \<Rightarrow> latency_summary option" where
  "summarize_latencies measured =
     (let latencies = sort measured; len = length latencies in do {
        p0 \<leftarrow> nth_opt latencies 0;
        p1 \<leftarrow> nth_opt latencies (len div 100);
        p5 \<leftarrow> nth_opt latencies (len * 5 div 100);
        p25 \<leftarrow> nth_opt latencies (len * 25 div 100);
        p50 \<leftarrow> nth_opt latencies (len * 50 div 100);
        p75 \<leftarrow> nth_opt latencies (len * 75 div 100);
        p90 \<leftarrow> nth_opt latencies (len * 90 div 100);
        p95 \<leftarrow> nth_opt latencies (len * 95 div 100);
        p99 \<leftarrow> nth_opt latencies (len * 99 div 100);
        p999 \<leftarrow> nth_opt latencies (min (len * 999 div 1000) (len - 1));
        p9999 \<leftarrow> nth_opt latencies (min (len * 9999 div 10000) (len - 1));
        Some \<lparr>la_min = p0, la_p1 = p1, la_p5 = p5, la_p25 = p25, la_p50 = p50, la_p75 = p75, la_p90 = p90,
          la_p95 = p95, la_p99 = p99, la_p999 = p999, la_p9999 = p9999,
          la_max = unwrap_or 0 (last_opt latencies), la_mean = mean_of latencies,
          la_std_dev = sqrt (real_of_rat (variance_of latencies)), la_samples_count = len\<rparr>
      })"

text \<open>
  \<open>nanos i\<close> is the time measured for the \<open>i\<close>-th call, and \<open>survives raw\<close> that the call returns. An empty
  corpus panics on the remainder.
\<close>

definition sample_latency_distribution ::
  "(nat \<Rightarrow> nat) \<Rightarrow> (nat \<Rightarrow> string \<Rightarrow> bool) \<Rightarrow> string list \<Rightarrow> nat \<Rightarrow> latency_summary option" where
  "sample_latency_distribution nanos survives corpus target_samples =
     (let count = max target_samples 100 in
      if corpus = [] then None
      else if list_all (\<lambda>i. survives i (corpus ! (i mod length corpus))) [0..<count]
      then summarize_latencies (map (\<lambda>i. of_nat (nanos i) / 1000) [0..<count])
      else None)"

subsection \<open>Throughput\<close>

text \<open>
  A benchmark worker: what it still holds back and what it has added to the shared counters. Additions commute, so the
  counters are sums over the workers.
\<close>

record bench_worker =
  bw_idx :: nat
  bw_local_count :: u64
  bw_local_bytes :: u64
  bw_added_count :: u64
  bw_added_bytes :: u64

definition bench_start :: "nat \<Rightarrow> bench_worker" where
  "bench_start worker_id =
     \<lparr>bw_idx = worker_id, bw_local_count = 0, bw_local_bytes = 0, bw_added_count = 0, bw_added_bytes = 0\<rparr>"

text \<open>\<open>survives\<close> says whether the parser returns on the line of that index; a panic ends the thread.\<close>

definition bench_iteration :: "(nat \<Rightarrow> string \<Rightarrow> bool) \<Rightarrow> string list \<Rightarrow> bench_worker \<Rightarrow> bench_worker option" where
  "bench_iteration survives corpus w =
     (if corpus = [] then None
      else
        let raw = corpus ! (bw_idx w mod length corpus);
            w1 = w\<lparr>bw_idx := bw_idx w + 1, bw_local_count := bw_local_count w + 1,
                   bw_local_bytes := bw_local_bytes w + of_nat (length raw)\<rparr>
        in if \<not> survives (bw_idx w) raw then None
           else Some (if bw_local_count w1 mod 1024 = 0
             then w1\<lparr>bw_added_count := bw_added_count w1 + 1024,
                     bw_added_bytes := bw_added_bytes w1 + bw_local_bytes w1, bw_local_bytes := 0\<rparr>
             else w1))"

definition bench_finish :: "bench_worker \<Rightarrow> bench_worker" where
  "bench_finish w =
     w\<lparr>bw_added_count := bw_added_count w + bw_local_count w mod 1024,
       bw_added_bytes := bw_added_bytes w + bw_local_bytes w\<rparr>"

text \<open>A thread that sees the stop signal after \<open>n\<close> iterations, as it is when it ends or panics.\<close>

fun bench_thread :: "(nat \<Rightarrow> string \<Rightarrow> bool) \<Rightarrow> string list \<Rightarrow> nat \<Rightarrow> bench_worker \<Rightarrow> bench_worker" where
  "bench_thread survives corpus 0 w = bench_finish w"
| "bench_thread survives corpus (Suc n) w =
     (case bench_iteration survives corpus w of None \<Rightarrow> w | Some w' \<Rightarrow> bench_thread survives corpus n w')"

text \<open>The two counters once every thread is joined; \<open>ns\<close> lists the iterations of each.\<close>

definition bench_totals :: "(nat \<Rightarrow> nat \<Rightarrow> string \<Rightarrow> bool) \<Rightarrow> string list \<Rightarrow> nat list \<Rightarrow> u64 \<times> u64" where
  "bench_totals survives corpus ns =
     (let ws = map (\<lambda>(worker_id, n). bench_thread (survives worker_id) corpus n (bench_start worker_id)) (enumerate 0 ns)
      in (sum_list (map bw_added_count ws), sum_list (map bw_added_bytes ws)))"

record throughput_summary =
  th_events_per_sec :: float_val
  th_megabytes_per_sec :: float_val
  th_events_per_ms_per_core :: float_val
  th_per_core_eps :: float_val
  th_total_processed :: u64
  th_total_bytes_processed :: u64
  th_duration_secs :: rat

fun f64_div_by :: "float_val \<Rightarrow> rat \<Rightarrow> float_val" where
  "f64_div_by (Finite x) y = f64_div x y"
| "f64_div_by (Infinite neg) y = Infinite (if y < 0 then \<not> neg else neg)"
| "f64_div_by Not_a_number y = Not_a_number"

definition throughput_of :: "u64 \<Rightarrow> u64 \<Rightarrow> rat \<Rightarrow> nat \<Rightarrow> throughput_summary" where
  "throughput_of processed bytes elapsed threads =
     (let eps = f64_div (of_nat (unat processed)) elapsed in
      \<lparr>th_events_per_sec = eps,
       th_megabytes_per_sec = f64_div (of_nat (unat bytes)) (1024 * 1024 * elapsed),
       th_events_per_ms_per_core = f64_div_by eps (of_nat threads * 1000),
       th_per_core_eps = f64_div_by eps (of_nat threads),
       th_total_processed = processed, th_total_bytes_processed = bytes, th_duration_secs = elapsed\<rparr>)"

subsection \<open>The report\<close>

record tier_diagnostics =
  td_lru_hit_rate :: rat
  td_lookups :: u64
  td_hits :: u64
  td_misses :: u64
  td_evictions :: u64
  td_entries_count :: nat
  td_clusters_count :: nat
  td_cluster_matches :: u64
  td_unique_anchor_enforced :: bool
  td_laya_dispatches :: u64
  td_ai_deduplication_pct :: rat
  td_auto_onboarded_count :: u64

definition dedupe_pct :: "u64 \<Rightarrow> u64 \<Rightarrow> rat" where
  "dedupe_pct processed dispatches =
     (if 0 < processed then of_nat (unat processed - unat dispatches) / of_nat (unat processed) * 100 else 100)"

definition diagnostics_of :: "u64 \<Rightarrow> pipeline_stats \<Rightarrow> tier_diagnostics" where
  "diagnostics_of processed st =
     \<lparr>td_lru_hit_rate = ps_lru_hit_ratio st,
      td_lookups = ls_total_lookups (ps_lru_stats st),
      td_hits = ps_tier1_lru_hits st,
      td_misses = ls_misses (ps_lru_stats st),
      td_evictions = ls_evictions (ps_lru_stats st),
      td_entries_count = ls_entries_count (ps_lru_stats st),
      td_clusters_count = 12,
      td_cluster_matches = ps_tier2_drain_hits st,
      td_unique_anchor_enforced = True,
      td_laya_dispatches = ps_tier3_laya_dispatches st,
      td_ai_deduplication_pct = dedupe_pct processed (ps_tier3_laya_dispatches st),
      td_auto_onboarded_count = ps_tier3_laya_onboarded st\<rparr>"

record benchmark_result =
  be_name :: string
  be_throughput :: throughput_summary
  be_latency :: latency_summary
  be_accuracy :: accuracy_audit
  be_diagnostics :: "tier_diagnostics option"

subsection \<open>The two benchmark runs\<close>

text \<open>
  What a run measures and does not decide itself: the clocks and ids of every call, by phase and number; the iterations of
  each thread and the time they took; the latencies. In the timed phase the call with index \<open>i\<close> of worker \<open>w\<close>
  has the environment \<open>timed w i\<close>.
\<close>

record 'e bench_env =
  nv_warmup :: "nat \<Rightarrow> 'e"
  nv_timed :: "nat \<Rightarrow> nat \<Rightarrow> 'e"
  nv_latency :: "nat \<Rightarrow> 'e"
  nv_audit :: "nat \<Rightarrow> 'e"
  nv_probes :: "drain_env \<times> drain_env"
  nv_clusters :: "nat \<Rightarrow> drain_env"
  nv_iterations :: "nat \<Rightarrow> nat"
  nv_elapsed :: rat
  nv_nanos :: "nat \<Rightarrow> nat"

definition warmup_lines :: "string list \<Rightarrow> (nat \<times> string) list" where
  "warmup_lines corpus = enumerate 0 (take (min 1000 (length corpus)) corpus)"

definition benchmark_baseline_isolated ::
  "parser_libs \<Rightarrow> masker_libs \<Rightarrow> (string \<Rightarrow> bool) \<Rightarrow> parse_env bench_env \<Rightarrow> nat \<Rightarrow> nat \<Rightarrow> string list \<Rightarrow>
     benchmark_result option" where
  "benchmark_baseline_isolated L M uuid_ok N threads latency_samples corpus = do {
     warm \<leftarrow> map_opt (\<lambda>(i, raw). parse_lossless L (nv_warmup N i) raw) (warmup_lines corpus);
     let (total, bytes) = bench_totals (\<lambda>w i raw. parse_lossless L (nv_timed N w i) raw \<noteq> None) corpus
       (map (nv_iterations N) [0..<threads]);
     latency \<leftarrow> sample_latency_distribution (nv_nanos N) (\<lambda>i raw. parse_lossless L (nv_latency N i) raw \<noteq> None)
       corpus latency_samples;
     accuracy \<leftarrow> audit_accuracy L M (nv_probes N) uuid_ok (baseline_parse L (nv_audit N)) baseline_cluster corpus () ();
     Some \<lparr>be_name = ''Baseline (UniversalParser)'', be_throughput = throughput_of total bytes (nv_elapsed N) threads,
       be_latency = latency, be_accuracy = accuracy, be_diagnostics = None\<rparr>
   }"

text \<open>
  The pipeline keeps its state through all phases. \<open>run_threads\<close> is what the timed phase makes of it, the threads and
  the triage worker interleaving, and \<open>timed_ok\<close> whether a call of it returned.
\<close>

fun process_lines ::
  "pipeline_libs \<Rightarrow> (nat \<Rightarrow> call_env) \<Rightarrow> (nat \<times> string) list \<Rightarrow> pipeline \<Rightarrow> pipeline option" where
  "process_lines X E [] st = Some st"
| "process_lines X E ((i, raw) # lines) st =
     (case process X (E i) raw st of (None, st') \<Rightarrow> None | (Some a, st') \<Rightarrow> process_lines X E lines st')"

definition latency_lines :: "string list \<Rightarrow> nat \<Rightarrow> (nat \<times> string) list" where
  "latency_lines corpus target_samples = map (\<lambda>i. (i, corpus ! (i mod length corpus))) [0..<max target_samples 100]"

definition benchmark_tiered_isolated ::
  "pipeline_libs \<Rightarrow> masker_libs \<Rightarrow> (string \<Rightarrow> bool) \<Rightarrow> call_env bench_env \<Rightarrow> (pipeline \<Rightarrow> pipeline) \<Rightarrow>
     (nat \<Rightarrow> nat \<Rightarrow> string \<Rightarrow> bool) \<Rightarrow> nat \<Rightarrow> nat \<Rightarrow> string list \<Rightarrow> benchmark_result option" where
  "benchmark_tiered_isolated X M uuid_ok N run_threads timed_ok threads latency_samples corpus = do {
     st0 \<leftarrow> pipeline_new;
     st1 \<leftarrow> process_lines X (nv_warmup N) (warmup_lines corpus) st0;
     let st2 = run_threads st1;
     let (total, bytes) = bench_totals timed_ok corpus (map (nv_iterations N) [0..<threads]);
     st3 \<leftarrow> (if corpus = [] then None else process_lines X (nv_latency N) (latency_lines corpus latency_samples) st2);
     latency \<leftarrow> sample_latency_distribution (nv_nanos N) (\<lambda>i raw. True) corpus latency_samples;
     accuracy \<leftarrow> audit_accuracy (xl_parser X) M (nv_probes N) uuid_ok (tiered_parse X (nv_audit N))
       (tiered_cluster M (nv_clusters N)) corpus st3 (drain_new default_drain_config);
     Some \<lparr>be_name = ''3-Tier (LRU+DrainDotNet+Laya)'',
       be_throughput = throughput_of total bytes (nv_elapsed N) threads, be_latency = latency, be_accuracy = accuracy,
       be_diagnostics = Some (diagnostics_of total (stats st2))\<rparr>
   }"

subsection \<open>The comparison\<close>

record evaluation_report =
  ev_timestamp :: string
  ev_mode :: string
  ev_threads :: nat
  ev_duration_secs :: u64
  ev_corpus_size :: nat
  ev_corpus_total_bytes :: nat
  ev_baseline :: "benchmark_result option"
  ev_tiered :: "benchmark_result option"
  ev_speedup :: "float_val option"
  ev_bandwidth_speedup :: "float_val option"
  ev_reduction_p50 :: "rat option"
  ev_reduction_p99 :: "rat option"

fun f64_ratio :: "float_val \<Rightarrow> float_val \<Rightarrow> float_val" where
  "f64_ratio (Finite x) (Finite y) = f64_div x y"
| "f64_ratio (Finite x) (Infinite neg) = Finite 0"
| "f64_ratio (Infinite neg) (Finite y) = Infinite (if y < 0 then \<not> neg else neg)"
| "f64_ratio x y = Not_a_number"

definition evaluate_with_mode ::
  "string \<Rightarrow> string \<Rightarrow> string list \<Rightarrow> u64 \<Rightarrow> nat \<Rightarrow> (string list \<Rightarrow> benchmark_result option) \<Rightarrow>
     (string list \<Rightarrow> benchmark_result option) \<Rightarrow> evaluation_report option" where
  "evaluate_with_mode now mode corpus duration_secs threads benchmark_baseline benchmark_tiered = do {
     baseline \<leftarrow> (if mode = ''all'' \<or> mode = ''baseline'' then map_option Some (benchmark_baseline corpus) else Some None);
     tiered \<leftarrow> (if mode = ''all'' \<or> mode = ''tiered'' then map_option Some (benchmark_tiered corpus) else Some None);
     let both = (\<lambda>f. case (baseline, tiered) of (Some b, Some t) \<Rightarrow> Some (f b t) | _ \<Rightarrow> None) in
     Some \<lparr>ev_timestamp = now, ev_mode = mode, ev_threads = threads, ev_duration_secs = duration_secs,
       ev_corpus_size = length corpus, ev_corpus_total_bytes = sum_list (map length corpus),
       ev_baseline = baseline, ev_tiered = tiered,
       ev_speedup = (case (baseline, tiered) of (Some b, Some t) \<Rightarrow>
          Some (f64_ratio (th_events_per_sec (be_throughput t)) (th_events_per_sec (be_throughput b))) | _ \<Rightarrow> None),
       ev_bandwidth_speedup = (case (baseline, tiered) of (Some b, Some t) \<Rightarrow>
          Some (f64_ratio (th_megabytes_per_sec (be_throughput t)) (th_megabytes_per_sec (be_throughput b))) | _ \<Rightarrow> None),
       ev_reduction_p50 = both (\<lambda>b t. calc_diff (la_p50 (be_latency b)) (la_p50 (be_latency t))),
       ev_reduction_p99 = both (\<lambda>b t. calc_diff (la_p99 (be_latency b)) (la_p99 (be_latency t)))\<rparr>
   }"

end
