(* ===== verification/Audit_Properties.thy ===== *)
theory Audit_Properties
  imports Evaluator Pipeline_Properties Drain_Properties
begin

text \<open>
  The accuracy audit of the evaluator: when the ground truth of a line exists, that an audited engine keeps every line it
  parses (the locale \<open>lossless_audit\<close>, with both engines as instances), and that the grouping accuracy is the purity
  of the clusters.
\<close>

subsection \<open>Ground truth\<close>

lemma asa_tag_None:
  assumes "ascii_str raw"
  shows "asa_tag raw = None \<longleftrightarrow>
    (\<exists>pos. find_str raw ''%ASA-'' = Some pos \<and> CHR '':'' \<notin> set (drop pos raw) \<and> length raw < pos + 15)"
proof (cases "find_str raw ''%ASA-''")
  case (Some pos)
  have pos: "pos \<le> length raw" using find_str_bound [OF Some] by simp
  have bd: "is_char_boundary raw i" if "i \<le> length raw" for i
    using assms that by (simp add: ascii_str_def is_char_boundary_ascii)
  have out: "\<not> is_char_boundary raw i" if "length raw < i" for i
    using that by (simp add: is_char_boundary_def)
  show ?thesis
  proof (cases "find_idx (\<lambda>c. c = CHR '':'') (drop pos raw)")
    case None
    then have "CHR '':'' \<notin> set (drop pos raw)" by (auto simp: find_idx_None_iff)
    then show ?thesis
      using Some pos bd out None by (cases "pos + 15 \<le> length raw") (auto simp: asa_tag_def slice_from_def slice_def)
  next
    case (Some i)
    then have "CHR '':'' \<in> set (drop pos raw)" "i < length (drop pos raw)"
      using find_idx_SomeD [OF Some] by (metis nth_mem)+
    then show ?thesis
      using \<open>find_str raw ''%ASA-'' = Some pos\<close> Some pos bd by (simp add: asa_tag_def slice_from_def slice_def)
  qed
qed (simp add: asa_tag_def)

lemma ground_truth_None: "extract_ground_truth raw = None \<longleftrightarrow> contains raw ''%ASA-'' \<and> asa_tag raw = None"
  by (simp add: extract_ground_truth_def)

text \<open>
  The audit has no ground truth for an ASCII line, and panics on it, in exactly one case: a Cisco tag with no colon after
  it and fewer than 15 bytes of text from the tag on.
\<close>
theorem ground_truth_panics_iff:
  assumes "ascii_str raw"
  shows "extract_ground_truth raw = None \<longleftrightarrow>
    (\<exists>pos. find_str raw ''%ASA-'' = Some pos \<and> CHR '':'' \<notin> set (drop pos raw) \<and> length raw < pos + 15)"
  using asa_tag_None [OF assms] by (auto simp: ground_truth_None contains_def)

theorem ground_truth_panics_iff_witness:
  "extract_ground_truth ''fw %ASA-6-302'' = None \<and> extract_ground_truth ''fw %ASA-6-302: Built'' \<noteq> None"
proof -
  have a: "ascii_str ''fw %ASA-6-302''" "ascii_str ''fw %ASA-6-302: Built''" by code_simp+
  have f: "find_str ''fw %ASA-6-302'' ''%ASA-'' = Some 3" "find_str ''fw %ASA-6-302: Built'' ''%ASA-'' = Some 3" by code_simp+
  show ?thesis using ground_truth_panics_iff [OF a(1)] ground_truth_panics_iff [OF a(2)] unfolding f by simp
qed

lemma asa_tag_ascii: "ascii_str raw \<Longrightarrow> asa_tag raw = Some tag \<Longrightarrow> ascii_str tag"
  by (auto simp: asa_tag_def slice_def Let_def ascii_str_def [of "''%ASA''"] split: option.splits bind_splits if_splits)

lemma ground_truth_ascii:
  assumes "ascii_str raw" "extract_ground_truth raw = Some (v, tag, a)"
  shows "ascii_str tag"
proof -
  have "ascii_str ''fortigate_traffic''" "ascii_str ''panos_traffic''" "ascii_str ''suricata_alert''"
    "ascii_str ''suricata_flow''" "ascii_str ''pfsense_filterlog''" "ascii_str ''unknown_template''" by code_simp+
  moreover have "asa_tag raw = Some tag \<or> tag \<in> {''fortigate_traffic'', ''panos_traffic'', ''suricata_alert'',
      ''suricata_flow'', ''pfsense_filterlog'', ''unknown_template''}"
    using assms(2) unfolding extract_ground_truth_def
    by (simp only: map_option_eq_Some option.inject prod.inject split: if_split_asm) (blast | simp)+
  ultimately show ?thesis using asa_tag_ascii [OF assms(1)] by blast
qed

subsection \<open>The engines under audit\<close>

lemma add_log_total:
  "general.miner_ok m hist \<Longrightarrow> \<exists>res m' hist'. add_log M E raw m = Some (res, m') \<and> general.miner_ok m' hist'"
  using general.add_log_ok [of m hist M raw E] by (auto simp: list_all_iff)

lemma verify_action_total: "\<exists>b. verify_action_preservation M E1 E2 = Some b"
proof -
  obtain res m hist where m: "add_log M E1 log_allow (drain_new default_drain_config) = Some (res, m)"
    "general.miner_ok m hist" using add_log_total [OF general.miner_ok_new] by blast
  obtain res' m' where "add_log M E2 log_deny m = Some (res', m')" using add_log_total [OF m(2)] by blast
  then show ?thesis using m(1) by (simp add: verify_action_preservation_def)
qed

lemma score_line_sha:
  "md_raw_hash (na_metadata a) = compute_sha256 L raw \<Longrightarrow> ct_sha (score_line L uuid_ok raw gt a r c) = Suc (ct_sha c)"
  by (cases gt, cases r) (simp only: score_line_def case_prod_conv audit_counts.simps, simp)

text \<open>
  The contract of an engine the audit can measure: on ASCII lines its parser returns an event that keeps the line, and
  its clustering returns, each in the states of its invariant.
\<close>

locale lossless_audit =
  fixes L :: parser_libs and parse_fn :: "'s parse_fn" and inv :: "'s \<Rightarrow> bool"
    and cluster_fn :: "'t cluster_fn" and clustered :: "'t \<Rightarrow> bool"
  assumes parse_total: "inv s \<Longrightarrow> ascii_str raw \<Longrightarrow>
      \<exists>a s'. parse_fn i raw s = Some (a, s') \<and> traceable L raw a \<and> inv s'"
    and cluster_total: "clustered t \<Longrightarrow> ascii_str raw \<Longrightarrow> extract_ground_truth raw \<noteq> None \<Longrightarrow>
      \<exists>r t'. cluster_fn i raw t = Some (r, t') \<and> clustered t'"
begin

lemma audit_corpus_lossless:
  assumes "inv s" "clustered t" "\<forall>(i, raw) \<in> set lines. ascii_str raw \<and> extract_ground_truth raw \<noteq> None"
  shows "\<exists>c'. audit_corpus L uuid_ok parse_fn cluster_fn lines s t c = Some c' \<and> ct_sha c' = ct_sha c + length lines"
  using assms
proof (induction lines arbitrary: s t c)
  case (Cons line lines)
  obtain i raw where line: "line = (i, raw)" by (cases line)
  then have raw: "ascii_str raw" "extract_ground_truth raw \<noteq> None" using Cons.prems(3) by auto
  then obtain gt where gt: "extract_ground_truth raw = Some gt" by blast
  from parse_total [OF Cons.prems(1) raw(1)] obtain a s'
    where p: "parse_fn i raw s = Some (a, s')" "traceable L raw a" "inv s'" by blast
  from cluster_total [OF Cons.prems(2) raw] obtain r t' where q: "cluster_fn i raw t = Some (r, t')" "clustered t'" by blast
  let ?c = "score_line L uuid_ok raw gt a r c"
  have sha: "ct_sha ?c = Suc (ct_sha c)" 
    by (rule score_line_sha) (use p(2) in \<open>simp add: traceable_def\<close>)
  have rest: "\<forall>(i, raw) \<in> set lines. ascii_str raw \<and> extract_ground_truth raw \<noteq> None"
    using Cons.prems(3) by simp
  have step: "audit_corpus L uuid_ok parse_fn cluster_fn (line # lines) s t c =
      audit_corpus L uuid_ok parse_fn cluster_fn lines s' t' ?c"
    unfolding line audit_corpus.simps gt p(1) q(1) by simp
  show ?case
    using Cons.IH [OF p(3) q(2) rest, of ?c] unfolding step sha by simp
qed simp

lemma audit_lossless:
  assumes "inv s" "clustered t" "corpus \<noteq> []"
    and "\<forall>raw \<in> set corpus. ascii_str raw \<and> extract_ground_truth raw \<noteq> None"
  shows "\<exists>a. audit_accuracy L M E uuid_ok parse_fn cluster_fn corpus s t = Some a \<and>
    ac_lossless_sha256 a = Finite 100 \<and> ac_total_audited a = min 1000 (length corpus)"
proof -
  let ?n = "min 1000 (length corpus)" and ?lines = "enumerate 0 (take (min 1000 (length corpus)) corpus)"
  have "\<forall>(i, raw) \<in> set ?lines. ascii_str raw \<and> extract_ground_truth raw \<noteq> None"
    using assms(4) by (auto simp: in_set_enumerate_eq dest!: in_set_takeD [OF nth_mem])
  from audit_corpus_lossless [OF assms(1,2) this, of uuid_ok counts_zero] obtain c
    where c: "audit_corpus L uuid_ok parse_fn cluster_fn ?lines s t counts_zero = Some c" "ct_sha c = ?n"
    by (auto simp: counts_zero_def)
  obtain b where b: "verify_action_preservation M (fst E) (snd E) = Some b"
    using verify_action_total by blast
  have "0 < ?n" using assms(3) by simp
  then have "percent ?n ?n = Finite 100" by (simp add: percent_def f64_div_def)
  then show ?thesis using c b by (simp add: audit_accuracy_def summarize_audit_def Let_def)
qed

end

text \<open>Both engines keep the contract; the pipeline in every state its invariant allows, the miner with any history.\<close>

interpretation baseline: lossless_audit L "baseline_parse L P" "\<lambda>s. True" baseline_cluster "\<lambda>t. True" for L P
proof unfold_locales
  fix s :: unit and raw :: string and i :: nat
  assume a: "ascii_str raw"
  then obtain ev where "parse_lossless L (P i) raw = Some ev" using parse_lossless_ascii by blast
  then show "\<exists>a s'. baseline_parse L P i raw s = Some (a, s') \<and> traceable L raw a \<and> True"
    using parse_lossless_traceable by (simp add: baseline_parse_def)
next
  fix t :: unit and raw :: string and i :: nat
  assume "ascii_str raw" "extract_ground_truth raw \<noteq> None"
  then obtain v tag act where gt: "extract_ground_truth raw = Some (v, tag, act)" "ascii_str tag"
    using ground_truth_ascii by (metis not_None_eq prod_cases3)
  then obtain h where "compute_signature_hash tag = Some h" using signature_ascii by blast
  then show "\<exists>r t'. baseline_cluster i raw t = Some (r, t') \<and> True" using gt(1) by (simp add: baseline_cluster_def)
qed

interpretation tiered: lossless_audit "xl_parser X" "tiered_parse X P" pipeline_ok
  "tiered_cluster M D" "\<lambda>m. \<exists>hist. general.miner_ok m hist" for X P M D
proof unfold_locales
  fix s :: pipeline and raw :: string and i :: nat
  assume s: "pipeline_ok s" "ascii_str raw"
  obtain ev s' where p: "process X (P i) raw s = (ev, s')" by (cases "process X (P i) raw s")
  then obtain a where "ev = Some a" "traceable (xl_parser X) raw a" using process_event [OF s(1) p] s(2) by auto
  then show "\<exists>a s'. tiered_parse X P i raw s = Some (a, s') \<and> traceable (xl_parser X) raw a \<and> pipeline_ok s'"
    using p pipeline_ok_process [OF s(1) p] by (simp add: tiered_parse_def)
next
  fix t :: drain_miner and raw :: string and i :: nat
  assume "\<exists>hist. general.miner_ok t hist"
  then obtain res m' hist' where "add_log M (D i) raw t = Some (res, m')" "general.miner_ok m' hist'"
    using add_log_total by blast
  then show "\<exists>r t'. tiered_cluster M D i raw t = Some (r, t') \<and> (\<exists>hist. general.miner_ok t' hist)"
    by (auto simp: tiered_cluster_def)
qed

lemma pipeline_ok_reach: "pipeline_reach X capacity hist st \<Longrightarrow> pipeline_ok st"
  by (induction rule: reach.induct) (auto intro: pipeline_ok_init pipeline_ok_step)

text \<open>
  The lossless score of both engines is 100 per cent: on a corpus of ASCII lines that is not empty and whose ground truth
  exists, the audit of the lossless parser, and that of the pipeline in whatever state warm-up, benchmark and triage have
  left it, return, cover the first 1000 lines and find the SHA-256 of every line in its event.
\<close>
theorem both_engines_lossless:
  assumes "corpus \<noteq> []" "\<forall>raw \<in> set corpus. ascii_str raw \<and> extract_ground_truth raw \<noteq> None"
    and "pipeline_reach X capacity hist st"
  shows "(\<exists>a. audit_accuracy L M E uuid_ok (baseline_parse L P) baseline_cluster corpus () () = Some a \<and>
      ac_lossless_sha256 a = Finite 100 \<and> ac_total_audited a = min 1000 (length corpus)) \<and>
    (\<exists>a. audit_accuracy (xl_parser X) M E uuid_ok (tiered_parse X Q) (tiered_cluster M D) corpus st
        (drain_new default_drain_config) = Some a \<and>
      ac_lossless_sha256 a = Finite 100 \<and> ac_total_audited a = min 1000 (length corpus))"
  using baseline.audit_lossless [OF TrueI TrueI assms(1,2)]
    tiered.audit_lossless [OF pipeline_ok_reach [OF assms(3)] _ assms(1,2)] general.miner_ok_new by blast

theorem both_engines_lossless_witness:
  "\<exists>ev st a. pipeline_reach test_pipeline_libs 4 [Processed ''hello'' ev] st \<and>
     audit_accuracy test_parser_libs (xl_masker test_pipeline_libs) undefined (\<lambda>u. True)
       (tiered_parse test_pipeline_libs undefined) (tiered_cluster (xl_masker test_pipeline_libs) undefined)
       [''hello'', ''%ASA-6-302013: Built''] st (drain_new default_drain_config) = Some a \<and>
     ac_lossless_sha256 a = Finite 100"
proof -
  obtain ev st where r: "pipeline_reach test_pipeline_libs 4 [Processed ''hello'' ev] st"
    using one_call [of 3 test_pipeline_libs "''hello''"] by auto
  have "ascii_str ''hello''" "ascii_str ''%ASA-6-302013: Built''" "extract_ground_truth ''hello'' \<noteq> None"
    "extract_ground_truth ''%ASA-6-302013: Built'' \<noteq> None" by code_simp+
  then have "\<forall>raw \<in> set [''hello'', ''%ASA-6-302013: Built'']. ascii_str raw \<and> extract_ground_truth raw \<noteq> None"
    by simp
  from both_engines_lossless [OF _ this r] have "\<exists>a. audit_accuracy (xl_parser test_pipeline_libs)
      (xl_masker test_pipeline_libs) undefined (\<lambda>u. True)
      (tiered_parse test_pipeline_libs undefined) (tiered_cluster (xl_masker test_pipeline_libs) undefined)
      [''hello'', ''%ASA-6-302013: Built''] st (drain_new default_drain_config) = Some a \<and>
      ac_lossless_sha256 a = Finite 100" by blast
  then show ?thesis using r by (auto simp: test_pipeline_libs_def)
qed

subsection \<open>Grouping accuracy\<close>

text \<open>The cluster and the ground-truth tag of every line the audit has scored.\<close>

fun audit_pairs :: "'t cluster_fn \<Rightarrow> (nat \<times> string) list \<Rightarrow> 't \<Rightarrow> (nat \<times> string) list option" where
  "audit_pairs cluster_fn [] t = Some []"
| "audit_pairs cluster_fn ((i, raw) # lines) t = do {
     (v, tag, act) \<leftarrow> extract_ground_truth raw;
     ((cluster_id, template), t') \<leftarrow> cluster_fn i raw t;
     map_option (Cons (cluster_id, tag)) (audit_pairs cluster_fn lines t')
   }"

definition pure_clusters :: "(nat \<times> string) list \<Rightarrow> bool" where
  "pure_clusters ps \<longleftrightarrow> (\<forall>(i, tag) \<in> set ps. \<forall>(j, tag') \<in> set ps. i = j \<longrightarrow> tag = tag')"

definition tag_total :: "(string, nat) hash_map \<Rightarrow> nat" where
  "tag_total tags = sum_list (map snd tags)"

definition clusters_ok :: "(nat \<times> string) list \<Rightarrow> (nat, (string, nat) hash_map) hash_map \<Rightarrow> bool" where
  "clusters_ok ps clusters \<longleftrightarrow> hm_ok clusters \<and>
     (\<forall>(i, tags) \<in> set clusters. hm_ok tags \<and> (\<forall>(tag, n) \<in> set tags. 0 < n)) \<and>
     sum_list (map (tag_total \<circ> snd) clusters) = length ps \<and>
     (\<forall>i tag. (i, tag) \<in> set ps \<longleftrightarrow> (\<exists>tags. map_of clusters i = Some tags \<and> tag \<in> fst ` set tags))"

lemma sum_hm_insert:
  "sum_list (map f (hm_insert k v m)) + (case map_of m k of None \<Rightarrow> 0 | Some w \<Rightarrow> f (k, w)) =
     sum_list (map f m) + (f (k, v) :: nat)"
  by (induction k v m rule: hm_insert.induct) auto

lemma set_hm_insert: "e \<in> set (hm_insert k v m) \<Longrightarrow> e = (k, v) \<or> e \<in> set m"
  by (induction k v m rule: hm_insert.induct) (auto split: if_splits)

lemma clusters_ok_Nil: "clusters_ok [] []"
  by (simp add: clusters_ok_def)

lemma clusters_ok_count:
  assumes "clusters_ok ps clusters"
  shows "clusters_ok (ps @ [(i, tag)]) (count_pair i tag clusters)"
proof -
  let ?tags = "unwrap_or [] (map_of clusters i)"
  let ?new = "hm_insert tag (unwrap_or 0 (map_of ?tags tag) + 1) ?tags"
  have tags: "hm_ok ?tags" "\<forall>(t, n) \<in> set ?tags. 0 < n"
    using assms by (cases "map_of clusters i"; force simp: clusters_ok_def dest: map_of_SomeD)+
  have total: "tag_total ?new = Suc (tag_total ?tags)"
    using sum_hm_insert [of snd tag "unwrap_or 0 (map_of ?tags tag) + 1" ?tags]
    by (cases "map_of ?tags tag") (simp_all add: tag_total_def)
  have new: "hm_ok ?new" "\<forall>(t, n) \<in> set ?new. 0 < n"
    using tags by (auto dest!: set_hm_insert)
  have "sum_list (map (tag_total \<circ> snd) (hm_insert i ?new clusters)) =
      Suc (sum_list (map (tag_total \<circ> snd) clusters))"
    using sum_hm_insert [of "tag_total \<circ> snd" i ?new clusters] total
    by (cases "map_of clusters i") (auto simp: tag_total_def)
  then show ?thesis
    using assms new unfolding clusters_ok_def count_pair_def Let_def
    by (cases "map_of clusters i") (auto simp: keys_hm_insert dest!: set_hm_insert split: option.splits)
qed

lemma foldl_max_le: "foldl max a xs \<le> a + sum_list xs" for a :: nat
proof (induction xs arbitrary: a)
  case (Cons x xs)
  have "foldl max (max a x) xs \<le> max a x + sum_list xs" by (rule Cons)
  also have "\<dots> \<le> a + (x + sum_list xs)" by simp
  finally show ?case by simp
qed simp

lemma foldl_max_less:
  "0 < a \<Longrightarrow> \<forall>x \<in> set xs. 0 < x \<Longrightarrow> xs \<noteq> [] \<Longrightarrow> foldl max a xs < a + sum_list xs" for a :: nat
proof (cases xs)
  case (Cons x ys)
  assume "0 < a" "\<forall>x \<in> set xs. 0 < x"
  then have "max a x + sum_list ys < a + (x + sum_list ys)" using Cons by simp
  with foldl_max_le [of "max a x" ys] have "foldl max (max a x) ys < a + (x + sum_list ys)" by (rule le_less_trans)
  then show ?thesis using Cons by simp
qed simp

lemma max_tag_total:
  "max_count tags \<le> tag_total tags"
  "\<forall>(tag, n) \<in> set tags. 0 < n \<Longrightarrow> max_count tags = tag_total tags \<longleftrightarrow> length tags \<le> 1"
proof -
  show "max_count tags \<le> tag_total tags"
    using foldl_max_le [of 0 "map snd tags"] by (simp add: max_count_def tag_total_def)
  show "max_count tags = tag_total tags \<longleftrightarrow> length tags \<le> 1" if "\<forall>(tag, n) \<in> set tags. 0 < n"
  proof (cases tags)
    case (Cons e ts)
    then have "0 < snd e" "\<forall>x \<in> set (map snd ts). 0 < x" using that by auto
    then show ?thesis
      using Cons foldl_max_less [of "snd e" "map snd ts"] by (cases ts) (simp_all add: max_count_def tag_total_def)
  qed (simp add: max_count_def tag_total_def)
qed

lemma sum_list_le_eq_iff:
  assumes "\<forall>x \<in> set xs. f x \<le> (g x :: nat)"
  shows "sum_list (map f xs) \<le> sum_list (map g xs)"
    and "sum_list (map f xs) = sum_list (map g xs) \<longleftrightarrow> (\<forall>x \<in> set xs. f x = g x)"
proof -
  show le: "sum_list (map f xs) \<le> sum_list (map g xs)" using assms by (simp add: sum_list_mono)
  show "sum_list (map f xs) = sum_list (map g xs) \<longleftrightarrow> (\<forall>x \<in> set xs. f x = g x)"
    using assms
  proof (induction xs)
    case (Cons x xs)
    then have "sum_list (map f xs) \<le> sum_list (map g xs)" by (simp add: sum_list_mono)
    then show ?case using Cons by auto
  qed simp
qed

lemma keys_pure: "hm_ok tags \<Longrightarrow> length tags \<le> 1 \<longleftrightarrow> (\<forall>x \<in> fst ` set tags. \<forall>y \<in> fst ` set tags. x = y)"
  by (cases tags rule: remdups_adj.cases) (auto simp: hm_ok_def)

lemma clusters_total:
  assumes "clusters_ok ps clusters"
  shows "ga_correct_total clusters \<le> length ps \<and> (ga_correct_total clusters = length ps \<longleftrightarrow> pure_clusters ps)"
proof -
  have cl: "hm_ok clusters" "\<And>i tags. (i, tags) \<in> set clusters \<Longrightarrow> hm_ok tags \<and> (\<forall>(tag, n) \<in> set tags. 0 < n)"
    "sum_list (map (tag_total \<circ> snd) clusters) = length ps"
    using assms by (auto simp: clusters_ok_def)
  have mem: "(i, tag) \<in> set ps \<longleftrightarrow> (\<exists>tags. (i, tags) \<in> set clusters \<and> tag \<in> fst ` set tags)" for i tag
    using assms cl(1) by (auto simp: clusters_ok_def hm_ok_def map_of_eq_Some_iff)
  have unique: "(i, x) \<in> set clusters \<Longrightarrow> (i, y) \<in> set clusters \<Longrightarrow> x = y" for i x y
    using cl(1) by (auto simp: hm_ok_def dest: eq_key_imp_eq_value)
  have le: "\<forall>e \<in> set clusters. (max_count \<circ> snd) e \<le> (tag_total \<circ> snd) e" by (simp add: max_tag_total(1))
  have eq: "(max_count \<circ> snd) e = (tag_total \<circ> snd) e \<longleftrightarrow>
      (\<forall>x \<in> fst ` set (snd e). \<forall>y \<in> fst ` set (snd e). x = y)" if "e \<in> set clusters" for e
    using cl(2) [of "fst e" "snd e"] that max_tag_total(2) [of "snd e"] keys_pure [of "snd e"] by simp
  have "ga_correct_total clusters = length ps \<longleftrightarrow>
      (\<forall>e \<in> set clusters. \<forall>x \<in> fst ` set (snd e). \<forall>y \<in> fst ` set (snd e). x = y)"
    using sum_list_le_eq_iff(2) [OF le] eq cl(3) by (simp add: ga_correct_total_def comp_def)
  also have "\<dots> \<longleftrightarrow> pure_clusters ps"
  proof
    assume one: "\<forall>e \<in> set clusters. \<forall>x \<in> fst ` set (snd e). \<forall>y \<in> fst ` set (snd e). x = y"
    have "x = y" if "(i, x) \<in> set ps" "(i, y) \<in> set ps" for i x y
      using that one unique unfolding mem by (metis snd_conv)
    then show "pure_clusters ps" by (auto simp: pure_clusters_def)
  next
    assume pure: "pure_clusters ps"
    have "x = y" if "(i, tags) \<in> set clusters" "x \<in> fst ` set tags" "y \<in> fst ` set tags" for i tags x y
    proof -
      have "(i, x) \<in> set ps" "(i, y) \<in> set ps" using that mem by blast+
      then show ?thesis using pure by (auto simp: pure_clusters_def)
    qed
    then show "\<forall>e \<in> set clusters. \<forall>x \<in> fst ` set (snd e). \<forall>y \<in> fst ` set (snd e). x = y" by (metis prod.collapse)
  qed
  finally show ?thesis using sum_list_le_eq_iff(1) [OF le] cl(3) by (simp add: ga_correct_total_def comp_def)
qed

lemma score_line_clusters:
  "ct_clusters (score_line L uuid_ok raw (v, tag, act) a (cluster_id, template) c) = count_pair cluster_id tag (ct_clusters c)"
  by (simp add: score_line_def)

lemma audit_corpus_clusters:
  assumes "audit_corpus L uuid_ok parse_fn cluster_fn lines s t c = Some c'" "clusters_ok ps0 (ct_clusters c)"
  shows "\<exists>ps. audit_pairs cluster_fn lines t = Some ps \<and> length ps = length lines \<and> clusters_ok (ps0 @ ps) (ct_clusters c')"
  using assms
proof (induction lines arbitrary: s t c ps0)
  case (Cons line lines)
  obtain i raw where line: "line = (i, raw)" by (cases line)
  obtain v tag act where gt: "extract_ground_truth raw = Some (v, tag, act)"
    using Cons.prems(1) unfolding line by (auto split: bind_splits)
  obtain a s' where p: "parse_fn i raw s = Some (a, s')"
    using Cons.prems(1) unfolding line by (auto split: bind_splits)
  obtain cid tmpl t' where q: "cluster_fn i raw t = Some ((cid, tmpl), t')"
    using Cons.prems(1) unfolding line by (auto split: bind_splits)
  let ?c = "score_line L uuid_ok raw (v, tag, act) a (cid, tmpl) c"
  have step: "audit_corpus L uuid_ok parse_fn cluster_fn lines s' t' ?c = Some c'"
    using Cons.prems(1) unfolding line audit_corpus.simps gt p q by simp
  have "clusters_ok (ps0 @ [(cid, tag)]) (ct_clusters ?c)"
    unfolding score_line_clusters by (rule clusters_ok_count [OF Cons.prems(2)])
  from Cons.IH [OF step this] show ?case unfolding line audit_pairs.simps gt q by auto
qed simp

text \<open>
  C26. What the audit calls grouping accuracy is the purity of the clusters: it is a percentage, and 100 exactly when no two
  audited lines of one cluster have different ground-truth tags.
\<close>
theorem grouping_accuracy_is_purity:
  assumes "audit_accuracy L M E uuid_ok parse_fn cluster_fn corpus s t = Some a" "corpus \<noteq> []"
  shows "\<exists>ps r. audit_pairs cluster_fn (enumerate 0 (take (ac_total_audited a) corpus)) t = Some ps \<and>
    ac_grouping a = Finite r \<and> 0 \<le> r \<and> r \<le> 100 \<and> (r = 100 \<longleftrightarrow> pure_clusters ps)"
proof -
  let ?n = "min 1000 (length corpus)"
  obtain c b where c: "audit_corpus L uuid_ok parse_fn cluster_fn (enumerate 0 (take ?n corpus)) s t counts_zero = Some c"
    "a = summarize_audit ?n b c"
    using assms(1) by (auto simp: audit_accuracy_def Let_def split: bind_splits)
  have "clusters_ok [] (ct_clusters counts_zero)" by (simp add: counts_zero_def clusters_ok_Nil)
  from audit_corpus_clusters [OF c(1) this] obtain ps where
    ps: "audit_pairs cluster_fn (enumerate 0 (take ?n corpus)) t = Some ps" "length ps = ?n" "clusters_ok ps (ct_clusters c)"
    by auto
  let ?g = "ga_correct_total (ct_clusters c)"
  have g: "?g \<le> ?n" "?g = ?n \<longleftrightarrow> pure_clusters ps" using clusters_total [OF ps(3)] ps(2) by simp_all
  have n: "0 < ?n" using assms(2) by simp
  define m where "m = ?n"
  have "ac_grouping a = Finite (of_nat ?g / of_nat m * 100)" using c(2) n by (simp add: summarize_audit_def percent_def f64_div_def m_def)
  moreover have "0 \<le> (of_nat ?g / of_nat m * 100 :: rat)" "(of_nat ?g / of_nat m * 100 :: rat) \<le> 100"
    "of_nat ?g / of_nat m * 100 = (100 :: rat) \<longleftrightarrow> ?g = m"
    using g(1) n unfolding m_def [symmetric] by (simp_all add: field_simps)
  moreover have "ac_total_audited a = ?n" using c(2) by (simp add: summarize_audit_def)
  ultimately show ?thesis using ps(1) g(2) by (auto simp: m_def)
qed

theorem grouping_accuracy_is_purity_witness:
  "\<exists>a ps r. audit_accuracy test_parser_libs (xl_masker test_pipeline_libs) (drain_env0, drain_env0) (\<lambda>u. True)
       (baseline_parse test_parser_libs (\<lambda>i. Parser_Properties.test_env)) baseline_cluster [''hello'', ''link up''] () () = Some a \<and>
     audit_pairs baseline_cluster (enumerate 0 (take (ac_total_audited a) [''hello'', ''link up''])) () = Some ps \<and>
     ac_grouping a = Finite r \<and> (r = 100 \<longleftrightarrow> pure_clusters ps)"
proof -
  have "ascii_str ''hello''" "ascii_str ''link up''" "extract_ground_truth ''hello'' \<noteq> None"
    "extract_ground_truth ''link up'' \<noteq> None" by code_simp+
  then have "\<forall>raw \<in> set [''hello'', ''link up'']. ascii_str raw \<and> extract_ground_truth raw \<noteq> None" by simp
  from baseline.audit_lossless [OF TrueI TrueI _ this] obtain a where
    a: "audit_accuracy test_parser_libs (xl_masker test_pipeline_libs) (drain_env0, drain_env0) (\<lambda>u. True)
       (baseline_parse test_parser_libs (\<lambda>i. Parser_Properties.test_env)) baseline_cluster [''hello'', ''link up''] () () = Some a" by blast
  from grouping_accuracy_is_purity [OF this] show ?thesis using a by auto
qed

subsection \<open>Action inviolability\<close>

text \<open>
  The two probe lines of the action check land in different clusters whenever masking leaves \<open>ALLOW\<close> and
  \<open>DENY\<close> standing at the same place, whatever the clock: the audit's action score is then 100 for any
  engine, since the check runs on a miner of its own and not on the engine under audit.
\<close>
theorem action_score_fixed:
  assumes "list_all (anchor_upper (dc_unique_anchor_tokens default_drain_config))
      (log_tokens M log_allow @ log_tokens M log_deny)"
    and "k < length (log_tokens M log_allow)" "k < length (log_tokens M log_deny)"
    and "log_tokens M log_allow ! k = ''ALLOW''" "log_tokens M log_deny ! k = ''DENY''"
    and "audit_accuracy L M E uuid_ok parse_fn cluster_fn corpus s t = Some a"
  shows "verify_action_preservation M (fst E) (snd E) = Some True \<and> ac_action_inviolability a = Finite 100"
proof -
  let ?evs = "[(fst E, log_allow), (snd E, log_deny)]"
  have no_wildcard: "wildcard \<notin> set (dc_unique_anchor_tokens default_drain_config)"
    and allow_anchor: "to_ascii_uppercase ''ALLOW'' \<in> set (dc_unique_anchor_tokens default_drain_config)" by code_simp+
  obtain r m r' m' where run: "add_log M (fst E) log_allow (drain_new default_drain_config) = Some (r, m)"
    "add_log M (snd E) log_deny m = Some (r', m')"
    using add_log_total [OF general.miner_ok_new] add_log_total by metis
  then have run2: "drain_run M ?evs (drain_new default_drain_config) = Some ([r, r'], m')" by simp
  have "cr_cluster_id r \<noteq> cr_cluster_id r'"
  proof
    assume same: "cr_cluster_id r = cr_cluster_id r'"
    have ne: "log_tokens M log_allow \<noteq> []" "log_tokens M log_deny \<noteq> []" using assms(2,3) by auto
    have "list_all2 (\<lambda>v w. to_ascii_uppercase v \<in> set (dc_unique_anchor_tokens default_drain_config) \<longrightarrow> v = w)
        (log_tokens M log_allow) (log_tokens M log_deny)"
    proof -
      have "list_all (\<lambda>ev. list_all (anchor_upper (dc_unique_anchor_tokens default_drain_config)) (log_tokens M (snd ev))) ?evs"
        using assms(1) by (simp only: list_all_append list.pred_inject snd_conv simp_thms)
      moreover have "0 < length ?evs" "1 < length ?evs" by simp_all
      moreover have "cr_cluster_id ([r, r'] ! 0) = cr_cluster_id ([r, r'] ! 1)"
        "log_tokens M (snd (?evs ! 0)) \<noteq> []" "log_tokens M (snd (?evs ! 1)) \<noteq> []"
        using same ne by (simp_all only: nth_Cons_0 One_nat_def nth_Cons_Suc snd_conv not_False_eq_True)
      ultimately have "list_all2 (\<lambda>v w. to_ascii_uppercase v \<in> set (dc_unique_anchor_tokens default_drain_config) \<longrightarrow> v = w)
          (log_tokens M (snd (?evs ! 0))) (log_tokens M (snd (?evs ! 1)))"
        by (intro same_cluster_same_anchors [OF _ no_wildcard run2])
      then show ?thesis by (simp only: nth_Cons_0 One_nat_def nth_Cons_Suc snd_conv)
    qed
    from list_all2_nthD [OF this assms(2)]
    have "to_ascii_uppercase ''ALLOW'' \<in> set (dc_unique_anchor_tokens default_drain_config) \<longrightarrow> ''ALLOW'' = ''DENY''"
      unfolding assms(4,5) .
    then show False using allow_anchor by simp
  qed
  then have "verify_action_preservation M (fst E) (snd E) = Some True" using run by (simp add: verify_action_preservation_def)
  then show ?thesis using assms(6) by (auto simp: audit_accuracy_def summarize_audit_def Let_def split: bind_splits)
qed

theorem action_score_fixed_witness:
  "\<exists>a. audit_accuracy test_parser_libs plain_libs (drain_env0, drain_env0) (\<lambda>u. True)
       (baseline_parse test_parser_libs (\<lambda>i. Parser_Properties.test_env)) baseline_cluster [''hello''] () () = Some a \<and> ac_action_inviolability a = Finite 100"
proof -
  have t: "log_tokens plain_libs log_allow = [''FW_ACTION:'', ''traffic'', ''ALLOW'', ''proto=TCP'', ''src=10.0.0.1'', ''dst=10.0.0.2'']"
    "log_tokens plain_libs log_deny = [''FW_ACTION:'', ''traffic'', ''DENY'', ''proto=TCP'', ''src=10.0.0.1'', ''dst=10.0.0.2'']"
    by code_simp+
  have g: "list_all (anchor_upper (dc_unique_anchor_tokens default_drain_config))
      (log_tokens plain_libs log_allow @ log_tokens plain_libs log_deny)"
    unfolding t by code_simp
  have "ascii_str ''hello''" "extract_ground_truth ''hello'' \<noteq> None" by code_simp+
  then have "\<forall>raw \<in> set [''hello'']. ascii_str raw \<and> extract_ground_truth raw \<noteq> None" by simp
  from baseline.audit_lossless [OF TrueI TrueI _ this] obtain a where
    a: "audit_accuracy test_parser_libs plain_libs (drain_env0, drain_env0) (\<lambda>u. True)
       (baseline_parse test_parser_libs (\<lambda>i. Parser_Properties.test_env)) baseline_cluster [''hello''] () () = Some a" by blast
  from action_score_fixed [OF g, of 2, unfolded t, simplified, OF a] show ?thesis using a by simp
qed

end
