(* ===== verification/Report.thy ===== *)
theory Report
  imports Evaluator
begin

text \<open>
  The two renderings of an evaluation report in \<open>ulpf-ai/src/evaluator.rs\<close>: the terminal dashboard and the
  Markdown file, section by section. \<open>show_dec p\<close> is the format \<open>{:.p}\<close>, \<open>pad_right n\<close> the width
  \<open>{:<n}\<close>, which counts characters, and \<open>sgr\<close> a colour sequence. The Unicode upper case of the mode is an
  argument.
\<close>

subsection \<open>Formats\<close>

definition round_even :: "'a :: floor_ceiling \<Rightarrow> int" where
  "round_even x =
     (let n = \<lfloor>x\<rfloor>; d = x - of_int n in if d < 1 / 2 \<or> (d = 1 / 2 \<and> even n) then n else n + 1)"

definition show_dec :: "nat \<Rightarrow> 'a :: floor_ceiling \<Rightarrow> string" where
  "show_dec p x =
     (let n = nat (round_even (10 ^ p * \<bar>x\<bar>))
      in (if x < 0 then ''-'' else []) @ show_nat (n div 10 ^ p) @
         (if p = 0 then [] else ''.'' @ pad_zeros p (show_nat (n mod 10 ^ p))))"

fun show_f64 :: "nat \<Rightarrow> float_val \<Rightarrow> string" where
  "show_f64 p (Finite r) = show_dec p r"
| "show_f64 p (Infinite neg) = (if neg then ''-inf'' else ''inf'')"
| "show_f64 p Not_a_number = ''NaN''"

fun f64_ge :: "float_val \<Rightarrow> rat \<Rightarrow> bool" where
  "f64_ge (Finite r) x \<longleftrightarrow> x \<le> r"
| "f64_ge (Infinite neg) x \<longleftrightarrow> \<not> neg"
| "f64_ge Not_a_number x \<longleftrightarrow> False"

definition pad_right :: "nat \<Rightarrow> string \<Rightarrow> string" where
  "pad_right n s = s @ replicate (n - char_count s) (CHR '' '')"

definition nl :: string where
  "nl = [CHR 0x0A]"

definition sgr :: "string \<Rightarrow> string" where
  "sgr params = CHR 0x1B # ''['' @ params @ ''m''"

definition micro :: string where
  "micro = [CHR 0xC2, CHR 0xB5]"

definition bullet :: string where
  "bullet = [CHR 0xE2, CHR 0x80, CHR 0xA2]"

definition sigma :: string where
  "sigma = [CHR 0xCF, CHR 0x83]"

definition plus_minus :: string where
  "plus_minus = [CHR 0xC2, CHR 0xB1]"

subsection \<open>The terminal dashboard\<close>

definition dashboard_head :: "(string \<Rightarrow> string) \<Rightarrow> evaluation_report \<Rightarrow> string" where
  "dashboard_head upper rep =
    (nl @ sgr ''1;36'' @ replicate 104 (CHR ''='') @ sgr ''0'' @ nl @
     sgr ''1;32'' @
     ''                  ULPF HARDCORE ARCHITECTURAL & ACCURACY EVALUATOR SUITE                                '' @
     sgr ''0'' @ nl @
     sgr ''1;36'' @ replicate 104 (CHR ''='') @ sgr ''0'' @ nl @
     ''  Execution Mode        : '' @ sgr ''1;33'' @ (upper (ev_mode rep)) @ sgr ''0'' @ nl @
     ''  Workers / CPU Threads : '' @ show_nat (ev_threads rep) @ nl @
     ''  Evaluation Duration   : '' @ show_nat (unat (ev_duration_secs rep)) @ '' seconds per engine'' @ nl @
     ''  Input Corpus Size     : '' @ show_nat (ev_corpus_size rep) @ '' log records ('' @
     show_dec 2 (of_nat (ev_corpus_total_bytes rep) / 1024 :: rat) @ '' KB in RAM)'' @ nl @
     sgr ''1;36'' @ replicate 104 (CHR ''-'') @ sgr ''0'' @ nl)"

definition dual_throughput :: "benchmark_result \<Rightarrow> benchmark_result \<Rightarrow> string" where
  "dual_throughput b t =
    (''  '' @ pad_right 38 ''Evaluation Dimension'' @ '' | '' @ pad_right 27 ''Baseline (UniversalParser)'' @ '' | '' @
     pad_right 27 ''3-Tier (LRU+Drain+Laya)'' @ nl @
     sgr ''1;36'' @ replicate 104 (CHR ''-'') @ sgr ''0'' @ nl @
     ''  '' @ pad_right 38 ''Throughput (Events/Sec)'' @ '' | '' @
     pad_right 27 (show_f64 0 (th_events_per_sec (be_throughput b))) @ '' | '' @ sgr ''1;32'' @
     pad_right 27 (show_f64 0 (th_events_per_sec (be_throughput t))) @ sgr ''0'' @ nl @
     ''  '' @ pad_right 38 ''Data Bandwidth Rate'' @ '' | '' @
     pad_right 24 (show_f64 2 (th_megabytes_per_sec (be_throughput b))) @ '' MB/s | '' @ sgr ''1;32'' @
     pad_right 24 (show_f64 2 (th_megabytes_per_sec (be_throughput t))) @ '' MB/s'' @ sgr ''0'' @ nl @
     ''  '' @ pad_right 38 ''Total Normalized Events'' @ '' | '' @
     pad_right 27 (show_nat (unat (th_total_processed (be_throughput b)))) @ '' | '' @
     pad_right 27 (show_nat (unat (th_total_processed (be_throughput t)))) @ nl @
     ''  '' @ pad_right 38 ''Per-Core Throughput (EPS/core)'' @ '' | '' @
     pad_right 27 (show_f64 0 (th_per_core_eps (be_throughput b))) @ '' | '' @
     pad_right 27 (show_f64 0 (th_per_core_eps (be_throughput t))) @ nl)"

definition dual_latency :: "benchmark_result \<Rightarrow> benchmark_result \<Rightarrow> string" where
  "dual_latency b t =
    (sgr ''1;36'' @ ''  '' @ replicate 34 (CHR ''-'') @ '' LATENCY DISTRIBUTION SPECTRUM ('' @ micro @ ''s) '' @
     replicate 32 (CHR ''-'') @ sgr ''0'' @ nl @
     ''  '' @ pad_right 38 ''Minimum Latency (p0)'' @ '' | '' @ pad_right 25 (show_dec 2 (la_min (be_latency b))) @
     '' '' @ micro @ ''s | '' @ sgr ''1;32'' @ pad_right 25 (show_dec 2 (la_min (be_latency t))) @ '' '' @ micro @
     ''s'' @ sgr ''0'' @ nl @
     ''  '' @ pad_right 38 ''Fast-Path 1st %ile (p1)'' @ '' | '' @ pad_right 25 (show_dec 2 (la_p1 (be_latency b))) @
     '' '' @ micro @ ''s | '' @ sgr ''1;32'' @ pad_right 25 (show_dec 2 (la_p1 (be_latency t))) @ '' '' @ micro @
     ''s'' @ sgr ''0'' @ nl @
     ''  '' @ pad_right 38 ''Median Latency (p50)'' @ '' | '' @ pad_right 25 (show_dec 2 (la_p50 (be_latency b))) @
     '' '' @ micro @ ''s | '' @ sgr ''1;32'' @ pad_right 25 (show_dec 2 (la_p50 (be_latency t))) @ '' '' @ micro @
     ''s'' @ sgr ''0'' @ nl @
     ''  '' @ pad_right 38 ''90th Percentile (p90)'' @ '' | '' @ pad_right 25 (show_dec 2 (la_p90 (be_latency b))) @
     '' '' @ micro @ ''s | '' @ sgr ''1;32'' @ pad_right 25 (show_dec 2 (la_p90 (be_latency t))) @ '' '' @ micro @
     ''s'' @ sgr ''0'' @ nl @
     ''  '' @ pad_right 38 ''99th Percentile (p99)'' @ '' | '' @ pad_right 25 (show_dec 2 (la_p99 (be_latency b))) @
     '' '' @ micro @ ''s | '' @ sgr ''1;32'' @ pad_right 25 (show_dec 2 (la_p99 (be_latency t))) @ '' '' @ micro @
     ''s'' @ sgr ''0'' @ nl @
     ''  '' @ pad_right 38 ''Three Nines Tail (p99.9)'' @ '' | '' @ pad_right 25 (show_dec 2 (la_p999 (be_latency b))) @
     '' '' @ micro @ ''s | '' @ sgr ''1;32'' @ pad_right 25 (show_dec 2 (la_p999 (be_latency t))) @ '' '' @ micro @
     ''s'' @ sgr ''0'' @ nl @
     ''  '' @ pad_right 38 ''Worst Case (Max)'' @ '' | '' @ pad_right 25 (show_dec 2 (la_max (be_latency b))) @ '' '' @
     micro @ ''s | '' @ pad_right 25 (show_dec 2 (la_max (be_latency t))) @ '' '' @ micro @ ''s'' @ nl @
     ''  '' @ pad_right 38 (''Latency Jitter / StdDev ('' @ sigma @ '')'') @ '' | '' @
     pad_right 25 (show_dec 2 (la_std_dev (be_latency b))) @ '' '' @ micro @ ''s | '' @ sgr ''1;32'' @
     pad_right 25 (show_dec 2 (la_std_dev (be_latency t))) @ '' '' @ micro @ ''s'' @ sgr ''0'' @ nl)"

definition dual_accuracy :: "benchmark_result \<Rightarrow> benchmark_result \<Rightarrow> string" where
  "dual_accuracy b t =
    (sgr ''1;36'' @ ''  '' @ replicate 34 (CHR ''-'') @ '' EXHAUSTIVE ACCURACY AUDIT (LOGHUB & SIEM) '' @
     replicate 25 (CHR ''-'') @ sgr ''0'' @ nl @
     ''  '' @ pad_right 38 ''Vendor Classification Accuracy (VCA)'' @ '' | '' @ sgr ''1;32'' @
     pad_right 27 (show_f64 2 (ac_vendor_classification (be_accuracy b)) @ ''%'') @ sgr ''0'' @ '' | '' @ sgr ''1;32'' @
     pad_right 27 (show_f64 2 (ac_vendor_classification (be_accuracy t)) @ ''%'') @ sgr ''0'' @ nl @
     ''  '' @ pad_right 38 ''Academic Grouping Accuracy (GA %)'' @ '' | '' @
     pad_right 27 (show_f64 2 (ac_grouping (be_accuracy b)) @ ''%'') @ '' | '' @ sgr ''1;32'' @
     pad_right 27 (show_f64 2 (ac_grouping (be_accuracy t)) @ ''%'') @ sgr ''0'' @ nl @
     ''  '' @ pad_right 38 ''Academic Template Accuracy (TA %)'' @ '' | '' @
     pad_right 27 (show_f64 2 (ac_template (be_accuracy b)) @ ''%'') @ '' | '' @ sgr ''1;32'' @
     pad_right 27 (show_f64 2 (ac_template (be_accuracy t)) @ ''%'') @ sgr ''0'' @ nl @
     ''  '' @ pad_right 38 ''Field Extraction Macro F1-Score'' @ '' | '' @ sgr ''1;32'' @
     pad_right 27 (show_f64 2 (ac_field_f1 (be_accuracy b)) @ ''%'') @ sgr ''0'' @ '' | '' @ sgr ''1;32'' @
     pad_right 27 (show_f64 2 (ac_field_f1 (be_accuracy t)) @ ''%'') @ sgr ''0'' @ nl @
     ''  '' @ pad_right 38 (''  '' @ bullet @ '' Source IP Accuracy'') @ '' | '' @
     pad_right 27 (show_f64 1 (ac_src_ip (be_accuracy b)) @ ''%'') @ '' | '' @
     pad_right 27 (show_f64 1 (ac_src_ip (be_accuracy t)) @ ''%'') @ nl @
     ''  '' @ pad_right 38 (''  '' @ bullet @ '' Destination IP Accuracy'') @ '' | '' @
     pad_right 27 (show_f64 1 (ac_dst_ip (be_accuracy b)) @ ''%'') @ '' | '' @
     pad_right 27 (show_f64 1 (ac_dst_ip (be_accuracy t)) @ ''%'') @ nl @
     ''  '' @ pad_right 38 (''  '' @ bullet @ '' Source Port Accuracy'') @ '' | '' @
     pad_right 27 (show_f64 1 (ac_src_port (be_accuracy b)) @ ''%'') @ '' | '' @
     pad_right 27 (show_f64 1 (ac_src_port (be_accuracy t)) @ ''%'') @ nl @
     ''  '' @ pad_right 38 (''  '' @ bullet @ '' Destination Port Accuracy'') @ '' | '' @
     pad_right 27 (show_f64 1 (ac_dst_port (be_accuracy b)) @ ''%'') @ '' | '' @
     pad_right 27 (show_f64 1 (ac_dst_port (be_accuracy t)) @ ''%'') @ nl @
     ''  '' @ pad_right 38 (''  '' @ bullet @ '' Protocol Accuracy'') @ '' | '' @
     pad_right 27 (show_f64 1 (ac_protocol (be_accuracy b)) @ ''%'') @ '' | '' @
     pad_right 27 (show_f64 1 (ac_protocol (be_accuracy t)) @ ''%'') @ nl @
     ''  '' @ pad_right 38 ''Disposition Resolution Accuracy'' @ '' | '' @ sgr ''1;32'' @
     pad_right 27 (show_f64 2 (ac_disposition (be_accuracy b)) @ ''%'') @ sgr ''0'' @ '' | '' @ sgr ''1;32'' @
     pad_right 27 (show_f64 2 (ac_disposition (be_accuracy t)) @ ''%'') @ sgr ''0'' @ nl @
     ''  '' @ pad_right 38 ''Action Inviolability (ALLOW vs DENY)'' @ '' | '' @ pad_right 27 ''N/A'' @ '' | '' @
     sgr ''1;32'' @
     pad_right 27 (if f64_ge (ac_action_inviolability (be_accuracy t)) 100 then ''100% PRESERVED'' else ''FAILED'') @
     sgr ''0'' @ nl @
     ''  '' @ pad_right 38 ''Lossless SHA-256 Digest Integrity'' @ '' | '' @ sgr ''1;32'' @
     pad_right 27 (show_f64 2 (ac_lossless_sha256 (be_accuracy b)) @ ''%'') @ sgr ''0'' @ '' | '' @ sgr ''1;32'' @
     pad_right 27 (show_f64 2 (ac_lossless_sha256 (be_accuracy t)) @ ''%'') @ sgr ''0'' @ nl)"

definition dual_tiers :: "tier_diagnostics \<Rightarrow> string" where
  "dual_tiers diag =
    (sgr ''1;36'' @ ''  '' @ replicate 34 (CHR ''-'') @ '' MULTI-TIER INTERNAL TELEMETRY '' @ replicate 37 (CHR ''-'') @
     sgr ''0'' @ nl @
     ''  '' @ pad_right 38 ''Tier-1 LRU Cache Hit Ratio'' @ '' | '' @ pad_right 27 ''N/A (No Cache)'' @ '' | '' @
     sgr ''1;33'' @ pad_right 27 (show_dec 2 (td_lru_hit_rate diag * 100) @ ''%'') @ sgr ''0'' @ nl @
     ''  '' @ pad_right 38 ''Tier-2 Drain Clusters Discovered'' @ '' | '' @ pad_right 27 ''0'' @ '' | '' @
     pad_right 27 (show_nat (td_clusters_count diag)) @ nl @
     ''  '' @ pad_right 38 ''Tier-3 Laya Async Dispatches'' @ '' | '' @ pad_right 27 ''0'' @ '' | '' @
     pad_right 27 (show_nat (unat (td_laya_dispatches diag))) @ nl @
     ''  '' @ pad_right 38 ''AI Deduplication Ratio'' @ '' | '' @ pad_right 27 ''N/A'' @ '' | '' @ sgr ''1;32'' @
     pad_right 26 (show_dec 2 (td_ai_deduplication_pct diag)) @ ''%'' @ sgr ''0'' @ nl)"

definition dual_verdict :: "evaluation_report \<Rightarrow> benchmark_result \<Rightarrow> string" where
  "dual_verdict rep t =
    (sgr ''1;36'' @ replicate 104 (CHR ''='') @ sgr ''0'' @ nl @
     ''  VERDICT: '' @ sgr ''1;32'' @ ''Accuracy: '' @ show_f64 2 (ac_vendor_classification (be_accuracy t)) @
     ''% VCA | GA: '' @ show_f64 2 (ac_grouping (be_accuracy t)) @ ''% | Median Latency: -'' @
     show_dec 1 (unwrap_or 0 (ev_reduction_p50 rep)) @ ''% | Tail (p99): -'' @
     show_dec 1 (unwrap_or 0 (ev_reduction_p99 rep)) @ ''%'' @ sgr ''0'' @ nl @
     sgr ''1;36'' @ replicate 104 (CHR ''='') @ sgr ''0'' @ nl)"

definition single_throughput :: "benchmark_result \<Rightarrow> string" where
  "single_throughput single =
    (''  Target Engine: '' @ sgr ''1;32'' @ (be_name single) @ sgr ''0'' @ nl @
     sgr ''1;36'' @ replicate 104 (CHR ''-'') @ sgr ''0'' @ nl @
     ''  Throughput (EPS)          : '' @ sgr ''1;32'' @ show_f64 0 (th_events_per_sec (be_throughput single)) @
     '' Events/Sec'' @ sgr ''0'' @ nl @
     ''  Data Bandwidth            : '' @ sgr ''1;32'' @ show_f64 2 (th_megabytes_per_sec (be_throughput single)) @
     '' MB/s'' @ sgr ''0'' @ nl @
     ''  Total Normalized Events   : '' @ show_nat (unat (th_total_processed (be_throughput single))) @ nl @
     ''  Per-Core Ingestion Speed  : '' @ show_f64 0 (th_per_core_eps (be_throughput single)) @ '' EPS / core'' @ nl)"

definition single_latency :: "benchmark_result \<Rightarrow> string" where
  "single_latency single =
    (sgr ''1;36'' @ ''  --- LATENCY SPECTRUM ---'' @ sgr ''0'' @ nl @
     ''  p1 (Fastest 1%)           : '' @ show_dec 2 (la_p1 (be_latency single)) @ '' '' @ micro @ ''s'' @ nl @
     ''  p50 (Median)              : '' @ sgr ''1;32'' @ show_dec 2 (la_p50 (be_latency single)) @ '' '' @ micro @
     ''s'' @ sgr ''0'' @ nl @
     ''  p99 (99th %ile)           : '' @ sgr ''1;33'' @ show_dec 2 (la_p99 (be_latency single)) @ '' '' @ micro @
     ''s'' @ sgr ''0'' @ nl @
     ''  Max (Worst Case)          : '' @ show_dec 2 (la_max (be_latency single)) @ '' '' @ micro @ ''s'' @ nl @
     ''  Mean ('' @ micro @ '') '' @ plus_minus @ '' Jitter ('' @ sigma @ '')     : '' @
     show_dec 2 (la_mean (be_latency single)) @ '' '' @ micro @ ''s '' @ plus_minus @ '' '' @
     show_dec 2 (la_std_dev (be_latency single)) @ '' '' @ micro @ ''s'' @ nl)"

definition single_accuracy :: "benchmark_result \<Rightarrow> string" where
  "single_accuracy single =
    (sgr ''1;36'' @ ''  --- ACCURACY AUDIT (LOGHUB & SIEM) ---'' @ sgr ''0'' @ nl @
     ''  Vendor Classification (VCA): '' @ sgr ''1;32'' @ show_f64 2 (ac_vendor_classification (be_accuracy single)) @
     ''%'' @ sgr ''0'' @ nl @
     ''  Grouping Accuracy (GA %)  : '' @ sgr ''1;32'' @ show_f64 2 (ac_grouping (be_accuracy single)) @ ''%'' @
     sgr ''0'' @ nl @
     ''  Template Accuracy (TA %)  : '' @ sgr ''1;32'' @ show_f64 2 (ac_template (be_accuracy single)) @ ''%'' @
     sgr ''0'' @ nl @
     ''  Field Extraction Macro F1 : '' @ sgr ''1;32'' @ show_f64 2 (ac_field_f1 (be_accuracy single)) @ ''%'' @
     sgr ''0'' @ nl @
     ''  '' @ bullet @ '' Source IP Accuracy      : '' @ show_f64 1 (ac_src_ip (be_accuracy single)) @ ''%'' @ nl @
     ''  '' @ bullet @ '' Destination IP Accuracy : '' @ show_f64 1 (ac_dst_ip (be_accuracy single)) @ ''%'' @ nl @
     ''  '' @ bullet @ '' Source Port Accuracy    : '' @ show_f64 1 (ac_src_port (be_accuracy single)) @ ''%'' @ nl @
     ''  '' @ bullet @ '' Destination Port Accuracy: '' @ show_f64 1 (ac_dst_port (be_accuracy single)) @ ''%'' @ nl @
     ''  '' @ bullet @ '' Protocol Accuracy       : '' @ show_f64 1 (ac_protocol (be_accuracy single)) @ ''%'' @ nl @
     ''  Disposition Accuracy      : '' @ show_f64 2 (ac_disposition (be_accuracy single)) @ ''%'' @ nl @
     ''  Action Inviolability      : '' @ show_f64 1 (ac_action_inviolability (be_accuracy single)) @ ''%'' @ nl @
     ''  Lossless SHA-256 Digest   : '' @ show_f64 2 (ac_lossless_sha256 (be_accuracy single)) @ ''%'' @ nl)"

definition single_tiers :: "tier_diagnostics \<Rightarrow> string" where
  "single_tiers diag =
    (sgr ''1;36'' @ ''  --- TIER DIAGNOSTICS ---'' @ sgr ''0'' @ nl @
     ''  Tier-1 LRU Hit Ratio      : '' @ show_dec 2 (td_lru_hit_rate diag * 100) @ ''%'' @ nl @
     ''  Tier-2 Clusters Mined     : '' @ show_nat (td_clusters_count diag) @ nl @
     ''  Tier-3 Laya Dispatches    : '' @ show_nat (unat (td_laya_dispatches diag)) @ nl @
     ''  AI Deduplication Ratio    : '' @ show_dec 2 (td_ai_deduplication_pct diag) @ ''%'' @ nl)"

text \<open>Two results side by side, or the one there is.\<close>

definition opt_section :: "('a \<Rightarrow> string) \<Rightarrow> 'a option \<Rightarrow> string" where
  "opt_section f x = (case x of None \<Rightarrow> [] | Some a \<Rightarrow> f a)"

definition render_terminal_dashboard :: "(string \<Rightarrow> string) \<Rightarrow> evaluation_report \<Rightarrow> string" where
  "render_terminal_dashboard upper rep =
     dashboard_head upper rep @
     (case (ev_baseline rep, ev_tiered rep) of
        (Some b, Some t) \<Rightarrow>
          dual_throughput b t @ dual_latency b t @ dual_accuracy b t @ opt_section dual_tiers (be_diagnostics t) @
          dual_verdict rep t
      | _ \<Rightarrow>
          opt_section (\<lambda>single. single_throughput single @ single_latency single @ single_accuracy single @
            opt_section single_tiers (be_diagnostics single) @
            sgr ''1;36'' @ replicate 104 (CHR ''='') @ sgr ''0'' @ nl) (or_else (ev_baseline rep) (ev_tiered rep)))"

subsection \<open>The Markdown report\<close>

definition markdown_head :: "evaluation_report \<Rightarrow> string" where
  "markdown_head rep =
    (''# ULPF Hardcore Architectural & Accuracy Telemetry Report'' @ nl @ nl @
     ''**Timestamp:** '' @ (ev_timestamp rep) @ ''  '' @ nl @
     ''**Environment:** Linux (x86_64, 16 Cores) | **Workers:** '' @ show_nat (ev_threads rep) @
     '' parallel threads  '' @ nl @
     ''**Duration:** '' @ show_nat (unat (ev_duration_secs rep)) @ ''s per engine | **Corpus:** '' @
     show_nat (ev_corpus_size rep) @ '' logs ('' @ show_dec 2 (of_nat (ev_corpus_total_bytes rep) / 1024 :: rat) @ '' KB)  '' @
     nl @ nl @
     ''---'' @ nl @ nl)"

definition markdown_scorecard :: "evaluation_report \<Rightarrow> benchmark_result \<Rightarrow> benchmark_result \<Rightarrow> string" where
  "markdown_scorecard rep b t =
    (''## 1. Executive Telemetry & Accuracy Scorecard'' @ nl @ nl @
     ''| Benchmark Dimension | Baseline (`UniversalParser`) | 3-Tier (`LRU+Drain+Laya`) | Speedup / Delta |'' @ nl @
     ''| :--- | :---: | :---: | :---: |'' @ nl @
     ''| **Throughput (EPS)** | **'' @ show_f64 0 (th_events_per_sec (be_throughput b)) @ '' EPS** | **'' @
     show_f64 0 (th_events_per_sec (be_throughput t)) @ '' EPS** | **'' @
     show_f64 2 (unwrap_or (Finite 1) (ev_speedup rep)) @ ''x** |'' @ nl @
     ''| **Data Bandwidth (MB/s)** | **'' @ show_f64 2 (th_megabytes_per_sec (be_throughput b)) @ '' MB/s** | **'' @
     show_f64 2 (th_megabytes_per_sec (be_throughput t)) @ '' MB/s** | **'' @
     show_f64 2 (unwrap_or (Finite 1) (ev_bandwidth_speedup rep)) @ ''x** |'' @ nl @
     ''| **Median Latency (p50)** | '' @ show_dec 2 (la_p50 (be_latency b)) @ '' '' @ micro @ ''s | **'' @
     show_dec 2 (la_p50 (be_latency t)) @ '' '' @ micro @ ''s** | **-'' @
     show_dec 1 (unwrap_or 0 (ev_reduction_p50 rep)) @ ''%** |'' @ nl @
     ''| **99th %ile Latency (p99)** | '' @ show_dec 2 (la_p99 (be_latency b)) @ '' '' @ micro @ ''s | **'' @
     show_dec 2 (la_p99 (be_latency t)) @ '' '' @ micro @ ''s** | **-'' @
     show_dec 1 (unwrap_or 0 (ev_reduction_p99 rep)) @ ''%** |'' @ nl @
     ''| **Vendor Classification (VCA)** | **'' @ show_f64 2 (ac_vendor_classification (be_accuracy b)) @ ''%** | **'' @
     show_f64 2 (ac_vendor_classification (be_accuracy t)) @ ''%** | Ground-Truth Exact Match |'' @ nl @
     ''| **Grouping Accuracy (GA %)** | **'' @ show_f64 2 (ac_grouping (be_accuracy b)) @ ''%** | **'' @
     show_f64 2 (ac_grouping (be_accuracy t)) @ ''%** | Loghub-2.0 Standard |'' @ nl @
     ''| **Template Accuracy (TA %)** | **'' @ show_f64 2 (ac_template (be_accuracy b)) @ ''%** | **'' @
     show_f64 2 (ac_template (be_accuracy t)) @ ''%** | Variable Masking Integrity |'' @ nl @
     ''| **Field Extraction Macro F1** | **'' @ show_f64 2 (ac_field_f1 (be_accuracy b)) @ ''%** | **'' @
     show_f64 2 (ac_field_f1 (be_accuracy t)) @ ''%** | IP/Port/Proto Extraction |'' @ nl @
     ''| **Disposition Resolution Accuracy** | **'' @ show_f64 2 (ac_disposition (be_accuracy b)) @ ''%** | **'' @
     show_f64 2 (ac_disposition (be_accuracy t)) @ ''%** | OCSF Action Mapping |'' @ nl @
     ''| **Action Inviolability** | N/A | **100% PRESERVED** | `ALLOW`/`DENY` isolated |'' @ nl @ nl)"

definition markdown_latency :: "benchmark_result \<Rightarrow> benchmark_result \<Rightarrow> string" where
  "markdown_latency b t =
    (''## 2. Microsecond Latency Spectrum'' @ nl @ nl @
     ''| Percentile Observation | Baseline ('' @ micro @ ''s) | 3-Tier Engine ('' @ micro @
     ''s) | Latency Reduction |'' @ nl @
     ''| :--- | :---: | :---: | :---: |'' @ nl @
     ''| **p1 (Fastest 1%)** | '' @ show_dec 2 (la_p1 (be_latency b)) @ '' '' @ micro @ ''s | '' @
     show_dec 2 (la_p1 (be_latency t)) @ '' '' @ micro @ ''s | -'' @
     show_dec 1 (calc_diff (la_p1 (be_latency b)) (la_p1 (be_latency t))) @ ''% |'' @ nl @
     ''| **p50 (Median)** | '' @ show_dec 2 (la_p50 (be_latency b)) @ '' '' @ micro @ ''s | '' @
     show_dec 2 (la_p50 (be_latency t)) @ '' '' @ micro @ ''s | -'' @
     show_dec 1 (calc_diff (la_p50 (be_latency b)) (la_p50 (be_latency t))) @ ''% |'' @ nl @
     ''| **p90** | '' @ show_dec 2 (la_p90 (be_latency b)) @ '' '' @ micro @ ''s | '' @
     show_dec 2 (la_p90 (be_latency t)) @ '' '' @ micro @ ''s | -'' @
     show_dec 1 (calc_diff (la_p90 (be_latency b)) (la_p90 (be_latency t))) @ ''% |'' @ nl @
     ''| **p99** | '' @ show_dec 2 (la_p99 (be_latency b)) @ '' '' @ micro @ ''s | '' @
     show_dec 2 (la_p99 (be_latency t)) @ '' '' @ micro @ ''s | -'' @
     show_dec 1 (calc_diff (la_p99 (be_latency b)) (la_p99 (be_latency t))) @ ''% |'' @ nl @
     ''| **p99.9 (Three Nines)** | '' @ show_dec 2 (la_p999 (be_latency b)) @ '' '' @ micro @ ''s | '' @
     show_dec 2 (la_p999 (be_latency t)) @ '' '' @ micro @ ''s | -'' @
     show_dec 1 (calc_diff (la_p999 (be_latency b)) (la_p999 (be_latency t))) @ ''% |'' @ nl @
     ''| **Worst Case (Max)** | '' @ show_dec 2 (la_max (be_latency b)) @ '' '' @ micro @ ''s | '' @
     show_dec 2 (la_max (be_latency t)) @ '' '' @ micro @ ''s | -'' @
     show_dec 1 (calc_diff (la_max (be_latency b)) (la_max (be_latency t))) @ ''% |'' @ nl @ nl)"

definition markdown_quality :: "benchmark_result \<Rightarrow> benchmark_result \<Rightarrow> string" where
  "markdown_quality b t =
    (''## 3. Academic Accuracy & Quality Breakdown'' @ nl @ nl @
     ''| Metric Category | Baseline Score | 3-Tier Score | Evaluation Target |'' @ nl @
     ''| :--- | :---: | :---: | :---: |'' @ nl @
     ''| **Vendor Classification Accuracy** | '' @ show_f64 2 (ac_vendor_classification (be_accuracy b)) @ ''% | '' @
     show_f64 2 (ac_vendor_classification (be_accuracy t)) @ ''% | > 95.0% |'' @ nl @
     ''| **LogPai Grouping Accuracy (GA %)** | '' @ show_f64 2 (ac_grouping (be_accuracy b)) @ ''% | '' @
     show_f64 2 (ac_grouping (be_accuracy t)) @ ''% | > 90.0% |'' @ nl @
     ''| **Loghub Template Accuracy (TA %)** | '' @ show_f64 2 (ac_template (be_accuracy b)) @ ''% | '' @
     show_f64 2 (ac_template (be_accuracy t)) @ ''% | > 85.0% |'' @ nl @
     ''| **Source IP Accuracy** | '' @ show_f64 1 (ac_src_ip (be_accuracy b)) @ ''% | '' @
     show_f64 1 (ac_src_ip (be_accuracy t)) @ ''% | Ground Truth Exact |'' @ nl @
     ''| **Destination IP Accuracy** | '' @ show_f64 1 (ac_dst_ip (be_accuracy b)) @ ''% | '' @
     show_f64 1 (ac_dst_ip (be_accuracy t)) @ ''% | Ground Truth Exact |'' @ nl @
     ''| **Source Port Accuracy** | '' @ show_f64 1 (ac_src_port (be_accuracy b)) @ ''% | '' @
     show_f64 1 (ac_src_port (be_accuracy t)) @ ''% | Valid Port Range |'' @ nl @
     ''| **Destination Port Accuracy** | '' @ show_f64 1 (ac_dst_port (be_accuracy b)) @ ''% | '' @
     show_f64 1 (ac_dst_port (be_accuracy t)) @ ''% | Valid Port Range |'' @ nl @
     ''| **Protocol Disambiguation** | '' @ show_f64 1 (ac_protocol (be_accuracy b)) @ ''% | '' @
     show_f64 1 (ac_protocol (be_accuracy t)) @ ''% | OCSF 1.3 Schema 4001 |'' @ nl @
     ''| **Disposition Resolution Accuracy** | '' @ show_f64 2 (ac_disposition (be_accuracy b)) @ ''% | '' @
     show_f64 2 (ac_disposition (be_accuracy t)) @ ''% | Security Invariant |'' @ nl @
     ''| **Lossless Cryptographic SHA-256** | '' @ show_f64 2 (ac_lossless_sha256 (be_accuracy b)) @ ''% | '' @
     show_f64 2 (ac_lossless_sha256 (be_accuracy t)) @ ''% | 100.0% Required |'' @ nl @ nl)"

definition to_markdown :: "evaluation_report \<Rightarrow> string" where
  "to_markdown rep =
     markdown_head rep @
     (case (ev_baseline rep, ev_tiered rep) of
        (Some b, Some t) \<Rightarrow> markdown_scorecard rep b t @ markdown_latency b t @ markdown_quality b t
      | _ \<Rightarrow> [])"

end
