(* ===== verification/Benchmark.thy ===== *)
theory Benchmark
  imports Cli Report
begin

text \<open>
  The \<open>benchmark\<close> and \<open>evaluate\<close> commands of \<open>ulpf-cli/src/main.rs\<close>. \<open>benchmark\<close> hands
  over to \<open>evaluate\<close> when a comparison is asked for, and otherwise loads the corpus, lets its workers count the lines
  they parse, and shows the throughput; its workers keep no byte counter and add nothing at the end when nothing is left
  over. \<open>evaluate\<close> shows the dashboard and writes the Markdown and JSON reports. The iterations of the workers, the
  elapsed time, the two benchmark runs, the outcomes of writes and serde are arguments.
\<close>

record benchmark_args =
  ba_data_dir :: string
  ba_duration :: u64
  ba_threads :: nat
  ba_compare :: bool

record evaluate_args =
  ea_data_dir :: string
  ea_engine :: string
  ea_duration :: u64
  ea_threads :: nat
  ea_samples :: nat
  ea_out :: string
  ea_json_out :: "string option"

record count_worker =
  cw_idx :: nat
  cw_local_count :: u64
  cw_added :: u64

definition count_start :: "nat \<Rightarrow> count_worker" where
  "count_start worker_id = \<lparr>cw_idx = worker_id, cw_local_count = 0, cw_added = 0\<rparr>"

definition count_iteration :: "(nat \<Rightarrow> string \<Rightarrow> bool) \<Rightarrow> string list \<Rightarrow> count_worker \<Rightarrow> count_worker option" where
  "count_iteration survives corpus w =
     (if corpus = [] then None
      else
        let raw = corpus ! (cw_idx w mod length corpus);
            w1 = w\<lparr>cw_idx := cw_idx w + 1, cw_local_count := cw_local_count w + 1\<rparr>
        in if \<not> survives (cw_idx w) raw then None
           else Some (if cw_local_count w1 mod 1024 = 0 then w1\<lparr>cw_added := cw_added w1 + 1024\<rparr> else w1))"

definition count_finish :: "count_worker \<Rightarrow> count_worker" where
  "count_finish w =
     (let remainder = cw_local_count w mod 1024
      in if 0 < remainder then w\<lparr>cw_added := cw_added w + remainder\<rparr> else w)"

fun count_thread :: "(nat \<Rightarrow> string \<Rightarrow> bool) \<Rightarrow> string list \<Rightarrow> nat \<Rightarrow> count_worker \<Rightarrow> count_worker" where
  "count_thread survives corpus 0 w = count_finish w"
| "count_thread survives corpus (Suc n) w =
     (case count_iteration survives corpus w of None \<Rightarrow> w | Some w' \<Rightarrow> count_thread survives corpus n w')"

definition count_total :: "(nat \<Rightarrow> nat \<Rightarrow> string \<Rightarrow> bool) \<Rightarrow> string list \<Rightarrow> nat list \<Rightarrow> u64" where
  "count_total survives corpus ns =
     sum_list (map (\<lambda>(worker_id, n). cw_added (count_thread (survives worker_id) corpus n (count_start worker_id)))
       (enumerate 0 ns))"

record benchmark_shown =
  bs_total :: u64
  bs_elapsed :: rat
  bs_eps :: float_val
  bs_per_core :: float_val

text \<open>The left injection is the hand-over; \<open>iterations\<close> has an entry per worker.\<close>

definition run_benchmark ::
  "(nat \<Rightarrow> nat \<Rightarrow> string \<Rightarrow> bool) \<Rightarrow> (nat \<Rightarrow> nat) \<Rightarrow> rat \<Rightarrow> benchmark_args \<Rightarrow> fs \<Rightarrow>
     evaluate_args + benchmark_shown command_end" where
  "run_benchmark survives iterations elapsed args fs =
     (if ba_compare args
      then Inl \<lparr>ea_data_dir = ba_data_dir args, ea_engine = ''all'', ea_duration = ba_duration args,
             ea_threads = ba_threads args, ea_samples = 10000, ea_out = ''eval_hardcore_report.md'', ea_json_out = None\<rparr>
      else
        let corpus = load_corpus fs (ba_data_dir args) in
        if corpus = [] then Inr Exit_One
        else
          let total = count_total survives corpus (map iterations [0..<ba_threads args]);
              eps = f64_div (of_nat (unat total)) elapsed
          in Inr (Completed \<lparr>bs_total = total, bs_elapsed = elapsed, bs_eps = eps,
                   bs_per_core = f64_div_by eps (of_nat (ba_threads args))\<rparr>))"

text \<open>The report is written after the dashboard is shown, the JSON text made after the Markdown is written.\<close>

definition run_evaluate ::
  "(string \<Rightarrow> string) \<Rightarrow> (evaluation_report \<Rightarrow> string option) \<Rightarrow> write_outcome \<Rightarrow> write_outcome \<Rightarrow> string \<Rightarrow>
     (string list \<Rightarrow> benchmark_result option) \<Rightarrow> (string list \<Rightarrow> benchmark_result option) \<Rightarrow> evaluate_args \<Rightarrow> fs \<Rightarrow>
     string command_end option \<times> fs" where
  "run_evaluate upper report_ser md_io json_io now benchmark_baseline benchmark_tiered args fs =
     (let corpus = load_corpus fs (ea_data_dir args) in
      if corpus = [] then (Some Exit_One, fs)
      else case evaluate_with_mode now (ea_engine args) corpus (ea_duration args) (ea_threads args)
                  benchmark_baseline benchmark_tiered of
        None \<Rightarrow> (None, fs)
      | Some rep \<Rightarrow>
          let shown = render_terminal_dashboard upper rep;
              (md_ok, fs1) = write_file md_io (ea_out args) (to_markdown rep) fs
          in if \<not> md_ok then (Some (Returned_Err (Write_Failed (ea_out args))), fs1)
             else case ea_json_out args of
               None \<Rightarrow> (Some (Completed shown), fs1)
             | Some json_path \<Rightarrow>
                 (case report_ser rep of
                    None \<Rightarrow> (Some (Returned_Err Json_Failed), fs1)
                  | Some json \<Rightarrow>
                      let (json_ok, fs2) = write_file json_io json_path json fs1 in
                      if json_ok then (Some (Completed shown), fs2)
                      else (Some (Returned_Err (Write_Failed json_path)), fs2)))"

end
