(* ===== verification/Evaluator_Properties.thy ===== *)
theory Evaluator_Properties
  imports Benchmark Pipeline_Properties
begin

text \<open>
  What the evaluator and the benchmark command measure: latency percentiles are ordered, throughput counters are exact,
  and the two programs count alike.
\<close>

subsection \<open>Latencies\<close>

lemma index_below: "k < d \<Longrightarrow> 0 < n \<Longrightarrow> n * k div d < n" for n k d :: nat
  by (rule less_mult_imp_div_less) simp

lemma index_mono: "k \<le> l \<Longrightarrow> n * k div d \<le> n * l div d" for n k l d :: nat
  by (simp add: div_le_mono)

lemma index_scale: "0 < c \<Longrightarrow> n * k div d = n * (k * c) div (d * c)" for n k d c :: nat
  by (metis div_mult_mult2 mult.assoc nat_neq_iff not_less_zero)

lemma sum_list_bounds:
  "\<forall>x \<in> set xs. a \<le> x \<and> x \<le> b \<Longrightarrow> of_nat (length xs) * a \<le> sum_list xs \<and> sum_list xs \<le> of_nat (length xs) * b"
  for a b :: rat
  by (induction xs) (auto simp: algebra_simps)

lemma mean_between:
  assumes "\<forall>x \<in> set xs. a \<le> x \<and> x \<le> b" "xs \<noteq> []"
  shows "a \<le> mean_of xs \<and> mean_of xs \<le> b"
  using sum_list_bounds [OF assms(1)] assms(2) by (simp add: mean_of_def field_simps)

definition percentiles :: "latency_summary \<Rightarrow> rat list" where
  "percentiles s = [la_min s, la_p1 s, la_p5 s, la_p25 s, la_p50 s, la_p75 s, la_p90 s, la_p95 s, la_p99 s,
     la_p999 s, la_p9999 s, la_max s]"

definition rank :: "nat \<Rightarrow> nat \<Rightarrow> nat" where
  "rank n k = min (n * k div 10000) (n - 1)"

lemma rank_hundredths: "k < 100 \<Longrightarrow> 0 < n \<Longrightarrow> n * k div 100 = rank n (k * 100)"
  using index_scale [of 100 n k 100] index_below [of k 100 n] by (simp add: rank_def)

lemma rank_less: "0 < n \<Longrightarrow> rank n k < n"
  unfolding rank_def by (rule le_less_trans [OF min.cobounded2]) simp

lemma rank_mono: "k \<le> l \<Longrightarrow> rank n k \<le> rank n l"
  using index_mono [of k l n 10000] by (auto simp: rank_def)

lemma sorted_map_mono: "sorted xs \<Longrightarrow> (\<And>x y. x \<le> y \<Longrightarrow> f x \<le> f y) \<Longrightarrow> sorted (map f xs)"
  by (induction xs) auto

lemma summarize_eq:
  assumes "measured \<noteq> []"
  defines "l \<equiv> \<lambda>k. sort measured ! rank (length measured) k"
  shows "\<exists>s. summarize_latencies measured = Some s \<and>
    percentiles s = map l [0, 100, 500, 2500, 5000, 7500, 9000, 9500, 9900, 9990, 9999, 10000] \<and>
    la_mean s = mean_of (sort measured) \<and> la_samples_count s = length measured"
proof -
  let ?n = "length measured"
  have n: "0 < ?n" using assms(1) by simp
  have ix: "nth_opt (sort measured) (?n * k div 100) = Some (l (k * 100))" if "k < 100" for k
    using rank_hundredths [OF that n] rank_less [OF n] by (simp add: l_def)
  have ix0: "nth_opt (sort measured) 0 = Some (l 0)" "nth_opt (sort measured) (?n div 100) = Some (l 100)"
    using ix [of 0] ix [of 1] by simp_all
  have at_rank: "nth_opt (sort measured) (rank ?n k) = Some (l k)" for k using rank_less [OF n, of k] by (simp add: l_def)
  have "min (?n * 999 div 1000) (?n - 1) = rank ?n 9990" unfolding rank_def by (subst index_scale [of 10]) simp_all
  then have ix9: "nth_opt (sort measured) (min (?n * 999 div 1000) (?n - 1)) = Some (l 9990)"
    "nth_opt (sort measured) (min (?n * 9999 div 10000) (?n - 1)) = Some (l 9999)"
    using at_rank [of 9990] at_rank [of 9999] by (simp_all only: rank_def)
  have "sort measured \<noteq> []" using assms(1) by (metis length_0_conv length_sort)
  then have last: "last_opt (sort measured) = Some (l 10000)" using n by (simp add: last_opt_def last_conv_nth l_def rank_def)
  show ?thesis
    using ix [of 5] ix [of 25] ix [of 50] ix [of 75] ix [of 90] ix [of 95] ix [of 99]
    unfolding summarize_latencies_def Let_def length_sort ix0 ix9 last by (simp add: percentiles_def)
qed

lemma summarize_ordered:
  assumes "measured \<noteq> []"
  shows "\<exists>s. summarize_latencies measured = Some s \<and> sorted (percentiles s) \<and> set (percentiles s) \<subseteq> set measured \<and>
    la_min s \<le> la_mean s \<and> la_mean s \<le> la_max s \<and> la_samples_count s = length measured"
proof -
  let ?n = "length measured" and ?ks = "[0, 100, 500, 2500, 5000, 7500, 9000, 9500, 9900, 9990, 9999, 10000 :: nat]"
  let ?l = "\<lambda>k. sort measured ! rank ?n k"
  have n: "0 < ?n" using assms by simp
  obtain s where s: "summarize_latencies measured = Some s" "percentiles s = map ?l ?ks"
    "la_mean s = mean_of (sort measured)" "la_samples_count s = ?n"
    using summarize_eq [OF assms] by blast
  have mono: "?l k \<le> ?l m" if "k \<le> m" for k m
    using rank_mono [OF that, of ?n] rank_less [OF n] by (simp add: sorted_nth_mono)
  have "sorted ?ks" by simp
  then have "sorted (percentiles s)" unfolding s(2) by (rule sorted_map_mono) (rule mono)
  moreover have mem: "?l k \<in> set measured" for k
    using rank_less [OF n, of k] by (metis length_sort nth_mem set_sort)
  then have "set (percentiles s) \<subseteq> set measured" unfolding s(2) by auto
  moreover have "la_min s = ?l 0" "la_max s = ?l 10000" using s(2) by (simp_all add: percentiles_def)
  moreover have "\<forall>x \<in> set (sort measured). ?l 0 \<le> x \<and> x \<le> ?l 10000"
  proof
    fix x
    assume "x \<in> set (sort measured)"
    then obtain i where "i < ?n" "x = sort measured ! i" by (metis in_set_conv_nth length_sort)
    then show "?l 0 \<le> x \<and> x \<le> ?l 10000"
      using n by (auto simp: rank_def intro!: sorted_nth_mono)
  qed
  moreover have "sort measured \<noteq> []" using assms by (metis length_0_conv length_sort)
  ultimately show ?thesis using mean_between [of "sort measured"] s by metis
qed

lemma nth_mod_mem [simp]: "xs \<noteq> [] \<Longrightarrow> xs ! (i mod length xs) \<in> set xs"
  by simp

lemma latency_sampled:
  assumes "corpus \<noteq> []" "\<And>i raw. raw \<in> set corpus \<Longrightarrow> survives i raw"
  shows "\<exists>s. sample_latency_distribution nanos survives corpus target = Some s \<and> sorted (percentiles s) \<and>
    set (percentiles s) \<subseteq> range (\<lambda>i. of_nat (nanos i) / 1000) \<and>
    la_min s \<le> la_mean s \<and> la_mean s \<le> la_max s \<and> la_samples_count s = max target 100"
proof -
  let ?m = "map (\<lambda>i. of_nat (nanos i) / 1000 :: rat) [0..<max target 100]"
  have "?m \<noteq> []" by simp
  from summarize_ordered [OF this] obtain s where s: "summarize_latencies ?m = Some s" "sorted (percentiles s)"
    "set (percentiles s) \<subseteq> set ?m" "la_min s \<le> la_mean s" "la_mean s \<le> la_max s" "la_samples_count s = length ?m"
    by blast
  have "\<forall>i < max target 100. survives i (corpus ! (i mod length corpus))"
    using assms by (simp add: nth_mod_mem)
  then have "sample_latency_distribution nanos survives corpus target = Some s"
    using assms(1) s(1) by (simp add: sample_latency_distribution_def list_all_iff)
  moreover have "set (percentiles s) \<subseteq> range (\<lambda>i. of_nat (nanos i) / 1000)" using s(3) by auto
  ultimately show ?thesis using s by simp
qed

text \<open>
  A latency distribution over a corpus that is not empty is well formed: it takes at least 100 samples, its percentiles are
  measured values in ascending order, and the mean lies between the least and the greatest; no index is out of range.
\<close>
theorem latency_percentiles_ordered:
  assumes "corpus \<noteq> []" "\<And>i raw. raw \<in> set corpus \<Longrightarrow> survives i raw"
  shows "\<exists>s. sample_latency_distribution nanos survives corpus target = Some s \<and> sorted (percentiles s) \<and>
    set (percentiles s) \<subseteq> range (\<lambda>i. of_nat (nanos i) / 1000) \<and>
    la_min s \<le> la_mean s \<and> la_mean s \<le> la_max s \<and> la_samples_count s = max target 100"
  by (rule latency_sampled [OF assms])

theorem latency_percentiles_ordered_witness:
  "\<exists>s. sample_latency_distribution (\<lambda>i. 1000 + i) (\<lambda>i raw. True) [''a''] 7 = Some s \<and> sorted (percentiles s) \<and>
     la_min s \<le> la_mean s \<and> la_samples_count s = 100"
  using latency_percentiles_ordered [of "[''a'']" "\<lambda>i raw. True" "\<lambda>i. 1000 + i" 7] by auto

subsection \<open>Throughput\<close>

definition lines_read :: "string list \<Rightarrow> nat \<Rightarrow> nat \<Rightarrow> string list" where
  "lines_read corpus worker_id n = map (\<lambda>i. corpus ! ((worker_id + i) mod length corpus)) [0..<n]"

lemma u64_mod_1024: "(of_nat k :: u64) mod 1024 = of_nat (k mod 1024)"
proof -
  have "unat ((of_nat k :: u64) mod 1024) = k mod 2 ^ 64 mod 1024"
    by (simp add: unat_mod_distrib unat_of_nat)
  also have "\<dots> = k mod 1024" by (rule mod_mod_cancel) simp
  finally have "unat ((of_nat k :: u64) mod 1024) = unat (of_nat (k mod 1024) :: u64)"
    by (simp add: unat_of_nat)
  then show ?thesis by (simp only: word_unat_eq_iff)
qed

lemma u64_multiple_1024: "(of_nat k :: u64) mod 1024 = 0 \<longleftrightarrow> k mod 1024 = 0"
proof
  assume "(of_nat k :: u64) mod 1024 = 0"
  then have "unat (of_nat (k mod 1024) :: u64) = 0" by (simp add: u64_mod_1024)
  then show "k mod 1024 = 0" by (simp add: unat_of_nat)
qed (simp add: u64_mod_1024)

definition bench_ok :: "string list \<Rightarrow> nat \<Rightarrow> nat \<Rightarrow> bench_worker \<Rightarrow> bool" where
  "bench_ok corpus worker_id n w \<longleftrightarrow> bw_idx w = worker_id + n \<and> bw_local_count w = of_nat n \<and>
     bw_added_count w = of_nat (n - n mod 1024) \<and>
     bw_added_bytes w + bw_local_bytes w = of_nat (sum_list (map length (lines_read corpus worker_id n)))"

lemma round_down_Suc:
  assumes "Suc n mod 1024 = 0"
  shows "n - n mod 1024 + 1024 = Suc n"
proof -
  have "n mod 1024 = 1023" using assms by (simp add: mod_Suc split: if_splits)
  moreover have "n mod 1024 \<le> n" by (rule mod_less_eq_dividend)
  ultimately show ?thesis by simp
qed

lemma round_down_same: "Suc n mod 1024 \<noteq> 0 \<Longrightarrow> Suc n - Suc n mod 1024 = n - n mod 1024"
  by (simp add: mod_Suc split: if_splits)

lemma lines_read_Suc [simp]:
  "lines_read corpus worker_id (Suc n) = lines_read corpus worker_id n @ [corpus ! ((worker_id + n) mod length corpus)]"
  by (simp add: lines_read_def)

lemma bench_ok_start: "bench_ok corpus worker_id 0 (bench_start worker_id)"
  by (simp add: bench_ok_def bench_start_def lines_read_def)

lemma bench_ok_iteration:
  assumes ok: "bench_ok corpus worker_id n w" and "corpus \<noteq> []" "\<And>i raw. raw \<in> set corpus \<Longrightarrow> survives i raw"
  shows "\<exists>w'. bench_iteration survives corpus w = Some w' \<and> bench_ok corpus worker_id (Suc n) w'"
proof (cases "Suc n mod 1024 = 0")
  case True
  then have "(of_nat (n - n mod 1024) :: u64) + 1024 = of_nat (Suc n)"
    by (metis round_down_Suc of_nat_add of_nat_numeral)
  then show ?thesis
    using assms True u64_multiple_1024 [of "Suc n"]
    by (auto simp: bench_iteration_def bench_ok_def Let_def algebra_simps)
next
  case False
  then show ?thesis
    using assms round_down_same [OF False] u64_multiple_1024 [of "Suc n"]
    by (auto simp: bench_iteration_def bench_ok_def Let_def algebra_simps)
qed

lemma bench_ok_finish:
  assumes "bench_ok corpus worker_id n w"
  shows "bw_added_count (bench_finish w) = of_nat n \<and>
    bw_added_bytes (bench_finish w) = of_nat (sum_list (map length (lines_read corpus worker_id n)))"
proof -
  have "(of_nat (n - n mod 1024) :: u64) + of_nat (n mod 1024) = of_nat n"
    by (metis le_add_diff_inverse2 mod_less_eq_dividend of_nat_add)
  then show ?thesis using assms by (simp add: bench_ok_def bench_finish_def u64_mod_1024)
qed

lemma bench_thread_exact:
  assumes "bench_ok corpus worker_id k w" "corpus \<noteq> []" "\<And>i raw. raw \<in> set corpus \<Longrightarrow> survives i raw"
  shows "bw_added_count (bench_thread survives corpus n w) = of_nat (k + n) \<and>
    bw_added_bytes (bench_thread survives corpus n w) = of_nat (sum_list (map length (lines_read corpus worker_id (k + n))))"
  using assms(1)
proof (induction n arbitrary: k w)
  case 0
  then show ?case using bench_ok_finish [of corpus worker_id k w] by simp
next
  case (Suc n)
  from bench_ok_iteration [OF Suc.prems assms(2), of survives] assms(3) obtain w'
    where "bench_iteration survives corpus w = Some w'" "bench_ok corpus worker_id (Suc k) w'" by blast
  then show ?case using Suc.IH [of "Suc k" w'] by simp
qed

lemma sum_list_of_nat: "sum_list (map (\<lambda>x. of_nat (f x)) xs) = (of_nat (sum_list (map f xs)) :: u64)"
  by (induction xs) simp_all

lemma bench_totals_exact:
  assumes "corpus \<noteq> []" "\<And>worker_id i raw. raw \<in> set corpus \<Longrightarrow> survives worker_id i raw"
  shows "bench_totals survives corpus ns = (of_nat (sum_list ns),
    of_nat (sum_list (map (\<lambda>(worker_id, n). sum_list (map length (lines_read corpus worker_id n))) (enumerate 0 ns))))"
proof -
  have t: "bw_added_count (bench_thread (survives i) corpus n (bench_start i)) = of_nat n"
    "bw_added_bytes (bench_thread (survives i) corpus n (bench_start i)) = of_nat (sum_list (map length (lines_read corpus i n)))"
    for i n using bench_thread_exact [OF bench_ok_start assms(1), of "survives i" n i] assms(2) by simp_all
  have "map snd (enumerate 0 ns) = ns" by simp
  then have "sum_list (map (\<lambda>e. of_nat (snd e)) (enumerate 0 ns)) = (of_nat (sum_list ns) :: u64)"
    using sum_list_of_nat [of snd "enumerate 0 ns"] by simp
  then show ?thesis
    using sum_list_of_nat [of "\<lambda>(worker_id, n). sum_list (map length (lines_read corpus worker_id n))" "enumerate 0 ns"]
    by (simp add: bench_totals_def Let_def comp_def case_prod_unfold t)
qed

text \<open>
  The shared counters of a benchmark are exact whatever the number of threads and of their iterations: lines are added in
  batches of 1024 and the remainder when the thread stops, the counter being the number of lines parsed, and the byte
  counter the total length of the lines each thread has read, round robin from its own index.
\<close>
theorem bench_counters_exact:
  assumes "corpus \<noteq> []" "\<And>worker_id i raw. raw \<in> set corpus \<Longrightarrow> survives worker_id i raw"
  shows "bench_totals survives corpus ns = (of_nat (sum_list ns),
    of_nat (sum_list (map (\<lambda>(worker_id, n). sum_list (map length (lines_read corpus worker_id n))) (enumerate 0 ns))))"
  by (rule bench_totals_exact [OF assms])

theorem bench_counters_exact_witness:
  "bench_totals (\<lambda>worker_id i raw. True) [''ab'', ''cde''] [1500, 3] = (1503, of_nat (sum_list (map
     (\<lambda>(worker_id, n). sum_list (map length (lines_read [''ab'', ''cde''] worker_id n))) (enumerate 0 [1500, 3]))))"
  using bench_counters_exact [of "[''ab'', ''cde'']" "\<lambda>worker_id i raw. True" "[1500, 3]"] by simp

subsection \<open>The benchmark command\<close>

definition same_count :: "count_worker \<Rightarrow> bench_worker \<Rightarrow> bool" where
  "same_count v w \<longleftrightarrow> cw_idx v = bw_idx w \<and> cw_local_count v = bw_local_count w \<and> cw_added v = bw_added_count w"

lemma same_count_iteration:
  assumes "same_count v w"
  shows "rel_option same_count (count_iteration survives corpus v) (bench_iteration survives corpus w)"
  using assms by (simp add: same_count_def count_iteration_def bench_iteration_def Let_def)

lemma same_count_finish: "same_count v w \<Longrightarrow> cw_added (count_finish v) = bw_added_count (bench_finish w)"
  by (simp add: same_count_def count_finish_def bench_finish_def Let_def word_gt_0)

lemma same_count_thread:
  "same_count v w \<Longrightarrow> cw_added (count_thread survives corpus n v) = bw_added_count (bench_thread survives corpus n w)"
proof (induction n arbitrary: v w)
  case 0
  then show ?case by (simp add: same_count_finish)
next
  case (Suc n)
  from same_count_iteration [OF Suc.prems, of survives corpus] show ?case
    using Suc.prems Suc.IH by (cases rule: option.rel_cases) (auto simp: same_count_def)
qed

lemma count_total_bench: "count_total survives corpus ns = fst (bench_totals survives corpus ns)"
proof -
  have "same_count (count_start i) (bench_start i)" for i by (simp add: same_count_def count_start_def bench_start_def)
  then have "cw_added (count_thread (survives i) corpus n (count_start i)) =
      bw_added_count (bench_thread (survives i) corpus n (bench_start i))" for i n by (rule same_count_thread)
  then show ?thesis by (simp add: count_total_def bench_totals_def Let_def comp_def case_prod_unfold)
qed

text \<open>
  The benchmark command counts the way the evaluator does: whatever lines its workers die on, the total it shows is the
  evaluator's counter for the same iterations, and without panics it is the number of lines parsed.
\<close>
theorem benchmark_agrees_with_evaluator:
  assumes "\<not> ba_compare args" "load_corpus fs (ba_data_dir args) \<noteq> []"
  shows "\<exists>r. run_benchmark survives iterations elapsed args fs = Inr (Completed r) \<and>
    bs_total r = fst (bench_totals survives (load_corpus fs (ba_data_dir args)) (map iterations [0..<ba_threads args])) \<and>
    bs_eps r = th_events_per_sec (throughput_of (bs_total r) bytes elapsed (ba_threads args)) \<and>
    bs_per_core r = th_per_core_eps (throughput_of (bs_total r) bytes elapsed (ba_threads args)) \<and>
    ((\<forall>worker_id i raw. survives worker_id i raw) \<longrightarrow> bs_total r = of_nat (\<Sum>i < ba_threads args. iterations i))"
proof -
  let ?c = "load_corpus fs (ba_data_dir args)" and ?ns = "map iterations [0..<ba_threads args]"
  have "count_total survives ?c ?ns = of_nat (\<Sum>i < ba_threads args. iterations i)"
    if "\<forall>worker_id i raw. survives worker_id i raw"
    using bench_totals_exact [OF assms(2), of survives ?ns] that
    by (simp add: count_total_bench interv_sum_list_conv_sum_set_nat atLeast0LessThan)
  then show ?thesis
    using assms by (simp add: run_benchmark_def Let_def throughput_of_def count_total_bench)
qed

theorem benchmark_agrees_with_evaluator_witness:
  "\<exists>r. run_benchmark (\<lambda>worker_id i raw. True) (\<lambda>i. 1500 + i) 2
      \<lparr>ba_data_dir = ''d'', ba_duration = 2, ba_threads = 2, ba_compare = False\<rparr>
      [''d/cisco_asa.log'' \<mapsto> ''link up''] = Inr (Completed r) \<and> bs_total r = 3001"
proof -
  let ?fs = "[''d/cisco_asa.log'' \<mapsto> ''link up'']"
    and ?args = "\<lparr>ba_data_dir = ''d'', ba_duration = 2, ba_threads = 2, ba_compare = False\<rparr>"
  have "load_corpus ?fs ''d'' = [''link up'']" by code_simp
  then have "\<not> ba_compare ?args" "load_corpus ?fs (ba_data_dir ?args) \<noteq> []" by simp_all
  from benchmark_agrees_with_evaluator [OF this, of "\<lambda>worker_id i raw. True" "\<lambda>i. 1500 + i" 2 0]
  show ?thesis by (auto simp: numeral_2_eq_2)
qed

end
