(* ===== verification/Comparison_Properties.thy ===== *)
theory Comparison_Properties
  imports Audit_Properties Evaluator_Properties Pipeline_Threads_Properties
begin

text \<open>
  The evaluation as a whole: on an ASCII corpus both benchmark runs return, from warm-up to audit, and the report of the
  comparison holds their measurements.
\<close>

lemma map_opt_total: "\<forall>x \<in> set xs. f x \<noteq> None \<Longrightarrow> \<exists>ys. map_opt f xs = Some ys"
  by (induction xs) auto

lemma process_lines_ascii:
  "pipeline_ok st \<Longrightarrow> \<forall>(i, raw) \<in> set lines. ascii_str raw \<Longrightarrow>
     \<exists>st'. process_lines X E lines st = Some st' \<and> pipeline_ok st'"
proof (induction lines arbitrary: st)
  case (Cons line lines)
  obtain i raw where line: "line = (i, raw)" by (cases line)
  obtain ev st1 where p: "process X (E i) raw st = (ev, st1)" by (cases "process X (E i) raw st")
  have "ascii_str raw" using Cons.prems(2) line by simp
  then obtain a where a: "ev = Some a" using process_event [OF Cons.prems(1) p] by blast
  have "\<forall>(i, raw) \<in> set lines. ascii_str raw" using Cons.prems(2) by simp
  from Cons.IH [OF pipeline_ok_process [OF Cons.prems(1) p] this] show ?case using line p a by simp
qed simp

lemma pipeline_new_ok: "\<exists>st. pipeline_new = Some st \<and> pipeline_ok st"
proof -
  have "is_power_of_two 16" by code_simp
  then obtain st where "with_ring_buffer_capacity 10000 = Some st"
    by (auto simp: with_ring_buffer_capacity_def cache_new_def cache_with_capacity_def)
  then show ?thesis using pipeline_ok_init [of 10000 st] by (auto simp: pipeline_new_def pipeline_init_def)
qed

lemma warmup_mem: "(i, raw) \<in> set (warmup_lines corpus) \<Longrightarrow> raw \<in> set corpus"
proof -
  assume "(i, raw) \<in> set (warmup_lines corpus)"
  then have "raw \<in> snd ` set (warmup_lines corpus)" by force
  also have "\<dots> = set (take (min 1000 (length corpus)) corpus)"
    unfolding warmup_lines_def by (metis list.set_map map_snd_enumerate)
  finally show ?thesis by (rule in_set_takeD)
qed

text \<open>
  What the timed phase may do: the steps of any number of concurrent calls and of the worker, in any order, and calls that
  return on ASCII lines.
\<close>

definition timed_phase_ok :: "pipeline_libs \<Rightarrow> (pipeline \<Rightarrow> pipeline) \<Rightarrow> (nat \<Rightarrow> nat \<Rightarrow> string \<Rightarrow> bool) \<Rightarrow> bool" where
  "timed_phase_ok X run_threads timed_ok \<longleftrightarrow>
     (\<forall>st. \<exists>hist s. reach (\<lambda>s. s = \<lparr>tt_pipeline = st, tt_calls = []\<rparr>) (threads_step X) hist s \<and>
        run_threads st = tt_pipeline s) \<and>
     (\<forall>w i raw. ascii_str raw \<longrightarrow> timed_ok w i raw)"

lemma threads_ok_step: "pipeline_ok (tt_pipeline s) \<Longrightarrow> threads_step X s l s' \<Longrightarrow> pipeline_ok (tt_pipeline s')"
  by (erule threads_stepE) (auto simp: worker_recv_eq worker_finish_eq call_step_ok, simp_all add: pipeline_ok_def)

lemma pipeline_ok_steps:
  assumes "timed_phase_ok X run_threads timed_ok" "pipeline_ok st" shows "pipeline_ok (run_threads st)"
proof -
  obtain hist s where s: "reach (\<lambda>s. s = \<lparr>tt_pipeline = st, tt_calls = []\<rparr>) (threads_step X) hist s"
    "run_threads st = tt_pipeline s" using assms(1) unfolding timed_phase_ok_def by blast
  from s(1) have "pipeline_ok (tt_pipeline s)"
    by (induction rule: reach.induct) (use assms(2) threads_ok_step in auto)
  then show ?thesis using s(2) by simp
qed

definition good_result :: "(nat \<Rightarrow> nat) \<Rightarrow> nat \<Rightarrow> nat \<Rightarrow> nat \<Rightarrow> benchmark_result \<Rightarrow> bool" where
  "good_result iterations threads samples lines r \<longleftrightarrow>
     th_total_processed (be_throughput r) = of_nat (\<Sum>i < threads. iterations i) \<and>
     sorted (percentiles (be_latency r)) \<and> la_samples_count (be_latency r) = max samples 100 \<and>
     ac_lossless_sha256 (be_accuracy r) = Finite 100 \<and> ac_total_audited (be_accuracy r) = min 1000 lines"

lemma totals_sum:
  assumes "corpus \<noteq> []" "\<And>w i raw. raw \<in> set corpus \<Longrightarrow> survives w i raw"
  shows "fst (bench_totals survives corpus (map iterations [0..<threads])) = of_nat (\<Sum>i < threads. iterations i)"
  using bench_totals_exact [OF assms(1), of survives "map iterations [0..<threads]"] assms(2)
  by (simp add: interv_sum_list_conv_sum_set_nat atLeast0LessThan)

lemma latency_good:
  assumes "corpus \<noteq> []" "\<And>i raw. raw \<in> set corpus \<Longrightarrow> survives i raw"
  shows "\<exists>s. sample_latency_distribution nanos survives corpus samples = Some s \<and> sorted (percentiles s) \<and>
    la_samples_count s = max samples 100"
  using latency_sampled [of corpus survives nanos samples] assms by blast

lemma baseline_good:
  assumes "corpus \<noteq> []" "\<forall>raw \<in> set corpus. ascii_str raw \<and> extract_ground_truth raw \<noteq> None"
  shows "\<exists>r. benchmark_baseline_isolated L M uuid_ok N threads samples corpus = Some r \<and>
    good_result (nv_iterations N) threads samples (length corpus) r"
proof -
  have ok: "parse_lossless L E raw \<noteq> None" if "raw \<in> set corpus" for E raw
    using assms(2) that parse_lossless_ascii by blast
  have "\<forall>x \<in> set (warmup_lines corpus). (\<lambda>(i, raw). parse_lossless L (nv_warmup N i) raw) x \<noteq> None"
  proof
    fix x
    assume "x \<in> set (warmup_lines corpus)"
    then have "snd x \<in> set corpus" using warmup_mem [of "fst x" "snd x"] by simp
    then show "(\<lambda>(i, raw). parse_lossless L (nv_warmup N i) raw) x \<noteq> None"
      using ok by (simp add: split_beta del: not_None_eq)
  qed
  then obtain warm where warm: "map_opt (\<lambda>(i, raw). parse_lossless L (nv_warmup N i) raw) (warmup_lines corpus) = Some warm"
    using map_opt_total by blast
  let ?survives = "\<lambda>w i raw. parse_lossless L (nv_timed N w i) raw \<noteq> None"
  obtain total bytes where tot: "bench_totals ?survives corpus (map (nv_iterations N) [0..<threads]) = (total, bytes)"
    by (cases "bench_totals ?survives corpus (map (nv_iterations N) [0..<threads])")
  have total: "total = of_nat (\<Sum>i < threads. nv_iterations N i)"
    using totals_sum [OF assms(1), of ?survives "nv_iterations N" threads] ok tot by simp
  obtain s where s: "sample_latency_distribution (nv_nanos N) (\<lambda>i raw. parse_lossless L (nv_latency N i) raw \<noteq> None) corpus
      samples = Some s" "sorted (percentiles s)" "la_samples_count s = max samples 100"
    using latency_good [OF assms(1), of "\<lambda>i raw. parse_lossless L (nv_latency N i) raw \<noteq> None"] ok by blast
  obtain a where a: "audit_accuracy L M (nv_probes N) uuid_ok (baseline_parse L (nv_audit N)) baseline_cluster corpus () () =
      Some a" "ac_lossless_sha256 a = Finite 100" "ac_total_audited a = min 1000 (length corpus)"
    using baseline.audit_lossless [OF TrueI TrueI assms] by blast
  show ?thesis
    unfolding benchmark_baseline_isolated_def warm tot s(1) a(1)
    using total s(2,3) a(2,3) by (simp add: good_result_def throughput_of_def Let_def)
qed

lemma tiered_good:
  assumes "corpus \<noteq> []" "\<forall>raw \<in> set corpus. ascii_str raw \<and> extract_ground_truth raw \<noteq> None"
    and "timed_phase_ok X run_threads timed_ok"
  shows "\<exists>r. benchmark_tiered_isolated X M uuid_ok N run_threads timed_ok threads samples corpus = Some r \<and>
    good_result (nv_iterations N) threads samples (length corpus) r"
proof -
  have ascii: "ascii_str raw" if "raw \<in> set corpus" for raw using assms(2) that by blast
  obtain st0 where st0: "pipeline_new = Some st0" "pipeline_ok st0" using pipeline_new_ok by blast
  have "\<forall>(i, raw) \<in> set (warmup_lines corpus). ascii_str raw" using ascii warmup_mem by blast
  from process_lines_ascii [OF st0(2) this] obtain st1 where
    st1: "process_lines X (nv_warmup N) (warmup_lines corpus) st0 = Some st1" "pipeline_ok st1" by blast
  have st2: "pipeline_ok (run_threads st1)"
    by (rule pipeline_ok_steps [OF assms(3) st1(2)])
  have "\<forall>(i, raw) \<in> set (latency_lines corpus samples). ascii_str raw"
    using ascii assms(1) by (auto simp: latency_lines_def)
  from process_lines_ascii [OF st2 this] obtain st3 where
    st3: "process_lines X (nv_latency N) (latency_lines corpus samples) (run_threads st1) = Some st3" "pipeline_ok st3" by blast
  obtain total bytes where tot: "bench_totals timed_ok corpus (map (nv_iterations N) [0..<threads]) = (total, bytes)"
    by (cases "bench_totals timed_ok corpus (map (nv_iterations N) [0..<threads])")
  have "timed_ok w i raw" if "raw \<in> set corpus" for w i raw
    using assms(3) ascii [OF that] unfolding timed_phase_ok_def by blast
  then have total: "total = of_nat (\<Sum>i < threads. nv_iterations N i)"
    using totals_sum [OF assms(1), of timed_ok "nv_iterations N" threads] tot by simp
  obtain s where s: "sample_latency_distribution (nv_nanos N) (\<lambda>i raw. True) corpus samples = Some s"
    "sorted (percentiles s)" "la_samples_count s = max samples 100"
    using latency_good [OF assms(1), of "\<lambda>i raw. True"] by blast
  obtain a where a: "audit_accuracy (xl_parser X) M (nv_probes N) uuid_ok (tiered_parse X (nv_audit N))
      (tiered_cluster M (nv_clusters N)) corpus st3 (drain_new default_drain_config) = Some a"
    "ac_lossless_sha256 a = Finite 100" "ac_total_audited a = min 1000 (length corpus)"
    using tiered.audit_lossless [OF st3(2) _ assms(1,2)] general.miner_ok_new by blast
  show ?thesis
    unfolding benchmark_tiered_isolated_def st0(1) Option.bind.bind_lunit st1(1) Let_def tot
    using assms(1) total s a st3(1) by (simp add: good_result_def throughput_of_def Let_def)
qed

text \<open>
  C22. An evaluation on an ASCII corpus with ground truth completes: both benchmark runs return, from warm-up to audit,
  whatever the interleaving of the timed phase, when that phase consists of steps of pipeline calls that return; and the report holds for each engine the exact number of lines parsed, an ordered
  latency distribution of at least 100 samples and a lossless score of 100 per cent.
\<close>
theorem evaluation_completes:
  assumes "corpus \<noteq> []" "\<forall>raw \<in> set corpus. ascii_str raw \<and> extract_ground_truth raw \<noteq> None"
    and "timed_phase_ok X run_threads timed_ok"
  shows "\<exists>rep b t. evaluate_with_mode now ''all'' corpus d threads
      (benchmark_baseline_isolated (xl_parser X) M uuid_ok N threads samples)
      (benchmark_tiered_isolated X M uuid_ok N' run_threads timed_ok threads samples) = Some rep \<and>
    ev_baseline rep = Some b \<and> ev_tiered rep = Some t \<and>
    good_result (nv_iterations N) threads samples (length corpus) b \<and>
    good_result (nv_iterations N') threads samples (length corpus) t"
  using baseline_good [OF assms(1,2), of "xl_parser X" M uuid_ok N threads samples]
    tiered_good [OF assms, of M uuid_ok N' threads samples]
  by (auto simp: evaluate_with_mode_def)

definition trial_bench :: "'e bench_env" where
  "trial_bench = \<lparr>nv_warmup = undefined, nv_timed = undefined, nv_latency = undefined, nv_audit = undefined,
     nv_probes = undefined, nv_clusters = undefined, nv_iterations = (\<lambda>i. 2000 + i), nv_elapsed = 2, nv_nanos = (\<lambda>i. i)\<rparr>"

theorem evaluation_completes_witness:
  "\<exists>rep b t. evaluate_with_mode ''now'' ''all'' [''hello'', ''%ASA-6-302013: Built''] 2 3
      (benchmark_baseline_isolated test_parser_libs plain_libs (\<lambda>u. True) trial_bench 3 500)
      (benchmark_tiered_isolated test_pipeline_libs plain_libs (\<lambda>u. True) trial_bench id (\<lambda>w i raw. True) 3 500) = Some rep \<and>
    ev_baseline rep = Some b \<and> ev_tiered rep = Some t \<and> th_total_processed (be_throughput b) = 6003 \<and>
    ac_lossless_sha256 (be_accuracy t) = Finite 100"
proof -
  have "ascii_str ''hello''" "ascii_str ''%ASA-6-302013: Built''" "extract_ground_truth ''hello'' \<noteq> None"
    "extract_ground_truth ''%ASA-6-302013: Built'' \<noteq> None" by code_simp+
  then have c: "\<forall>raw \<in> set [''hello'', ''%ASA-6-302013: Built'']. ascii_str raw \<and> extract_ground_truth raw \<noteq> None"
    by simp
  have timed: "timed_phase_ok test_pipeline_libs id (\<lambda>w i raw. True)"
    by (auto simp: timed_phase_ok_def intro!: exI [of _ "[]"] reach_init)
  have libs: "xl_parser test_pipeline_libs = test_parser_libs" by (simp add: test_pipeline_libs_def)
  from evaluation_completes [OF _ c timed, of "''now''" 2 3 plain_libs "\<lambda>u. True" trial_bench 500 trial_bench, unfolded libs]
  obtain rep b t where r: "evaluate_with_mode ''now'' ''all'' [''hello'', ''%ASA-6-302013: Built''] 2 3
      (benchmark_baseline_isolated test_parser_libs plain_libs (\<lambda>u. True) trial_bench 3 500)
      (benchmark_tiered_isolated test_pipeline_libs plain_libs (\<lambda>u. True) trial_bench id (\<lambda>w i raw. True) 3 500) = Some rep"
    "ev_baseline rep = Some b" "ev_tiered rep = Some t"
    "good_result (nv_iterations (trial_bench :: parse_env bench_env)) 3 500
      (length [''hello'', ''%ASA-6-302013: Built'']) b"
    "good_result (nv_iterations (trial_bench :: call_env bench_env)) 3 500
      (length [''hello'', ''%ASA-6-302013: Built'']) t" by blast
  have "(\<Sum>i < (3 :: nat). nv_iterations (trial_bench :: parse_env bench_env) i) = 6003"
    by (simp add: trial_bench_def numeral_3_eq_3)
  then show ?thesis using r by (auto simp: good_result_def)
qed

end
