(* ===== verification/Report_Properties.thy ===== *)
theory Report_Properties
  imports Benchmark Cli_Properties
begin

text \<open>
  What the command \<open>evaluate\<close> leaves behind, and what its report says whatever was measured.
\<close>

lemma show_f64_two: "show_f64 2 v = show_f64_2 v"
proof (cases v)
  case (Finite r)
  have "round_even x = round_half_even x" for x by (simp add: round_even_def round_half_even_def)
  then show ?thesis using Finite by (simp add: show_dec_def show_fixed2_def Let_def)
qed simp_all

lemma calc_diff_bounds: "- 999 \<le> calc_diff x y \<and> calc_diff x y \<le> 999 / 10"
  by (simp add: calc_diff_def clamp_rat_def)

lemma contains_append: "contains s p \<Longrightarrow> contains (a @ s @ b) p"
  unfolding contains_iff by (metis append.assoc)

lemma contains_suffix: "contains s p \<Longrightarrow> contains (a @ s) p"
  using contains_append [of s p a "[]"] by simp

lemma contains_prefix: "contains s p \<Longrightarrow> contains (s @ b) p"
  using contains_append [of s p "[]" b] by simp

subsection \<open>Which results a report has\<close>

lemma evaluate_results:
  assumes "evaluate_with_mode now mode corpus d threads bb bt = Some rep"
  shows "(ev_baseline rep \<noteq> None \<longleftrightarrow> mode = ''all'' \<or> mode = ''baseline'') \<and>
    (ev_tiered rep \<noteq> None \<longleftrightarrow> mode = ''all'' \<or> mode = ''tiered'')"
  using assms by (cases "bb corpus"; cases "bt corpus") (auto simp: evaluate_with_mode_def Let_def split: if_splits)

lemma markdown_single: "ev_baseline rep = None \<or> ev_tiered rep = None \<Longrightarrow> to_markdown rep = markdown_head rep"
  by (auto simp: to_markdown_def split: option.split)

text \<open>
  C37. A successful \<open>evaluate\<close> shows the dashboard of its report and leaves the Markdown of it in the file asked for, the
  JSON in the other, and every other file alone; but for any engine but \<open>all\<close>, a misspelt one among them, the Markdown
  is no more than the heading, without one measurement.
\<close>
theorem evaluate_exports_report:
  assumes "run_evaluate upper report_ser md_io json_io now bb bt args fs = (Some (Completed shown), fs')"
  shows "\<exists>rep. evaluate_with_mode now (ea_engine args) (load_corpus fs (ea_data_dir args)) (ea_duration args)
      (ea_threads args) bb bt = Some rep \<and> shown = render_terminal_dashboard upper rep \<and>
    (ea_json_out args \<noteq> Some (ea_out args) \<longrightarrow> fs' (ea_out args) = Some (to_markdown rep)) \<and>
    (\<forall>p. ea_json_out args = Some p \<longrightarrow> fs' p = report_ser rep) \<and>
    (\<forall>p. p \<noteq> ea_out args \<longrightarrow> ea_json_out args \<noteq> Some p \<longrightarrow> fs' p = fs p) \<and>
    (ea_engine args \<noteq> ''all'' \<longrightarrow> to_markdown rep = markdown_head rep)"
proof -
  obtain rep where rep: "evaluate_with_mode now (ea_engine args) (load_corpus fs (ea_data_dir args)) (ea_duration args)
      (ea_threads args) bb bt = Some rep"
    using assms by (auto simp: run_evaluate_def Let_def split: if_splits option.splits)
  have "to_markdown rep = markdown_head rep" if "ea_engine args \<noteq> ''all''"
    using evaluate_results [OF rep] that by (intro markdown_single) auto
  moreover have "shown = render_terminal_dashboard upper rep \<and>
    (ea_json_out args \<noteq> Some (ea_out args) \<longrightarrow> fs' (ea_out args) = Some (to_markdown rep)) \<and>
    (\<forall>p. ea_json_out args = Some p \<longrightarrow> fs' p = report_ser rep) \<and>
    (\<forall>p. p \<noteq> ea_out args \<longrightarrow> ea_json_out args \<noteq> Some p \<longrightarrow> fs' p = fs p)"
    using assms rep
    by (auto simp: run_evaluate_def Let_def split: if_splits option.splits prod.splits dest!: write_file_ok)
  ultimately show ?thesis using rep by blast
qed

subsection \<open>What a comparison says\<close>

text \<open>
  A comparison states in its Markdown that actions were preserved, whatever the audit found; and when the pipeline was
  slower than the baseline, the dashboard prefixes the negative reduction with a minus of its own.
\<close>
theorem comparison_fixed_text:
  assumes "ev_baseline rep = Some b" "ev_tiered rep = Some t"
  shows "contains (to_markdown rep) ''**100% PRESERVED**'' \<and>
    (\<forall>d. ev_reduction_p50 rep = Some d \<longrightarrow> d < 0 \<longrightarrow>
      contains (render_terminal_dashboard upper rep) ''Median Latency: --'')"
proof -
  have "contains ''| **Action Inviolability** | N/A | **100% PRESERVED** | `ALLOW`/`DENY` isolated |'' ''**100% PRESERVED**''"
    by code_simp
  then have "contains (markdown_scorecard rep b t) ''**100% PRESERVED**''"
    unfolding markdown_scorecard_def append_assoc [symmetric] by (simp only: contains_suffix contains_prefix)
  then have "contains (to_markdown rep) ''**100% PRESERVED**''"
    using assms by (simp add: to_markdown_def contains_append)
  moreover have "contains (render_terminal_dashboard upper rep) ''Median Latency: --''"
    if d: "ev_reduction_p50 rep = Some d" "d < 0" for d
  proof -
    have "''% | Median Latency: -'' @ show_dec 1 d = ''% | '' @ ''Median Latency: --'' @ drop 1 (show_dec 1 d)"
      using d(2) by (simp add: show_dec_def Let_def)
    then have "contains (''% | Median Latency: -'' @ show_dec 1 d) ''Median Latency: --''" unfolding contains_iff by blast
    then have "contains (''% | Median Latency: -'' @ show_dec 1 d @ w) ''Median Latency: --''" for w
      using contains_prefix [of "''% | Median Latency: -'' @ show_dec 1 d" _ w] by simp
    then have "contains (dual_verdict rep t) ''Median Latency: --''"
      unfolding dual_verdict_def d(1) unwrap_or_simps by (simp only: contains_suffix)
    then show ?thesis using assms by (simp add: render_terminal_dashboard_def contains_suffix)
  qed
  ultimately show ?thesis by blast
qed

definition trial_result :: "rat \<Rightarrow> benchmark_result" where
  "trial_result micros =
     \<lparr>be_name = ''trial'',
      be_throughput = throughput_of 10 100 1 1,
      be_latency = \<lparr>la_min = micros, la_p1 = micros, la_p5 = micros, la_p25 = micros, la_p50 = micros, la_p75 = micros,
        la_p90 = micros, la_p95 = micros, la_p99 = micros, la_p999 = micros, la_p9999 = micros, la_max = micros,
        la_mean = micros, la_std_dev = 0, la_samples_count = 100\<rparr>,
      be_accuracy = summarize_audit 1 False counts_zero, be_diagnostics = None\<rparr>"

theorem evaluate_exports_report_witness:
  "\<exists>shown fs' rep. run_evaluate id (\<lambda>r. None) Written Written ''now'' (\<lambda>c. Some (trial_result 1)) (\<lambda>c. None)
      \<lparr>ea_data_dir = ''d'', ea_engine = ''baseline'', ea_duration = 1, ea_threads = 1, ea_samples = 100, ea_out = ''r.md'',
        ea_json_out = None\<rparr>
      [''d/cisco_asa.log'' \<mapsto> ''link up''] = (Some (Completed shown), fs') \<and>
    fs' ''r.md'' = Some (to_markdown rep) \<and> to_markdown rep = markdown_head rep"
proof -
  let ?fs = "[''d/cisco_asa.log'' \<mapsto> ''link up'']"
    and ?args = "\<lparr>ea_data_dir = ''d'', ea_engine = ''baseline'', ea_duration = 1, ea_threads = 1, ea_samples = 100,
      ea_out = ''r.md'', ea_json_out = None\<rparr>"
  have "load_corpus ?fs ''d'' = [''link up'']" by code_simp
  then obtain shown fs' where run: "run_evaluate id (\<lambda>r. None) Written Written ''now'' (\<lambda>c. Some (trial_result 1))
      (\<lambda>c. None) ?args ?fs = (Some (Completed shown), fs')"
    by (simp add: run_evaluate_def Let_def evaluate_with_mode_def write_file_def)
  have "ea_json_out ?args \<noteq> Some (ea_out ?args)" "ea_engine ?args \<noteq> ''all''" by simp_all
  with evaluate_exports_report [OF run] obtain rep where r: "fs' (ea_out ?args) = Some (to_markdown rep)"
    "to_markdown rep = markdown_head rep" by blast
  have "fs' ''r.md'' = Some (to_markdown rep)" using r(1) by (simp only: evaluate_args.simps)
  then show ?thesis using run r(2) by blast
qed

theorem comparison_fixed_text_witness:
  "\<exists>rep. evaluate_with_mode ''now'' ''all'' [''a''] 1 1 (\<lambda>c. Some (trial_result 1)) (\<lambda>c. Some (trial_result 2)) = Some rep \<and>
     ac_action_inviolability (be_accuracy (trial_result 2)) = Finite 0 \<and>
     contains (to_markdown rep) ''**100% PRESERVED**'' \<and>
     contains (render_terminal_dashboard id rep) ''Median Latency: --''"
proof -
  obtain rep where rep: "evaluate_with_mode ''now'' ''all'' [''a''] 1 1 (\<lambda>c. Some (trial_result 1))
      (\<lambda>c. Some (trial_result 2)) = Some rep" "ev_baseline rep = Some (trial_result 1)"
      "ev_tiered rep = Some (trial_result 2)" "ev_reduction_p50 rep = Some (calc_diff 1 2)"
    by (simp add: evaluate_with_mode_def trial_result_def)
  have "calc_diff 1 2 < 0" by (simp add: calc_diff_def clamp_rat_def)
  moreover have "ac_action_inviolability (be_accuracy (trial_result 2)) = Finite 0"
    by (simp add: trial_result_def summarize_audit_def)
  ultimately show ?thesis using comparison_fixed_text [OF rep(2,3), of id] rep(1,4) by blast
qed

end
