(* ===== verification/Generator.thy ===== *)
theory Generator
  imports Kaggle Storage Rust_Float
begin

text \<open>
  The traffic generator (\<open>ulpf-generator/src/lib.rs\<close> and \<open>main.rs\<close>): the names of data sets and
  protocols, the conversion of Kaggle rows to syslog, the loading of a data set, and the workers that send its lines in
  a circle. The Unicode lower-case table and the clock as chrono formats it are arguments; a worker's iteration takes the
  time elapsed and the outcomes of its sends from its environment. Its counters have 64 bits and wrap. \<open>None\<close> is a panic.
\<close>

datatype dataset_kind = DsAll | DsCisco | DsFortigate | DsPaloAlto | DsSuricata | DsPfSense | DsKaggle

datatype protocol = Udp | Tcp

datatype generator_error =
    Unknown_Dataset string
  | Invalid_Protocol string
  | No_Data_Dir
  | Open_Failed string
  | Read_Failed
  | No_Logs dataset_kind
  | Invalid_Target string

definition dataset_kind_from_str :: "(string \<Rightarrow> string) \<Rightarrow> string \<Rightarrow> (dataset_kind, generator_error) result" where
  "dataset_kind_from_str lower s =
     (let l = lower s in
      if l = ''all'' then Ok DsAll
      else if l \<in> {''cisco'', ''cisco_asa'', ''cisco-asa''} then Ok DsCisco
      else if l \<in> {''fortigate'', ''fgt''} then Ok DsFortigate
      else if l \<in> {''paloalto'', ''palo_alto'', ''palo-alto'', ''panw''} then Ok DsPaloAlto
      else if l \<in> {''suricata'', ''eve''} then Ok DsSuricata
      else if l \<in> {''pfsense'', ''pf''} then Ok DsPfSense
      else if l \<in> {''kaggle'', ''kaggle_firewall''} then Ok DsKaggle
      else Err (Unknown_Dataset s))"

fun show_dataset_kind :: "dataset_kind \<Rightarrow> string" where
  "show_dataset_kind DsAll = ''all''"
| "show_dataset_kind DsCisco = ''cisco''"
| "show_dataset_kind DsFortigate = ''fortigate''"
| "show_dataset_kind DsPaloAlto = ''paloalto''"
| "show_dataset_kind DsSuricata = ''suricata''"
| "show_dataset_kind DsPfSense = ''pfsense''"
| "show_dataset_kind DsKaggle = ''kaggle''"

definition protocol_from_str :: "(string \<Rightarrow> string) \<Rightarrow> string \<Rightarrow> (protocol, generator_error) result" where
  "protocol_from_str lower s =
     (let l = lower s in
      if l = ''udp'' then Ok Udp else if l = ''tcp'' then Ok Tcp else Err (Invalid_Protocol s))"

fun show_protocol :: "protocol \<Rightarrow> string" where
  "show_protocol Udp = ''UDP''"
| "show_protocol Tcp = ''TCP''"

subsection \<open>Kaggle rows\<close>

definition kaggle_parts :: "string \<Rightarrow> string list" where
  "kaggle_parts row = map trim (split_char (\<lambda>c. c = CHR '','') row)"

definition kaggle_syslog :: "string \<Rightarrow> string list \<Rightarrow> string" where
  "kaggle_syslog ts parts =
     (let get = (\<lambda>i default. unwrap_or default (nth_opt parts i))
      in ''<134>'' @ ts @ '' firewall-kaggle-01 %KAGGLE-FW-1-TRAFFIC:'' @
         '' action='' @ [CHR 0x22] @ get 4 ''unknown'' @ [CHR 0x22] @
         '' src_port='' @ get 0 ''0'' @ '' dst_port='' @ get 1 ''0'' @
         '' nat_src_port='' @ get 2 ''0'' @ '' nat_dst_port='' @ get 3 ''0'' @
         '' bytes='' @ get 5 ''0'' @ '' sent_bytes='' @ get 6 ''0'' @ '' rcvd_bytes='' @ get 7 ''0'' @
         '' packets='' @ get 8 ''0'' @ '' elapsed_sec='' @ get 9 ''0'' @
         '' pkts_sent='' @ get 10 ''0'' @ '' pkts_rcvd='' @ get 11 ''0'')"

definition kaggle_row_to_syslog :: "string \<Rightarrow> string \<Rightarrow> string option \<Rightarrow> string option" where
  "kaggle_row_to_syslog now row timestamp =
     (let parts = kaggle_parts row in
      if length parts < 10 then None
      else if eq_ignore_ascii_case (hd parts) ''source port'' then None
      else Some (kaggle_syslog (unwrap_or now timestamp) parts))"

subsection \<open>Loading\<close>

definition locate_data_dir ::
  "(string \<Rightarrow> bool) \<Rightarrow> (string \<Rightarrow> bool) \<Rightarrow> string option \<Rightarrow> (string, generator_error) result" where
  "locate_data_dir exists is_dir custom_path =
     (let search = ok_or No_Data_Dir (find (\<lambda>c. exists c \<and> is_dir c)
            [''data/raw'', ''../data/raw'', ''../../data/raw'', ''/home/human/logs_proj/data/raw''])
      in case custom_path of
           Some path \<Rightarrow> if exists path then Ok path else search
         | None \<Rightarrow> search)"

fun trimmed_lines :: "string list \<Rightarrow> (string list, generator_error) result" where
  "trimmed_lines [] = Ok []"
| "trimmed_lines (l # ls) =
     (if \<not> utf8_valid l then Err Read_Failed
      else res_bind (trimmed_lines ls) (\<lambda>ts. Ok (if trim l = [] then ts else trim l # ts)))"

definition read_lines :: "fs \<Rightarrow> string \<Rightarrow> (string list, generator_error) result" where
  "read_lines fs path =
     (case fs path of None \<Rightarrow> Err (Open_Failed path) | Some bytes \<Rightarrow> trimmed_lines (str_lines bytes))"

text \<open>\<open>now i\<close> is the time the \<open>i\<close>-th Kaggle row is converted at.\<close>

definition load_kaggle :: "(nat \<Rightarrow> string) \<Rightarrow> string list \<Rightarrow> string list" where
  "load_kaggle now lines =
     List.map_filter (\<lambda>(i, line). kaggle_row_to_syslog (now i) line None) (enumerate 0 lines)"

fun dataset_file :: "dataset_kind \<Rightarrow> string" where
  "dataset_file DsCisco = ''cisco_asa.log''"
| "dataset_file DsFortigate = ''fortigate.log''"
| "dataset_file DsPaloAlto = ''paloalto.log''"
| "dataset_file DsSuricata = ''suricata.json''"
| "dataset_file DsPfSense = ''pfsense.log''"
| "dataset_file DsKaggle = ''kaggle_firewall.csv''"
| "dataset_file DsAll = []"

definition load_one ::
  "(nat \<Rightarrow> string) \<Rightarrow> fs \<Rightarrow> string \<Rightarrow> dataset_kind \<Rightarrow> (string list, generator_error) result" where
  "load_one now fs data_dir kind =
     res_bind (read_lines fs (path_join data_dir (dataset_file kind)))
       (\<lambda>lines. Ok (if kind = DsKaggle then load_kaggle now lines else lines))"

fun load_all ::
  "(nat \<Rightarrow> string) \<Rightarrow> fs \<Rightarrow> string \<Rightarrow> dataset_kind list \<Rightarrow> (string list, generator_error) result" where
  "load_all now fs data_dir [] = Ok []"
| "load_all now fs data_dir (k # ks) =
     res_bind (load_one now fs data_dir k) (\<lambda>logs. res_bind (load_all now fs data_dir ks) (\<lambda>rest. Ok (logs @ rest)))"

definition load_dataset ::
  "(nat \<Rightarrow> string) \<Rightarrow> fs \<Rightarrow> dataset_kind \<Rightarrow> string \<Rightarrow> (string list, generator_error) result" where
  "load_dataset now fs kind data_dir =
     res_bind (load_all now fs data_dir
        (if kind = DsAll then [DsCisco, DsFortigate, DsPaloAlto, DsSuricata, DsPfSense, DsKaggle] else [kind]))
       (\<lambda>logs. if logs = [] then Err (No_Logs kind) else Ok logs)"

subsection \<open>Workers\<close>

definition encode_line :: "protocol \<Rightarrow> string \<Rightarrow> u8 list" where
  "encode_line proto s = bytes_of s @ (if proto = Tcp then bytes_of [newline] else [])"

definition default_workers :: "nat option \<Rightarrow> nat option \<Rightarrow> nat" where
  "default_workers workers available = unwrap_or (max (unwrap_or 4 available) 2) workers"

definition worker_rate :: "nat \<Rightarrow> nat \<Rightarrow> nat option" where
  "worker_rate rate num_workers =
     (if 0 < rate then (if num_workers = 0 then None else Some (max (rate div num_workers) 1)) else Some 0)"

record send_stats =
  gs_packets_sent :: u64
  gs_bytes_sent :: u64
  gs_errors :: u64

record worker =
  wk_log_idx :: nat
  wk_sent_count :: u64
  wk_stats :: send_stats

text \<open>The cast of a float to \<open>u64\<close> cuts the fraction off and saturates.\<close>

definition cast_u64 :: "rat \<Rightarrow> u64" where
  "cast_u64 x = (if 2 ^ 64 \<le> x then - 1 else of_nat (nat \<lfloor>x\<rfloor>))"

definition expected_sent :: "nat \<Rightarrow> rat \<Rightarrow> u64" where
  "expected_sent target_rate elapsed = cast_u64 (elapsed * of_nat target_rate)"

text \<open>
  The number of lines of one iteration: \<open>None\<close> when the worker is ahead of schedule and pauses. The sum in the
  comparison is one of 64 bits and wraps.
\<close>

definition to_send :: "nat \<Rightarrow> u64 \<Rightarrow> rat \<Rightarrow> u64 \<Rightarrow> u64 option" where
  "to_send target_rate batch_size elapsed sent_count =
     (if 0 < target_rate then
        let expected = expected_sent target_rate elapsed in
        if expected + batch_size < sent_count then None
        else Some (min batch_size (max (saturating_sub expected sent_count) 1))
      else Some batch_size)"

text \<open>
  \<open>Vec::with_capacity\<close> panics when its elements would take more than \<open>isize::MAX\<close> bytes. A worker starts at a line
  of its own; a remainder by no lines panics.
\<close>

definition with_capacity :: "nat \<Rightarrow> u64 \<Rightarrow> unit option" where
  "with_capacity elem_size capacity = (if elem_size * unat capacity < 2 ^ 63 then Some () else None)"

definition worker_start :: "nat \<Rightarrow> u8 list list \<Rightarrow> send_stats \<Rightarrow> worker option" where
  "worker_start worker_id logs st =
     (if logs = [] then None
      else Some \<lparr>wk_log_idx = unat (of_nat worker_id * 17 :: u64) mod length logs, wk_sent_count = 0, wk_stats = st\<rparr>)"

definition next_idx :: "u8 list list \<Rightarrow> nat \<Rightarrow> nat" where
  "next_idx logs i = (i + 1) mod length logs"

text \<open>
  The sends of one UDP batch: \<open>results\<close> are the outcomes, a byte count or an error; the state is the index, the bytes
  and packets of the batch, and the error counter.
\<close>

fun udp_batch ::
  "u8 list list \<Rightarrow> nat option list \<Rightarrow> nat \<times> u64 \<times> u64 \<times> u64 \<Rightarrow> (nat \<times> u64 \<times> u64 \<times> u64) option" where
  "udp_batch logs [] s = Some s"
| "udp_batch logs (r # rs) (i, bytes, pkts, errors) = do {
     log_bytes \<leftarrow> nth_opt logs i;
     udp_batch logs rs
       (case r of
          Some n \<Rightarrow> (next_idx logs i, bytes + of_nat n, pkts + 1, errors)
        | None \<Rightarrow> (next_idx logs i, bytes, pkts, errors + 1))
   }"

text \<open>
  One iteration of \<open>run_udp_worker\<close>: \<open>elapsed\<close> is the time since the worker's start as it is read, \<open>outcome k\<close>
  the outcome of the \<open>k\<close>-th send.
\<close>

definition udp_iteration ::
  "u8 list list \<Rightarrow> nat \<Rightarrow> u64 \<Rightarrow> rat \<times> (nat \<Rightarrow> nat option) \<Rightarrow> worker \<Rightarrow> worker option" where
  "udp_iteration logs target_rate batch_size = (\<lambda>(elapsed, outcome) w.
     case to_send target_rate batch_size elapsed (wk_sent_count w) of
       None \<Rightarrow> Some w
     | Some n \<Rightarrow> do {
         (i, bytes, pkts, errors) \<leftarrow> udp_batch logs (map outcome [0..<unat n]) (wk_log_idx w, 0, 0, gs_errors (wk_stats w));
         Some \<lparr>wk_log_idx = i, wk_sent_count = wk_sent_count w + pkts,
               wk_stats = \<lparr>gs_packets_sent = gs_packets_sent (wk_stats w) + pkts,
                 gs_bytes_sent = gs_bytes_sent (wk_stats w) + bytes, gs_errors = errors\<rparr>\<rparr>
       })"

fun fill_buffer :: "u8 list list \<Rightarrow> nat \<Rightarrow> nat \<times> u8 list \<Rightarrow> (nat \<times> u8 list) option" where
  "fill_buffer logs 0 s = Some s"
| "fill_buffer logs (Suc n) (i, send_buf) = do {
     log_bytes \<leftarrow> nth_opt logs i;
     fill_buffer logs n (next_idx logs i, send_buf @ log_bytes)
   }"

text \<open>One iteration of \<open>run_tcp_worker\<close>: the buffer is written whole, or an error is counted and the stream reopened.\<close>

definition tcp_iteration ::
  "u8 list list \<Rightarrow> nat \<Rightarrow> u64 \<Rightarrow> rat \<times> bool \<Rightarrow> worker \<Rightarrow> worker option" where
  "tcp_iteration logs target_rate batch_size = (\<lambda>(elapsed, written) w.
     case to_send target_rate batch_size elapsed (wk_sent_count w) of
       None \<Rightarrow> Some w
     | Some n \<Rightarrow> do {
         (i, send_buf) \<leftarrow> fill_buffer logs (unat n) (wk_log_idx w, []);
         let st = wk_stats w in
         Some (if written then
             \<lparr>wk_log_idx = i, wk_sent_count = wk_sent_count w + n,
              wk_stats = st\<lparr>gs_packets_sent := gs_packets_sent st + n,
                gs_bytes_sent := gs_bytes_sent st + of_nat (length send_buf)\<rparr>\<rparr>
           else w\<lparr>wk_log_idx := i, wk_stats := st\<lparr>gs_errors := gs_errors st + 1\<rparr>\<rparr>)
       })"

text \<open>The loop of a worker: the iterations until the flag of the run is cleared.\<close>

fun run_iterations :: "('e \<Rightarrow> worker \<Rightarrow> worker option) \<Rightarrow> 'e list \<Rightarrow> worker \<Rightarrow> worker option" where
  "run_iterations it [] w = Some w"
| "run_iterations it (ev # evs) w = Option.bind (it ev w) (run_iterations it evs)"

text \<open>
  A worker whose socket cannot be bound or connected counts one error and returns. \<open>ww_udp\<close> and \<open>ww_tcp\<close> are what
  the iterations meet, over UDP and over TCP.
\<close>

record worker_world =
  ww_bound :: bool
  ww_connected :: bool
  ww_udp :: "(rat \<times> (nat \<Rightarrow> nat option)) list"
  ww_tcp :: "(rat \<times> bool) list"

definition count_error :: "send_stats \<Rightarrow> send_stats" where
  "count_error st = st\<lparr>gs_errors := gs_errors st + 1\<rparr>"

definition run_udp_worker ::
  "u8 list list \<Rightarrow> nat \<Rightarrow> u64 \<Rightarrow> worker_world \<Rightarrow> nat \<Rightarrow> send_stats \<Rightarrow> send_stats option" where
  "run_udp_worker logs target_rate batch_size W worker_id st =
     (if \<not> ww_bound W \<or> \<not> ww_connected W then Some (count_error st)
      else do {
        w \<leftarrow> worker_start worker_id logs st;
        map_option wk_stats (run_iterations (udp_iteration logs target_rate batch_size) (ww_udp W) w)
      })"

definition run_tcp_worker ::
  "u8 list list \<Rightarrow> nat \<Rightarrow> u64 \<Rightarrow> worker_world \<Rightarrow> nat \<Rightarrow> send_stats \<Rightarrow> send_stats option" where
  "run_tcp_worker logs target_rate batch_size W worker_id st =
     (if \<not> ww_connected W then Some (count_error st)
      else do {
        w \<leftarrow> worker_start worker_id logs st;
        with_capacity 1 (batch_size * 256);
        map_option wk_stats (run_iterations (tcp_iteration logs target_rate batch_size) (ww_tcp W) w)
      })"

end
