(* ===== verification/Generator_Main.thy ===== *)
theory Generator_Main
  imports Generator
begin

text \<open>
  The \<open>main\<close> function of \<open>ulpf-generator/src/main.rs\<close> around its workers: from the arguments to the plan of a run
  (protocol, encoded lines, workers and the rate of each), the reporter task that shows the counters every second and
  ends a run of limited duration, and the summary. Lower-casing, the reading of addresses, the number of processors and
  the clock are arguments; an iteration of the reporter reads the counters, unless the run was interrupted.
\<close>

subsection \<open>The plan of a run\<close>

record gen_args =
  ga_target :: string
  ga_proto :: string
  ga_rate :: u64
  ga_duration :: u64
  ga_dataset :: string
  ga_workers :: "nat option"
  ga_data_dir :: "string option"
  ga_batch_size :: u64

definition default_gen_args :: gen_args where
  "default_gen_args =
     \<lparr>ga_target = ''127.0.0.1:5140'', ga_proto = ''udp'', ga_rate = 50000, ga_duration = 10, ga_dataset = ''all'',
      ga_workers = None, ga_data_dir = None, ga_batch_size = 64\<rparr>"

record 'a gen_plan =
  gp_proto :: protocol
  gp_target :: 'a
  gp_logs :: "u8 list list"
  gp_workers :: nat
  gp_rate :: nat
  gp_batch_size :: u64

record 'a gen_env =
  gv_lower :: "string \<Rightarrow> string"
  gv_parse_addr :: "string \<Rightarrow> 'a option"
  gv_cpus :: "nat option"
  gv_exists :: "string \<Rightarrow> bool"
  gv_is_dir :: "string \<Rightarrow> bool"
  gv_now :: "nat \<Rightarrow> string"

text \<open>The rate is divided among the workers last: a division by no workers panics.\<close>

definition plan_run :: "'a gen_env \<Rightarrow> fs \<Rightarrow> gen_args \<Rightarrow> ('a gen_plan, generator_error) comp" where
  "plan_run E fs args =
     try_bind (Some (protocol_from_str (gv_lower E) (ga_proto args))) (\<lambda>proto.
     try_bind (Some (dataset_kind_from_str (gv_lower E) (ga_dataset args))) (\<lambda>dataset_kind.
     try_bind (Some (ok_or (Invalid_Target (ga_target args)) (gv_parse_addr E (ga_target args)))) (\<lambda>target_addr.
     let num_workers = default_workers (ga_workers args) (gv_cpus E) in
     try_bind (Some (locate_data_dir (gv_exists E) (gv_is_dir E) (ga_data_dir args))) (\<lambda>data_dir.
     try_bind (Some (load_dataset (gv_now E) fs dataset_kind data_dir)) (\<lambda>logs_str.
     case worker_rate (unat (ga_rate args)) num_workers of
       None \<Rightarrow> None
     | Some rate \<Rightarrow>
         Some (Ok \<lparr>gp_proto = proto, gp_target = target_addr, gp_logs = map (encode_line proto) logs_str,
           gp_workers = num_workers, gp_rate = rate, gp_batch_size = ga_batch_size args\<rparr>))))))"

subsection \<open>The workers of a run\<close>

text \<open>
  Every worker runs in a task of its own and only adds to the counters, so the counters after all of them have ended are
  those of one worker after the other. A panic of a worker ends its task only, \<open>main\<close> drops it with the task's handle:
  the workers that panicked are listed. A worker can panic before its first iteration only (\<open>udp_worker.run_paced\<close> and
  \<open>tcp_worker.run_paced\<close>), so it leaves the counters alone. The vector of the handles, of 8 bytes each, can be too large.
\<close>

fun run_workers ::
  "'a gen_plan \<Rightarrow> (nat \<Rightarrow> worker_world) \<Rightarrow> nat list \<Rightarrow> nat list \<times> send_stats \<Rightarrow> nat list \<times> send_stats" where
  "run_workers P W [] s = s"
| "run_workers P W (i # is) (panicked, st) =
     run_workers P W is
       (case (case gp_proto P of Udp \<Rightarrow> run_udp_worker | Tcp \<Rightarrow> run_tcp_worker)
          (gp_logs P) (gp_rate P) (gp_batch_size P) (W i) i st of
          None \<Rightarrow> (panicked @ [i], st)
        | Some st' \<Rightarrow> (panicked, st'))"

definition run_all_workers :: "'a gen_plan \<Rightarrow> (nat \<Rightarrow> worker_world) \<Rightarrow> (nat list \<times> send_stats) option" where
  "run_all_workers P W = do {
     with_capacity 8 (of_nat (gp_workers P));
     Some (run_workers P W [0..<gp_workers P] ([], \<lparr>gs_packets_sent = 0, gs_bytes_sent = 0, gs_errors = 0\<rparr>))
   }"

subsection \<open>The reporter\<close>

record report_line =
  rl_second :: u64
  rl_delta_pkts :: u64
  rl_mbytes_per_sec :: rat
  rl_total_pkts :: u64
  rl_total_mbytes :: rat
  rl_errors :: u64

record reporter =
  re_prev_pkts :: u64
  re_prev_bytes :: u64
  re_second :: u64
  re_running :: bool
  re_shown :: "report_line list"

definition mbytes :: "u64 \<Rightarrow> rat" where
  "mbytes bytes = of_nat (unat bytes) / (1024 * 1024)"

definition reporter_start :: reporter where
  "reporter_start = \<lparr>re_prev_pkts = 0, re_prev_bytes = 0, re_second = 0, re_running = True, re_shown = []\<rparr>"

definition reporter_tick :: "u64 \<Rightarrow> send_stats \<Rightarrow> reporter \<Rightarrow> reporter" where
  "reporter_tick duration_secs st r =
     (let second = re_second r + 1;
          cur_pkts = gs_packets_sent st;
          cur_bytes = gs_bytes_sent st;
          shown = \<lparr>rl_second = second, rl_delta_pkts = saturating_sub cur_pkts (re_prev_pkts r),
            rl_mbytes_per_sec = mbytes (saturating_sub cur_bytes (re_prev_bytes r)), rl_total_pkts = cur_pkts,
            rl_total_mbytes = mbytes cur_bytes, rl_errors = gs_errors st\<rparr>
      in \<lparr>re_prev_pkts = cur_pkts, re_prev_bytes = cur_bytes, re_second = second,
          re_running = \<not> (0 < duration_secs \<and> duration_secs \<le> second), re_shown = re_shown r @ [shown]\<rparr>)"

text \<open>The loop over the seconds; \<open>None\<close> is a second at whose start the run has been interrupted.\<close>

fun run_reporter :: "u64 \<Rightarrow> send_stats option list \<Rightarrow> reporter \<Rightarrow> reporter" where
  "run_reporter duration_secs [] r = r"
| "run_reporter duration_secs (None # readings) r = r\<lparr>re_running := False\<rparr>"
| "run_reporter duration_secs (Some st # readings) r =
     (if re_running r then run_reporter duration_secs readings (reporter_tick duration_secs st r) else r)"

subsection \<open>The summary\<close>

record run_summary =
  rs_elapsed :: rat
  rs_total_pkts :: u64
  rs_total_bytes :: u64
  rs_avg_eps :: u64
  rs_avg_mb_sec :: rat
  rs_total_errors :: u64

definition summarize_run :: "rat \<Rightarrow> send_stats \<Rightarrow> run_summary" where
  "summarize_run elapsed st =
     \<lparr>rs_elapsed = elapsed, rs_total_pkts = gs_packets_sent st, rs_total_bytes = gs_bytes_sent st,
      rs_avg_eps = (if 0 < elapsed then cast_u64 (of_nat (unat (gs_packets_sent st)) / elapsed) else 0),
      rs_avg_mb_sec = (if 0 < elapsed then mbytes (gs_bytes_sent st) / elapsed else 0),
      rs_total_errors = gs_errors st\<rparr>"

end
