(* ===== verification/Generator_Properties.thy ===== *)
theory Generator_Properties
  imports Generator Parser_Properties
begin

text \<open>
  The generator against the parser: a Kaggle row and the syslog line made of it are parsed alike. The workers stay
  inside their lines, send them in a circle, and never run further ahead of schedule than two batches.
\<close>

subsection \<open>The two forms of a Kaggle record\<close>

definition plain_field :: "string \<Rightarrow> bool" where
  "plain_field w \<longleftrightarrow> list_all (\<lambda>c. printable c \<and> c \<noteq> CHR '' '' \<and> c \<noteq> CHR 0x22) w"

definition pair_token :: "string \<times> string \<Rightarrow> string" where
  "pair_token = (\<lambda>(k, v). k @ CHR ''='' # v)"

definition kaggle_pairs :: "string list \<Rightarrow> (string \<times> string) list" where
  "kaggle_pairs parts =
     [(''action'', CHR 0x22 # parts ! 4 @ [CHR 0x22]), (''src_port'', parts ! 0), (''dst_port'', parts ! 1),
      (''nat_src_port'', parts ! 2), (''nat_dst_port'', parts ! 3), (''bytes'', parts ! 5),
      (''sent_bytes'', parts ! 6), (''rcvd_bytes'', parts ! 7), (''packets'', parts ! 8),
      (''elapsed_sec'', parts ! 9), (''pkts_sent'', parts ! 10), (''pkts_rcvd'', parts ! 11)]"

definition kaggle_prefix :: "string \<Rightarrow> string" where
  "kaggle_prefix ts = ''<134>'' @ ts @ '' firewall-kaggle-01 %KAGGLE-FW-1-TRAFFIC:''"

lemma kaggle_syslog_pairs:
  assumes "12 \<le> length parts"
  shows "kaggle_syslog ts parts = kaggle_prefix ts @ concat (map (\<lambda>t. CHR '' '' # t) (map pair_token (kaggle_pairs parts)))"
proof -
  have "nth_opt parts i = Some (parts ! i)" if "i < 12" for i using assms that by (intro nth_opt_lt) simp
  then show ?thesis by (simp add: kaggle_syslog_def kaggle_prefix_def kaggle_pairs_def pair_token_def)
qed

lemma split_char_tokens:
  "P x \<Longrightarrow> \<forall>t \<in> set ts. \<forall>c \<in> set t. \<not> P c \<Longrightarrow>
     split_char P (p @ concat (map (\<lambda>t. x # t) ts)) = split_char P p @ ts"
proof (induction ts arbitrary: p)
  case (Cons t ts)
  then show ?case using split_char_append [of P x p "t @ concat (map (\<lambda>t. x # t) ts)"]
    by (simp add: split_char_single)
qed simp

lemma split_char_subset: "w \<in> set (split_char P s) \<Longrightarrow> set w \<subseteq> set s"
  by (induction s arbitrary: w) (fastforce split: if_splits list.splits)+

lemma kaggle_field_no_pair: "CHR ''='' \<notin> set w \<Longrightarrow> kaggle_field w f = f"
proof -
  assume "CHR ''='' \<notin> set w"
  then have "find_idx (\<lambda>c. c = CHR ''='') w = None" by (auto simp: find_idx_None_iff)
  then show ?thesis by (simp add: kaggle_field_def)
qed

lemma kaggle_fold_no_pairs: "\<forall>w \<in> set ws. CHR ''='' \<notin> set w \<Longrightarrow> fold kaggle_field ws f = f"
  by (induction ws arbitrary: f) (simp_all add: kaggle_field_no_pair)

lemma trim_plain: "plain_field v \<Longrightarrow> trim_matches (\<lambda>c. c = CHR 0x22) v = v"
proof -
  assume "plain_field v"
  then have q: "CHR 0x22 \<notin> set v" by (auto simp: plain_field_def list_all_iff)
  have "dropWhile (\<lambda>c. c = CHR 0x22) w = w" if "CHR 0x22 \<notin> set w" for w using that by (cases w) auto
  from this [OF q] this [of "rev v"] q show ?thesis by (simp add: trim_matches_def)
qed

lemma trim_plain_quoted: "plain_field v \<Longrightarrow> trim_matches (\<lambda>c. c = CHR 0x22) (CHR 0x22 # v @ [CHR 0x22]) = v"
proof -
  assume "plain_field v"
  then have q: "CHR 0x22 \<notin> set v" by (auto simp: plain_field_def list_all_iff)
  have d: "dropWhile (\<lambda>c. c = CHR 0x22) w = w" if "CHR 0x22 \<notin> set w" for w using that by (cases w) auto
  have "dropWhile (\<lambda>c. c = CHR 0x22) (v @ [CHR 0x22]) = (if v = [] then [] else v @ [CHR 0x22])"
    using q by (cases v) auto
  then show ?thesis using d [of "rev v"] q by (simp add: trim_matches_def)
qed

lemma kaggle_find [simp]:
  "CHR ''='' \<notin> set k \<Longrightarrow> find_idx (\<lambda>c. c = CHR ''='') (k @ CHR ''='' # v) = Some (length k)"
  by (rule find_idx_append) auto

definition csv_fields :: "string list \<Rightarrow> kaggle_fields" where
  "csv_fields parts =
     \<lparr>kf_src_port = parse_u16 (parts ! 0), kf_dst_port = parse_u16 (parts ! 1),
      kf_nat_src_port = parse_u16 (parts ! 2), kf_nat_dst_port = parse_u16 (parts ! 3),
      kf_action = Some (parts ! 4), kf_bytes = parse_u64 (parts ! 5), kf_sent_bytes = parse_u64 (parts ! 6),
      kf_rcvd_bytes = parse_u64 (parts ! 7), kf_packets = parse_u64 (parts ! 8), kf_elapsed = parse_u64 (parts ! 9),
      kf_pkts_sent = parse_u64 (parts ! 10), kf_pkts_rcvd = parse_u64 (parts ! 11), kf_unmapped = []\<rparr>"

lemma kaggle_field_pair:
  "CHR ''='' \<notin> set k \<Longrightarrow> kaggle_field (k @ CHR ''='' # v) f =
     (let v = trim_matches (\<lambda>c. c = CHR 0x22) v in
      if k = ''src_port'' then f\<lparr>kf_src_port := parse_u16 v\<rparr>
      else if k = ''dst_port'' then f\<lparr>kf_dst_port := parse_u16 v\<rparr>
      else if k = ''nat_src_port'' then f\<lparr>kf_nat_src_port := parse_u16 v\<rparr>
      else if k = ''nat_dst_port'' then f\<lparr>kf_nat_dst_port := parse_u16 v\<rparr>
      else if k = ''action'' then f\<lparr>kf_action := Some v\<rparr>
      else if k = ''bytes'' then f\<lparr>kf_bytes := parse_u64 v\<rparr>
      else if k = ''sent_bytes'' then f\<lparr>kf_sent_bytes := parse_u64 v\<rparr>
      else if k = ''rcvd_bytes'' then f\<lparr>kf_rcvd_bytes := parse_u64 v\<rparr>
      else if k = ''packets'' then f\<lparr>kf_packets := parse_u64 v\<rparr>
      else if k = ''elapsed_sec'' then f\<lparr>kf_elapsed := parse_u64 v\<rparr>
      else if k = ''pkts_sent'' then f\<lparr>kf_pkts_sent := parse_u64 v\<rparr>
      else if k = ''pkts_rcvd'' then f\<lparr>kf_pkts_rcvd := parse_u64 v\<rparr>
      else f\<lparr>kf_unmapped := hm_insert k v (kf_unmapped f)\<rparr>)"
  by (simp add: kaggle_field_def Let_def)

lemmas kaggle_keys = kaggle_field_pair [of "''action''"] kaggle_field_pair [of "''src_port''"]
  kaggle_field_pair [of "''dst_port''"] kaggle_field_pair [of "''nat_src_port''"] kaggle_field_pair [of "''nat_dst_port''"]
  kaggle_field_pair [of "''bytes''"] kaggle_field_pair [of "''sent_bytes''"] kaggle_field_pair [of "''rcvd_bytes''"]
  kaggle_field_pair [of "''packets''"] kaggle_field_pair [of "''elapsed_sec''"] kaggle_field_pair [of "''pkts_sent''"]
  kaggle_field_pair [of "''pkts_rcvd''"]

lemma kaggle_fold_pairs:
  assumes "12 \<le> length parts" "list_all plain_field parts"
  shows "fold kaggle_field (map pair_token (kaggle_pairs parts)) kaggle_init = csv_fields parts"
proof -
  have p: "trim_matches (\<lambda>c. c = CHR 0x22) (parts ! i) = parts ! i" if "i < 12" for i
    using assms that by (intro trim_plain) (simp add: list_all_length)
  have q: "trim_matches (\<lambda>c. c = CHR 0x22) (CHR 0x22 # parts ! 4 @ [CHR 0x22]) = parts ! 4"
    using assms by (intro trim_plain_quoted) (simp add: list_all_length)
  show ?thesis
    unfolding kaggle_pairs_def list.map fold_simps pair_token_def prod.case
    by (simp add: kaggle_keys [simplified] p [simplified] q kaggle_init_def csv_fields_def)
qed

lemma pair_tokens_plain:
  assumes "12 \<le> length parts" "list_all plain_field parts" "t \<in> set (map pair_token (kaggle_pairs parts))"
  shows "t \<noteq> []" "\<forall>c \<in> set t. printable c \<and> c \<noteq> CHR '' ''"
proof -
  have p: "\<forall>c \<in> set (parts ! i). printable c \<and> c \<noteq> CHR '' ''" if "i < 12" for i
  proof -
    have "plain_field (parts ! i)" using assms that by (simp add: list_all_length)
    then show ?thesis by (simp add: plain_field_def list_all_iff)
  qed
  obtain k v where t: "t = k @ CHR ''='' # v" "(k, v) \<in> set (kaggle_pairs parts)"
    using assms(3) by (auto simp: pair_token_def)
  then show "t \<noteq> []" by simp
  have "list_all (\<lambda>e. list_all (\<lambda>c. printable c \<and> c \<noteq> CHR '' '') (fst e)) (kaggle_pairs parts)"
    by (simp add: kaggle_pairs_def printable_def)
  then have k: "list_all (\<lambda>c. printable c \<and> c \<noteq> CHR '' '') k" using t(2) by (auto simp: list_all_iff)
  have pv: "\<forall>c \<in> set (parts ! i). c = CHR 0x22 \<or> (printable c \<and> c \<noteq> CHR '' '')" if "i < 12" for i
    using p [OF that] by blast
  have la: "list_all (\<lambda>e. \<forall>c \<in> set (snd e). c = CHR 0x22 \<or> (printable c \<and> c \<noteq> CHR '' '')) (kaggle_pairs parts)"
    by (simp add: kaggle_pairs_def) (intro conjI; rule pv; simp)
  have v: "\<forall>c \<in> set v. c = CHR 0x22 \<or> (printable c \<and> c \<noteq> CHR '' '')"
    using la [unfolded list_all_iff, THEN bspec, OF t(2)] by simp
  show "\<forall>c \<in> set t. printable c \<and> c \<noteq> CHR '' ''"
  proof
    fix c
    assume "c \<in> set t"
    then consider "c \<in> set k" | "c = CHR ''=''" | "c \<in> set v" unfolding t(1) by auto
    then show "printable c \<and> c \<noteq> CHR '' ''"
    proof cases
      case 1
      then show ?thesis using k unfolding list_all_iff by blast
    next
      case 2
      then show ?thesis by (simp add: printable_def)
    next
      case 3
      then have "c = CHR 0x22 \<or> (printable c \<and> c \<noteq> CHR '' '')" using v by blast
      then show ?thesis by (elim disjE) (simp_all add: printable_def)
    qed
  qed
qed

definition timestamp_text :: "string \<Rightarrow> bool" where
  "timestamp_text ts \<longleftrightarrow> list_all (\<lambda>c. printable c \<and> c \<noteq> CHR ''='') ts"

lemma kaggle_prefix_chars:
  "timestamp_text ts \<Longrightarrow> list_all (\<lambda>c. printable c \<and> c \<noteq> CHR ''='') (kaggle_prefix ts)"
  by (simp add: kaggle_prefix_def timestamp_text_def printable_def)

lemma kaggle_line:
  assumes "timestamp_text ts" "12 \<le> length parts" "list_all plain_field parts"
  defines "line \<equiv> kaggle_syslog ts parts"
  shows "trim line = line" "fold kaggle_field (split_whitespace line) kaggle_init = csv_fields parts"
    "contains line ''%KAGGLE-FW-''" "hd line = CHR ''<''"
proof -
  let ?ts = "map pair_token (kaggle_pairs parts)"
  note tok = pair_tokens_plain [OF assms(2,3)]
  have line: "line = kaggle_prefix ts @ concat (map (\<lambda>t. CHR '' '' # t) ?ts)"
    unfolding line_def by (rule kaggle_syslog_pairs [OF assms(2)])
  have "printable CHR '' ''" by (simp add: printable_def)
  then have print: "list_all printable line"
    using kaggle_prefix_chars [OF assms(1)] tok(2) by (auto simp: line list_all_iff)
  have "split_char (\<lambda>c. c = CHR '' '') line = split_char (\<lambda>c. c = CHR '' '') (kaggle_prefix ts) @ ?ts"
    unfolding line by (rule split_char_tokens) (use tok(2) in auto)
  moreover have "filter (\<lambda>w. w \<noteq> []) ?ts = ?ts" using tok(1) by (intro filter_True) blast
  ultimately have split: "split_whitespace line =
      filter (\<lambda>w. w \<noteq> []) (split_char (\<lambda>c. c = CHR '' '') (kaggle_prefix ts)) @ ?ts"
    by (simp add: split_whitespace_printable [OF print])
  have "\<forall>w \<in> set (filter (\<lambda>w. w \<noteq> []) (split_char (\<lambda>c. c = CHR '' '') (kaggle_prefix ts))). CHR ''='' \<notin> set w"
    using kaggle_prefix_chars [OF assms(1)] split_char_subset by (fastforce simp: list_all_iff)
  then show "fold kaggle_field (split_whitespace line) kaggle_init = csv_fields parts"
    unfolding split fold_append o_apply by (simp add: kaggle_fold_no_pairs kaggle_fold_pairs [OF assms(2,3)])
  have "line = (''<134>'' @ ts @ '' firewall-kaggle-01 '') @ ''%KAGGLE-FW-'' @
      (''1-TRAFFIC:'' @ concat (map (\<lambda>t. CHR '' '' # t) ?ts))"
    by (simp add: line kaggle_prefix_def)
  then show "contains line ''%KAGGLE-FW-''" unfolding contains_iff by blast
  show hd: "hd line = CHR ''<''" by (simp add: line kaggle_prefix_def)
  have ne: "line \<noteq> []" by (simp add: line kaggle_prefix_def)
  have "last line \<in> set (last ?ts)"
    by (simp add: line kaggle_pairs_def pair_token_def)
  then have "last line \<noteq> CHR '' ''" using tok(2) [of "last ?ts"] by (auto simp: kaggle_pairs_def)
  moreover have "printable (last line)" using print ne by (simp add: list_all_iff)
  moreover have "printable CHR ''<''" by (simp add: printable_def)
  ultimately show "trim line = line" using ne hd by (intro trim_solid) (simp_all add: solid_printable)
qed

definition csv_row :: "string \<Rightarrow> bool" where
  "csv_row row \<longleftrightarrow> trim row = row \<and> 12 \<le> length (kaggle_parts row) \<and> list_all plain_field (kaggle_parts row) \<and>
     \<not> starts_with row ''Source Port'' \<and> \<not> starts_with row ''source port'' \<and> \<not> contains row ''%KAGGLE-FW-''"

text \<open>
  C31. A Kaggle row and the syslog line the generator makes of it are parsed to the same event, up to the raw text the event
  carries: nothing is lost or mixed up on the way through the second format.
\<close>
theorem kaggle_forms_agree:
  assumes "kaggle_row_to_syslog now row (Some ts) = Some line" "csv_row row" "timestamp_text ts"
  shows "\<exists>f. kaggle_parse L t row = Some (Ok (kaggle_build t row f)) \<and>
    kaggle_parse L t line = Some (Ok (kaggle_build t line f))"
proof -
  let ?p = "kaggle_parts row"
  have line: "line = kaggle_syslog ts ?p"
    using assms(1) by (auto simp: kaggle_row_to_syslog_def Let_def split: if_splits)
  have p: "12 \<le> length ?p" "list_all plain_field ?p" "trim row = row" using assms(2) by (auto simp: csv_row_def)
  note l = kaggle_line [OF assms(3) p(1,2)]
  have "\<not> starts_with line ''Source Port''" "\<not> starts_with line ''source port''"
    using l(4) by (cases line; simp add: line)+
  then have "kaggle_parse L t line = Some (Ok (kaggle_build t line (csv_fields ?p)))"
    using l by (simp add: kaggle_parse_def Let_def kaggle_parse_syslog_def line)
  moreover have "?p \<noteq> []" using p(1) by auto
  then have "kaggle_parse L t row = Some (Ok (kaggle_build t row (csv_fields ?p)))"
    using assms(2) p by (simp add: kaggle_parse_def Let_def kaggle_parse_csv_def csv_row_def csv_fields_def
        flip: kaggle_parts_def)
  ultimately show ?thesis by blast
qed

theorem kaggle_forms_agree_witness:
  "\<exists>line f. kaggle_row_to_syslog [] ''57222,53,54587,53,allow,177,94,83,2,30,1,1'' (Some ''Sep 21 14:00:00'') = Some line \<and>
     kaggle_parse test_parser_libs 7 ''57222,53,54587,53,allow,177,94,83,2,30,1,1'' =
       Some (Ok (kaggle_build 7 ''57222,53,54587,53,allow,177,94,83,2,30,1,1'' f)) \<and>
     kaggle_parse test_parser_libs 7 line = Some (Ok (kaggle_build 7 line f))"
proof -
  have "kaggle_row_to_syslog [] ''57222,53,54587,53,allow,177,94,83,2,30,1,1'' (Some ''Sep 21 14:00:00'') \<noteq> None"
    by code_simp
  then obtain line where
    l: "kaggle_row_to_syslog [] ''57222,53,54587,53,allow,177,94,83,2,30,1,1'' (Some ''Sep 21 14:00:00'') = Some line"
    by blast
  have "csv_row ''57222,53,54587,53,allow,177,94,83,2,30,1,1''" "timestamp_text ''Sep 21 14:00:00''" by code_simp+
  from kaggle_forms_agree [OF l this, of test_parser_libs 7] l show ?thesis by blast
qed

subsection \<open>Workers\<close>

text \<open>
  What an iteration of either worker promises: it stays inside the lines, so it does not panic, and it does not send more
  than a batch when it is at most a batch ahead of the schedule. The counters wrap, so the bounds are on what they read.
\<close>

lemma cast_u64_bound: "unat (cast_u64 x) \<le> nat \<lfloor>x\<rfloor>"
proof (cases "2 ^ 64 \<le> x")
  case True
  then have "2 ^ 64 \<le> nat \<lfloor>x\<rfloor>" by (simp add: le_nat_iff le_floor_iff)
  moreover have "unat (cast_u64 x) < 2 ^ 64" by (rule less_le_trans [OF unsigned_less]) simp
  ultimately show ?thesis by linarith
next
  case False
  then show ?thesis by (simp add: cast_u64_def unat_of_nat take_bit_nat_less_eq_self)
qed

lemma unat_add_le: "unat (a + b) \<le> unat a + unat (b :: u64)"
  by (simp add: unat_word_ariths)

text \<open>What a worker may have sent when it looks at the clock: its schedule and two batches.\<close>

definition allowance :: "nat \<Rightarrow> u64 \<Rightarrow> rat \<Rightarrow> nat" where
  "allowance rate batch elapsed = nat \<lfloor>elapsed * of_nat rate\<rfloor> + 2 * unat batch"

lemma allowance_mono: "e \<le> e' \<Longrightarrow> allowance rate batch e \<le> allowance rate batch e'"
  by (auto simp: allowance_def intro!: nat_mono floor_mono mult_right_mono)

lemma to_send_bound: "to_send rate batch elapsed sent = Some n \<Longrightarrow> n \<le> batch"
  by (auto simp: to_send_def Let_def split: if_splits)

lemma to_send_allowed:
  assumes "to_send rate batch elapsed sent = Some n" "unat k \<le> unat n" "0 < rate"
  shows "unat (sent + k) \<le> allowance rate batch elapsed"
proof -
  have "sent \<le> expected_sent rate elapsed + batch" using assms(1,3) by (simp add: to_send_def Let_def not_less split: if_splits)
  then have "unat sent \<le> unat (expected_sent rate elapsed + batch)" by (simp only: word_le_nat_alt)
  also have "\<dots> \<le> nat \<lfloor>elapsed * of_nat rate\<rfloor> + unat batch"
    using unat_add_le [of "expected_sent rate elapsed" batch] cast_u64_bound [of "elapsed * of_nat rate"]
    by (simp add: expected_sent_def)
  finally have "unat sent \<le> nat \<lfloor>elapsed * of_nat rate\<rfloor> + unat batch" .
  moreover have "unat k \<le> unat batch" using to_send_bound [OF assms(1)] assms(2) by (simp add: word_le_nat_alt)
  ultimately show ?thesis using unat_add_le [of sent k] by (simp add: allowance_def)
qed

locale paced_worker =
  fixes iteration :: "u8 list list \<Rightarrow> nat \<Rightarrow> u64 \<Rightarrow> rat \<times> 'e \<Rightarrow> worker \<Rightarrow> worker option"
  assumes iteration_paced: "wk_log_idx (w :: worker) < length logs \<Longrightarrow> \<exists>w'. iteration logs rate batch ev w = Some w' \<and>
      wk_log_idx w' < length logs \<and>
      (0 < rate \<longrightarrow> unat (wk_sent_count w') \<le> max (unat (wk_sent_count w)) (allowance rate batch (fst ev)))"
    and iteration_counts: "iteration logs rate batch ev w = Some w' \<Longrightarrow>
      gs_packets_sent (wk_stats w') - wk_sent_count w' = gs_packets_sent (wk_stats w) - wk_sent_count w"
begin

lemma run_counts:
  "run_iterations (iteration logs rate batch) evs w = Some w' \<Longrightarrow>
     gs_packets_sent (wk_stats w') - wk_sent_count w' = gs_packets_sent (wk_stats w) - wk_sent_count w"
proof (induction evs arbitrary: w)
  case (Cons ev evs)
  then obtain w1 where "iteration logs rate batch ev w = Some w1" "run_iterations (iteration logs rate batch) evs w1 = Some w'"
    by (auto simp: Option.bind_eq_Some_conv)
  with Cons.IH iteration_counts show ?case by metis
qed simp

lemma run_paced:
  "wk_log_idx w < length logs \<Longrightarrow> \<forall>ev \<in> set evs. fst ev \<le> m \<Longrightarrow>
     \<exists>w'. run_iterations (iteration logs rate batch) evs w = Some w' \<and> wk_log_idx w' < length logs \<and>
       (0 < rate \<longrightarrow> unat (wk_sent_count w') \<le> max (unat (wk_sent_count w)) (allowance rate batch m))"
proof (induction evs arbitrary: w)
  case (Cons ev evs)
  obtain w1 where w1: "iteration logs rate batch ev w = Some w1" "wk_log_idx w1 < length logs"
    "0 < rate \<longrightarrow> unat (wk_sent_count w1) \<le> max (unat (wk_sent_count w)) (allowance rate batch (fst ev))"
    using iteration_paced [OF Cons.prems(1), of rate batch ev] by blast
  obtain w' where "run_iterations (iteration logs rate batch) evs w1 = Some w'" "wk_log_idx w' < length logs"
    "0 < rate \<longrightarrow> unat (wk_sent_count w') \<le> max (unat (wk_sent_count w1)) (allowance rate batch m)"
    using Cons.IH [OF w1(2)] Cons.prems(2) by auto
  moreover have "allowance rate batch (fst ev) \<le> allowance rate batch m" using Cons.prems(2) by (intro allowance_mono) simp
  ultimately show ?case using w1 by (intro exI [of _ w']) auto
qed simp

end

lemma next_idx_less: "i < length logs \<Longrightarrow> next_idx logs i < length logs"
  unfolding next_idx_def by (rule mod_less_divisor) linarith

lemma udp_batch_ok:
  "i < length logs \<Longrightarrow> \<exists>i' b' p' e'. udp_batch logs rs (i, b, p, e) = Some (i', b', p', e') \<and> i' < length logs \<and>
     i' = (i + length rs) mod length logs \<and> unat p' \<le> unat p + length rs"
proof (induction rs arbitrary: i b p e)
  case (Cons r rs)
  have n: "next_idx logs i < length logs" using Cons.prems by (rule next_idx_less)
  show ?case
    using Cons.IH [OF n, of "case r of Some k \<Rightarrow> b + of_nat k | None \<Rightarrow> b" "case r of Some k \<Rightarrow> p + 1 | None \<Rightarrow> p"
        "case r of Some k \<Rightarrow> e | None \<Rightarrow> e + 1"] Cons.prems unat_add_le [of p 1]
    by (cases r) (fastforce simp: next_idx_def mod_simps)+
qed simp

lemma fill_buffer_ok:
  "i < length logs \<Longrightarrow> \<exists>i' buf'. fill_buffer logs n (i, buf) = Some (i', buf') \<and> i' < length logs"
  by (induction n arbitrary: i buf) (auto simp: next_idx_less)

interpretation udp_worker: paced_worker udp_iteration
proof
  fix w :: worker and logs :: "u8 list list" and rate batch and ev :: "rat \<times> (nat \<Rightarrow> nat option)"
  assume w: "wk_log_idx w < length logs"
  show "\<exists>w'. udp_iteration logs rate batch ev w = Some w' \<and> wk_log_idx w' < length logs \<and>
      (0 < rate \<longrightarrow> unat (wk_sent_count w') \<le> max (unat (wk_sent_count w)) (allowance rate batch (fst ev)))"
  proof (cases "to_send rate batch (fst ev) (wk_sent_count w)")
    case None
    then show ?thesis using w by (cases ev) (simp add: udp_iteration_def)
  next
    case (Some n)
    obtain i b p e where "udp_batch logs (map (snd ev) [0..<unat n]) (wk_log_idx w, 0, 0, gs_errors (wk_stats w)) = Some (i, b, p, e)"
      "i < length logs" "unat p \<le> unat n"
      using udp_batch_ok [OF w, of "map (snd ev) [0..<unat n]" 0 0 "gs_errors (wk_stats w)"] by auto
    then show ?thesis using Some to_send_allowed [OF Some, of p]
      by (cases ev) (auto simp: udp_iteration_def le_max_iff_disj)
  qed
qed (auto simp: udp_iteration_def Option.bind_eq_Some_conv split: option.splits prod.splits)

interpretation tcp_worker: paced_worker tcp_iteration
proof
  fix w :: worker and logs :: "u8 list list" and rate batch and ev :: "rat \<times> bool"
  assume w: "wk_log_idx w < length logs"
  show "\<exists>w'. tcp_iteration logs rate batch ev w = Some w' \<and> wk_log_idx w' < length logs \<and>
      (0 < rate \<longrightarrow> unat (wk_sent_count w') \<le> max (unat (wk_sent_count w)) (allowance rate batch (fst ev)))"
  proof (cases "to_send rate batch (fst ev) (wk_sent_count w)")
    case None
    then show ?thesis using w by (cases ev) (simp add: tcp_iteration_def)
  next
    case (Some n)
    obtain i buf where "fill_buffer logs (unat n) (wk_log_idx w, []) = Some (i, buf)" "i < length logs"
      using fill_buffer_ok [OF w] by blast
    then show ?thesis using Some to_send_allowed [OF Some, of n]
      by (cases ev) (auto simp: tcp_iteration_def Let_def le_max_iff_disj)
  qed
qed (auto simp: tcp_iteration_def Let_def Option.bind_eq_Some_conv split: option.splits prod.splits if_splits)

lemma worker_start_idx: "worker_start i logs st = Some w \<Longrightarrow> wk_log_idx w < length logs \<and> wk_sent_count w = 0"
  by (auto simp: worker_start_def split: if_splits)

text \<open>
  The iterations of a throttled worker never panic, whatever its sends return, stay inside the lines, and its count of lines
  sent is never more than two batches above what the rate allows by the latest instant it looked at the clock; over UDP and
  over TCP.
\<close>
theorem worker_keeps_pace:
  assumes "worker_start worker_id logs st = Some w" "0 < rate"
    and "\<forall>ev \<in> set evs. fst ev \<le> elapsed" "\<forall>ev \<in> set evs'. fst ev \<le> elapsed"
  shows "(\<exists>w'. run_iterations (udp_iteration logs rate batch_size) evs w = Some w' \<and>
        wk_log_idx w' < length logs \<and> unat (wk_sent_count w') \<le> nat \<lfloor>elapsed * of_nat rate\<rfloor> + 2 * unat batch_size) \<and>
      (\<exists>w'. run_iterations (tcp_iteration logs rate batch_size) evs' w = Some w' \<and>
        wk_log_idx w' < length logs \<and> unat (wk_sent_count w') \<le> nat \<lfloor>elapsed * of_nat rate\<rfloor> + 2 * unat batch_size)"
  using udp_worker.run_paced [of w logs evs elapsed rate batch_size]
    tcp_worker.run_paced [of w logs evs' elapsed rate batch_size] worker_start_idx [OF assms(1)] assms(2-4)
  by (auto simp: allowance_def)

theorem worker_keeps_pace_witness:
  "\<exists>w w'. worker_start 1 [[65], [66]] \<lparr>gs_packets_sent = 0, gs_bytes_sent = 0, gs_errors = 0\<rparr> = Some w \<and>
     run_iterations (udp_iteration [[65], [66]] 10 4) [(0, \<lambda>k. Some 1), (3, \<lambda>k. None)] w = Some w' \<and>
     wk_log_idx w' < 2 \<and> unat (wk_sent_count w') \<le> 30 + 2 * 4"
proof -
  obtain w where w: "worker_start 1 [[65], [66]] \<lparr>gs_packets_sent = 0, gs_bytes_sent = 0, gs_errors = 0\<rparr> = Some w"
    by (simp add: worker_start_def)
  from worker_keeps_pace [OF w, of 10 "[(0, \<lambda>k. Some 1), (3, \<lambda>k. None)]" 3 "[]" 4] w show ?thesis by auto
qed

end
