(* ===== verification/Generator_Main_Properties.thy ===== *)
theory Generator_Main_Properties
  imports Generator_Main Generator_Properties
begin

text \<open>
  A planned run can be carried out and keeps to its rate, and the reporter ends it on time, showing packets that add up.
\<close>

subsection \<open>The plan\<close>

lemma worker_rate_total:
  assumes "worker_rate rate n = Some r"
  shows "n * r \<le> max rate n \<and> (0 < r \<longleftrightarrow> 0 < rate)"
proof (cases "0 < rate")
  case True
  then have r: "r = max (rate div n) 1" using assms by (simp add: worker_rate_def split: if_splits)
  have "n * (rate div n) \<le> rate" by simp
  then have "n * r \<le> max rate n" unfolding r nat_mult_max_right by (cases "n \<le> rate") (simp_all add: le_max_iff_disj)
  then show ?thesis using True r by simp
next
  case False
  then show ?thesis using assms by (simp add: worker_rate_def)
qed

lemma load_dataset_nonempty: "load_dataset now fs kind dir = Ok logs \<Longrightarrow> logs \<noteq> []"
  by (auto simp: load_dataset_def ok_iff split: if_splits)

lemma plan_run_okD:
  assumes "plan_run E fs args = Some (Ok plan)"
  shows "\<exists>logs. logs \<noteq> [] \<and> gp_logs plan = map (encode_line (gp_proto plan)) logs \<and>
    worker_rate (unat (ga_rate args)) (gp_workers plan) = Some (gp_rate plan)"
  using assms
  by (auto simp: plan_run_def ok_iff Let_def split: option.splits, metis load_dataset_nonempty)

text \<open>
  C32. A run that could be planned can be carried out: there are lines, so every worker starts inside them without a panic; over
  TCP every line ends in a newline; and the rates of the workers together exceed the rate asked for only when there are more
  workers than events per second.
\<close>
theorem planned_run_ready:
  assumes "plan_run E fs args = Some (Ok plan)"
  shows "(\<forall>i. \<exists>w. worker_start i (gp_logs plan) st = Some w \<and> wk_log_idx w < length (gp_logs plan)) \<and>
    (gp_proto plan = Tcp \<longrightarrow> (\<forall>l \<in> set (gp_logs plan). l \<noteq> [] \<and> last l = 10)) \<and>
    gp_workers plan * gp_rate plan \<le> max (unat (ga_rate args)) (gp_workers plan) \<and>
    (gp_rate plan = 0 \<longleftrightarrow> ga_rate args = 0)"
proof -
  obtain logs where p: "logs \<noteq> []" "gp_logs plan = map (encode_line (gp_proto plan)) logs"
    "worker_rate (unat (ga_rate args)) (gp_workers plan) = Some (gp_rate plan)"
    using plan_run_okD [OF assms] by blast
  have start: "\<exists>w. worker_start i (gp_logs plan) st = Some w \<and> wk_log_idx w < length (gp_logs plan)" for i
    using p(1,2) by (simp add: worker_start_def)
  have "last l = 10 \<and> l \<noteq> []" if "gp_proto plan = Tcp" "l \<in> set (gp_logs plan)" for l
    using that p(2) by (auto simp: encode_line_def bytes_of_def newline_def)
  moreover have "gp_rate plan = 0 \<longleftrightarrow> ga_rate args = 0"
    using worker_rate_total [OF p(3)] by (metis neq0_conv unat_eq_0)
  ultimately show ?thesis using start worker_rate_total [OF p(3)] by blast
qed

subsection \<open>The workers\<close>

text \<open>
  A worker that can allocate its buffer does not panic; it adds to the packets what it sent, and that is at most its
  schedule and two batches.
\<close>

lemma worker_adds:
  assumes "logs \<noteq> []" "0 < rate" "proto = Tcp \<Longrightarrow> unat batch * 256 < 2 ^ 63"
    and "\<forall>ev \<in> set (ww_udp W). fst ev \<le> m" "\<forall>ev \<in> set (ww_tcp W). fst ev \<le> m"
  shows "\<exists>st' n. (case proto of Udp \<Rightarrow> run_udp_worker | Tcp \<Rightarrow> run_tcp_worker) logs rate batch W i st = Some st' \<and>
    n \<le> allowance rate batch m \<and> gs_packets_sent st' = gs_packets_sent st + of_nat n"
proof -
  obtain w where w: "worker_start i logs st = Some w" "wk_log_idx w < length logs" "wk_sent_count w = 0" "wk_stats w = st"
    using assms(1) by (auto simp: worker_start_def)
  obtain u where u: "run_iterations (udp_iteration logs rate batch) (ww_udp W) w = Some u"
    "unat (wk_sent_count u) \<le> allowance rate batch m"
    using udp_worker.run_paced [OF w(2) assms(4), of rate batch] assms(2) w(3) by auto
  obtain t where t: "run_iterations (tcp_iteration logs rate batch) (ww_tcp W) w = Some t"
    "unat (wk_sent_count t) \<le> allowance rate batch m"
    using tcp_worker.run_paced [OF w(2) assms(5), of rate batch] assms(2) w(3) by auto
  have "gs_packets_sent (wk_stats u) = gs_packets_sent st + of_nat (unat (wk_sent_count u))"
    "gs_packets_sent (wk_stats t) = gs_packets_sent st + of_nat (unat (wk_sent_count t))"
    using udp_worker.run_counts [OF u(1)] tcp_worker.run_counts [OF t(1)] w(3,4) by (simp_all add: algebra_simps)
  moreover have "proto = Tcp \<Longrightarrow> with_capacity 1 (batch * 256) = Some ()"
    using assms(3) by (simp add: with_capacity_def unat_word_ariths)
  ultimately show ?thesis using w(1) u t
    by (cases proto) (force simp: run_udp_worker_def run_tcp_worker_def count_error_def intro: exI [of _ "0 :: nat"])+
qed

lemma run_workers_adds:
  assumes "gp_logs P \<noteq> []" "0 < gp_rate P" "gp_proto P = Tcp \<Longrightarrow> unat (gp_batch_size P) * 256 < 2 ^ 63"
    "\<forall>i. \<forall>ev \<in> set (ww_udp (W i)). fst ev \<le> m" "\<forall>i. \<forall>ev \<in> set (ww_tcp (W i)). fst ev \<le> m"
  shows "\<exists>st' n. run_workers P W is ([], st) = ([], st') \<and> n \<le> length is * allowance (gp_rate P) (gp_batch_size P) m \<and>
    gs_packets_sent st' = gs_packets_sent st + of_nat n"
proof (induction "is" arbitrary: st)
  case (Cons i "is")
  obtain st1 n1 where 1: "(case gp_proto P of Udp \<Rightarrow> run_udp_worker | Tcp \<Rightarrow> run_tcp_worker)
      (gp_logs P) (gp_rate P) (gp_batch_size P) (W i) i st = Some st1"
    "n1 \<le> allowance (gp_rate P) (gp_batch_size P) m" "gs_packets_sent st1 = gs_packets_sent st + of_nat n1"
    using worker_adds [of "gp_logs P" "gp_rate P" "gp_proto P" "gp_batch_size P" "W i" m] assms by blast
  obtain st' n where "run_workers P W is ([], st1) = ([], st')" "n \<le> length is * allowance (gp_rate P) (gp_batch_size P) m"
    "gs_packets_sent st' = gs_packets_sent st1 + of_nat n" using Cons.IH by blast
  then show ?case using 1 by (intro exI [of _ st'] exI [of _ "n1 + n"]) simp
qed simp

lemma allowances_sum:
  assumes "0 \<le> elapsed" "n \<le> k * allowance rate batch elapsed" "k * rate \<le> r"
  shows "of_nat n \<le> elapsed * of_nat r + of_nat (2 * k * unat batch)"
proof -
  have "of_nat (nat \<lfloor>elapsed * of_nat rate\<rfloor>) \<le> elapsed * of_nat rate" using assms(1) by (simp add: of_nat_nat)
  then have "of_nat k * of_nat (nat \<lfloor>elapsed * of_nat rate\<rfloor>) \<le> of_nat k * (elapsed * of_nat rate)"
    by (rule mult_left_mono) simp
  also have "\<dots> = elapsed * of_nat (k * rate)" by simp
  also have "\<dots> \<le> elapsed * of_nat r" using assms(1,3) by (intro mult_left_mono) (simp_all only: of_nat_le_iff)
  finally have "of_nat k * of_nat (nat \<lfloor>elapsed * of_nat rate\<rfloor>) \<le> elapsed * of_nat r" .
  moreover have "of_nat n \<le> (of_nat (k * allowance rate batch elapsed) :: rat)" using assms(2) by (simp only: of_nat_le_iff)
  ultimately show ?thesis by (simp add: allowance_def algebra_simps)
qed

text \<open>
  C33. A planned run at a limited rate carries through whatever fails on the way, as long as its vectors can have the
  capacity asked for (the handles of the workers, and over TCP the buffer of a batch): no worker panics, and the counter of
  the packets of all of them is at most the rate asked for times the elapsed time any of them has read (one event a second
  for each worker if there are more workers than that), and two batches for each worker.
\<close>
theorem run_respects_rate:
  assumes "plan_run E fs args = Some (Ok plan)" "ga_rate args \<noteq> 0"
    and "gp_workers plan * 8 < 2 ^ 63" "gp_proto plan = Tcp \<Longrightarrow> unat (gp_batch_size plan) * 256 < 2 ^ 63"
    and "0 \<le> elapsed" "\<forall>i. \<forall>ev \<in> set (ww_udp (W i)). fst ev \<le> elapsed" "\<forall>i. \<forall>ev \<in> set (ww_tcp (W i)). fst ev \<le> elapsed"
  shows "\<exists>st. run_all_workers plan W = Some ([], st) \<and>
    of_nat (unat (gs_packets_sent st)) \<le>
      elapsed * of_nat (max (unat (ga_rate args)) (gp_workers plan)) + of_nat (2 * gp_workers plan * unat (gp_batch_size plan))"
proof -
  obtain logs where p: "logs \<noteq> []" "gp_logs plan = map (encode_line (gp_proto plan)) logs"
    "worker_rate (unat (ga_rate args)) (gp_workers plan) = Some (gp_rate plan)"
    using plan_run_okD [OF assms(1)] by blast
  have rate: "0 < gp_rate plan" "gp_workers plan * gp_rate plan \<le> max (unat (ga_rate args)) (gp_workers plan)"
    using worker_rate_total [OF p(3)] assms(2) by (metis neq0_conv unat_eq_0)+
  have logs: "gp_logs plan \<noteq> []" using p by simp
  obtain st n where st: "run_workers plan W [0..<gp_workers plan]
      ([], \<lparr>gs_packets_sent = 0, gs_bytes_sent = 0, gs_errors = 0\<rparr>) = ([], st)" "gs_packets_sent st = of_nat n"
    "n \<le> gp_workers plan * allowance (gp_rate plan) (gp_batch_size plan) elapsed"
    using run_workers_adds [OF logs rate(1) assms(4,6,7), of "[0..<gp_workers plan]"
        "\<lparr>gs_packets_sent = 0, gs_bytes_sent = 0, gs_errors = 0\<rparr>"] by auto
  have "with_capacity 8 (of_nat (gp_workers plan)) = Some ()"
    using assms(3) by (simp add: with_capacity_def unat_of_nat take_bit_nat_eq_self)
  moreover have "unat (gs_packets_sent st) \<le> n" using st(2) by (simp add: unat_of_nat take_bit_nat_less_eq_self)
  then have "of_nat (unat (gs_packets_sent st)) \<le> (of_nat n :: rat)" by (simp only: of_nat_le_iff)
  ultimately show ?thesis using st(1) order_trans [OF _ allowances_sum [OF assms(5) st(3) rate(2)]]
    by (intro exI [of _ st]) (simp add: run_all_workers_def)
qed

text \<open>
  A batch over TCP that is too large for a vector ends every worker that connects, before it sends a line: the run then
  goes on to its summary, with nothing sent and no error counted.
\<close>

lemma huge_batch_ends_workers:
  assumes "gp_proto P = Tcp" "2 ^ 63 \<le> unat (gp_batch_size P * 256)" "\<forall>i. ww_connected (W i)"
  shows "run_workers P W is (panicked, st) = (panicked @ is, st)"
proof (induction "is" arbitrary: panicked)
  case (Cons i "is")
  have "run_tcp_worker (gp_logs P) (gp_rate P) (gp_batch_size P) (W i) i st = None"
    using assms(2,3) by (simp add: run_tcp_worker_def with_capacity_def)
  then show ?case using Cons.IH assms(1) by simp
qed simp

subsection \<open>The reporter\<close>

lemma run_reporter_stopped: "\<not> re_running r \<Longrightarrow> \<forall>x \<in> set readings. x \<noteq> None \<Longrightarrow> run_reporter d readings r = r"
  by (cases readings) auto

lemma reporter_counts:
  assumes "length readings + k = unat d" "re_second r = of_nat k" "re_running r" "length (re_shown r) = k" "readings \<noteq> []"
  shows "\<not> re_running (run_reporter d (map Some readings) r) \<and>
    length (re_shown (run_reporter d (map Some readings) r)) = unat d"
  using assms
proof (induction readings arbitrary: k r)
  case (Cons st readings)
  let ?r = "reporter_tick d st r"
  have lt: "k < unat d" "unat d < 2 ^ 64" using Cons.prems(1) unsigned_less [of d] by auto
  have s: "re_second ?r = of_nat (Suc k)" "length (re_shown ?r) = Suc k"
    using Cons.prems(2,4) by (simp_all add: reporter_tick_def Let_def)
  have "unat (of_nat (Suc k) :: u64) = Suc k" using lt by (simp only: unat_of_nat) simp
  then have run: "re_running ?r \<longleftrightarrow> Suc k < unat d"
    using lt Cons.prems(2) by (simp add: reporter_tick_def Let_def word_le_nat_alt word_gt_0_no word_less_nat_alt add.commute not_le)
  show ?case
  proof (cases "readings = []")
    case True
    then show ?thesis using Cons.prems(1,3) s(2) run by simp
  next
    case False
    then have "Suc k < unat d" using Cons.prems(1) by (cases readings) auto
    then show ?thesis using Cons.IH [of "Suc k" ?r] Cons.prems(1,3) s run False by simp
  qed
qed simp

lemma reporter_delta_sum:
  assumes "\<forall>i < length sts. \<forall>j < i. gs_packets_sent (sts ! j) \<le> gs_packets_sent (sts ! i)"
  shows "re_prev_pkts r \<le> gs_packets_sent (hd sts) \<or> sts = [] \<Longrightarrow>
    sum_list (map rl_delta_pkts (re_shown (run_reporter d (map Some sts) r))) =
      sum_list (map rl_delta_pkts (re_shown r)) + (re_prev_pkts (run_reporter d (map Some sts) r) - re_prev_pkts r)"
  using assms
proof (induction sts arbitrary: r)
  case (Cons st sts)
  show ?case
  proof (cases "re_running r")
    case True
    let ?r = "reporter_tick d st r"
    have tick: "re_prev_pkts ?r = gs_packets_sent st"
      "sum_list (map rl_delta_pkts (re_shown ?r)) =
         sum_list (map rl_delta_pkts (re_shown r)) + (gs_packets_sent st - re_prev_pkts r)"
      using Cons.prems(1) by (simp_all add: reporter_tick_def Let_def saturating_sub_def)
    have "\<forall>i < length sts. \<forall>j < i. gs_packets_sent (sts ! j) \<le> gs_packets_sent (sts ! i)"
      using Cons.prems(2) by (metis Suc_less_eq length_Cons nth_Cons_Suc)
    moreover have "re_prev_pkts ?r \<le> gs_packets_sent (hd sts) \<or> sts = []"
      using Cons.prems(2) tick(1) by (cases sts) force+
    ultimately show ?thesis using Cons.IH [of ?r] True tick by simp
  qed simp
qed simp

text \<open>
  C39. A run of limited duration ends on time: without an interrupt the reporter clears the running flag after exactly the
  configured number of seconds, having shown one line for each; and as long as the counters do not wrap, the packets of
  its lines add up to the last counter it has read.
\<close>
theorem reporter_ends_run:
  assumes "0 < d" "length sts = unat d"
    and "\<forall>i < length sts. \<forall>j < i. gs_packets_sent (sts ! j) \<le> gs_packets_sent (sts ! i)"
  shows "\<not> re_running (run_reporter d (map Some sts) reporter_start) \<and>
    length (re_shown (run_reporter d (map Some sts) reporter_start)) = unat d \<and>
    sum_list (map rl_delta_pkts (re_shown (run_reporter d (map Some sts) reporter_start))) =
      re_prev_pkts (run_reporter d (map Some sts) reporter_start)"
proof -
  have "sts \<noteq> []" using assms(1,2) by (auto simp: word_less_nat_alt)
  then show ?thesis
    using reporter_counts [of sts 0 d reporter_start] reporter_delta_sum [OF assms(3), of reporter_start d] assms(2)
    by (simp add: reporter_start_def)
qed

theorem reporter_ends_run_witness:
  "\<not> re_running (run_reporter 2 (map Some [\<lparr>gs_packets_sent = 5, gs_bytes_sent = 50, gs_errors = 0\<rparr>,
      \<lparr>gs_packets_sent = 9, gs_bytes_sent = 90, gs_errors = 1\<rparr>]) reporter_start)"
proof -
  have "\<forall>i < length [\<lparr>gs_packets_sent = 5, gs_bytes_sent = 50, gs_errors = 0\<rparr>,
      \<lparr>gs_packets_sent = 9, gs_bytes_sent = 90, gs_errors = 1\<rparr> :: send_stats]. \<forall>j < i.
    gs_packets_sent ([\<lparr>gs_packets_sent = 5, gs_bytes_sent = 50, gs_errors = 0\<rparr>,
      \<lparr>gs_packets_sent = 9, gs_bytes_sent = 90, gs_errors = 1\<rparr>] ! j) \<le>
    gs_packets_sent ([\<lparr>gs_packets_sent = 5, gs_bytes_sent = 50, gs_errors = 0\<rparr>,
      \<lparr>gs_packets_sent = 9, gs_bytes_sent = 90, gs_errors = 1\<rparr>] ! i)"
    by (auto simp: less_Suc_eq)
  from reporter_ends_run [OF _ _ this, of 2] show ?thesis by simp
qed

lemma trial_plan:
  "\<exists>plan. plan_run (\<lparr>gv_lower = id, gv_parse_addr = Some, gv_cpus = Some 1, gv_exists = (\<lambda>p. True), gv_is_dir = (\<lambda>p. True),
      gv_now = (\<lambda>i. [])\<rparr> :: string gen_env) [''data/raw/cisco_asa.log'' \<mapsto> ''link up'']
      (default_gen_args\<lparr>ga_proto := ''tcp'', ga_dataset := ''cisco'', ga_rate := 9\<rparr>) = Some (Ok plan) \<and>
    gp_workers plan = 2 \<and> gp_batch_size plan = 64"
proof -
  have "case plan_run (\<lparr>gv_lower = id, gv_parse_addr = Some, gv_cpus = Some 1, gv_exists = (\<lambda>p. True), gv_is_dir = (\<lambda>p. True),
      gv_now = (\<lambda>i. [])\<rparr> :: string gen_env) [''data/raw/cisco_asa.log'' \<mapsto> ''link up'']
      (default_gen_args\<lparr>ga_proto := ''tcp'', ga_dataset := ''cisco'', ga_rate := 9\<rparr>) of
      Some (Inr plan) \<Rightarrow> gp_workers plan = 2 \<and> gp_batch_size plan = 64 | _ \<Rightarrow> False"
    by code_simp
  then show ?thesis by (auto split: option.splits sum.splits)
qed

theorem planned_run_ready_witness:
  "\<exists>plan. plan_run \<lparr>gv_lower = id, gv_parse_addr = Some, gv_cpus = Some 1, gv_exists = (\<lambda>p. True), gv_is_dir = (\<lambda>p. True),
      gv_now = (\<lambda>i. [])\<rparr> [''data/raw/cisco_asa.log'' \<mapsto> ''link up'']
      (default_gen_args\<lparr>ga_proto := ''tcp'', ga_dataset := ''cisco'', ga_rate := 9\<rparr>) = Some (Ok plan) \<and>
    gp_workers plan * gp_rate plan \<le> max 9 (gp_workers plan)"
proof -
  let ?E = "\<lparr>gv_lower = id, gv_parse_addr = Some, gv_cpus = Some 1, gv_exists = (\<lambda>p. True), gv_is_dir = (\<lambda>p. True),
      gv_now = (\<lambda>i. [])\<rparr> :: string gen_env"
    and ?fs = "[''data/raw/cisco_asa.log'' \<mapsto> ''link up'']"
    and ?args = "default_gen_args\<lparr>ga_proto := ''tcp'', ga_dataset := ''cisco'', ga_rate := 9\<rparr>"
  obtain plan where p: "plan_run ?E ?fs ?args = Some (Ok plan)" using trial_plan by blast
  have "unat (ga_rate ?args) = 9" by (simp add: default_gen_args_def)
  then show ?thesis using planned_run_ready [OF p] p by auto
qed

theorem run_respects_rate_witness:
  "\<exists>plan st. plan_run (\<lparr>gv_lower = id, gv_parse_addr = Some, gv_cpus = Some 1, gv_exists = (\<lambda>p. True), gv_is_dir = (\<lambda>p. True),
      gv_now = (\<lambda>i. [])\<rparr> :: string gen_env) [''data/raw/cisco_asa.log'' \<mapsto> ''link up'']
      (default_gen_args\<lparr>ga_proto := ''tcp'', ga_dataset := ''cisco'', ga_rate := 9\<rparr>) = Some (Ok plan) \<and>
    run_all_workers plan (\<lambda>i. \<lparr>ww_bound = True, ww_connected = True, ww_udp = [], ww_tcp = [(0, True), (3, False)]\<rparr>) =
      Some ([], st) \<and> (of_nat (unat (gs_packets_sent st)) :: rat) \<le> 3 * 9 + 2 * 2 * 64"
proof -
  let ?W = "\<lambda>i :: nat. \<lparr>ww_bound = True, ww_connected = True, ww_udp = [], ww_tcp = [(0, True), (3, False)]\<rparr>"
  obtain plan where p: "plan_run (\<lparr>gv_lower = id, gv_parse_addr = Some, gv_cpus = Some 1, gv_exists = (\<lambda>p. True), gv_is_dir = (\<lambda>p. True),
      gv_now = (\<lambda>i. [])\<rparr> :: string gen_env) [''data/raw/cisco_asa.log'' \<mapsto> ''link up'']
      (default_gen_args\<lparr>ga_proto := ''tcp'', ga_dataset := ''cisco'', ga_rate := 9\<rparr>) = Some (Ok plan)"
    "gp_workers plan = 2" "gp_batch_size plan = 64"
    using trial_plan by blast
  have "ga_rate (default_gen_args\<lparr>ga_proto := ''tcp'', ga_dataset := ''cisco'', ga_rate := 9\<rparr>) = 9" by simp
  then obtain st where "run_all_workers plan ?W = Some ([], st)"
    "(of_nat (unat (gs_packets_sent st)) :: rat) \<le> 3 * of_nat (max (unat (9 :: u64)) 2) + of_nat (2 * 2 * unat (64 :: u64))"
    using run_respects_rate [OF p(1), of 3 ?W] p(2,3) by auto
  then show ?thesis using p(1) by (intro exI [of _ plan] exI [of _ st]) simp
qed

end
