(* ===== verification/Spec2Isabelle.thy ===== *)
theory Spec2Isabelle
  imports Integrity_Properties Drain_Properties Laya_Properties Yaml_Properties Pipeline_Threads_Properties Cli_Properties
    Ingest_Setup_Properties Comparison_Properties Report_Properties Generator_Main_Properties
begin

text \<open>
  A verification development for ULPF, the log pre-processing and integrity framework in \<open>src/crates\<close>. Lines of five
  firewall families come in over syslog; each is classified, parsed into an OCSF event that keeps the raw line, mined for
  its template, and stored in Parquet blocks whose Merkle roots are anchored in a ledger. The theories follow the crates.

  \<^bold>\<open>Integrity\<close> (\<open>ulpf-integrity\<close>). \<open>Merkle\<close> translates \<open>merkle.rs\<close>: tree building, inclusion
  and consistency proofs and their stack-driven verifiers. \<open>Merkle_Spec\<close> is the abstract side, the recursive tree hash
  and audit paths of RFC 6962; \<open>Merkle_Consistency\<close> and \<open>Merkle_Security\<close> prove completeness and soundness of the
  proofs against it, soundness relative to a digest that does not collide on the inputs hashed. \<open>Storage\<close>,
  \<open>Batcher\<close> and \<open>Tamper\<close> translate \<open>storage.rs\<close>, \<open>batcher.rs\<close> and \<open>tamper.rs\<close> over a file system
  that is a map from paths to bytes; every write has an outcome (not opened, partial, complete) that the environment chooses.
  \<open>Batcher_Correct\<close> has the batcher's invariant, \<open>Integrity_Properties\<close> what the three give together.

  \<^bold>\<open>Parsing\<close> (\<open>ulpf-core\<close>). \<open>Ocsf\<close> is \<open>schema/ocsf.rs\<close>; \<open>Classifier\<close> and \<open>Lru_Cache\<close> are
  \<open>classifier.rs\<close> and \<open>lru_cache.rs\<close>; \<open>Extractor_Common\<close>, \<open>Fortigate\<close>, \<open>Cisco_Asa\<close>, \<open>Kaggle\<close>,
  \<open>Palo_Alto\<close>, \<open>Pf_Sense\<close> and \<open>Suricata\<close> are the extractors; \<open>Universal_Parser\<close> is \<open>parser/mod.rs\<close>
  with the lossless and the cached variants; \<open>Socket\<close> has the receive loops of \<open>ingest/socket.rs\<close> and
  \<open>Socket_Setup\<close> the opening of sockets, the accept loop and the pool of workers. \<open>Parser_Properties\<close>,
  \<open>Lru_Properties\<close>, \<open>Socket_Properties\<close> and \<open>Socket_Setup_Properties\<close> hold their theorems.

  \<^bold>\<open>Learning\<close> (\<open>ulpf-ai\<close>). \<open>Drain_Masker\<close> and \<open>Drain\<close> are \<open>drain.rs\<close>, with the miner's invariant
  in \<open>Drain_Correct\<close>; \<open>Laya\<close> is \<open>laya.rs\<close>; \<open>Parser_Definition\<close> and \<open>Onboarder\<close> are
  \<open>onboarder.rs\<close>; \<open>Pipeline\<close> is \<open>pipeline.rs\<close>, the cache in front of the miner in front of a channel to a
  worker, with a call of \<open>process\<close> as a function, and \<open>Pipeline_Threads\<close> splits the call into its accesses to what
  the threads share; \<open>Evaluator\<close> and, for its renderers, \<open>Report\<close> are \<open>evaluator.rs\<close>. Their theorems are in
  \<open>Drain_Properties\<close>, \<open>Laya_Properties\<close>, \<open>Onboarder_Properties\<close>, \<open>Yaml_Properties\<close>, \<open>Pipeline_Properties\<close>,
  \<open>Pipeline_Threads_Properties\<close>, \<open>Evaluator_Properties\<close>, \<open>Audit_Properties\<close> and \<open>Comparison_Properties\<close>.

  \<^bold>\<open>Programs\<close>. \<open>Generator\<close> and \<open>Generator_Main\<close> are \<open>ulpf-generator\<close>, \<open>Ingest\<close> the engine of
  \<open>ulpf ingest\<close>, \<open>Ingest_Setup\<close> its start and its live report, \<open>Cli\<close> and \<open>Benchmark\<close> the other commands of \<open>ulpf-cli/src/main.rs\<close>; their theorems are in
  \<open>Generator_Properties\<close>, \<open>Generator_Main_Properties\<close>, \<open>Ingest_Properties\<close>,
  \<open>Ingest_Setup_Properties\<close>, \<open>Cli_Properties\<close>, \<open>Evaluator_Properties\<close> and \<open>Report_Properties\<close>. The engine calls the lossless parser, the miner and the batcher for
  every line, and what is proved of these three carries its invariants; the tamper command runs against the verifier, the
  audits run the parser and the pipeline.

  \<^bold>\<open>Ground\<close>. \<open>Prelude\<close> (words, results, panics, hash maps as association lists), \<open>Rust_Str\<close> (strings as
  lists of bytes with the character boundaries of UTF-8, numbers, lines, paths) and \<open>Rust_Float\<close> are shared by all.
  \<open>Step_System\<close> defines the reachable states of a labelled step relation.

  \<^bold>\<open>Interfaces\<close> are locales, each interpreted on the model. \<open>log_commitment\<close> is what a Merkle tree owes to the
  layer above, \<open>block_store\<close> what a file of records owes to its reader, \<open>log_sink\<close> the conservation of lines by the
  batcher and by both receivers, \<open>route_cache\<close> a cache that answers with what was inserted (a shard, the sharded cache),
  \<open>log_parser\<close> the contract of the six extractors, \<open>template_contract\<close> what a template owes to the lines of its
  cluster (generalisation, and protection of anchors), \<open>invariant_of\<close> an invariant of histories and states (pipeline,
  engine), \<open>paced_worker\<close> a throttled sender (UDP, TCP), \<open>lossless_audit\<close> an engine the evaluator can audit (the
  plain parser, the pipeline).

  \<^bold>\<open>Conventions\<close>. A panic is \<open>None\<close>, an error the left injection, so each branch of the code is a branch of the
  model. Machine integers are words of their width and wrap, as in a release build, those of the generator's rate control
  included; \<open>usize\<close> is \<open>nat\<close> where it cannot overflow. Memory is taken to suffice: only where the generator
  multiplies an argument of its command line into the capacity of a vector can an allocation panic (\<open>with_capacity\<close>).
  Concurrency is a step relation. In the engine a step counts, sends or ingests a line. In the pipeline it is one access of a call to
  a counter, the cache, the miner or the channel, or a receive or a completion of the worker; a call taken as one step, as
  in \<open>Pipeline\<close>, is the run of these steps with nothing between them (\<open>process_is_its_steps\<close>), and the properties of
  concurrent calls are those of \<open>Pipeline_Threads_Properties\<close>. Floating-point numbers are exact rationals beside the infinities and NaN, and reals where \<open>exp\<close> or a square root occurs: rounding is left out. Time, identifiers
  and the outcomes of writes are arguments. Loops are structural recursions or have a termination proof, so no definition
  needs fuel; a loop that runs for as long as the program does is a step relation, or a run over the list of its inputs.

  \<^bold>\<open>Third-party code\<close> is a parameter: SHA-256, hex, serde_json, Arrow and Parquet, the Aho-Corasick automaton, regular
  expressions, chrono, the tables of Unicode. What the theorems need of it is a named hypothesis
  (\<open>integrity_libs_ok\<close>, \<open>store_libs_ok\<close>, \<open>leftmost_first_ok\<close>, \<open>collision_free\<close> sets of inputs), with an
  instance in the witnesses. The timed phase of the tiered benchmark is a parameter as well, which \<open>timed_phase_ok\<close> ties to
  the steps of \<open>Pipeline_Threads\<close>.

  \<^bold>\<open>What the theorems show\<close>. The tree, its proofs and its verifiers meet RFC 6962 in both directions. Lines are
  conserved from the socket to the block on disk under every interleaving, and what is on disk verifies; a change to a block
  raises the alarm. Every ASCII line becomes a traceable event, the tiers change nothing about it while no signature is
  shared between formats, and their counters add up, however many calls run at
  once; each call is over after six of its steps and the worker gets to the end of its queue. Templates generalise their lines and anchors keep clusters apart. An
  onboarded parser accepts its samples and survives its export. The evaluator's measurements are what they say, or not:
  several theorems pin down behaviour that differs from the intention, and the manifest lists these as findings.

  \<^bold>\<open>Not modelled\<close>. What clap makes of a command line, and the defaults it fills in beyond the argument records; the
  inside of the operating system, of tokio and of crossbeam, whose calls have the outcomes and the order the environment
  gives; text and colours that are only printed, the dashboard and the Markdown report apart; sleeping and joining of
  threads. Tests, examples, scripts and data sets are not part of the development.
\<close>

end
